(* ===== verification/Prelude.thy ===== *)
theory Prelude
  imports Complex_Main
    "HOL-Library.List_Lexorder"
    "HOL-Library.Product_Lexorder"
    "HOL-Library.Char_ord"
    "HOL-Library.Sublist"
    "HOL-Library.Multiset"
begin

text \<open>
  Shared vocabulary of the development: the names of the model's basic types, the collections of
  rewrite rules the component theories fill, Python's error values and list indexing, and the
  generic lemmas on lists, filters and sorted inserts that several components use.
\<close>

section \<open>Names and collections\<close>

text \<open>
  A calendar date is its proleptic ordinal (\<open>date.toordinal()\<close>), an instant the number of
  microseconds since the epoch.  Both orders are the ones Python's \<open>date\<close> and \<open>datetime\<close> have, and
  the ones the ISO-formatted TEXT columns of the ledger have.
\<close>

type_synonym date = int
type_synonym stamp = int
type_synonym symbol = string
type_synonym money = rat

named_theorems py_eval "equations that evaluate the Python primitives on concrete input"
named_theorems store_simps "what each ledger operation leaves in each table"
named_theorems store_inv "every ledger operation keeps the ledger invariant"

datatype py_error =
    ValueError | KeyError | IndexError | TypeError | IntegrityError | ZeroDivisionError
  | AssertionError | RuntimeError

type_synonym 'a result = "py_error + 'a"

definition bindR :: "'a result \<Rightarrow> ('a \<Rightarrow> 'b result) \<Rightarrow> 'b result" where
  "bindR r f = (case r of Inl e \<Rightarrow> Inl e | Inr x \<Rightarrow> f x)"

lemma bindR_simps [simp]:
  "bindR (Inl e) f = Inl e"
  "bindR (Inr x) f = f x"
  by (simp_all add: bindR_def)

lemma bindR_Inr_iff: "bindR r f = Inr y \<longleftrightarrow> (\<exists>x. r = Inr x \<and> f x = Inr y)"
  by (cases r) simp_all

lemma bindR_InrE:
  assumes "bindR r f = Inr y"
  obtains x where "r = Inr x" "f x = Inr y"
  using assms by (auto simp: bindR_Inr_iff)

text \<open>A Python \<open>for\<close> loop whose body may raise: the state so far is carried, an error stops it.\<close>

fun foldR :: "('a \<Rightarrow> 's \<Rightarrow> 's result) \<Rightarrow> 'a list \<Rightarrow> 's \<Rightarrow> 's result" where
  "foldR f [] s = Inr s"
| "foldR f (x # xs) s = bindR (f x s) (foldR f xs)"

lemma foldR_append: "foldR f (xs @ ys) s = bindR (foldR f xs s) (foldR f ys)"
  by (induction xs arbitrary: s) (auto simp: bindR_def split: sum.splits)

text \<open>An invariant of the body is an invariant of the loop.\<close>

lemma foldR_invariant:
  assumes "foldR f xs s = Inr t" "P s"
    and "\<And>x s t. x \<in> set xs \<Longrightarrow> P s \<Longrightarrow> f x s = Inr t \<Longrightarrow> P t"
  shows "P t"
  using assms
proof (induction xs arbitrary: s)
  case Nil
  then show ?case by simp
next
  case (Cons x xs)
  from Cons.prems(1) obtain s' where s': "f x s = Inr s'" "foldR f xs s' = Inr t"
    by (auto elim: bindR_InrE)
  have "P s'" using Cons.prems(2,3) s'(1) by auto
  with Cons.IH s'(2) Cons.prems(3) show ?case by (metis list.set_intros(2))
qed

text \<open>A list comprehension whose element expression may raise.\<close>

fun mapR :: "('a \<Rightarrow> 'b result) \<Rightarrow> 'a list \<Rightarrow> 'b list result" where
  "mapR f [] = Inr []"
| "mapR f (x # xs) = bindR (f x) (\<lambda>y. bindR (mapR f xs) (\<lambda>ys. Inr (y # ys)))"

lemma mapR_Inr_iff: "mapR f xs = Inr ys \<longleftrightarrow> list_all2 (\<lambda>x y. f x = Inr y) xs ys"
  by (induction xs arbitrary: ys) (auto simp: bindR_Inr_iff list_all2_Cons1)

lemma mapR_Inr_length: "mapR f xs = Inr ys \<Longrightarrow> length ys = length xs"
  by (auto simp: mapR_Inr_iff dest: list_all2_lengthD)

lemma mapR_Inr_mem: "mapR f xs = Inr ys \<Longrightarrow> y \<in> set ys \<Longrightarrow> \<exists>x \<in> set xs. f x = Inr y"
  by (auto simp: mapR_Inr_iff list_all2_conv_all_nth in_set_conv_nth) (metis nth_mem)

section \<open>Python list indexing\<close>

text \<open>\<open>xs[j]\<close>: a negative index counts from the end, anything else out of range raises.\<close>

definition py_index :: "'a list \<Rightarrow> int \<Rightarrow> 'a result" where
  "py_index xs j =
     (let n = int (length xs); i = (if j < 0 then n + j else j)
      in if 0 \<le> i \<and> i < n then Inr (xs ! nat i) else Inl IndexError)"

lemma py_index_nonneg [simp]:
  "0 \<le> j \<Longrightarrow> j < int (length xs) \<Longrightarrow> py_index xs j = Inr (xs ! nat j)"
  by (simp add: py_index_def)

lemma py_index_InrD: "py_index xs j = Inr x \<Longrightarrow> x \<in> set xs"
  by (auto simp: py_index_def Let_def split: if_splits)

text \<open>\<open>xs[-n:]\<close> for a positive \<open>n\<close>: the last \<open>n\<close> elements, all of them when there are fewer.\<close>

definition py_last :: "nat \<Rightarrow> 'a list \<Rightarrow> 'a list" where
  "py_last n xs = drop (length xs - n) xs"

lemma length_py_last [simp]: "length (py_last n xs) = min n (length xs)"
  by (simp add: py_last_def)

lemma set_py_last: "set (py_last n xs) \<subseteq> set xs"
  by (simp add: py_last_def set_drop_subset)

lemma sorted_py_last: "sorted xs \<Longrightarrow> sorted (py_last n xs)"
  by (simp add: py_last_def)

section \<open>Strings and dates\<close>

text \<open>\<open>s.upper()\<close> on the ASCII letters, the alphabet of ticker symbols and SEC codes.\<close>

definition upper_char :: "char \<Rightarrow> char" where
  "upper_char c = (let n = of_char c :: nat in if 97 \<le> n \<and> n \<le> 122 then char_of (n - 32) else c)"

definition upper :: "string \<Rightarrow> string" where
  "upper s = map upper_char s"

lemma upper_char_code [code]:
  "upper_char (Char b0 b1 b2 b3 b4 b5 b6 b7) =
     (if \<not> b7 \<and> b6 \<and> b5 \<and> (b0 \<or> b1 \<or> b2 \<or> b3 \<or> b4) \<and> \<not> (b4 \<and> b3 \<and> (b2 \<or> b1 \<and> b0))
      then Char b0 b1 b2 b3 b4 False b6 b7 else Char b0 b1 b2 b3 b4 b5 b6 b7)"
  by (cases b0; cases b1; cases b2; cases b3; cases b4; cases b5; cases b6; cases b7) (simp_all add: upper_char_def char_of_def bit_0)

lemma upper_char_idem [simp]: "upper_char (upper_char c) = upper_char c"
proof -
  have "of_char c < (256 :: nat)" by simp
  then show ?thesis by (auto simp: upper_char_def Let_def)
qed

lemma upper_upper [simp]: "upper (upper s) = upper s"
  by (simp add: upper_def)

text \<open>\<open>s.strip()\<close> on ASCII white space.\<close>

definition is_space :: "char \<Rightarrow> bool" where
  "is_space ch \<longleftrightarrow> of_char ch \<in> ({9, 10, 11, 12, 13, 28, 29, 30, 31, 32} :: nat set)"

definition strip :: "string \<Rightarrow> string" where
  "strip s = rev (dropWhile is_space (rev (dropWhile is_space s)))"

lemma is_space_upper [simp]: "is_space (upper_char c) = is_space c"
proof -
  have "of_char c < (256 :: nat)" by simp
  then show ?thesis by (auto simp: is_space_def upper_char_def Let_def)
qed

lemma strip_upper: "strip (upper s) = upper (strip s)"
  by (simp add: strip_def upper_def dropWhile_map comp_def rev_map)

lemma strip_strip [simp]: "strip (strip s) = strip s"
proof -
  let ?t = "dropWhile is_space s"
  have "dropWhile is_space (rev (dropWhile is_space (rev ?t))) = rev (dropWhile is_space (rev ?t))"
  proof (cases "dropWhile is_space (rev ?t)")
    case (Cons x xs)
    let ?k = "takeWhile is_space (rev ?t)"
    have "rev ?t = ?k @ x # xs" using Cons takeWhile_dropWhile_id [of is_space "rev ?t"] by simp
    then have t: "?t = rev (x # xs) @ rev ?k" by (metis rev_append rev_rev_ident)
    then have "?t \<noteq> []" by (metis append_is_Nil_conv list.distinct(1) rev_is_Nil_conv)
    then have "\<not> is_space (hd ?t)" by (rule hd_dropWhile)
    moreover have "hd ?t = hd (rev (x # xs))" by (subst t) (simp add: hd_append)
    ultimately have "\<not> is_space (hd (rev (x # xs)))" by simp
    with Cons show ?thesis by (metis dropWhile_eq_self_iff)
  next
    case Nil
    then show ?thesis by (simp only: rev.simps dropWhile.simps)
  qed
  then show ?thesis by (simp add: strip_def)
qed

lemma strip_upper_idem [simp]: "upper (strip (upper (strip s))) = upper (strip s)"
  by (simp add: strip_upper)

text \<open>\<open>sep.join(xs)\<close>\<close>

definition join_with :: "string \<Rightarrow> string list \<Rightarrow> string" where
  "join_with sep xs = (case xs of [] \<Rightarrow> [] | x # ys \<Rightarrow> x @ concat (map (\<lambda>y. sep @ y) ys))"

text \<open>Decimal digits of a non-negative number, \<open>str(n)\<close>, and zero-padded to a width.\<close>

definition digit_char :: "int \<Rightarrow> char" where
  "digit_char d = ''0123456789'' ! nat d"

fun str_nat :: "nat \<Rightarrow> int \<Rightarrow> string" where
  "str_nat 0 n = []"
| "str_nat (Suc k) n =
     (if n < 10 then [digit_char n] else str_nat k (n div 10) @ [digit_char (n mod 10)])"

definition str_int :: "int \<Rightarrow> string" where
  "str_int n = (if n < 0 then CHR ''-'' # str_nat 40 (- n) else str_nat 40 n)"

fun zero_pad :: "nat \<Rightarrow> int \<Rightarrow> string" where
  "zero_pad 0 n = []"
| "zero_pad (Suc k) n = zero_pad k (n div 10) @ [digit_char (n mod 10)]"

text \<open>Year, month and day of a proleptic ordinal, as \<open>datetime\<close> computes them, and \<open>isoformat\<close>.\<close>

definition days_before_month :: "int list" where
  "days_before_month = [0, 0, 31, 59, 90, 120, 151, 181, 212, 243, 273, 304, 334]"

definition ord2ymd :: "date \<Rightarrow> int \<times> int \<times> int" where
  "ord2ymd d =
     (let n = d - 1;
          n400 = n div 146097; a = n mod 146097;
          n100 = a div 36524; b = a mod 36524;
          n4 = b div 1461; c = b mod 1461;
          n1 = c div 365; r = c mod 365;
          y = n400 * 400 + 1 + n100 * 100 + n4 * 4 + n1
      in if n1 = 4 \<or> n100 = 4 then (y - 1, 12, 31)
         else let leap = (n1 = 3 \<and> (n4 \<noteq> 24 \<or> n100 = 3));
                  days_in = (\<lambda>m. days_before_month ! nat m + (if 2 < m \<and> leap then 1 else 0));
                  m0 = (r + 50) div 32;
                  m = (if r < days_in m0 then m0 - 1 else m0)
              in (y, m, r - days_in m + 1))"

definition isoformat :: "date \<Rightarrow> string" where
  "isoformat d = (case ord2ymd d of (y, m, dd) \<Rightarrow>
     zero_pad 4 y @ ''-'' @ zero_pad 2 m @ ''-'' @ zero_pad 2 dd)"

text \<open>\<open>datetime.isoformat()\<close> of a UTC instant; the fraction is printed only when it is not zero.\<close>

definition iso_stamp :: "stamp \<Rightarrow> string" where
  "iso_stamp t =
     (let us = t mod 1000000; s = t div 1000000; d = s div 86400 + 719163; r = s mod 86400
      in isoformat d @ ''T'' @ zero_pad 2 (r div 3600) @ '':'' @ zero_pad 2 (r mod 3600 div 60) @ '':''
         @ zero_pad 2 (r mod 60) @ (if us = 0 then [] else ''.'' @ zero_pad 6 us) @ ''+00:00'')"

text \<open>\<open>datetime.combine(d, time(23, 59, 59), tzinfo=utc)\<close>; the epoch is ordinal 719163.\<close>

definition end_of_day_utc :: "date \<Rightarrow> stamp" where
  "end_of_day_utc d = ((d - 719163) * 86400 + 86399) * 1000000"

section \<open>Ordered de-duplication\<close>

text \<open>
  \<open>list(dict.fromkeys(xs))\<close> keeps the first occurrence of every element, in order;
  \<open>dedup_by key\<close> is the same loop over a set of seen keys.
\<close>

fun dedup_by :: "('a \<Rightarrow> 'k) \<Rightarrow> 'k list \<Rightarrow> 'a list \<Rightarrow> 'a list" where
  "dedup_by key seen [] = []"
| "dedup_by key seen (x # xs) =
     (if key x \<in> set seen then dedup_by key seen xs
      else x # dedup_by key (key x # seen) xs)"

lemma dedup_by_set: "set (dedup_by key seen xs) \<subseteq> set xs"
  by (induction xs arbitrary: seen) auto

lemma dedup_by_keys:
  "key ` set (dedup_by key seen xs) = key ` set xs - set seen"
  by (induction xs arbitrary: seen) auto

lemma dedup_by_distinct: "distinct (map key (dedup_by key seen xs))"
proof (induction xs arbitrary: seen)
  case Nil
  then show ?case by simp
next
  case (Cons x xs)
  have "key x \<notin> key ` set (dedup_by key (key x # seen) xs)"
    by (simp add: dedup_by_keys)
  with Cons.IH show ?case by simp
qed

lemma dedup_by_subseq: "subseq (dedup_by key seen xs) xs"
  by (induction xs arbitrary: seen) auto

lemma dedup_by_id: "distinct (map key xs) \<Longrightarrow> key ` set xs \<inter> set seen = {} \<Longrightarrow>
    dedup_by key seen xs = xs"
  by (induction xs arbitrary: seen) auto

definition uniq :: "'a list \<Rightarrow> 'a list" where
  "uniq xs = dedup_by (\<lambda>x. x) [] xs"

lemma distinct_uniq [simp]: "distinct (uniq xs)"
  using dedup_by_distinct [of "\<lambda>x. x" "[]" xs] by (simp add: uniq_def)

lemma set_uniq [simp]: "set (uniq xs) = set xs"
  using dedup_by_keys [of "\<lambda>x. x" "[]" xs] by (simp add: uniq_def)

lemma length_uniq: "length (uniq xs) = card (set xs)"
  using distinct_card [of "uniq xs"] by simp

lemma sorted_subseq: "subseq xs ys \<Longrightarrow> sorted ys \<Longrightarrow> sorted xs"
  by (auto simp: subseq_conv_nths sorted_nths)

lemma sorted_map_subseq: "subseq xs ys \<Longrightarrow> sorted (map f ys) \<Longrightarrow> sorted (map f xs)"
  using sorted_subseq [of "map f xs" "map f ys"] subseq_map by blast

section \<open>Sorted lists\<close>

lemma takeWhile_sorted_filter:
  assumes "sorted (map f xs)" "\<And>x y. f x \<le> f y \<Longrightarrow> P y \<Longrightarrow> P x"
  shows "takeWhile P xs = filter P xs"
  using assms(1)
proof (induction xs)
  case (Cons x xs)
  show ?case
  proof (cases "P x")
    case False
    then have "filter P xs = []" using Cons.prems assms(2) by (fastforce simp: filter_empty_conv)
    with False show ?thesis by simp
  qed (use Cons in auto)
qed simp

lemma sorted_map_imp_le_last: "sorted (map f xs) \<Longrightarrow> x \<in> set xs \<Longrightarrow> f x \<le> f (last xs)"
proof (induction xs)
  case (Cons a xs)
  then show ?case by (cases "xs = []") auto
qed simp

lemma map_fst_zip_comp: "length xs = length ys \<Longrightarrow> map (\<lambda>p. f (fst p)) (zip xs ys) = map f xs"
proof -
  assume "length xs = length ys"
  then have "map f (map fst (zip xs ys)) = map f xs" by simp
  then show ?thesis by (simp add: comp_def del: map_fst_zip)
qed

lemma sorted_wrt_list_all2:
  assumes "list_all2 P xs ys" "sorted_wrt R xs"
    and "\<And>x y u v. P x u \<Longrightarrow> P y v \<Longrightarrow> R x y \<Longrightarrow> S u v"
  shows "sorted_wrt S ys"
  using assms(1,2)
proof (induction xs ys rule: list_all2_induct)
  case (Cons x xs y ys)
  have "S y v" if "v \<in> set ys" for v
  proof -
    from that Cons.hyps(2) obtain u where "u \<in> set xs" "P u v"
      by (metis in_set_conv_nth list_all2_conv_all_nth)
    with Cons.hyps(1) Cons.prems assms(3) show ?thesis by auto
  qed
  with Cons show ?case by simp
qed simp

lemma length_filter_all:
  assumes "x \<in> set xs" "length (filter P xs) = length xs"
  shows "P x"
  using assms by (metis length_filter_less less_irrefl)

end
