(* ===== verification/Py_Num.thy ===== *)
theory Py_Num
  imports Prelude
begin

text \<open>
  Python's \<open>float\<close> and \<open>decimal.Decimal\<close> as this program uses them.  A finite float is the rational
  it denotes; an operation on floats is the exact operation on rationals followed by \<open>fl\<close>, the
  rounding to the nearest binary64 value, ties to even; a \<open>Decimal\<close> operation is the exact
  operation followed by \<open>dec28\<close>, the rounding of the default context (28 digits, half even).
  Both are instances of one rounding function, and the locale \<open>rounding\<close> states the laws the
  components rely on.  \<open>repr_dec x\<close> is the decimal number \<open>Decimal(str(x))\<close>: the shortest decimal
  that rounds to the float \<open>x\<close>.  Overflow to infinity is not modelled: amounts stay far below
  \<open>2 ^ 1024\<close>; infinities and NaN appear as inputs, where the code tests for them.
\<close>

section \<open>Rounding to the nearest integer, ties to even\<close>

definition rhe :: "rat \<Rightarrow> int" where
  "rhe x = (let f = \<lfloor>x\<rfloor>; d = x - of_int f
            in if d < 1/2 then f else if d > 1/2 then f + 1 else if even f then f else f + 1)"

lemma rhe_of_int [simp]: "rhe (of_int n) = n"
  by (simp add: rhe_def)

lemma rhe_bounds: "of_int (rhe x) \<le> x + 1/2" "x - 1/2 \<le> of_int (rhe x)"
proof -
  have f: "of_int \<lfloor>x\<rfloor> \<le> x" "x < of_int \<lfloor>x\<rfloor> + 1" by linarith+
  have "rhe x = \<lfloor>x\<rfloor> \<and> x - of_int \<lfloor>x\<rfloor> \<le> 1/2 \<or>
      rhe x = \<lfloor>x\<rfloor> + 1 \<and> 1/2 \<le> x - of_int \<lfloor>x\<rfloor>"
    by (auto simp: rhe_def Let_def)
  then consider "of_int (rhe x) = (of_int \<lfloor>x\<rfloor> :: rat)" "x - of_int \<lfloor>x\<rfloor> \<le> 1/2"
    | "of_int (rhe x) = (of_int \<lfloor>x\<rfloor> + 1 :: rat)" "1/2 \<le> x - of_int \<lfloor>x\<rfloor>"
    by auto
  then show "of_int (rhe x) \<le> x + 1/2" "x - 1/2 \<le> of_int (rhe x)"
    using f by (cases; linarith)+
qed

lemma rhe_cases: "rhe x = \<lfloor>x\<rfloor> \<or> rhe x = \<lfloor>x\<rfloor> + 1"
  by (auto simp: rhe_def Let_def)

lemma rhe_mono:
  assumes "x \<le> y"
  shows "rhe x \<le> rhe y"
proof (cases "\<lfloor>x\<rfloor> = \<lfloor>y\<rfloor>")
  case True
  with assms show ?thesis by (auto simp: rhe_def Let_def)
next
  case False
  with assms have "\<lfloor>x\<rfloor> + 1 \<le> \<lfloor>y\<rfloor>" using floor_mono [OF assms] by linarith
  then show ?thesis using rhe_cases [of x] rhe_cases [of y] by linarith
qed

lemma rhe_le_int: "x \<le> of_int n \<Longrightarrow> rhe x \<le> n"
  using rhe_mono [of x "of_int n"] by simp

lemma rhe_ge_int: "of_int n \<le> x \<Longrightarrow> n \<le> rhe x"
  using rhe_mono [of "of_int n" x] by simp

section \<open>The exponent of a positive rational\<close>

text \<open>The number of base-\<open>b\<close> digits of a positive integer.\<close>

function ndigits :: "nat \<Rightarrow> int \<Rightarrow> int" where
  "ndigits b n = (if n \<le> 0 \<or> b < 2 then 0 else 1 + ndigits b (n div int b))"
  by pat_completeness auto
termination
proof (relation "measure (\<lambda>(b, n). nat n)")
  fix b :: nat and n :: int
  assume a: "\<not> (n \<le> 0 \<or> b < 2)"
  then have "n div int b < n" by (intro int_div_less_self) simp_all
  with a show "((b, n div int b), (b, n)) \<in> measure (\<lambda>(b, n). nat n)" by simp
qed simp

declare ndigits.simps [simp del]

lemma ndigits_bounds:
  assumes "2 \<le> b" "0 < n"
  shows "0 < ndigits b n \<and> int b ^ nat (ndigits b n - 1) \<le> n \<and> n < int b ^ nat (ndigits b n)"
  using assms
proof (induction b n rule: ndigits.induct)
  case (1 b n)
  let ?m = "n div int b"
  show ?case
  proof (cases "?m = 0")
    case True
    then have "n < int b" using 1 by (simp add: zdiv_eq_0_iff)
    then show ?thesis
      using 1(2,3) True by (simp add: ndigits.simps [of b n] ndigits.simps [of b 0])
  next
    case False
    have "0 \<le> ?m" using 1(2,3) by (simp add: div_int_pos_iff)
    with False have m: "0 < ?m" by simp
    have IH: "0 < ndigits b ?m" "int b ^ nat (ndigits b ?m - 1) \<le> ?m"
      "?m < int b ^ nat (ndigits b ?m)"
      using 1 m by auto
    have d: "ndigits b n = 1 + ndigits b ?m" using 1 by (simp add: ndigits.simps [of b n])
    have "nat (ndigits b n - 1) = Suc (nat (ndigits b ?m - 1))" using IH(1) d by simp
    then have "int b ^ nat (ndigits b n - 1) = int b * int b ^ nat (ndigits b ?m - 1)" by simp
    also have "\<dots> \<le> int b * ?m" using IH(2) by (simp add: mult_left_mono)
    also have "\<dots> \<le> n" using 1(2) pos_mod_sign [of "int b" n] mult_div_mod_eq [of "int b" n] by linarith
    finally have lo: "int b ^ nat (ndigits b n - 1) \<le> n" .
    have "n < int b * (?m + 1)"
    proof -
      have "n mod int b < int b" using 1(2) by simp
      moreover have "int b * ?m + n mod int b = n" by (rule mult_div_mod_eq)
      ultimately show ?thesis by (simp only: distrib_left mult_1_right)
    qed
    also have "\<dots> \<le> int b * int b ^ nat (ndigits b ?m)" using IH(3) by (intro mult_left_mono) auto
    also have "\<dots> = int b ^ nat (ndigits b n)"
      using IH(1) d by (simp add: nat_add_distrib)
    finally show ?thesis using lo d IH(1) by simp
  qed
qed

text \<open>\<open>ilog b x\<close> is the \<open>k\<close> with \<open>b powi k \<le> x < b powi (k + 1)\<close>, from the digit counts of numerator and denominator.\<close>

definition ilog :: "nat \<Rightarrow> rat \<Rightarrow> int" where
  "ilog b x = (let (p, q) = quotient_of x; k = ndigits b p - ndigits b q
               in if of_nat b powi k \<le> x then k else k - 1)"

lemma powi_nat: "0 \<le> k \<Longrightarrow> (x::rat) powi k = x ^ nat k"
  by (simp add: power_int_def)

lemma powi_pos: "0 < (x::rat) \<Longrightarrow> 0 < x powi k"
  by (simp add: zero_less_power_int)

lemma powi_less: "1 < (x::rat) \<Longrightarrow> x powi j < x powi k \<longleftrightarrow> j < k"
  using power_int_strict_increasing [of j k x] power_int_strict_increasing [of k j x]
  by (cases j k rule: linorder_cases) auto

lemma powi_le: "1 < (x::rat) \<Longrightarrow> x powi j \<le> x powi k \<longleftrightarrow> j \<le> k"
  using powi_less [of x k j] by linarith

lemma ndigits_rat_bounds:
  assumes "2 \<le> b" "0 < (p::int)"
  shows "of_nat b powi (ndigits b p - 1) \<le> (of_int p :: rat)"
    and "(of_int p :: rat) < of_nat b powi ndigits b p"
proof -
  note bd = ndigits_bounds [OF assms]
  have "(of_int (int b ^ nat (ndigits b p - 1)) :: rat) \<le> of_int p"
    and "of_int p < (of_int (int b ^ nat (ndigits b p)) :: rat)"
    using bd by (simp_all only: of_int_le_iff of_int_less_iff)
  then show "of_nat b powi (ndigits b p - 1) \<le> (of_int p :: rat)"
    and "(of_int p :: rat) < of_nat b powi ndigits b p"
    using bd by (simp_all add: powi_nat)
qed

lemma ilog_bounds:
  assumes b: "2 \<le> b" and x: "0 < x"
  shows "of_nat b powi ilog b x \<le> x" "x < of_nat b powi (ilog b x + 1)"
proof -
  obtain p q where pq: "quotient_of x = (p, q)" by fastforce
  then have q: "0 < q" and xe: "x = of_int p / of_int q"
    by (simp_all add: quotient_of_denom_pos quotient_of_div)
  with x have p: "0 < p" by (simp add: zero_less_divide_iff)
  let ?B = "of_nat b :: rat"
  let ?m = "ndigits b p" and ?n = "ndigits b q"
  have B: "1 < ?B" using b by (metis of_nat_1 of_nat_less_iff one_less_numeral_iff
      order_less_le_trans semiring_norm(76))
  note bp = ndigits_rat_bounds [OF b p] and bq = ndigits_rat_bounds [OF b q]
  have Q: "(0::rat) < of_int q" using q by simp
  have up: "x < ?B powi (?m - ?n + 1)"
  proof -
    have "x < ?B powi ?m / of_int q" unfolding xe using bp Q by (simp add: divide_strict_right_mono)
    also have "\<dots> \<le> ?B powi ?m / ?B powi (?n - 1)"
      using bq B Q by (intro divide_left_mono) (auto simp: powi_pos zero_less_mult_iff less_imp_le)
    also have "\<dots> = ?B powi (?m - ?n + 1)"
      using B power_int_diff [of ?B ?m "?n - 1"] by (simp add: algebra_simps)
    finally show ?thesis .
  qed
  have lo: "?B powi (?m - ?n - 1) \<le> x"
  proof -
    have "?B powi (?m - ?n - 1) = ?B powi (?m - 1) / ?B powi ?n"
      using B power_int_diff [of ?B "?m - 1" ?n] by (simp add: algebra_simps)
    also have "\<dots> \<le> ?B powi (?m - 1) / of_int q"
      using bq B Q by (intro divide_left_mono) (auto simp: powi_pos zero_less_mult_iff less_imp_le)
    also have "\<dots> \<le> x" unfolding xe using bp Q by (simp add: divide_right_mono)
    finally show ?thesis .
  qed
  show "?B powi ilog b x \<le> x" "x < ?B powi (ilog b x + 1)"
    using up lo by (auto simp: ilog_def pq Let_def)
qed

lemma ilog_less_iff:
  assumes "2 \<le> b" "0 < x"
  shows "x < of_nat b powi k \<longleftrightarrow> ilog b x < k"
proof -
  have B: "1 < (of_nat b :: rat)" using assms(1) by linarith
  note bd = ilog_bounds [OF assms]
  show ?thesis
  proof
    assume "x < of_nat b powi k"
    with bd(1) have "(of_nat b::rat) powi ilog b x < of_nat b powi k" by linarith
    then show "ilog b x < k" using powi_less [OF B] by simp
  next
    assume "ilog b x < k"
    then have "ilog b x + 1 \<le> k" by simp
    then have "(of_nat b::rat) powi (ilog b x + 1) \<le> of_nat b powi k" using powi_le [OF B] by blast
    with bd(2) show "x < of_nat b powi k" by linarith
  qed
qed

lemma ilog_mono: "2 \<le> b \<Longrightarrow> 0 < x \<Longrightarrow> x \<le> y \<Longrightarrow> ilog b x \<le> ilog b y"
  using ilog_less_iff [of b x "ilog b y + 1"] ilog_bounds(2) [of b y] by fastforce

section \<open>The laws of a rounding\<close>

locale rounding =
  fixes rnd :: "rat \<Rightarrow> rat"
  assumes rnd_mono: "x \<le> y \<Longrightarrow> rnd x \<le> rnd y"
    and rnd_zero: "rnd 0 = 0"
    and rnd_minus: "rnd (- x) = - rnd x"
    and rnd_idem: "rnd (rnd x) = rnd x"
begin

lemma rnd_nonneg: "0 \<le> x \<Longrightarrow> 0 \<le> rnd x"
  using rnd_mono [of 0 x] rnd_zero by simp

lemma rnd_nonpos: "x \<le> 0 \<Longrightarrow> rnd x \<le> 0"
  using rnd_mono [of x 0] rnd_zero by simp

lemma rnd_le_fixed: "rnd y = y \<Longrightarrow> x \<le> y \<Longrightarrow> rnd x \<le> y"
  using rnd_mono [of x y] by simp

lemma rnd_ge_fixed: "rnd y = y \<Longrightarrow> y \<le> x \<Longrightarrow> y \<le> rnd x"
  using rnd_mono [of y x] by simp

lemma rnd_less_imp_less: "rnd x < rnd y \<Longrightarrow> x < y"
  using rnd_mono [of y x] by (cases "x < y") auto

lemma rnd_diff_nonneg: "y \<le> x \<Longrightarrow> 0 \<le> rnd (x - y)"
  by (rule rnd_nonneg) simp

end

section \<open>Rounding to a number of significant digits\<close>

text \<open>
  \<open>round_sig b p emin x\<close>: the multiple of \<open>b powi e\<close> nearest to \<open>x\<close>, where \<open>e\<close> leaves \<open>p\<close> digits of
  base \<open>b\<close> and is at least \<open>emin\<close> (the exponent of the subnormal numbers).
\<close>

definition sig_exp :: "nat \<Rightarrow> nat \<Rightarrow> int \<Rightarrow> rat \<Rightarrow> int" where
  "sig_exp b p emin x = max (ilog b x - int p + 1) emin"

definition round_pos :: "nat \<Rightarrow> nat \<Rightarrow> int \<Rightarrow> rat \<Rightarrow> rat" where
  "round_pos b p emin x =
     (let u = of_nat b powi sig_exp b p emin x in of_int (rhe (x / u)) * u)"

definition round_sig :: "nat \<Rightarrow> nat \<Rightarrow> int \<Rightarrow> rat \<Rightarrow> rat" where
  "round_sig b p emin x =
     (if x = 0 then 0 else if 0 < x then round_pos b p emin x else - round_pos b p emin (- x))"

lemma round_sig_0 [simp]: "round_sig b p emin 0 = 0"
  by (simp add: round_sig_def)

lemma round_sig_minus [simp]: "round_sig b p emin (- x) = - round_sig b p emin x"
  by (auto simp: round_sig_def)

locale digit_rounding =
  fixes b p :: nat and emin :: int
  assumes b2: "2 \<le> b" and p1: "1 \<le> p"
begin

lemma base_gt_1: "1 < (of_nat b :: rat)"
  using b2 by linarith

lemma round_pos_scaled_le:
  assumes "0 < x" "x \<le> of_int n * of_nat b powi sig_exp b p emin x"
  shows "round_pos b p emin x \<le> of_int n * of_nat b powi sig_exp b p emin x"
proof -
  let ?u = "of_nat b powi sig_exp b p emin x :: rat"
  have u: "0 < ?u" using base_gt_1 by (simp add: powi_pos)
  then have "x / ?u \<le> of_int n" using assms(2) by (simp add: pos_divide_le_eq)
  then have "rhe (x / ?u) \<le> n" by (rule rhe_le_int)
  then show ?thesis using u by (simp add: round_pos_def Let_def)
qed

lemma round_pos_scaled_ge:
  assumes "0 < x" "of_int n * of_nat b powi sig_exp b p emin x \<le> x"
  shows "of_int n * of_nat b powi sig_exp b p emin x \<le> round_pos b p emin x"
proof -
  let ?u = "of_nat b powi sig_exp b p emin x :: rat"
  have u: "0 < ?u" using base_gt_1 by (simp add: powi_pos)
  then have "of_int n \<le> x / ?u" using assms(2) by (simp add: pos_le_divide_eq)
  then have "n \<le> rhe (x / ?u)" by (rule rhe_ge_int)
  then show ?thesis using u by (simp add: round_pos_def Let_def)
qed

lemma round_pos_nonneg: "0 < x \<Longrightarrow> 0 \<le> round_pos b p emin x"
  using round_pos_scaled_ge [of x 0] by simp

lemma round_pos_upper:
  assumes x: "0 < x"
  shows "round_pos b p emin x \<le> of_nat b powi (sig_exp b p emin x + int p)"
proof -
  let ?e = "sig_exp b p emin x"
  have e: "of_int (int b ^ p) * of_nat b powi ?e = (of_nat b :: rat) powi (?e + int p)"
    using base_gt_1 by (simp add: power_int_add)
  have "ilog b x < ?e + int p" by (simp add: sig_exp_def)
  then have "x < of_nat b powi (?e + int p)" using ilog_less_iff [OF b2 x] by blast
  then have "x \<le> of_int (int b ^ p) * of_nat b powi ?e" using e by simp
  from round_pos_scaled_le [OF x this] e show ?thesis by simp
qed

lemma round_pos_lower:
  assumes x: "0 < x" and n: "emin < sig_exp b p emin x"
  shows "of_nat b powi (sig_exp b p emin x + int p - 1) \<le> round_pos b p emin x"
proof -
  let ?e = "sig_exp b p emin x"
  have k: "?e + int p - 1 = ilog b x" using n by (simp add: sig_exp_def max_def split: if_splits)
  have "of_int (int b ^ (p - 1)) * of_nat b powi ?e = (of_nat b :: rat) powi (?e + int (p - 1))"
    using base_gt_1 by (simp add: power_int_add)
  also have "?e + int (p - 1) = ?e + int p - 1" using p1 by simp
  finally have e: "of_int (int b ^ (p - 1)) * of_nat b powi ?e = (of_nat b :: rat) powi (?e + int p - 1)" .
  have "of_int (int b ^ (p - 1)) * of_nat b powi ?e \<le> x"
    unfolding e k by (rule ilog_bounds [OF b2 x])
  from round_pos_scaled_ge [OF x this] e show ?thesis by simp
qed

lemma round_pos_mono:
  assumes x: "0 < x" and xy: "x \<le> y"
  shows "round_pos b p emin x \<le> round_pos b p emin y"
proof (cases "sig_exp b p emin x = sig_exp b p emin y")
  case True
  let ?u = "of_nat b powi sig_exp b p emin y :: rat"
  have u: "0 < ?u" using base_gt_1 by (simp add: powi_pos)
  then have "x / ?u \<le> y / ?u" using xy by (simp add: divide_right_mono)
  then have "rhe (x / ?u) \<le> rhe (y / ?u)" by (rule rhe_mono)
  then show ?thesis using u True by (simp add: round_pos_def Let_def)
next
  case False
  have y: "0 < y" using x xy by simp
  have "sig_exp b p emin x \<le> sig_exp b p emin y"
    using ilog_mono [OF b2 x xy] by (simp add: sig_exp_def)
  with False have lt: "sig_exp b p emin x < sig_exp b p emin y" by simp
  then have "emin < sig_exp b p emin y" by (auto simp: sig_exp_def)
  note lo = round_pos_lower [OF y this]
  have "round_pos b p emin x \<le> of_nat b powi (sig_exp b p emin x + int p)"
    by (rule round_pos_upper [OF x])
  also have "\<dots> \<le> of_nat b powi (sig_exp b p emin y + int p - 1)"
    using powi_le [OF base_gt_1] lt by simp
  also note lo
  finally show ?thesis .
qed

lemma round_sig_mono: "x \<le> y \<Longrightarrow> round_sig b p emin x \<le> round_sig b p emin y"
proof -
  assume xy: "x \<le> y"
  consider "0 < x" | "y < 0" | "x \<le> 0" "0 \<le> y" by linarith
  then show ?thesis
  proof cases
    case 1
    with xy round_pos_mono [of x y] show ?thesis by (simp add: round_sig_def)
  next
    case 2
    with xy round_pos_mono [of "- y" "- x"] show ?thesis by (simp add: round_sig_def)
  next
    case 3
    then have "round_sig b p emin x \<le> 0" "0 \<le> round_sig b p emin y"
      using round_pos_nonneg [of y] round_pos_nonneg [of "- x"] by (auto simp: round_sig_def)
    then show ?thesis by linarith
  qed
qed

text \<open>Every number with at most \<open>p\<close> digits and an exponent in range is a fixed point.\<close>

lemma round_pos_exact:
  assumes x: "0 < x" and m: "x = of_int m * of_nat b powi e" "m < int b ^ p" and e: "emin \<le> e"
  shows "round_pos b p emin x = x"
proof -
  let ?s = "sig_exp b p emin x"
  have "x < of_nat b powi (e + int p)"
  proof -
    have "(of_int m :: rat) < of_int (int b ^ p)" using m(2) by (simp only: of_int_less_iff)
    then have "x < of_int (int b ^ p) * of_nat b powi e"
      unfolding m(1) using base_gt_1 by (simp add: powi_pos)
    then show ?thesis using base_gt_1 by (simp add: power_int_add mult.commute)
  qed
  then have "ilog b x < e + int p" using ilog_less_iff [OF b2 x] by blast
  then have s: "?s \<le> e" using e by (simp add: sig_exp_def)
  have "x / of_nat b powi ?s = of_int m * of_nat b powi (e - ?s)"
    unfolding m(1) using base_gt_1 by (simp add: power_int_diff)
  also have "\<dots> = of_int (m * int b ^ nat (e - ?s))" using s by (simp add: powi_nat)
  finally have q: "x / of_nat b powi ?s = of_int (m * int b ^ nat (e - ?s))" .
  have "rhe (x / of_nat b powi ?s) = m * int b ^ nat (e - ?s)" unfolding q by (rule rhe_of_int)
  then have "round_pos b p emin x = x / of_nat b powi ?s * of_nat b powi ?s"
    using q by (simp add: round_pos_def Let_def)
  then show ?thesis using powi_pos [of "of_nat b" ?s] base_gt_1 by simp
qed

lemma round_sig_exact:
  assumes "x = of_int m * of_nat b powi e" "\<bar>m\<bar> < int b ^ p" "emin \<le> e"
  shows "round_sig b p emin x = x"
proof -
  consider "x = 0" | "0 < x" | "0 < - x" by linarith
  then show ?thesis
  proof cases
    case 2
    then show ?thesis using round_pos_exact [OF 2 assms(1) _ assms(3)] assms(2)
      by (simp add: round_sig_def)
  next
    case 3
    have "round_pos b p emin (- x) = - x"
      using round_pos_exact [OF 3, of "- m" e] assms by simp
    then show ?thesis using 3 by (simp add: round_sig_def)
  qed simp
qed

lemma round_sig_idem: "round_sig b p emin (round_sig b p emin x) = round_sig b p emin x"
proof -
  have pos: "round_sig b p emin (round_pos b p emin x) = round_pos b p emin x" if x: "0 < x" for x
  proof -
    let ?s = "sig_exp b p emin x" let ?m = "rhe (x / of_nat b powi sig_exp b p emin x)"
    have v: "round_pos b p emin x = of_int ?m * of_nat b powi ?s"
      by (simp add: round_pos_def Let_def)
    have u: "(0::rat) < of_nat b powi ?s" using base_gt_1 by (simp add: powi_pos)
    have "of_int ?m * of_nat b powi ?s \<le> (of_nat b :: rat) powi (?s + int p)"
      using round_pos_upper [OF x] v by simp
    then have "of_int ?m * of_nat b powi ?s \<le> (of_int (int b ^ p) :: rat) * of_nat b powi ?s"
      using base_gt_1 by (simp add: power_int_add mult.commute)
    then have mb: "?m \<le> int b ^ p" using u by (metis mult_le_cancel_right_pos of_int_le_iff)
    have m0: "0 \<le> ?m" using x u by (intro rhe_ge_int) simp
    have es: "emin \<le> ?s" by (simp add: sig_exp_def)
    show ?thesis
    proof (cases "?m = int b ^ p")
      case True
      then have "round_pos b p emin x = of_int 1 * of_nat b powi (?s + int p)"
        unfolding v using base_gt_1 by (simp add: power_int_add mult.commute)
      moreover have "\<bar>1\<bar> < int b ^ p" using b2 p1 by (simp add: one_less_power)
      moreover have "emin \<le> ?s + int p" using es by simp
      ultimately show ?thesis by (rule round_sig_exact)
    next
      case False
      then show ?thesis using round_sig_exact [OF v _ es] m0 mb by simp
    qed
  qed
  show ?thesis using pos [of x] pos [of "- x"] by (auto simp: round_sig_def)
qed

end

sublocale digit_rounding \<subseteq> rounding "round_sig b p emin"
  by unfold_locales (auto simp: round_sig_mono round_sig_idem)

section \<open>Evaluation by integer arithmetic\<close>

text \<open>
  The same rounding on numerator and denominator: these equations are what evaluation uses, so that
  a concrete amount is rounded by a few integer divisions.
\<close>

definition rhe_div :: "int \<Rightarrow> int \<Rightarrow> int" where
  "rhe_div a b = (let q = a div b; r = a mod b
                  in if 2 * r < b then q else if b < 2 * r then q + 1 else if even q then q else q + 1)"

lemma rhe_div:
  assumes "0 < b"
  shows "rhe (of_int a / of_int b) = rhe_div a b"
proof -
  have f: "\<lfloor>of_int a / of_int b :: rat\<rfloor> = a div b" by (rule floor_divide_of_int_eq)
  have "(of_int a :: rat) = of_int (a div b) * of_int b + of_int (a mod b)"
    by (metis div_mult_mod_eq of_int_add of_int_mult)
  then have "(of_int a :: rat) / of_int b = (of_int (a div b) * of_int b + of_int (a mod b)) / of_int b"
    by (rule arg_cong)
  then have d: "of_int a / of_int b - of_int (a div b) = (of_int (a mod b) / of_int b :: rat)"
    using assms by (simp add: add_divide_distrib)
  have lt: "(of_int (a mod b) / of_int b :: rat) < 1/2 \<longleftrightarrow> 2 * (a mod b) < b"
    "1/2 < (of_int (a mod b) / of_int b :: rat) \<longleftrightarrow> b < 2 * (a mod b)"
  proof -
    have "(of_int (a mod b) / of_int b :: rat) < 1/2 \<longleftrightarrow> (of_int (2 * (a mod b)) :: rat) < of_int b"
      using assms by (simp add: field_simps)
    then show "(of_int (a mod b) / of_int b :: rat) < 1/2 \<longleftrightarrow> 2 * (a mod b) < b"
      by (simp only: of_int_less_iff)
    have "1/2 < (of_int (a mod b) / of_int b :: rat) \<longleftrightarrow> (of_int b :: rat) < of_int (2 * (a mod b))"
      using assms by (simp add: field_simps)
    then show "1/2 < (of_int (a mod b) / of_int b :: rat) \<longleftrightarrow> b < 2 * (a mod b)"
      by (simp only: of_int_less_iff)
  qed
  show ?thesis unfolding rhe_def rhe_div_def Let_def f d using lt by simp
qed

lemma quotient_of_eq: "quotient_of x = (p, q) \<Longrightarrow> x = of_int p / of_int q \<and> 0 < q"
  using quotient_of_div quotient_of_denom_pos by blast

lemma ilog_code [code]:
  "ilog b x = (let (p, q) = quotient_of x; k = ndigits b p - ndigits b q
     in if b = 0 then (if of_nat b powi k \<le> x then k else k - 1)
        else if (if 0 \<le> k then int b ^ nat k * q \<le> p else q \<le> p * int b ^ nat (- k))
             then k else k - 1)"
proof -
  obtain p q where pq: "quotient_of x = (p, q)" by (cases "quotient_of x")
  note x = quotient_of_eq [OF pq]
  have "of_nat b powi k \<le> x \<longleftrightarrow>
      (if 0 \<le> k then int b ^ nat k * q \<le> p else q \<le> p * int b ^ nat (- k))" if "b \<noteq> 0" for k
  proof (cases "0 \<le> k")
    case True
    have "of_nat b powi k \<le> x \<longleftrightarrow> (of_int (int b ^ nat k * q) :: rat) \<le> of_int p"
      using x True by (simp add: power_int_def field_simps)
    then show ?thesis using True by (simp only: of_int_le_iff if_True)
  next
    case False
    have "of_nat b powi k \<le> x \<longleftrightarrow> (of_int q :: rat) \<le> of_int (p * int b ^ nat (- k))"
      using x False that by (simp add: power_int_def field_simps)
    then show ?thesis using False by (simp only: of_int_le_iff if_False)
  qed
  then show ?thesis by (simp add: ilog_def pq Let_def)
qed

lemma round_pos_code [code]:
  "round_pos b p emin x =
     (if b = 0 then (let u = of_nat b powi sig_exp b p emin x in of_int (rhe (x / u)) * u)
      else let (n, d) = quotient_of x; e = sig_exp b p emin x
           in if 0 \<le> e then Fract (rhe_div n (d * int b ^ nat e) * int b ^ nat e) 1
              else Fract (rhe_div (n * int b ^ nat (- e)) d) (int b ^ nat (- e)))"
proof (cases "b = 0")
  case False
  obtain n d where nd: "quotient_of x = (n, d)" by (cases "quotient_of x")
  note x = quotient_of_eq [OF nd]
  let ?e = "sig_exp b p emin x"
  have k: "0 < int b ^ i" for i using False by simp
  show ?thesis
  proof (cases "0 \<le> ?e")
    case True
    let ?u = "int b ^ nat ?e"
    have u: "(of_nat b :: rat) powi ?e = of_int ?u" using True by (simp add: power_int_def)
    have pos: "0 < d * ?u" using x k [of "nat ?e"] by simp
    have "x / of_int ?u = of_int n / of_int (d * ?u)" using x by (metis divide_divide_eq_left of_int_mult)
    then have "rhe (x / of_int ?u) = rhe_div n (d * ?u)" using rhe_div [OF pos, of n] by (simp only:)
    then show ?thesis using True False
      by (simp add: round_pos_def nd Let_def Fract_of_int_quotient u del: of_int_power)
  next
    case ne: False
    let ?u = "int b ^ nat (- ?e)"
    have u: "(of_nat b :: rat) powi ?e = 1 / of_int ?u"
      using ne by (simp add: power_int_def divide_inverse power_inverse)
    have "x / (1 / of_int ?u) = of_int (n * ?u) / of_int d" using x by (simp del: of_int_power)
    then have "rhe (x / (1 / of_int ?u)) = rhe_div (n * ?u) d"
      using rhe_div [of d "n * ?u"] x by (simp only:)
    then show ?thesis using ne False
      by (simp add: round_pos_def nd Let_def Fract_of_int_quotient u del: of_int_power)
  qed
qed (simp add: round_pos_def)

section \<open>binary64 and the default decimal context\<close>

definition fl :: "rat \<Rightarrow> rat" where
  "fl x = round_sig 2 53 (- 1074) x"

definition dec28 :: "rat \<Rightarrow> rat" where
  "dec28 x = round_sig 10 28 (- 1000026) x"

interpretation f64: digit_rounding 2 53 "- 1074"
  rewrites "round_sig 2 53 (- 1074) = fl"
  by unfold_locales (auto simp: fl_def fun_eq_iff)

interpretation d28: digit_rounding 10 28 "- 1000026"
  rewrites "round_sig 10 28 (- 1000026) = dec28"
  by unfold_locales (auto simp: dec28_def fun_eq_iff)

lemma fl_form: "\<exists>m e. fl x = of_int m * 2 powi e \<and> \<bar>m\<bar> \<le> 2 ^ 53 \<and> - 1074 \<le> e"
proof -
  have pos: "\<exists>m e. round_pos 2 53 (- 1074) x = of_int m * 2 powi e \<and> \<bar>m\<bar> \<le> 2 ^ 53 \<and> - 1074 \<le> e"
    if x: "0 < x" for x
  proof -
    let ?s = "sig_exp 2 53 (- 1074) x" let ?m = "rhe (x / 2 powi sig_exp 2 53 (- 1074) x)"
    have u: "(0::rat) < 2 powi ?s" by (simp add: powi_pos)
    have "of_int ?m * 2 powi ?s \<le> (2 :: rat) powi (?s + 53)"
      using f64.round_pos_upper [OF x] by (simp add: round_pos_def Let_def)
    then have "of_int ?m * 2 powi ?s \<le> (of_int (2 ^ 53) :: rat) * 2 powi ?s"
      by (simp add: power_int_add mult.commute)
    then have "?m \<le> 2 ^ 53" using u by (metis mult_le_cancel_right_pos of_int_le_iff)
    moreover have "0 \<le> ?m" using x u by (intro rhe_ge_int) simp
    moreover have "- 1074 \<le> ?s" by (simp add: sig_exp_def)
    ultimately show ?thesis
      by (intro exI [of _ ?m] exI [of _ ?s]) (simp add: round_pos_def Let_def)
  qed
  show ?thesis
  proof (cases "0 \<le> x")
    case True
    then show ?thesis
    proof (cases "x = 0")
      case True
      then show ?thesis by (intro exI [of _ 0] exI [of _ 0]) (simp add: fl_def)
    next
      case False
      with pos [of x] True show ?thesis by (simp add: fl_def round_sig_def)
    qed
  next
    case False
    then have "0 < - x" by simp
    from pos [OF this] obtain m e where
      me: "round_pos 2 53 (- 1074) (- x) = of_int m * 2 powi e" "\<bar>m\<bar> \<le> 2 ^ 53" "- 1074 \<le> e" by blast
    with False show ?thesis
      by (intro exI [of _ "- m"] exI [of _ e]) (simp add: fl_def round_sig_def)
  qed
qed

text \<open>A float is a fixed point of \<open>fl\<close>; whole numbers up to \<open>2 ^ 53\<close> are floats.\<close>

definition is_float :: "rat \<Rightarrow> bool" where
  "is_float x \<longleftrightarrow> fl x = x"

lemma is_float_fl [simp, intro]: "is_float (fl x)"
  by (simp add: is_float_def f64.rnd_idem)

lemma fl_0 [simp]: "fl 0 = 0"
  by (rule f64.rnd_zero)

lemma is_float_0 [simp, intro]: "is_float 0"
  by (simp add: is_float_def)

lemma is_float_double: "is_float x \<Longrightarrow> is_float (2 * x)"
proof -
  assume "is_float x"
  with fl_form [of x] obtain m e where
    me: "x = of_int m * 2 powi e" "\<bar>m\<bar> \<le> 2 ^ 53" "- 1074 \<le> e" by (auto simp: is_float_def)
  show "is_float (2 * x)"
  proof (cases "\<bar>m\<bar> < 2 ^ 53")
    case True
    have "2 * x = of_int m * of_nat 2 powi (e + 1)" using me(1) by (simp add: power_int_add)
    from f64.round_sig_exact [OF this] True me(3) show ?thesis by (simp add: is_float_def)
  next
    case False
    then have m: "m = sgn m * 2 ^ 53" "\<bar>sgn m\<bar> = 1" using me(2) by (auto simp: sgn_if abs_if split: if_splits)
    have "2 * x = of_int (sgn m * 2 ^ 53) * 2 powi e * 2" using me(1) m(1) by simp
    also have "\<dots> = of_int (sgn m) * of_nat 2 powi (e + 54)"
      by (simp add: power_int_add)
    finally have eq: "2 * x = of_int (sgn m) * of_nat 2 powi (e + 54)" .
    show ?thesis using f64.round_sig_exact [OF eq] m(2) me(3) by (simp add: is_float_def)
  qed
qed

lemma fl_of_int: "\<bar>n\<bar> < 2 ^ 53 \<Longrightarrow> fl (of_int n) = of_int n"
  by (rule f64.round_sig_exact [of _ n 0]) simp_all

lemma dec28_of_int: "\<bar>n\<bar> < 10 ^ 28 \<Longrightarrow> dec28 (of_int n) = of_int n"
  by (rule d28.round_sig_exact [of _ n 0]) simp_all

section \<open>The shortest decimal that rounds to a float\<close>

text \<open>
  \<open>repr(x)\<close> prints the shortest digit string that reads back as \<open>x\<close>, the closest to \<open>x\<close> among
  those.  \<open>repr_digits n x\<close> tries \<open>n\<close> significant digits: the two neighbours of \<open>x\<close> on that grid.
\<close>

definition repr_digits :: "nat \<Rightarrow> rat \<Rightarrow> rat option" where
  "repr_digits n x =
     (let u = 10 powi (ilog 10 x - int n + 1);
          lo = of_int \<lfloor>x / u\<rfloor> * u; hi = of_int (\<lfloor>x / u\<rfloor> + 1) * u; near = of_int (rhe (x / u)) * u
      in if fl near = x then Some near
         else if fl lo = x then Some lo else if fl hi = x then Some hi else None)"

fun repr_search :: "nat list \<Rightarrow> rat \<Rightarrow> rat" where
  "repr_search [] x = x"
| "repr_search (n # ns) x = (case repr_digits n x of Some d \<Rightarrow> d | None \<Rightarrow> repr_search ns x)"

definition repr_pos :: "rat \<Rightarrow> rat" where
  "repr_pos x = repr_search [1, 2, 3, 4, 5, 6, 7, 8, 9, 10, 11, 12, 13, 14, 15, 16, 17] x"

definition repr_dec :: "rat \<Rightarrow> rat" where
  "repr_dec x = (if x = 0 then 0 else if 0 < x then repr_pos x else - repr_pos (- x))"

lemma repr_digits_fl: "repr_digits n x = Some d \<Longrightarrow> fl d = x"
  by (auto simp: repr_digits_def Let_def split: if_splits)

lemma repr_search_fl: "is_float x \<Longrightarrow> fl (repr_search ns x) = x"
  by (induction ns) (auto simp: is_float_def repr_digits_fl split: option.splits)

lemma repr_pos_fl: "is_float x \<Longrightarrow> fl (repr_pos x) = x"
  unfolding repr_pos_def by (rule repr_search_fl)

text \<open>A positive number prints as a non-negative one.\<close>

lemma repr_digits_nonneg: "0 < x \<Longrightarrow> repr_digits n x = Some d \<Longrightarrow> 0 \<le> d"
proof -
  assume x: "0 < x" and d: "repr_digits n x = Some d"
  let ?u = "10 powi (ilog 10 x - int n + 1) :: rat"
  have u: "0 < ?u" by (simp add: powi_pos)
  have f: "0 \<le> \<lfloor>x / ?u\<rfloor>" using x u by simp
  have g: "0 \<le> rhe (x / ?u)" using x u by (intro rhe_ge_int) simp
  have "0 \<le> of_int \<lfloor>x / ?u\<rfloor> * ?u" "0 \<le> of_int (\<lfloor>x / ?u\<rfloor> + 1) * ?u" "0 \<le> of_int (rhe (x / ?u)) * ?u"
    using f g u by (intro mult_nonneg_nonneg; simp)+
  then show ?thesis using d unfolding repr_digits_def Let_def by (auto split: if_splits simp del: of_int_add)
qed

lemma repr_pos_nonneg: "0 < x \<Longrightarrow> 0 \<le> repr_pos x"
proof -
  assume x: "0 < x"
  have "0 \<le> repr_search ns x" for ns
    using x by (induction ns) (auto simp: repr_digits_nonneg split: option.splits)
  then show ?thesis unfolding repr_pos_def by blast
qed

lemma is_float_minus [simp]: "is_float (- x) \<longleftrightarrow> is_float x"
  by (simp add: is_float_def f64.rnd_minus)

lemma fl_repr_dec [simp]: "is_float x \<Longrightarrow> fl (repr_dec x) = x"
  by (auto simp: repr_dec_def repr_pos_fl f64.rnd_minus)

lemma repr_dec_0 [simp]: "repr_dec 0 = 0"
  by (simp add: repr_dec_def)

text \<open>On floats the conversion to \<open>Decimal\<close> preserves and reflects the order.\<close>

lemma repr_dec_less:
  assumes "is_float x" "is_float y" "x < y"
  shows "repr_dec x < repr_dec y"
proof (rule ccontr)
  assume "\<not> repr_dec x < repr_dec y"
  then have "fl (repr_dec y) \<le> fl (repr_dec x)" by (intro f64.rnd_mono) simp
  with assms show False by simp
qed

lemma repr_dec_le_iff: "is_float x \<Longrightarrow> is_float y \<Longrightarrow> repr_dec x \<le> repr_dec y \<longleftrightarrow> x \<le> y"
  using repr_dec_less [of x y] repr_dec_less [of y x] by (cases x y rule: linorder_cases) auto

lemma fl_le_of_repr: "is_float y \<Longrightarrow> d \<le> repr_dec y \<Longrightarrow> fl d \<le> y"
  using f64.rnd_mono [of d "repr_dec y"] by simp

lemma repr_dec_pos: "is_float x \<Longrightarrow> 0 < x \<Longrightarrow> 0 < repr_dec x"
  using repr_dec_less [of 0 x] by simp

lemma repr_dec_nonneg: "is_float x \<Longrightarrow> 0 \<le> x \<Longrightarrow> 0 \<le> repr_dec x"
  using repr_dec_le_iff [of 0 x] by simp

section \<open>Inputs that may be infinite or not a number\<close>

datatype pyfloat = Finite rat | PosInf | NegInf | NaN

text \<open>\<open>x is not None and math.isfinite(x)\<close>, and the value it guards.\<close>

fun finite_value :: "pyfloat option \<Rightarrow> rat option" where
  "finite_value (Some (Finite x)) = Some x"
| "finite_value _ = None"

definition finite_float :: "pyfloat \<Rightarrow> bool" where
  "finite_float v \<longleftrightarrow> (\<forall>x. v = Finite x \<longrightarrow> is_float x)"

section \<open>round(x, 2), sum and ROUND_DOWN\<close>

definition py_round2 :: "rat \<Rightarrow> rat" where
  "py_round2 x = fl (of_int (rhe (x * 100)) / 100)"

text \<open>\<open>sum\<close> over floats (Python 3.12): a running sum with a compensation term, added at the end.\<close>

fun sum_loop :: "rat \<Rightarrow> rat \<Rightarrow> rat list \<Rightarrow> rat" where
  "sum_loop s c [] = (if c = 0 then s else fl (s + c))"
| "sum_loop s c (x # xs) =
     (let t = fl (s + x);
          c' = (if \<bar>x\<bar> \<le> \<bar>s\<bar> then fl (c + fl (fl (s - t) + x)) else fl (c + fl (fl (x - t) + s)))
      in sum_loop t c' xs)"

definition py_sum :: "rat list \<Rightarrow> rat" where
  "py_sum xs = sum_loop 0 0 xs"

lemma py_sum_float: "is_float (py_sum xs)"
proof -
  have "is_float s \<Longrightarrow> is_float (sum_loop s c xs)" for s c
    by (induction xs arbitrary: s c) (auto simp: Let_def)
  then show ?thesis by (simp add: py_sum_def)
qed

section \<open>How far a rounding goes\<close>

text \<open>No point of the grid is nearer: rounding up moves at most as far as the next fixed point below.\<close>

lemma rhe_up:
  assumes "of_int m \<le> x"
  shows "of_int (rhe x) - x \<le> x - of_int m"
proof (cases "rhe x = \<lfloor>x\<rfloor>")
  case True
  have "(of_int \<lfloor>x\<rfloor> :: rat) \<le> x" by (rule of_int_floor_le)
  then show ?thesis using assms unfolding True by linarith
next
  case False
  then have r: "rhe x = \<lfloor>x\<rfloor> + 1" using rhe_cases by blast
  have "m \<le> \<lfloor>x\<rfloor>" using assms by (simp add: le_floor_iff)
  then have "(of_int m :: rat) \<le> of_int \<lfloor>x\<rfloor>" by (simp only: of_int_le_iff)
  moreover have "(of_int (rhe x) :: rat) = of_int \<lfloor>x\<rfloor> + 1" by (simp add: r)
  ultimately show ?thesis using rhe_bounds(1) [of x] by linarith
qed

context digit_rounding
begin

lemma round_pos_grid:
  assumes "0 < x" "of_int m * of_nat b powi sig_exp b p emin x \<le> x"
  shows "round_pos b p emin x - x \<le> x - of_int m * of_nat b powi sig_exp b p emin x"
proof -
  let ?u = "of_nat b powi sig_exp b p emin x :: rat"
  have u: "0 < ?u" using base_gt_1 by (simp add: powi_pos)
  have "of_int m \<le> x / ?u" using assms(2) u by (simp add: pos_le_divide_eq)
  then have "(of_int (rhe (x / ?u)) - x / ?u) * ?u \<le> (x / ?u - of_int m) * ?u"
    using u by (intro mult_right_mono rhe_up) simp_all
  moreover have "x / ?u * ?u = x" using b2 by simp
  ultimately show ?thesis by (simp add: round_pos_def Let_def left_diff_distrib)
qed

lemma round_pos_up:
  assumes x: "0 < x" and y: "0 < y" "y \<le> x" "round_pos b p emin y = y"
  shows "round_pos b p emin x - x \<le> x - y"
proof -
  let ?s = "sig_exp b p emin x" let ?u = "of_nat b powi ?s :: rat"
  have "\<exists>m. y \<le> of_int m * ?u \<and> of_int m * ?u \<le> x"
  proof (cases "sig_exp b p emin y = ?s")
    case True
    then show ?thesis using y(2,3) by (intro exI [of _ "rhe (y / ?u)"]) (simp add: round_pos_def Let_def)
  next
    case False
    have le: "ilog b y \<le> ilog b x" by (rule ilog_mono [OF b2 y(1,2)])
    with False have lt: "ilog b y < ilog b x" and s: "ilog b x = int (p - 1) + ?s"
      using p1 by (auto simp: sig_exp_def max_def split: if_splits)
    have "y < of_nat b powi ilog b x" using ilog_less_iff [OF b2 y(1)] lt by blast
    moreover have "(of_nat b :: rat) powi ilog b x = of_int (int b ^ (p - 1)) * ?u"
      unfolding s using base_gt_1 by (subst power_int_add) (simp_all add: s [symmetric])
    moreover have "of_nat b powi ilog b x \<le> x" using ilog_bounds(1) [OF b2 x] by simp
    ultimately show ?thesis by (intro exI [of _ "int b ^ (p - 1)"]) simp
  qed
  then obtain m where m: "y \<le> of_int m * ?u" "of_int m * ?u \<le> x" by blast
  from round_pos_grid [OF x m(2)] m(1) show ?thesis by linarith
qed

end

lemma fl_up:
  assumes "is_float c" "0 \<le> e" "- 2 * e \<le> c"
  shows "fl (c + e) \<le> c + 2 * e"
proof -
  consider "c + e \<le> 0" | "0 < c + e" "c \<le> 0" | "0 < c" "0 < c + e" by linarith
  then show ?thesis
  proof cases
    case 1
    then show ?thesis using f64.rnd_nonpos [of "c + e"] assms(3) by linarith
  next
    case 2
    with f64.round_pos_grid [of "c + e" 0] show ?thesis by (simp add: fl_def round_sig_def)
  next
    case 3
    with assms(1,2) f64.round_pos_up [of "c + e" c] show ?thesis by (simp add: fl_def round_sig_def is_float_def)
  qed
qed

end
