(* ===== verification/V2_Config.thy ===== *)
theory V2_Config
  imports Py_Num
begin

text \<open>
  \<open>talonx_v2/config.py\<close>: the frozen strategy contract.  The record has the fields the lane reads;
  the names of Redis channels and the database path are I/O and are left out.
\<close>

record v2_config =
  cluster_window_trading_days :: int
  min_distinct_owners :: nat
  cfg_transaction_code :: string
  entry_offset_sessions :: int
  hold_trading_days :: int
  stop_loss_enabled :: bool
  exit_fallforward_max_sessions :: int
  max_concurrent_positions :: nat
  reentry_cooldown_trading_days :: int
  allow_adds :: bool
  allow_shorts :: bool
  allow_real_capital :: bool
  liquidity_lookback_sessions :: nat
  liquidity_min_median_dollar_volume :: money
  liquidity_min_close :: money
  per_position_allocation_usd :: money
  starting_cash_usd :: money
  friction_bps :: money
  campaign_id :: string
  execution_mode :: string
  max_entry_staleness_sessions :: int

definition default_config :: v2_config where
  "default_config =
     \<lparr> cluster_window_trading_days = 10, min_distinct_owners = 2, cfg_transaction_code = ''P'',
       entry_offset_sessions = 1, hold_trading_days = 10, stop_loss_enabled = False,
       exit_fallforward_max_sessions = 5, max_concurrent_positions = 20,
       reentry_cooldown_trading_days = 5, allow_adds = False, allow_shorts = False,
       allow_real_capital = False, liquidity_lookback_sessions = 20,
       liquidity_min_median_dollar_volume = 5000000, liquidity_min_close = 5,
       per_position_allocation_usd = 10000, starting_cash_usd = 100000, friction_bps = 20,
       campaign_id = ''V2'', execution_mode = ''PAPER'', max_entry_staleness_sessions = 3 \<rparr>"

text \<open>\<open>validate_frozen\<close>: one assertion per frozen value.\<close>

definition validate_frozen :: "v2_config \<Rightarrow> unit result" where
  "validate_frozen cfg =
     (if cluster_window_trading_days cfg = 10 \<and> min_distinct_owners cfg = 2
         \<and> cfg_transaction_code cfg = ''P'' \<and> hold_trading_days cfg = 10
         \<and> entry_offset_sessions cfg = 1 \<and> max_concurrent_positions cfg = 20
         \<and> reentry_cooldown_trading_days cfg = 5 \<and> \<not> allow_shorts cfg
         \<and> \<not> allow_real_capital cfg \<and> \<not> stop_loss_enabled cfg
         \<and> liquidity_min_median_dollar_volume cfg = 5000000 \<and> liquidity_min_close cfg = 5
         \<and> liquidity_lookback_sessions cfg = 20 \<and> exit_fallforward_max_sessions cfg = 5
         \<and> 0 \<le> max_entry_staleness_sessions cfg
      then Inr () else Inl AssertionError)"

lemma validate_frozen_InrD:
  assumes "validate_frozen cfg = Inr u"
  shows "cluster_window_trading_days cfg = 10" "min_distinct_owners cfg = 2"
    "cfg_transaction_code cfg = ''P''" "hold_trading_days cfg = 10"
    "max_concurrent_positions cfg = 20" "reentry_cooldown_trading_days cfg = 5"
    "liquidity_lookback_sessions cfg = 20" "exit_fallforward_max_sessions cfg = 5"
    "\<not> allow_shorts cfg" "\<not> allow_real_capital cfg"
  using assms by (auto simp: validate_frozen_def split: if_splits)

lemma validate_default [simp]: "validate_frozen default_config = Inr ()"
  by (simp add: validate_frozen_def default_config_def)

end
