(* ===== verification/V2_Calendar.thy ===== *)
theory V2_Calendar
  imports Prelude
begin

text \<open>
  \<open>talonx_v2/calendar.py\<close>: trading-session arithmetic.  The session list comes from the
  third-party package \<open>exchange_calendars\<close>; it is the argument \<open>sess\<close> of every definition, and what
  the code relies on (dates in strictly increasing order) is the hypothesis \<open>calendar_ok\<close>.  The
  official open and close instants of a session are the arguments \<open>sopen\<close> and \<open>sclose\<close>.
\<close>

definition calendar_ok :: "date list \<Rightarrow> bool" where
  "calendar_ok sess \<longleftrightarrow> sorted sess \<and> distinct sess"

section \<open>Definitions\<close>

text \<open>\<open>_ord_map().get(d)\<close>: the index of a session date.\<close>

fun index_from :: "nat \<Rightarrow> date list \<Rightarrow> date \<Rightarrow> nat option" where
  "index_from i [] d = None"
| "index_from i (s # ss) d = (if s = d then Some i else index_from (Suc i) ss d)"

definition ord_map :: "date list \<Rightarrow> date \<Rightarrow> nat option" where
  "ord_map sess d = index_from 0 sess d"

definition is_session :: "date list \<Rightarrow> date \<Rightarrow> bool" where
  "is_session sess d \<longleftrightarrow> d \<in> set sess"

definition next_session_on_or_after :: "date list \<Rightarrow> date \<Rightarrow> date result" where
  "next_session_on_or_after sess d =
     (case find (\<lambda>s. d \<le> s) sess of Some s \<Rightarrow> Inr s | None \<Rightarrow> Inl ValueError)"

definition next_session_strictly_after :: "date list \<Rightarrow> date \<Rightarrow> date result" where
  "next_session_strictly_after sess d =
     (case find (\<lambda>s. d < s) sess of Some s \<Rightarrow> Inr s | None \<Rightarrow> Inl ValueError)"

text \<open>The backward scan \<open>for k in range(len(sess) - 1, -1, -1)\<close>.\<close>

fun last_on_or_before :: "date list \<Rightarrow> date \<Rightarrow> nat \<Rightarrow> nat result" where
  "last_on_or_before sess d 0 = Inl ValueError"
| "last_on_or_before sess d (Suc k) =
     (if sess ! k \<le> d then Inr k else last_on_or_before sess d k)"

definition session_ordinal :: "date list \<Rightarrow> date \<Rightarrow> bool \<Rightarrow> nat result" where
  "session_ordinal sess d anchor_forward =
     (case ord_map sess d of
        Some i \<Rightarrow> Inr i
      | None \<Rightarrow>
          if anchor_forward
          then bindR (next_session_on_or_after sess d)
                 (\<lambda>s. case ord_map sess s of Some i \<Rightarrow> Inr i | None \<Rightarrow> Inl KeyError)
          else last_on_or_before sess d (length sess))"

text \<open>
  The range check is \<open>j >= len(sess)\<close> only: the pipeline also calls this with a negative \<open>n\<close>, and a
  negative index \<open>j\<close> reads the list from its end, as Python does.
\<close>

definition add_sessions :: "date list \<Rightarrow> date \<Rightarrow> int \<Rightarrow> date result" where
  "add_sessions sess d n =
     bindR (case ord_map sess d of
              Some i \<Rightarrow> Inr i
            | None \<Rightarrow> bindR (next_session_on_or_after sess d)
                (\<lambda>s. case ord_map sess s of Some i \<Rightarrow> Inr i | None \<Rightarrow> Inl KeyError))
       (\<lambda>i. let j = int i + n
             in if int (length sess) \<le> j then Inl ValueError else py_index sess j)"

definition sessions_between :: "date list \<Rightarrow> date \<Rightarrow> date \<Rightarrow> int" where
  "sessions_between sess a b =
     (if b \<le> a then 0 else int (length (filter (\<lambda>s. a < s \<and> s \<le> b) sess)))"

definition trading_days_elapsed :: "date list \<Rightarrow> date \<Rightarrow> date \<Rightarrow> int result" where
  "trading_days_elapsed sess a b =
     (if b < a then Inr 0
      else bindR (session_ordinal sess a True) (\<lambda>ia.
           bindR (session_ordinal sess b False) (\<lambda>ib. Inr (max 0 (int ib - int ia)))))"

definition recovery_deadline_session :: "date list \<Rightarrow> date \<Rightarrow> int \<Rightarrow> date result" where
  "recovery_deadline_session sess eligible max_staleness =
     add_sessions sess eligible (max 0 (max_staleness - 1))"

text \<open>\<open>sclose d\<close> is the official close of session \<open>d\<close>, \<open>now\<close> the wall clock.\<close>

definition recovery_deadline_passed ::
    "date list \<Rightarrow> (date \<Rightarrow> stamp) \<Rightarrow> stamp \<Rightarrow> date \<Rightarrow> int \<Rightarrow> date \<Rightarrow> bool \<Rightarrow> bool result" where
  "recovery_deadline_passed sess sclose now eligible max_staleness ripe_through live =
     bindR (recovery_deadline_session sess eligible max_staleness) (\<lambda>deadline.
       Inr (if live then sclose deadline < now else deadline < ripe_through))"

text \<open>\<open>EXTENDED_SESSION_AFTER_CLOSE_HOURS = 4\<close>: the post-market session ends four hours after the close.\<close>

definition session_extended_end_utc :: "(date \<Rightarrow> stamp) \<Rightarrow> date \<Rightarrow> stamp" where
  "session_extended_end_utc sclose d = sclose d + 4 * 3600 * 1000000"

section \<open>The session list as an order isomorphism\<close>

lemma index_from_Some:
  "index_from i ss d = Some k \<Longrightarrow> i \<le> k \<and> k < i + length ss \<and> ss ! (k - i) = d"
proof (induction i ss d rule: index_from.induct)
  case (2 i s ss d)
  then show ?case by (cases "s = d") (auto simp: nth_Cons' split: if_splits)
qed simp

lemma index_from_None: "index_from i ss d = None \<longleftrightarrow> d \<notin> set ss"
  by (induction i ss d rule: index_from.induct) auto

lemma ord_map_Some: "ord_map sess d = Some k \<Longrightarrow> k < length sess \<and> sess ! k = d"
  using index_from_Some [of 0 sess d k] by (simp add: ord_map_def)

lemma ord_map_None: "ord_map sess d = None \<longleftrightarrow> d \<notin> set sess"
  by (simp add: ord_map_def index_from_None)

lemma calendar_nth_mono: "calendar_ok sess \<Longrightarrow> i \<le> j \<Longrightarrow> j < length sess \<Longrightarrow> sess ! i \<le> sess ! j"
  by (simp add: calendar_ok_def sorted_nth_mono)

lemma calendar_nth_less:
  "calendar_ok sess \<Longrightarrow> i < j \<Longrightarrow> j < length sess \<Longrightarrow> sess ! i < sess ! j"
  using calendar_nth_mono [of sess i j] nth_eq_iff_index_eq [of sess i j]
  by (fastforce simp: calendar_ok_def)

lemma calendar_nth_less_iff:
  assumes "calendar_ok sess" "i < length sess" "j < length sess"
  shows "sess ! i < sess ! j \<longleftrightarrow> i < j"
  using calendar_nth_less [OF assms(1)] assms(2,3)
  by (metis linorder_neqE_nat order_less_asym order_less_irrefl)

lemma calendar_nth_le_iff:
  assumes "calendar_ok sess" "i < length sess" "j < length sess"
  shows "sess ! i \<le> sess ! j \<longleftrightarrow> i \<le> j"
  using calendar_nth_less_iff [OF assms(1,3,2)] by linarith

lemma ord_map_nth: "calendar_ok sess \<Longrightarrow> i < length sess \<Longrightarrow> ord_map sess (sess ! i) = Some i"
proof -
  assume c: "calendar_ok sess" "i < length sess"
  then have "ord_map sess (sess ! i) \<noteq> None" by (simp add: ord_map_None)
  then obtain k where k: "ord_map sess (sess ! i) = Some k" by auto
  from ord_map_Some [OF k] have "k = i"
    using c nth_eq_iff_index_eq [of sess k i] by (simp add: calendar_ok_def)
  with k show ?thesis by simp
qed

lemma session_nth: "is_session sess d \<Longrightarrow> \<exists>i < length sess. d = sess ! i"
  by (auto simp: is_session_def in_set_conv_nth)

section \<open>The next session\<close>

lemma find_first_Some:
  assumes "find P xs = Some x"
  shows "\<exists>i < length xs. x = xs ! i \<and> P x \<and> (\<forall>j < i. \<not> P (xs ! j))"
  using assms by (auto simp: find_Some_iff)

lemma next_strictly_after_spec:
  assumes cal: "calendar_ok sess" and r: "next_session_strictly_after sess d = Inr s"
  shows "is_session sess s \<and> d < s \<and> (\<forall>u. is_session sess u \<longrightarrow> d < u \<longrightarrow> s \<le> u)"
proof -
  from r have "find (\<lambda>s. d < s) sess = Some s"
    by (auto simp: next_session_strictly_after_def split: option.splits)
  from find_first_Some [OF this] obtain i where
    i: "i < length sess" "s = sess ! i" "d < s" "\<forall>j < i. \<not> d < sess ! j" by blast
  have "s \<le> u" if u: "is_session sess u" "d < u" for u
  proof -
    from session_nth [OF u(1)] obtain j where j: "j < length sess" "u = sess ! j" by blast
    with i(4) u(2) have "i \<le> j" by (meson leI)
    then show ?thesis using calendar_nth_mono [OF cal] j i(2) by simp
  qed
  with i show ?thesis by (auto simp: is_session_def)
qed

lemma next_on_or_after_spec:
  assumes cal: "calendar_ok sess" and r: "next_session_on_or_after sess d = Inr s"
  shows "is_session sess s \<and> d \<le> s \<and> (\<forall>u. is_session sess u \<longrightarrow> d \<le> u \<longrightarrow> s \<le> u)"
proof -
  from r have "find (\<lambda>s. d \<le> s) sess = Some s"
    by (auto simp: next_session_on_or_after_def split: option.splits)
  from find_first_Some [OF this] obtain i where
    i: "i < length sess" "s = sess ! i" "d \<le> s" "\<forall>j < i. \<not> d \<le> sess ! j" by blast
  have "s \<le> u" if u: "is_session sess u" "d \<le> u" for u
  proof -
    from session_nth [OF u(1)] obtain j where j: "j < length sess" "u = sess ! j" by blast
    with i(4) u(2) have "i \<le> j" by (meson leI)
    then show ?thesis using calendar_nth_mono [OF cal] j i(2) by simp
  qed
  with i show ?thesis by (auto simp: is_session_def)
qed

lemma next_on_or_after_session:
  "calendar_ok sess \<Longrightarrow> is_session sess d \<Longrightarrow> next_session_on_or_after sess d = Inr d"
proof -
  assume cal: "calendar_ok sess" and d: "is_session sess d"
  then have "find (\<lambda>s. d \<le> s) sess \<noteq> None" by (auto simp: find_None_iff is_session_def)
  then obtain s where s: "next_session_on_or_after sess d = Inr s"
    by (auto simp: next_session_on_or_after_def)
  from next_on_or_after_spec [OF cal s] d have "s = d" by fastforce
  with s show ?thesis by simp
qed

lemma next_strictly_after_fails_iff:
  "next_session_strictly_after sess d = Inl e \<longleftrightarrow> e = ValueError \<and> (\<forall>s \<in> set sess. s \<le> d)"
proof (cases "find (\<lambda>s. d < s) sess")
  case None
  then have "\<forall>s \<in> set sess. s \<le> d" by (auto simp: find_None_iff not_less)
  with None show ?thesis by (auto simp: next_session_strictly_after_def)
next
  case (Some s)
  then have "s \<in> set sess" "d < s" using find_first_Some [OF Some] by auto
  with Some show ?thesis by (auto simp: next_session_strictly_after_def not_le)
qed

section \<open>Adding and counting sessions\<close>

lemma add_sessions_nth:
  assumes cal: "calendar_ok sess" and i: "i < length sess" and n: "0 \<le> int i + n"
  shows "add_sessions sess (sess ! i) n =
    (if int i + n < int (length sess) then Inr (sess ! nat (int i + n)) else Inl ValueError)"
  using n by (simp add: add_sessions_def ord_map_nth [OF cal i] Let_def)

lemma add_sessions_session:
  assumes cal: "calendar_ok sess" and d: "is_session sess d" and n: "0 \<le> n"
    and r: "add_sessions sess d n = Inr s"
  shows "is_session sess s \<and> sessions_between sess d s = n \<and> d \<le> s"
proof -
  from session_nth [OF d] obtain i where i: "i < length sess" "d = sess ! i" by blast
  let ?j = "nat (int i + n)"
  from r i n have j: "?j < length sess" "s = sess ! ?j"
    using add_sessions_nth [OF cal i(1), of n] by (auto split: if_splits)
  have ij: "i \<le> ?j" "int ?j - int i = n" using n by simp_all
  have ds: "d \<le> s" using calendar_nth_mono [OF cal ij(1) j(1)] i(2) j(2) by simp
  have "filter (\<lambda>u. d < u \<and> u \<le> s) sess = drop (Suc i) (take (Suc ?j) sess)"
  proof -
    have in_range: "d < sess ! k \<and> sess ! k \<le> s \<longleftrightarrow> i < k \<and> k \<le> ?j" if "k < length sess" for k
      unfolding i(2) j(2) using that i(1) j(1) calendar_nth_less_iff [OF cal] calendar_nth_le_iff [OF cal]
      by simp
    have "sess = take (Suc i) sess @ drop (Suc i) (take (Suc ?j) sess) @ drop (Suc ?j) sess"
      using ij(1) by (metis append_take_drop_id append_assoc drop_take le_imp_less_Suc
          less_imp_le_nat take_add Suc_le_mono le_add_diff_inverse)
    moreover have "filter (\<lambda>u. d < u \<and> u \<le> s) (take (Suc i) sess) = []"
    proof -
      have "\<not> (d < sess ! k \<and> sess ! k \<le> s)" if "k < Suc i" for k
        using in_range [of k] that i(1) by simp
      then show ?thesis by (auto simp: filter_empty_conv in_set_conv_nth)
    qed
    moreover have "filter (\<lambda>u. d < u \<and> u \<le> s) (drop (Suc ?j) sess) = []"
    proof -
      have "\<not> (d < sess ! (Suc ?j + k) \<and> sess ! (Suc ?j + k) \<le> s)"
        if "k < length sess - Suc ?j" for k
        using in_range [of "Suc ?j + k"] that by simp
      then show ?thesis by (auto simp: filter_empty_conv in_set_conv_nth)
    qed
    moreover have "filter (\<lambda>u. d < u \<and> u \<le> s) (drop (Suc i) (take (Suc ?j) sess)) =
        drop (Suc i) (take (Suc ?j) sess)"
    proof -
      have "d < sess ! (Suc i + k) \<and> sess ! (Suc i + k) \<le> s" if "k < ?j - i" for k
        using in_range [of "Suc i + k"] that j(1) by simp
      then show ?thesis using j(1) by (auto simp: filter_id_conv in_set_conv_nth)
    qed
    ultimately show ?thesis by (metis append_Nil append_Nil2 filter_append)
  qed
  then have "length (filter (\<lambda>u. d < u \<and> u \<le> s) sess) = ?j - i" using j(1) by simp
  then have "sessions_between sess d s = n"
    using ds ij n by (auto simp: sessions_between_def of_nat_diff split: if_splits)
  with ds j show ?thesis by (auto simp: is_session_def)
qed

lemma add_sessions_is_session: "add_sessions sess d n = Inr s \<Longrightarrow> is_session sess s"
  by (auto simp: add_sessions_def bindR_def Let_def is_session_def split: sum.splits if_splits
      dest: py_index_InrD)

lemma add_sessions_ge:
  assumes cal: "calendar_ok sess" and n: "0 \<le> n" and r: "add_sessions sess d n = Inr s"
  shows "d \<le> s"
proof (cases "is_session sess d")
  case True
  with add_sessions_session [OF cal True n r] show ?thesis by simp
next
  case False
  then have "ord_map sess d = None" by (simp add: ord_map_None is_session_def)
  with r obtain u where u: "next_session_on_or_after sess d = Inr u" "add_sessions sess u n = Inr s"
    by (auto simp: add_sessions_def bindR_def split: sum.splits option.splits)
  from next_on_or_after_spec [OF cal u(1)] have "is_session sess u" "d \<le> u" by auto
  with add_sessions_session [OF cal _ n u(2)] show ?thesis by auto
qed

section \<open>Ordinals anchored forward\<close>

lemma session_ordinal_forward:
  assumes cal: "calendar_ok sess" and r: "session_ordinal sess d True = Inr i"
  shows "i < length sess \<and> d \<le> sess ! i \<and> (\<forall>j < i. sess ! j < d)"
proof (cases "ord_map sess d")
  case None
  with r obtain s where s: "next_session_on_or_after sess d = Inr s" "ord_map sess s = Some i"
    by (auto simp: session_ordinal_def bindR_def split: sum.splits option.splits)
  have i: "i < length sess" "sess ! i = s" using ord_map_Some [OF s(2)] by auto
  from next_on_or_after_spec [OF cal s(1)]
  have sp: "d \<le> s" "\<And>u. is_session sess u \<Longrightarrow> d \<le> u \<Longrightarrow> s \<le> u" by auto
  have "sess ! j < d" if "j < i" for j
    using sp(2) [of "sess ! j"] calendar_nth_less [OF cal that i(1)] i that
    by (force simp: is_session_def)
  with i sp show ?thesis by simp
next
  case (Some k)
  with r have "k = i" by (simp add: session_ordinal_def)
  with ord_map_Some [OF Some] calendar_nth_less [OF cal] show ?thesis by auto
qed

lemma session_ordinal_forward_mono:
  assumes cal: "calendar_ok sess" and "d \<le> e"
    and "session_ordinal sess d True = Inr i" "session_ordinal sess e True = Inr j"
  shows "i \<le> j"
proof (rule ccontr)
  assume "\<not> i \<le> j"
  then have "sess ! j < d" using session_ordinal_forward [OF cal assms(3)] by simp
  moreover have "e \<le> sess ! j" using session_ordinal_forward [OF cal assms(4)] by simp
  ultimately show False using \<open>d \<le> e\<close> by simp
qed

section \<open>Round trip\<close>

text \<open>
  C40. Session arithmetic round-trips: the session \<open>n\<close> trading days after a session is \<open>n\<close> elapsed trading
  days later, has exactly \<open>n\<close> sessions in between, and going back \<open>n\<close> sessions from it returns to the start.
\<close>

theorem session_arithmetic_round_trips:
  assumes "calendar_ok sess" "is_session sess d" "0 \<le> n" "add_sessions sess d n = Inr s"
  shows "trading_days_elapsed sess d s = Inr n \<and> sessions_between sess d s = n \<and> add_sessions sess s (- n) = Inr d"
proof -
  from session_nth [OF assms(2)] obtain i where i: "i < length sess" "d = sess ! i" by blast
  let ?j = "nat (int i + n)"
  from assms(3,4) i have j: "?j < length sess" "s = sess ! ?j" and ij: "int ?j = int i + n"
    using add_sessions_nth [OF assms(1) i(1), of n] by (auto split: if_splits)
  have ds: "d \<le> s" "sessions_between sess d s = n" using add_sessions_session [OF assms] by simp_all
  have "ord_map sess d = Some i" "ord_map sess s = Some ?j" using ord_map_nth [OF assms(1)] i j by simp_all
  then have "trading_days_elapsed sess d s = Inr n"
    using ds(1) ij assms(3) by (simp add: trading_days_elapsed_def session_ordinal_def)
  moreover have "add_sessions sess s (- n) = Inr d"
    using add_sessions_nth [OF assms(1) j(1), of "- n"] ij i j(2) by simp
  ultimately show ?thesis using ds(2) by simp
qed

theorem session_arithmetic_round_trips_witness: "trading_days_elapsed (map int [100..<130]) 110 120 = Inr 10"
proof -
  have "calendar_ok (map int [100..<130])" "is_session (map int [100..<130]) 110"
    by (simp_all add: calendar_ok_def is_session_def distinct_map image_iff inj_on_def)
  moreover have "add_sessions (map int [100..<130]) 110 10 = Inr 120" by code_simp
  ultimately show ?thesis using session_arithmetic_round_trips [of "map int [100..<130]" 110 10 120] by simp
qed

end
