(* ===== verification/V2_Cluster.thy ===== *)
theory V2_Cluster
  imports V2_Config V2_Calendar
begin

text \<open>
  \<open>talonx_v2/cluster_engine.py\<close>: the insider buy-cluster detector.  The purchase records of one
  issuer are filtered, de-duplicated and sorted; a greedy scan then cuts the list into windows of
  at most \<open>cluster_window_trading_days\<close> sessions and emits one episode for every window with enough
  distinct owners.  \<open>sha\<close> stands for the first 16 hex digits of SHA-256.
\<close>

section \<open>Data\<close>

record purchase_record =
  pr_symbol :: symbol
  pr_issuer_cik :: string
  pr_owner_cik :: string
  pr_filing_date :: date
  pr_accession :: string
  pr_transaction_date :: "date option"
  pr_transaction_value :: "money option"
  pr_is_officer :: bool
  pr_is_director :: bool
  pr_is_ten_percent :: bool
  pr_transaction_code :: string

record cluster_episode =
  episode_id :: string
  ep_symbol :: symbol
  ep_issuer_cik :: string
  distinct_owner_ciks :: "string list"
  n_distinct_owners :: nat
  n_filings :: nat
  first_filing_date :: date
  activation_filing_date :: date
  last_filing_date :: date
  aggregate_purchase_value :: money
  any_officer :: bool
  any_director :: bool
  any_ten_percent :: bool
  causal_event_ts :: stamp
  eligible_entry_session :: date

text \<open>\<open>transaction_value or 0.0\<close>\<close>

definition value_or_0 :: "purchase_record \<Rightarrow> money" where
  "value_or_0 r = (case pr_transaction_value r of None \<Rightarrow> 0 | Some v \<Rightarrow> v)"

definition dedupe_key :: "purchase_record \<Rightarrow> string \<times> string \<times> date option \<times> money" where
  "dedupe_key r = (pr_accession r, pr_owner_cik r, pr_transaction_date r, py_round2 (value_or_0 r))"

definition make_episode_id ::
    "(string \<Rightarrow> string) \<Rightarrow> symbol \<Rightarrow> string list \<Rightarrow> date \<Rightarrow> date \<Rightarrow> string" where
  "make_episode_id sha sy owners first_filing activation =
     sha (upper sy @ ''|'' @ join_with '',''  (sort owners) @ ''|'' @ isoformat first_filing
          @ ''|'' @ isoformat activation)"

section \<open>Cleaning the records\<close>

definition dedupe :: "purchase_record list \<Rightarrow> purchase_record list" where
  "dedupe rs =
     dedup_by dedupe_key [] (sort_key (\<lambda>x. (pr_filing_date x, pr_owner_cik x, pr_accession x)) rs)"

definition eligible_record :: "v2_config \<Rightarrow> purchase_record \<Rightarrow> bool" where
  "eligible_record cfg r \<longleftrightarrow>
     upper (pr_transaction_code r) = cfg_transaction_code cfg \<and> pr_owner_cik r \<noteq> []"

section \<open>The greedy scan\<close>

text \<open>
  The filing date at which the \<open>k\<close>-th distinct owner first appears; the last date of the window
  if there is no such owner.
\<close>

fun activation_date :: "nat \<Rightarrow> string list \<Rightarrow> date \<Rightarrow> purchase_record list \<Rightarrow> date" where
  "activation_date k seen dflt [] = dflt"
| "activation_date k seen dflt (r # rs) =
     (if pr_owner_cik r \<in> set seen then activation_date k seen dflt rs
      else if Suc (length seen) = k then pr_filing_date r
      else activation_date k (seen @ [pr_owner_cik r]) dflt rs)"

definition owners_of :: "purchase_record list \<Rightarrow> string list" where
  "owners_of rs = uniq (map pr_owner_cik rs)"

definition window_activation :: "v2_config \<Rightarrow> purchase_record list \<Rightarrow> date" where
  "window_activation cfg w = activation_date (min_distinct_owners cfg) [] (pr_filing_date (last w)) w"

definition qualifying :: "v2_config \<Rightarrow> purchase_record list \<Rightarrow> purchase_record list" where
  "qualifying cfg w = filter (\<lambda>r. pr_filing_date r \<le> window_activation cfg w) w"

definition build_episode ::
    "(string \<Rightarrow> string) \<Rightarrow> date list \<Rightarrow> v2_config \<Rightarrow> purchase_record list \<Rightarrow> cluster_episode result" where
  "build_episode sha sess cfg w =
     (let act = window_activation cfg w; q = qualifying cfg w; ids = owners_of q
      in bindR (next_session_strictly_after sess act) (\<lambda>entry. Inr
        \<lparr> episode_id = make_episode_id sha (pr_symbol (hd w)) ids (pr_filing_date (hd w)) act,
          ep_symbol = upper (pr_symbol (hd w)), ep_issuer_cik = pr_issuer_cik (hd w),
          distinct_owner_ciks = ids, n_distinct_owners = length ids, n_filings = length q,
          first_filing_date = pr_filing_date (hd w), activation_filing_date = act,
          last_filing_date = pr_filing_date (last q),
          aggregate_purchase_value = py_round2 (py_sum (filter (\<lambda>v. 0 < v) (map value_or_0 q))),
          any_officer = list_ex pr_is_officer q, any_director = list_ex pr_is_director q,
          any_ten_percent = list_ex pr_is_ten_percent q,
          causal_event_ts = end_of_day_utc act, eligible_entry_session = entry \<rparr>))"

text \<open>
  The scan runs over the records paired with their session ordinals.  The window of the first record
  is the longest run whose ordinals stay within the window; a window with enough owners becomes
  an episode and is consumed whole, otherwise the scan moves on by one record.
\<close>

definition in_window :: "v2_config \<Rightarrow> nat \<Rightarrow> purchase_record \<times> nat \<Rightarrow> bool" where
  "in_window cfg start p \<longleftrightarrow> int (snd p) - int start \<le> cluster_window_trading_days cfg"

definition window_at :: "v2_config \<Rightarrow> (purchase_record \<times> nat) list \<Rightarrow> purchase_record list" where
  "window_at cfg ps = (case ps of [] \<Rightarrow> [] | p # rest \<Rightarrow>
     fst p # map fst (takeWhile (in_window cfg (snd p)) rest))"

function greedy_windows :: "v2_config \<Rightarrow> (purchase_record \<times> nat) list \<Rightarrow> purchase_record list list" where
  "greedy_windows cfg [] = []"
| "greedy_windows cfg (p # rest) =
     (if min_distinct_owners cfg \<le> length (owners_of (window_at cfg (p # rest)))
      then window_at cfg (p # rest) # greedy_windows cfg (dropWhile (in_window cfg (snd p)) rest)
      else greedy_windows cfg rest)"
  by pat_completeness auto
termination
  by (relation "measure (\<lambda>(cfg, ps). length ps)") (auto simp: le_imp_less_Suc length_dropWhile_le)

definition clean_records :: "v2_config \<Rightarrow> purchase_record list \<Rightarrow> purchase_record list" where
  "clean_records cfg rs =
     sort_key (\<lambda>r. (pr_filing_date r, pr_owner_cik r)) (dedupe (filter (eligible_record cfg) rs))"

definition detect_episodes_for_issuer ::
    "(string \<Rightarrow> string) \<Rightarrow> date list \<Rightarrow> v2_config \<Rightarrow> purchase_record list \<Rightarrow> cluster_episode list result" where
  "detect_episodes_for_issuer sha sess cfg rs =
     (if length (dedupe (filter (eligible_record cfg) rs)) < min_distinct_owners cfg then Inr []
      else let recs = clean_records cfg rs
           in bindR (mapR (\<lambda>r. session_ordinal sess (pr_filing_date r) True) recs) (\<lambda>ords.
                mapR (build_episode sha sess cfg) (greedy_windows cfg (zip recs ords))))"

definition detect_episodes ::
    "(string \<Rightarrow> string) \<Rightarrow> date list \<Rightarrow> v2_config \<Rightarrow> purchase_record list \<Rightarrow> cluster_episode list result" where
  "detect_episodes sha sess cfg rs =
     (let syms = sort (uniq (map (\<lambda>r. upper (pr_symbol r)) rs))
      in bindR (mapR (\<lambda>s. detect_episodes_for_issuer sha sess cfg
                             (filter (\<lambda>r. upper (pr_symbol r) = s) rs)) syms)
           (\<lambda>ess. Inr (sort_key (\<lambda>e. (eligible_entry_session e, ep_symbol e)) (concat ess))))"

section \<open>The activation date\<close>

definition owners_upto :: "(date \<Rightarrow> bool) \<Rightarrow> purchase_record list \<Rightarrow> string set" where
  "owners_upto P w = pr_owner_cik ` {r \<in> set w. P (pr_filing_date r)}"

lemma finite_owners_upto [simp]: "finite (owners_upto P w)"
  by (simp add: owners_upto_def)

lemma owners_upto_simps [simp]:
  "owners_upto P [] = {}"
  "owners_upto P (r # w) =
     (if P (pr_filing_date r) then insert (pr_owner_cik r) (owners_upto P w) else owners_upto P w)"
  by (auto simp: owners_upto_def)

lemma owners_upto_empty: "(\<And>r. r \<in> set w \<Longrightarrow> \<not> P (pr_filing_date r)) \<Longrightarrow> owners_upto P w = {}"
  by (auto simp: owners_upto_def)

lemma set_owners_of: "set (owners_of w) = owners_upto (\<lambda>_. True) w"
  by (auto simp: owners_of_def owners_upto_def)

lemma length_owners_of: "length (owners_of w) = card (owners_upto (\<lambda>_. True) w)"
  unfolding owners_of_def length_uniq by (rule arg_cong [where f = card]) (auto simp: owners_upto_def)

text \<open>
  Before the activation date fewer than \<open>k\<close> distinct owners have filed, on it the \<open>k\<close>-th has: the
  loop over \<open>seen\<close> needs the owners seen so far in the statement.
\<close>

lemma activation_date_spec_aux:
  assumes "sorted (map pr_filing_date w)" "length seen < k" "distinct seen"
    and "k \<le> card (set seen \<union> owners_upto (\<lambda>_. True) w)"
  shows "activation_date k seen d w \<in> pr_filing_date ` set w
    \<and> k \<le> card (set seen \<union> owners_upto (\<lambda>x. x \<le> activation_date k seen d w) w)
    \<and> card (set seen \<union> owners_upto (\<lambda>x. x < activation_date k seen d w) w) < k"
  using assms
proof (induction w arbitrary: seen)
  case Nil
  then show ?case by (simp add: distinct_card)
next
  case (Cons r w)
  let ?o = "pr_owner_cik r" and ?f = "pr_filing_date r"
  have sorted: "sorted (map pr_filing_date w)" and fr: "\<And>x. x \<in> set w \<Longrightarrow> ?f \<le> pr_filing_date x"
    using Cons.prems(1) by auto
  consider (old) "?o \<in> set seen" | (hit) "?o \<notin> set seen" "Suc (length seen) = k"
    | (new) "?o \<notin> set seen" "Suc (length seen) \<noteq> k" by blast
  then show ?case
  proof cases
    case old
    have un: "set seen \<union> owners_upto P (r # w) = set seen \<union> owners_upto P w" for P
      using old by auto
    have act: "activation_date k seen d (r # w) = activation_date k seen d w" using old by simp
    show ?thesis unfolding un act
      using Cons.IH [OF sorted Cons.prems(2,3)] Cons.prems(4) unfolding un by simp
  next
    case hit
    have none: "owners_upto (\<lambda>x. x < ?f) w = {}" using fr by (intro owners_upto_empty) fastforce
    have "k = card (set (?o # seen))" using hit Cons.prems(3) by (simp add: distinct_card)
    also have "\<dots> \<le> card (set seen \<union> owners_upto (\<lambda>x. x \<le> ?f) (r # w))"
      by (intro card_mono) auto
    finally show ?thesis using hit none Cons.prems(2,3) by (simp add: distinct_card)
  next
    case new
    let ?seen = "seen @ [?o]" and ?a = "activation_date k (seen @ [?o]) d w"
    have un: "set ?seen \<union> owners_upto P w = set seen \<union> insert ?o (owners_upto P w)" for P by auto
    have "length ?seen < k" "distinct ?seen" using new Cons.prems(2,3) by auto
    moreover have "k \<le> card (set ?seen \<union> owners_upto (\<lambda>_. True) w)"
      using Cons.prems(4) unfolding un by simp
    ultimately have IH: "?a \<in> pr_filing_date ` set w"
      "k \<le> card (set ?seen \<union> owners_upto (\<lambda>x. x \<le> ?a) w)"
      "card (set ?seen \<union> owners_upto (\<lambda>x. x < ?a) w) < k"
      using Cons.IH [OF sorted] by blast+
    have le: "?f \<le> ?a" using IH(1) fr by auto
    have "card (set seen \<union> owners_upto (\<lambda>x. x < ?a) (r # w)) \<le>
        card (set ?seen \<union> owners_upto (\<lambda>x. x < ?a) w)"
      by (intro card_mono) auto
    with IH(3) have "card (set seen \<union> owners_upto (\<lambda>x. x < ?a) (r # w)) < k" by linarith
    moreover have "k \<le> card (set seen \<union> owners_upto (\<lambda>x. x \<le> ?a) (r # w))"
      using IH(2) le unfolding un by simp
    ultimately show ?thesis using IH(1) new by simp
  qed
qed

lemma window_activation_spec:
  assumes "sorted (map pr_filing_date w)" "0 < min_distinct_owners cfg"
    and "min_distinct_owners cfg \<le> length (owners_of w)"
  shows "window_activation cfg w \<in> pr_filing_date ` set w"
    and "min_distinct_owners cfg \<le> card (owners_upto (\<lambda>x. x \<le> window_activation cfg w) w)"
    and "card (owners_upto (\<lambda>x. x < window_activation cfg w) w) < min_distinct_owners cfg"
  using activation_date_spec_aux [of w "[]" "min_distinct_owners cfg" "pr_filing_date (last w)"] assms
  by (simp_all add: window_activation_def length_owners_of)

section \<open>The windows\<close>

lemma takeWhile_subseq: "subseq (takeWhile P xs) xs"
  by (metis takeWhile_dropWhile_id prefix_imp_subseq prefixI)

lemma window_at_prefix: "prefix (window_at cfg ps) (map fst ps)"
proof (cases ps)
  case (Cons p rest)
  have "prefix (takeWhile (in_window cfg (snd p)) rest) rest"
    by (metis takeWhile_dropWhile_id prefixI)
  then show ?thesis using Cons by (simp add: window_at_def map_mono_prefix)
qed (simp add: window_at_def)

lemma greedy_windows_subseq: "subseq (concat (greedy_windows cfg ps)) (map fst ps)"
proof (induction cfg ps rule: greedy_windows.induct)
  case (2 cfg p rest)
  show ?case
  proof (cases "min_distinct_owners cfg \<le> length (owners_of (window_at cfg (p # rest)))")
    case True
    let ?P = "in_window cfg (snd p)"
    have "subseq (map fst (takeWhile ?P rest) @ concat (greedy_windows cfg (dropWhile ?P rest)))
        (map fst (takeWhile ?P rest) @ map fst (dropWhile ?P rest))"
      by (rule list_emb_append_mono [OF subseq_order.refl "2.IH"(1) [OF True]])
    then show ?thesis using True
      by (simp add: window_at_def map_append [symmetric] del: map_append)
  next
    case False
    with "2.IH"(2) [OF False] show ?thesis by (simp add: list_emb_Cons)
  qed
qed simp

lemma greedy_windows_mem:
  "w \<in> set (greedy_windows cfg ps) \<Longrightarrow>
     \<exists>qs. suffix qs ps \<and> qs \<noteq> [] \<and> w = window_at cfg qs \<and> min_distinct_owners cfg \<le> length (owners_of w)"
proof (induction cfg ps rule: greedy_windows.induct)
  case (2 cfg p rest)
  show ?case
  proof (cases "min_distinct_owners cfg \<le> length (owners_of (window_at cfg (p # rest)))")
    case True
    show ?thesis
    proof (cases "w = window_at cfg (p # rest)")
      case False
      with True "2.prems" have "w \<in> set (greedy_windows cfg (dropWhile (in_window cfg (snd p)) rest))"
        by simp
      from "2.IH"(1) [OF True this] obtain qs where
        qs: "suffix qs (dropWhile (in_window cfg (snd p)) rest)" "qs \<noteq> []" "w = window_at cfg qs"
          "min_distinct_owners cfg \<le> length (owners_of w)" by blast
      have "suffix qs (p # rest)"
        using qs(1) suffix_dropWhile [of _ rest] by (meson suffix_ConsI suffix_order.trans)
      with qs show ?thesis by blast
    qed (use True in auto)
  next
    case False
    with "2.prems" have "w \<in> set (greedy_windows cfg rest)" by simp
    from "2.IH"(2) [OF False this] obtain qs where qs: "suffix qs rest" "qs \<noteq> []"
      "w = window_at cfg qs" "min_distinct_owners cfg \<le> length (owners_of w)"
      by blast
    have "suffix qs (p # rest)" using qs(1) by (rule suffix_ConsI)
    with qs show ?thesis by blast
  qed
qed simp

text \<open>Nothing is found only if no record starts a window with enough owners.\<close>

lemma greedy_windows_Nil:
  "greedy_windows cfg ps = [] \<Longrightarrow> suffix qs ps \<Longrightarrow> qs \<noteq> [] \<Longrightarrow>
     length (owners_of (window_at cfg qs)) < min_distinct_owners cfg"
proof (induction cfg ps rule: greedy_windows.induct)
  case (2 cfg p rest)
  then show ?case by (auto simp: suffix_Cons split: if_splits)
qed simp

text \<open>
  Records paired with their ordinals: sorted by date, hence sorted by ordinal, so that a window is
  exactly the later records within reach of its first one.
\<close>

definition ord_pairs :: "date list \<Rightarrow> (purchase_record \<times> nat) list \<Rightarrow> bool" where
  "ord_pairs sess ps \<longleftrightarrow> sorted (map (\<lambda>p. pr_filing_date (fst p)) ps) \<and>
     (\<forall>p \<in> set ps. session_ordinal sess (pr_filing_date (fst p)) True = Inr (snd p))"

lemma ord_pairs_suffix: "suffix qs ps \<Longrightarrow> ord_pairs sess ps \<Longrightarrow> ord_pairs sess qs"
  by (auto simp: ord_pairs_def suffix_def sorted_append)

lemma ord_pairs_sorted_snd:
  assumes "calendar_ok sess" "ord_pairs sess ps"
  shows "sorted (map snd ps)"
  unfolding sorted_iff_nth_mono length_map
proof (intro allI impI)
  fix i j assume ij: "i \<le> j" "j < length ps"
  then have "pr_filing_date (fst (ps ! i)) \<le> pr_filing_date (fst (ps ! j))"
    using assms(2) by (simp add: ord_pairs_def sorted_iff_nth_mono)
  from session_ordinal_forward_mono [OF assms(1) this] ij assms(2)
  show "map snd ps ! i \<le> map snd ps ! j" by (simp add: ord_pairs_def)
qed

lemma window_at_filter:
  assumes "calendar_ok sess" "ord_pairs sess (p # rest)"
  shows "window_at cfg (p # rest) = fst p # map fst (filter (in_window cfg (snd p)) rest)"
proof -
  have "sorted (map snd rest)" using ord_pairs_sorted_snd [OF assms] by simp
  then have "takeWhile (in_window cfg (snd p)) rest = filter (in_window cfg (snd p)) rest"
    by (rule takeWhile_sorted_filter) (auto simp: in_window_def)
  then show ?thesis by (simp add: window_at_def)
qed

lemma sorted_clean_records: "sorted (map pr_filing_date (clean_records cfg rs))"
proof -
  have "sorted (map (\<lambda>r. (pr_filing_date r, pr_owner_cik r)) (clean_records cfg rs))"
    by (simp add: clean_records_def)
  then show ?thesis by (auto simp: sorted_iff_nth_mono less_eq_prod_def less_le)
qed

lemma set_clean_records: "set (clean_records cfg rs) \<subseteq> {r \<in> set rs. eligible_record cfg r}"
  using dedup_by_set by (fastforce simp: clean_records_def dedupe_def)

text \<open>What a successful run of the detector consists of.\<close>

lemma detect_for_issuer_InrE:
  assumes "detect_episodes_for_issuer sha sess cfg rs = Inr es" "es \<noteq> []"
  obtains ps where "map fst ps = clean_records cfg rs" "ord_pairs sess ps"
    "mapR (build_episode sha sess cfg) (greedy_windows cfg ps) = Inr es"
proof -
  from assms obtain ords where
    o: "mapR (\<lambda>r. session_ordinal sess (pr_filing_date r) True) (clean_records cfg rs) = Inr ords"
    and e: "mapR (build_episode sha sess cfg) (greedy_windows cfg (zip (clean_records cfg rs) ords)) = Inr es"
    by (auto simp: detect_episodes_for_issuer_def Let_def bindR_Inr_iff split: if_splits)
  have len: "length ords = length (clean_records cfg rs)" using mapR_Inr_length [OF o] .
  have "ord_pairs sess (zip (clean_records cfg rs) ords)"
    using o len sorted_clean_records [of cfg rs]
    by (auto simp: ord_pairs_def map_fst_zip_comp mapR_Inr_iff list_all2_iff)
  with len e that [of "zip (clean_records cfg rs) ords"] show thesis by simp
qed

lemma length_dedupe: "length (dedupe rs) = card (dedupe_key ` set rs)"
proof -
  let ?d = "dedupe rs"
  have "distinct (map dedupe_key ?d)" by (simp add: dedupe_def dedup_by_distinct)
  then have "length ?d = card (dedupe_key ` set ?d)" by (metis distinct_card length_map set_map)
  then show ?thesis by (simp add: dedupe_def dedup_by_keys)
qed

lemma detect_for_issuer_Nil:
  assumes "detect_episodes_for_issuer sha sess cfg rs = Inr []"
    and "\<not> length (clean_records cfg rs) < min_distinct_owners cfg"
  shows "\<exists>ps. map fst ps = clean_records cfg rs \<and> ord_pairs sess ps \<and> greedy_windows cfg ps = []"
proof -
  from assms obtain ords where
    o: "mapR (\<lambda>r. session_ordinal sess (pr_filing_date r) True) (clean_records cfg rs) = Inr ords"
    and e: "mapR (build_episode sha sess cfg) (greedy_windows cfg (zip (clean_records cfg rs) ords)) = Inr []"
    by (auto simp: detect_episodes_for_issuer_def Let_def bindR_Inr_iff clean_records_def split: if_splits)
  have len: "length ords = length (clean_records cfg rs)" using mapR_Inr_length [OF o] .
  have "ord_pairs sess (zip (clean_records cfg rs) ords)"
    using o len sorted_clean_records [of cfg rs]
    by (auto simp: ord_pairs_def map_fst_zip_comp mapR_Inr_iff list_all2_iff)
  with len e show ?thesis
    by (intro exI [of _ "zip (clean_records cfg rs) ords"]) (simp add: mapR_Inr_iff)
qed

lemma suffix_window_prefix_mem:
  assumes "suffix qs ps" "r \<in> set (window_at cfg qs)"
  shows "r \<in> set (map fst ps)"
  using assms set_mono_prefix [OF window_at_prefix [of cfg qs]] set_mono_suffix [OF assms(1)] by auto

section \<open>One episode\<close>

text \<open>What an episode says of the window it is built from.\<close>

definition episode_of :: "date list \<Rightarrow> v2_config \<Rightarrow> purchase_record list \<Rightarrow> cluster_episode \<Rightarrow> bool" where
  "episode_of sess cfg w e \<longleftrightarrow>
     activation_filing_date e = window_activation cfg w
   \<and> next_session_strictly_after sess (activation_filing_date e) = Inr (eligible_entry_session e)
   \<and> distinct_owner_ciks e = owners_of (qualifying cfg w)
   \<and> n_distinct_owners e = length (distinct_owner_ciks e)
   \<and> first_filing_date e = pr_filing_date (hd w)
   \<and> last_filing_date e = pr_filing_date (last (qualifying cfg w))
   \<and> causal_event_ts e = end_of_day_utc (activation_filing_date e)
   \<and> ep_symbol e = upper (pr_symbol (hd w))"

lemma episode_ofD:
  assumes "episode_of sess cfg w e"
  shows "activation_filing_date e = window_activation cfg w"
    and "next_session_strictly_after sess (activation_filing_date e) = Inr (eligible_entry_session e)"
    and "distinct_owner_ciks e = owners_of (qualifying cfg w)"
    and "first_filing_date e = pr_filing_date (hd w)"
    and "last_filing_date e = pr_filing_date (last (qualifying cfg w))"
    and "causal_event_ts e = end_of_day_utc (activation_filing_date e)"
  by (insert assms, unfold episode_of_def, blast+)

lemma build_episode_of: "build_episode sha sess cfg w = Inr e \<Longrightarrow> episode_of sess cfg w e"
  by (auto simp: build_episode_def episode_of_def Let_def bindR_Inr_iff)

lemma set_owners_qualifying:
  "set (owners_of (qualifying cfg w)) = owners_upto (\<lambda>x. x \<le> window_activation cfg w) w"
  by (auto simp: set_owners_of owners_upto_def qualifying_def)

lemma last_qualifying:
  assumes "sorted (map pr_filing_date w)" "window_activation cfg w \<in> pr_filing_date ` set w"
  shows "pr_filing_date (last (qualifying cfg w)) = window_activation cfg w"
proof -
  let ?q = "qualifying cfg w"
  from assms(2) obtain r where r: "r \<in> set ?q" "pr_filing_date r = window_activation cfg w"
    by (auto simp: qualifying_def)
  have "sorted (map pr_filing_date ?q)" using assms(1) by (simp add: qualifying_def sorted_filter)
  from sorted_map_imp_le_last [OF this r(1)] r have "window_activation cfg w \<le> pr_filing_date (last ?q)"
    by simp
  moreover have "last ?q \<in> set ?q" using r(1) by (intro last_in_set) auto
  ultimately show ?thesis by (auto simp: qualifying_def)
qed

text \<open>
  The window behind an episode of a successful run: sorted, made of clean records, within the
  window length, with enough owners.
\<close>

lemma episode_window:
  assumes cal: "calendar_ok sess" and run: "detect_episodes_for_issuer sha sess cfg rs = Inr es"
    and e: "e \<in> set es"
  obtains w where "w \<noteq> []" "set w \<subseteq> set (clean_records cfg rs)" "sorted (map pr_filing_date w)"
    "min_distinct_owners cfg \<le> length (owners_of w)" "episode_of sess cfg w e"
    "\<And>r. r \<in> set w \<Longrightarrow> \<exists>i j. session_ordinal sess (pr_filing_date (hd w)) True = Inr i
        \<and> session_ordinal sess (pr_filing_date r) True = Inr j
        \<and> (0 \<le> cluster_window_trading_days cfg \<longrightarrow> int j - int i \<le> cluster_window_trading_days cfg)"
proof -
  from e have "es \<noteq> []" by auto
  from detect_for_issuer_InrE [OF run this] obtain ps where ps:
    "map fst ps = clean_records cfg rs" "ord_pairs sess ps"
    "mapR (build_episode sha sess cfg) (greedy_windows cfg ps) = Inr es" by blast
  from mapR_Inr_mem [OF ps(3) e] obtain w where
    w: "w \<in> set (greedy_windows cfg ps)" "build_episode sha sess cfg w = Inr e" by blast
  from greedy_windows_mem [OF w(1)] obtain qs where qs:
    "suffix qs ps" "qs \<noteq> []" "w = window_at cfg qs" "min_distinct_owners cfg \<le> length (owners_of w)"
    by blast
  from qs(2) obtain p rest where pr: "qs = p # rest" by (cases qs) auto
  have op: "ord_pairs sess (p # rest)" using ord_pairs_suffix [OF qs(1) ps(2)] pr by simp
  have wf: "w = fst p # map fst (filter (in_window cfg (snd p)) rest)"
    using window_at_filter [OF cal op] qs(3) pr by simp
  have "sorted (map pr_filing_date w)"
    using op unfolding ord_pairs_def wf
    by (auto simp: comp_def intro: sorted_filter)
  moreover have "set w \<subseteq> set (clean_records cfg rs)"
    using suffix_window_prefix_mem [OF qs(1)] ps(1) qs(3) by auto
  moreover have "\<exists>i j. session_ordinal sess (pr_filing_date (hd w)) True = Inr i
        \<and> session_ordinal sess (pr_filing_date r) True = Inr j
        \<and> (0 \<le> cluster_window_trading_days cfg \<longrightarrow> int j - int i \<le> cluster_window_trading_days cfg)"
    if "r \<in> set w" for r
    using that op unfolding wf ord_pairs_def by (auto simp: in_window_def)
  ultimately show thesis using that qs(4) build_episode_of [OF w(2)] wf by blast
qed

text \<open>Successive windows start more than a window length apart.\<close>

definition ord_of :: "date list \<Rightarrow> date \<Rightarrow> int" where
  "ord_of sess d = (case session_ordinal sess d True of Inr i \<Rightarrow> int i | Inl _ \<Rightarrow> -1)"

lemma dropWhile_in_window:
  assumes "calendar_ok sess" "ord_pairs sess (p # rest)"
    and "q \<in> set (dropWhile (in_window cfg (snd p)) rest)"
  shows "cluster_window_trading_days cfg < int (snd q) - int (snd p)"
proof -
  let ?P = "in_window cfg (snd p)" and ?ds = "dropWhile (in_window cfg (snd p)) rest"
  have "sorted (map snd rest)" using ord_pairs_sorted_snd [OF assms(1,2)] by simp
  then have sd: "sorted (map snd ?ds)" by (metis sorted_append map_append takeWhile_dropWhile_id)
  obtain d ds where d: "?ds = d # ds" using assms(3) by (cases ?ds) auto
  then have "\<not> ?P d" by (metis dropWhile_eq_Cons_conv)
  moreover have "snd d \<le> snd q" using sd d assms(3) by auto
  ultimately show ?thesis by (simp add: in_window_def)
qed

lemma greedy_windows_apart:
  "calendar_ok sess \<Longrightarrow> ord_pairs sess ps \<Longrightarrow>
   sorted_wrt (\<lambda>w v. cluster_window_trading_days cfg
       < ord_of sess (pr_filing_date (hd v)) - ord_of sess (pr_filing_date (hd w))) (greedy_windows cfg ps)"
proof (induction cfg ps rule: greedy_windows.induct)
  case (2 cfg p rest)
  let ?ds = "dropWhile (in_window cfg (snd p)) rest"
  have suf: "suffix ?ds (p # rest)" "suffix rest (p # rest)"
    using suffix_dropWhile [of "in_window cfg (snd p)" rest] by (auto intro: suffix_ConsI)
  have ordp: "ord_of sess (pr_filing_date (fst q)) = int (snd q)" if "q \<in> set (p # rest)" for q
    using 2(4) that by (auto simp: ord_pairs_def ord_of_def)
  show ?case
  proof (cases "min_distinct_owners cfg \<le> length (owners_of (window_at cfg (p # rest)))")
    case True
    have "cluster_window_trading_days cfg < ord_of sess (pr_filing_date (hd v)) - int (snd p)"
      if v: "v \<in> set (greedy_windows cfg ?ds)" for v
    proof -
      from greedy_windows_mem [OF v] obtain qs where
        qs: "suffix qs ?ds" "qs \<noteq> []" "v = window_at cfg qs" by blast
      then have hd: "hd v = fst (hd qs)" by (cases qs) (auto simp: window_at_def)
      have mem: "hd qs \<in> set ?ds" using qs(1,2) by (meson hd_in_set set_mono_suffix subsetD)
      then have "hd qs \<in> set (p # rest)" using suf(1) by (meson set_mono_suffix subsetD)
      with dropWhile_in_window [OF 2(3,4) mem] show ?thesis by (simp add: hd ordp)
    qed
    moreover have "hd (window_at cfg (p # rest)) = fst p" by (simp add: window_at_def)
    ultimately show ?thesis
      using True "2.IH"(1) [OF True 2(3) ord_pairs_suffix [OF suf(1) 2(4)]] ordp [of p]
      by simp
  next
    case False
    then show ?thesis using "2.IH"(2) [OF False 2(3) ord_pairs_suffix [OF suf(2) 2(4)]] by simp
  qed
qed simp

section \<open>Properties of the detector\<close>

text \<open>
  C26. An episode fires exactly when the \<open>min_distinct_owners\<close>-th distinct owner's filing is public:
  behind every emitted episode there is a window of eligible code-P records of the issuer, in which
  before the activation date fewer distinct owners had filed and on it enough had; the owners the
  episode lists, without repetition, are exactly those, and the window spans at most
  \<open>cluster_window_trading_days\<close> sessions from the first filing.
\<close>

theorem episode_fires_at_kth_owner:
  assumes "calendar_ok sess" "0 < min_distinct_owners cfg"
    and "detect_episodes_for_issuer sha sess cfg rs = Inr es" "e \<in> set es"
  shows "\<exists>w. set w \<subseteq> {r \<in> set rs. eligible_record cfg r}
     \<and> card (pr_owner_cik ` {r \<in> set w. pr_filing_date r < activation_filing_date e})
         < min_distinct_owners cfg
     \<and> min_distinct_owners cfg
         \<le> card (pr_owner_cik ` {r \<in> set w. pr_filing_date r \<le> activation_filing_date e})
     \<and> distinct (distinct_owner_ciks e)
     \<and> set (distinct_owner_ciks e)
         = (pr_owner_cik ` {r \<in> set w. pr_filing_date r \<le> activation_filing_date e})
     \<and> (\<forall>r \<in> set w. first_filing_date e \<le> pr_filing_date r)
     \<and> (0 \<le> cluster_window_trading_days cfg \<longrightarrow> (\<forall>r \<in> set w.
          ord_of sess (pr_filing_date r) - ord_of sess (first_filing_date e)
            \<le> cluster_window_trading_days cfg))"
proof -
  obtain w where w: "w \<noteq> []" "set w \<subseteq> set (clean_records cfg rs)" "sorted (map pr_filing_date w)"
    "min_distinct_owners cfg \<le> length (owners_of w)" "episode_of sess cfg w e"
    "\<And>r. r \<in> set w \<Longrightarrow> \<exists>i j. session_ordinal sess (pr_filing_date (hd w)) True = Inr i
        \<and> session_ordinal sess (pr_filing_date r) True = Inr j
        \<and> (0 \<le> cluster_window_trading_days cfg \<longrightarrow> int j - int i \<le> cluster_window_trading_days cfg)"
    using episode_window [OF assms(1,3,4)] by blast
  have hd_le: "\<forall>r \<in> set w. pr_filing_date (hd w) \<le> pr_filing_date r"
    using w(1,3) by (cases w) auto
  have span: "0 \<le> cluster_window_trading_days cfg \<longrightarrow> (\<forall>r \<in> set w.
      ord_of sess (pr_filing_date r) - ord_of sess (pr_filing_date (hd w)) \<le> cluster_window_trading_days cfg)"
  proof (intro impI ballI)
    fix r assume "0 \<le> cluster_window_trading_days cfg" "r \<in> set w"
    with w(6) [of r] show "ord_of sess (pr_filing_date r) - ord_of sess (pr_filing_date (hd w))
        \<le> cluster_window_trading_days cfg" by (auto simp: ord_of_def)
  qed
  note act = episode_ofD [OF w(5)]
  have "distinct (owners_of (qualifying cfg w))" by (simp add: owners_of_def)
  moreover have "set w \<subseteq> {r \<in> set rs. eligible_record cfg r}"
    using w(2) set_clean_records [of cfg rs] by blast
  moreover note window_activation_spec(2,3) [OF w(3) assms(2) w(4), unfolded owners_upto_def] hd_le span
  ultimately show ?thesis
    unfolding act(1,3,4) set_owners_qualifying owners_upto_def
    by (intro exI [where x = w] conjI) simp_all
qed

text \<open>
  An episode becomes tradable only after it is knowable: the entry session is the first session
  strictly after the activation date, the last qualifying filing is the activating one, and the
  instant the signal became knowable lies before the midnight that opens the entry session's date.
\<close>

theorem episode_entry_is_causal:
  assumes "calendar_ok sess" "0 < min_distinct_owners cfg"
    and "detect_episodes_for_issuer sha sess cfg rs = Inr es" "e \<in> set es"
  shows "is_session sess (eligible_entry_session e)
     \<and> activation_filing_date e < eligible_entry_session e
     \<and> (\<forall>u. is_session sess u \<and> activation_filing_date e < u \<longrightarrow> eligible_entry_session e \<le> u)
     \<and> last_filing_date e = activation_filing_date e
     \<and> causal_event_ts e < (eligible_entry_session e - 719163) * 86400 * 1000000"
proof -
  obtain w where w: "sorted (map pr_filing_date w)"
    "min_distinct_owners cfg \<le> length (owners_of w)" "episode_of sess cfg w e"
    by (rule episode_window [OF assms(1,3,4)], rule that)
  note ep = episode_ofD [OF w(3)]
  note nxt = next_strictly_after_spec [OF assms(1) ep(2)]
  have "last_filing_date e = activation_filing_date e"
    using last_qualifying [OF w(1) window_activation_spec(1) [OF w(1) assms(2) w(2)]] ep(1,5) by simp
  moreover have "causal_event_ts e < (eligible_entry_session e - 719163) * 86400 * 1000000"
    using nxt unfolding ep(6) by (simp add: end_of_day_utc_def)
  ultimately show ?thesis using nxt by blast
qed

text \<open>
  C12. Episodes of one issuer never overlap: the first filings of two episodes emitted one after the
  other lie more than \<open>cluster_window_trading_days\<close> sessions apart, and the number of filings the
  episodes count together never exceeds the number of distinct eligible purchase records.
\<close>

theorem episodes_do_not_overlap:
  assumes "calendar_ok sess"
    and "detect_episodes_for_issuer sha sess cfg rs = Inr es"
  shows "sorted_wrt (\<lambda>e f. cluster_window_trading_days cfg
             < ord_of sess (first_filing_date f) - ord_of sess (first_filing_date e)) es
     \<and> sum_list (map n_filings es) \<le> card (dedupe_key ` {r \<in> set rs. eligible_record cfg r})"
proof (cases "es = []")
  case False
  from detect_for_issuer_InrE [OF assms(2) False] obtain ps where ps:
    "map fst ps = clean_records cfg rs" "ord_pairs sess ps"
    "mapR (build_episode sha sess cfg) (greedy_windows cfg ps) = Inr es" by blast
  note built = ps(3) [unfolded mapR_Inr_iff]
  have "sorted_wrt (\<lambda>e f. cluster_window_trading_days cfg
      < ord_of sess (first_filing_date f) - ord_of sess (first_filing_date e)) es"
    by (rule sorted_wrt_list_all2 [OF built greedy_windows_apart [OF assms(1) ps(2)]])
      (auto dest!: build_episode_of episode_ofD(4))
  moreover have "sum_list (map n_filings es) \<le> length (concat (greedy_windows cfg ps))"
    using built
  proof (induction rule: list_all2_induct)
    case (Cons w ws e es)
    then have "n_filings e \<le> length w"
      by (auto simp: build_episode_def Let_def bindR_Inr_iff qualifying_def)
    with Cons show ?case by simp
  qed simp
  moreover have "length (concat (greedy_windows cfg ps)) \<le> length (clean_records cfg rs)"
    using greedy_windows_subseq [of cfg ps] ps(1) list_emb_length by metis
  moreover have "length (clean_records cfg rs) = card (dedupe_key ` {r \<in> set rs. eligible_record cfg r})"
    by (simp add: clean_records_def length_dedupe)
  ultimately show ?thesis by simp
qed simp


section \<open>A concrete issuer\<close>

text \<open>
  Three sessions weeks of weekdays, and two directors buying on the Monday and the Wednesday of the
  first one; a third filing by the first director does not count as another owner.
\<close>

definition demo_sessions :: "date list" where
  "demo_sessions = [738886, 738887, 738888, 738889, 738890, 738893, 738894, 738895, 738896, 738897,
     738900, 738901, 738902, 738903, 738904, 738907, 738908, 738909, 738910, 738911, 738914, 738915,
     738916, 738917, 738918]"

definition demo_purchase :: "string \<Rightarrow> date \<Rightarrow> string \<Rightarrow> purchase_record" where
  "demo_purchase owner filed acc =
     \<lparr> pr_symbol = ''abc'', pr_issuer_cik = ''9'', pr_owner_cik = owner, pr_filing_date = filed,
       pr_accession = acc, pr_transaction_date = Some (filed - 1), pr_transaction_value = Some 50000,
       pr_is_officer = False, pr_is_director = True, pr_is_ten_percent = False,
       pr_transaction_code = ''P'' \<rparr>"

definition demo_records :: "purchase_record list" where
  "demo_records = [demo_purchase ''11'' 738888 ''a2'', demo_purchase ''12'' 738889 ''a3'',
     demo_purchase ''11'' 738886 ''a1'']"

lemma demo_sessions_ok: "calendar_ok demo_sessions"
  by (simp add: calendar_ok_def demo_sessions_def)

definition demo_episodes :: "cluster_episode list" where
  "demo_episodes = (case detect_episodes_for_issuer id demo_sessions default_config demo_records of
     Inr es \<Rightarrow> es | Inl _ \<Rightarrow> [])"

lemma demo_run:
  "detect_episodes_for_issuer id demo_sessions default_config demo_records = Inr demo_episodes
   \<and> demo_episodes = [hd demo_episodes]"
  by code_simp

theorem episode_fires_at_kth_owner_witness:
  "distinct (distinct_owner_ciks (hd demo_episodes))
   \<and> set (distinct_owner_ciks (hd demo_episodes)) = {''11'', ''12''}"
proof -
  have "hd demo_episodes \<in> set demo_episodes" using demo_run by (metis list.set_intros(1))
  moreover have "0 < min_distinct_owners default_config" by (simp add: default_config_def)
  ultimately have "distinct (distinct_owner_ciks (hd demo_episodes))"
    using episode_fires_at_kth_owner [OF demo_sessions_ok, of default_config id demo_records
        demo_episodes "hd demo_episodes"] demo_run by blast
  moreover have "set (distinct_owner_ciks (hd demo_episodes)) = {''11'', ''12''}" by code_simp
  ultimately show ?thesis by blast
qed

theorem episode_entry_is_causal_witness:
  "activation_filing_date (hd demo_episodes) < eligible_entry_session (hd demo_episodes)
   \<and> eligible_entry_session (hd demo_episodes) = 738890"
proof -
  have "hd demo_episodes \<in> set demo_episodes" using demo_run by (metis list.set_intros(1))
  moreover have "0 < min_distinct_owners default_config" by (simp add: default_config_def)
  ultimately have "activation_filing_date (hd demo_episodes) < eligible_entry_session (hd demo_episodes)"
    using episode_entry_is_causal [OF demo_sessions_ok, of default_config id demo_records
        demo_episodes "hd demo_episodes"] demo_run by blast
  moreover have "eligible_entry_session (hd demo_episodes) = 738890" by code_simp
  ultimately show ?thesis by blast
qed

theorem episodes_do_not_overlap_witness:
  "sum_list (map n_filings demo_episodes) \<le> 3 \<and> sum_list (map n_filings demo_episodes) = 3"
proof -
  have "card (dedupe_key ` {r \<in> set demo_records. eligible_record default_config r}) = 3" by code_simp
  with episodes_do_not_overlap [OF demo_sessions_ok, of id default_config demo_records demo_episodes]
    demo_run have "sum_list (map n_filings demo_episodes) \<le> 3" by simp
  moreover have "sum_list (map n_filings demo_episodes) = 3" by code_simp
  ultimately show ?thesis by blast
qed


end
