(* ===== verification/V2_Liquidity.thy ===== *)
theory V2_Liquidity
  imports V2_Config V2_Calendar
begin

text \<open>
  \<open>talonx_v2/liquidity.py\<close> and \<open>talonx_v2/liquidity_window.py\<close>: the trailing-median liquidity gate and
  the precondition that the window is exactly the sessions before the entry.
\<close>

section \<open>Definitions\<close>

record daily_bar =
  bar_date :: date
  bar_close :: money
  bar_volume :: money

datatype liq_reason =
    NO_PRIOR_BARS
  | INSUFFICIENT_HISTORY nat nat
  | CLOSE_LT money money
  | MEDIAN_DV_LT money money
  | NON_CONTIGUOUS_WINDOW nat nat
  | PASS

record liquidity_result =
  liq_ok :: bool
  median_dollar_volume :: "money option"
  last_close :: "money option"
  n_sessions_used :: nat
  liq_reason :: liq_reason

text \<open>The bars dated before the entry session, oldest first, and \<open>prior[-n:]\<close>.\<close>

definition prior_bars :: "daily_bar list \<Rightarrow> date \<Rightarrow> daily_bar list" where
  "prior_bars bars entry = sort_key bar_date (filter (\<lambda>b. bar_date b < entry) bars)"

definition lookback_window :: "nat \<Rightarrow> 'a list \<Rightarrow> 'a list" where
  "lookback_window n xs = (if n = 0 then xs else py_last n xs)"

definition dollar_volume :: "daily_bar \<Rightarrow> money" where
  "dollar_volume b = fl (fl (bar_close b) * fl (bar_volume b))"

definition sorted_median :: "money list \<Rightarrow> money" where
  "sorted_median dvs =
     (let m = length dvs
      in if odd m then dvs ! (m div 2) else fl (fl (dvs ! (m div 2 - 1) + dvs ! (m div 2)) / 2))"

definition evaluate_liquidity :: "v2_config \<Rightarrow> daily_bar list \<Rightarrow> date \<Rightarrow> liquidity_result" where
  "evaluate_liquidity cfg bars entry =
     (let prior = prior_bars bars entry
      in if prior = [] then \<lparr> liq_ok = False, median_dollar_volume = None, last_close = None,
                              n_sessions_used = 0, liq_reason = NO_PRIOR_BARS \<rparr>
         else
           let n = liquidity_lookback_sessions cfg; window = lookback_window n prior;
               close = fl (bar_close (last window)); used = length window
           in if used < n
              then \<lparr> liq_ok = False, median_dollar_volume = None, last_close = Some close,
                     n_sessions_used = used, liq_reason = INSUFFICIENT_HISTORY used n \<rparr>
              else
                let median = sorted_median (sort (map dollar_volume window));
                    res = (\<lambda>ok reason. \<lparr> liq_ok = ok, median_dollar_volume = Some median,
                             last_close = Some close, n_sessions_used = used, liq_reason = reason \<rparr>)
                in if close < liquidity_min_close cfg
                   then res False (CLOSE_LT close (liquidity_min_close cfg))
                   else if median < liquidity_min_median_dollar_volume cfg
                   then res False (MEDIAN_DV_LT median (liquidity_min_median_dollar_volume cfg))
                   else res True PASS)"

text \<open>\<open>[add_sessions(entry_session, -k) for k in range(n, 0, -1)]\<close>\<close>

definition expected_window :: "date list \<Rightarrow> date \<Rightarrow> nat \<Rightarrow> date list result" where
  "expected_window sess entry n = mapR (\<lambda>k. add_sessions sess entry (- int k)) (rev [1..<Suc n])"

definition evaluate_liquidity_checked ::
    "date list \<Rightarrow> v2_config \<Rightarrow> daily_bar list \<Rightarrow> date \<Rightarrow> bool \<Rightarrow> liquidity_result result" where
  "evaluate_liquidity_checked sess cfg bars entry require_contiguous =
     (let n = liquidity_lookback_sessions cfg; window = lookback_window n (prior_bars bars entry)
      in if require_contiguous \<and> length window = n
         then bindR (expected_window sess entry n) (\<lambda>expected.
                if map bar_date window \<noteq> expected
                then if window = [] then Inl IndexError
                     else Inr \<lparr> liq_ok = False, median_dollar_volume = None,
                            last_close = Some (fl (bar_close (last window))), n_sessions_used = length window,
                            liq_reason = NON_CONTIGUOUS_WINDOW
                              (card (set expected - set (map bar_date window))) n \<rparr>
                else Inr (evaluate_liquidity cfg bars entry))
         else Inr (evaluate_liquidity cfg bars entry))"

section \<open>The median\<close>

lemma dollar_volume_float [simp]: "is_float (dollar_volume b)"
  by (simp add: dollar_volume_def)

text \<open>The mean of two floats lies between them: halving the rounded sum cannot leave the interval.\<close>

lemma float_mean_between:
  assumes "is_float a" "is_float b" "a \<le> b"
  shows "a \<le> fl (fl (a + b) / 2) \<and> fl (fl (a + b) / 2) \<le> b"
proof -
  have "fl (2 * a) \<le> fl (a + b)" "fl (a + b) \<le> fl (2 * b)" using assms(3) by (auto intro!: f64.rnd_mono)
  then have "2 * a \<le> fl (a + b)" "fl (a + b) \<le> 2 * b"
    using is_float_double [OF assms(1)] is_float_double [OF assms(2)] by (simp_all add: is_float_def)
  then have "fl a \<le> fl (fl (a + b) / 2)" "fl (fl (a + b) / 2) \<le> fl b"
    by (auto intro!: f64.rnd_mono)
  with assms(1,2) show ?thesis by (simp add: is_float_def)
qed

lemma sorted_median_le_upper:
  assumes "sorted dvs" "\<forall>v \<in> set dvs. is_float v" "dvs \<noteq> []"
  shows "sorted_median dvs \<le> dvs ! (length dvs div 2)"
proof (cases "odd (length dvs)")
  case False
  let ?m = "length dvs div 2"
  have m: "?m < length dvs" "?m - 1 < length dvs" using assms(3) by (cases dvs; simp)+
  then have "dvs ! (?m - 1) \<le> dvs ! ?m" using assms(1) by (simp add: sorted_nth_mono)
  with float_mean_between [of "dvs ! (?m - 1)" "dvs ! ?m"] assms(2) m False show ?thesis
    by (simp add: sorted_median_def Let_def)
qed (simp add: sorted_median_def)

text \<open>At least half of the values reach a median.\<close>

lemma half_reach_median:
  assumes "sorted dvs" "\<forall>v \<in> set dvs. is_float v" "dvs \<noteq> []" "t \<le> sorted_median dvs"
  shows "length dvs \<le> 2 * length (filter (\<lambda>v. t \<le> v) dvs)"
proof -
  let ?m = "length dvs div 2"
  have m: "?m < length dvs" using assms(3) by (cases dvs) auto
  have "t \<le> dvs ! ?m" using sorted_median_le_upper [OF assms(1-3)] assms(4) by simp
  then have "t \<le> v" if "v \<in> set (drop ?m dvs)" for v
  proof -
    from that obtain j where "j < length dvs - ?m" "v = dvs ! (?m + j)" by (auto simp: in_set_conv_nth)
    then have "dvs ! ?m \<le> v" using assms(1) by (auto intro!: sorted_nth_mono)
    with \<open>t \<le> dvs ! ?m\<close> show ?thesis by simp
  qed
  then have "filter (\<lambda>v. t \<le> v) (drop ?m dvs) = drop ?m dvs" by (simp add: filter_id_conv)
  then have "length dvs - ?m \<le> length (filter (\<lambda>v. t \<le> v) dvs)"
    by (metis append_take_drop_id filter_append le_add2 length_append length_drop)
  then show ?thesis by linarith
qed

lemma length_filter_sort: "length (filter P (sort (map f xs))) = length (filter (\<lambda>x. P (f x)) xs)"
proof -
  have "size (filter_mset P (mset (sort (map f xs)))) = size (filter_mset P (mset (map f xs)))" by simp
  then have "length (filter P (sort (map f xs))) = length (filter P (map f xs))"
    by (metis mset_filter size_mset)
  then show ?thesis by (simp add: filter_map comp_def)
qed

section \<open>The window\<close>

lemma set_lookback_window: "set (lookback_window n xs) \<subseteq> set xs"
  by (simp add: lookback_window_def set_py_last)

lemma length_lookback_window: "0 < n \<Longrightarrow> length (lookback_window n xs) = min n (length xs)"
  by (simp add: lookback_window_def)

lemma prior_bars_before: "b \<in> set (prior_bars bars entry) \<longleftrightarrow> b \<in> set bars \<and> bar_date b < entry"
  by (auto simp: prior_bars_def)

lemma sorted_prior_bars: "sorted (map bar_date (prior_bars bars entry))"
  by (simp add: prior_bars_def)

text \<open>The bars left out of the window are not later than the bars in it.\<close>

lemma window_is_latest:
  assumes "sorted (map f xs)" "b \<in> set (lookback_window n xs)" "c \<in> set (take (length xs - n) xs)" "0 < n"
  shows "f c \<le> f b"
proof -
  have "b \<in> set (drop (length xs - n) xs)" using assms(2,4) by (simp add: lookback_window_def py_last_def)
  moreover have "sorted (map f (take (length xs - n) xs @ drop (length xs - n) xs))" using assms(1) by simp
  ultimately show ?thesis using assms(3) by (simp only: map_append sorted_append) auto
qed

lemma evaluate_liquidity_ok:
  assumes "liq_ok (evaluate_liquidity cfg bars entry)"
  defines "w \<equiv> lookback_window (liquidity_lookback_sessions cfg) (prior_bars bars entry)"
  shows "prior_bars bars entry \<noteq> []" "liquidity_lookback_sessions cfg \<le> length w"
    "liquidity_min_close cfg \<le> fl (bar_close (last w))"
    "liquidity_min_median_dollar_volume cfg \<le> sorted_median (sort (map dollar_volume w))"
  using assms unfolding w_def by (auto simp: evaluate_liquidity_def Let_def not_less split: if_splits)

lemma lookback_window_Nil [simp]: "lookback_window n xs = [] \<longleftrightarrow> xs = []"
  by (cases xs) (auto simp: lookback_window_def py_last_def)

section \<open>Properties of the gate\<close>

text \<open>
  C16. What a pass of the liquidity gate means: the window is the last \<open>liquidity_lookback_sessions\<close>
  bars dated before the entry session (no bar before the entry is later than a bar of the window and
  left out), its last close reaches the minimum, and on at least half of its sessions the dollar
  volume reached the threshold.
\<close>

theorem liquidity_pass_is_sound:
  assumes "liq_ok (evaluate_liquidity cfg bars entry)" "0 < liquidity_lookback_sessions cfg"
  shows "\<exists>w rest. mset (w @ rest) = mset (filter (\<lambda>b. bar_date b < entry) bars)
     \<and> length w = liquidity_lookback_sessions cfg
     \<and> (\<forall>b \<in> set w. \<forall>c \<in> set rest. bar_date c \<le> bar_date b)
     \<and> (\<forall>b \<in> set w. bar_date b \<le> bar_date (last w))
     \<and> liquidity_min_close cfg \<le> fl (bar_close (last w))
     \<and> length w \<le> 2 * length (filter (\<lambda>b. liquidity_min_median_dollar_volume cfg \<le> dollar_volume b) w)"
proof -
  let ?n = "liquidity_lookback_sessions cfg" and ?p = "prior_bars bars entry"
  let ?w = "lookback_window ?n ?p" and ?r = "take (length ?p - ?n) ?p"
  note ok = evaluate_liquidity_ok [OF assms(1)]
  have w: "?w = drop (length ?p - ?n) ?p" using assms(2) by (simp add: lookback_window_def py_last_def)
  have "mset (?w @ ?r) = mset ?p" unfolding w by (metis append_take_drop_id mset_append union_commute)
  moreover have "mset ?p = mset (filter (\<lambda>b. bar_date b < entry) bars)" by (simp add: prior_bars_def)
  moreover have "length ?w = ?n" using ok(2) assms(2) by (simp add: length_lookback_window)
  moreover have "\<forall>b \<in> set ?w. \<forall>c \<in> set ?r. bar_date c \<le> bar_date b"
    using window_is_latest [OF sorted_prior_bars _ _ assms(2)] by blast
  moreover have "sorted (map bar_date ?w)"
    using sorted_prior_bars [of bars entry] unfolding w by (simp add: drop_map [symmetric])
  then have "\<forall>b \<in> set ?w. bar_date b \<le> bar_date (last ?w)" by (auto intro: sorted_map_imp_le_last)
  moreover have "length ?w \<le> 2 * length (filter (\<lambda>b. liquidity_min_median_dollar_volume cfg \<le> dollar_volume b) ?w)"
  proof -
    have "sort (map dollar_volume ?w) \<noteq> []" using ok(1) by (metis length_0_conv length_sort list.map_disc_iff lookback_window_Nil)
    from half_reach_median [OF _ _ this ok(4)] show ?thesis by (simp add: length_filter_sort)
  qed
  ultimately show ?thesis using ok(3) by (intro exI [of _ ?w] exI [of _ ?r]) simp
qed

text \<open>
  No look-ahead: two bar lists that agree on the bars dated before the entry session get the same
  verdict from both gates, whatever the entry session's own bar and the later bars are.
\<close>

theorem liquidity_no_lookahead:
  assumes "filter (\<lambda>b. bar_date b < entry) bars = filter (\<lambda>b. bar_date b < entry) bars'"
  shows "evaluate_liquidity_checked sess cfg bars entry strict = evaluate_liquidity_checked sess cfg bars' entry strict
     \<and> evaluate_liquidity cfg bars entry = evaluate_liquidity cfg bars' entry"
proof -
  have p: "prior_bars bars entry = prior_bars bars' entry" using assms by (simp add: prior_bars_def)
  then have "evaluate_liquidity cfg bars entry = evaluate_liquidity cfg bars' entry"
    by (simp add: evaluate_liquidity_def)
  with p show ?thesis by (simp only: evaluate_liquidity_checked_def)
qed

text \<open>
  C19. A pass in release mode uses exactly the sessions before the entry: the window's dates are, in
  order, the \<open>n\<close> sessions of the calendar that immediately precede the entry session.
\<close>

theorem strict_gate_uses_exact_window:
  assumes "calendar_ok sess" "i < length sess" "0 < liquidity_lookback_sessions cfg"
    and "liquidity_lookback_sessions cfg \<le> i"
    and "evaluate_liquidity_checked sess cfg bars (sess ! i) True = Inr r" "liq_ok r"
  shows "map bar_date (lookback_window (liquidity_lookback_sessions cfg) (prior_bars bars (sess ! i)))
     = map (\<lambda>k. sess ! (i - k)) (rev [1..<Suc (liquidity_lookback_sessions cfg)])"
proof -
  let ?n = "liquidity_lookback_sessions cfg"
  let ?w = "lookback_window ?n (prior_bars bars (sess ! i))"
  have prior: "add_sessions sess (sess ! i) (- int k) = Inr (sess ! (i - k))" if k: "k \<le> ?n" for k :: nat
  proof -
    have "nat (int i + - int k) = i - k" "int i + - int k < int (length sess)" "0 \<le> int i + - int k"
      using k assms(2,4) by simp_all
    then show ?thesis using add_sessions_nth [OF assms(1,2), of "- int k"] by simp
  qed
  have "list_all2 (\<lambda>k s. add_sessions sess (sess ! i) (- int k) = Inr s) (rev [1..<Suc ?n])
      (map (\<lambda>k. sess ! (i - k)) (rev [1..<Suc ?n]))"
    unfolding list.rel_map by (rule list.rel_refl_strong) (auto simp: prior)
  then have e: "expected_window sess (sess ! i) ?n = Inr (map (\<lambda>k. sess ! (i - k)) (rev [1..<Suc ?n]))"
    by (simp add: expected_window_def mapR_Inr_iff)
  have "length ?w = ?n"
  proof (rule ccontr)
    assume ne: "length ?w \<noteq> ?n"
    then have "r = evaluate_liquidity cfg bars (sess ! i)"
      using assms(5) by (simp add: evaluate_liquidity_checked_def Let_def)
    with assms(6) have "?n \<le> length ?w" using evaluate_liquidity_ok(2) by blast
    with ne show False using assms(3) by (simp add: length_lookback_window)
  qed
  with assms(5,6) e show ?thesis
    by (auto simp: evaluate_liquidity_checked_def Let_def split: if_splits)
qed

section \<open>A concrete history\<close>

text \<open>Twenty sessions before the 25th, one bar per session, and a much larger bar on the entry day itself.\<close>

definition demo_calendar :: "date list" where
  "demo_calendar = map int [100..<130]"

definition demo_bar :: "date \<Rightarrow> daily_bar" where
  "demo_bar d = \<lparr> bar_date = d, bar_close = 16, bar_volume = 524288 \<rparr>"

definition demo_bars :: "daily_bar list" where
  "demo_bars = map (\<lambda>d. demo_bar (int d)) [104..<126]"

theorem liquidity_pass_is_sound_witness:
  "\<exists>w. length w = 20 \<and> 20 \<le> 2 * length (filter (\<lambda>b. 5000000 \<le> dollar_volume b) w)"
proof -
  have "liq_ok (evaluate_liquidity default_config demo_bars 125)" by code_simp
  from liquidity_pass_is_sound [OF this] show ?thesis by (auto simp: default_config_def)
qed

theorem liquidity_no_lookahead_witness:
  "evaluate_liquidity default_config (demo_bars @ [demo_bar 125]) 125
   = evaluate_liquidity default_config (demo_bars @ [demo_bar 126]) 125"
proof -
  have "filter (\<lambda>b. bar_date b < 125) (demo_bars @ [demo_bar 125])
      = filter (\<lambda>b. bar_date b < 125) (demo_bars @ [demo_bar 126])" by code_simp
  then show ?thesis using liquidity_no_lookahead by blast
qed

theorem strict_gate_uses_exact_window_witness:
  "map bar_date (lookback_window 20 (prior_bars demo_bars 125))
   = map (\<lambda>k. demo_calendar ! (25 - k)) (rev [1..<21])"
proof -
  have c: "calendar_ok demo_calendar" by code_simp
  have e: "demo_calendar ! 25 = 125" by code_simp
  have "evaluate_liquidity_checked demo_calendar default_config demo_bars 125 True
      = Inr (evaluate_liquidity default_config demo_bars 125)" by code_simp
  moreover have "liq_ok (evaluate_liquidity default_config demo_bars 125)" by code_simp
  ultimately show ?thesis
    using strict_gate_uses_exact_window [OF c, of 25 default_config demo_bars
        "evaluate_liquidity default_config demo_bars 125"] e
    by (simp add: default_config_def demo_calendar_def del: upt_Suc)
qed

end
