(* ===== verification/V2_Sizing.thy ===== *)
theory V2_Sizing
  imports V2_Config
begin

text \<open>
  \<open>talonx_v2/sizing.py\<close>: whole-share, fee-inclusive sizing against the allocation cap and the
  available cash, and the exit economics.  A \<open>Decimal\<close> is the rational it denotes; every Decimal
  operation rounds with \<open>dec28\<close>, \<open>Decimal(str(x))\<close> is \<open>repr_dec x\<close> and \<open>float(d)\<close> is \<open>fl d\<close>.  A fee
  function may return anything; \<open>None\<close>, a non-finite or a non-positive fee counts as zero.
\<close>

section \<open>Definitions\<close>

type_synonym fee_fn = "rat \<Rightarrow> money \<Rightarrow> pyfloat option"

definition zero_fee :: fee_fn where
  "zero_fee q price = Some (Finite 0)"

definition fee_dec :: "pyfloat option \<Rightarrow> rat" where
  "fee_dec raw = (case finite_value raw of
     Some f \<Rightarrow> if 0 < f then repr_dec f else 0 | None \<Rightarrow> 0)"

datatype sizing_reason =
    BAD_PRICE | NO_ALLOCATION | ALLOCATION_BELOW_ONE_SHARE | INSUFFICIENT_AVAILABLE_CASH
  | SIZING_OK | ONE_SHARE_PLUS_FEE_EXCEEDS_ALLOCATION

record sizing_result =
  sz_shares :: nat
  sz_entry_notional :: money
  sz_entry_fee :: money
  sz_entry_total :: money
  sz_ok :: bool
  sz_reason :: sizing_reason

definition refuse :: "sizing_reason \<Rightarrow> sizing_result" where
  "refuse why = \<lparr> sz_shares = 0, sz_entry_notional = 0, sz_entry_fee = 0, sz_entry_total = 0,
     sz_ok = False, sz_reason = why \<rparr>"

text \<open>The Decimal total of \<open>q\<close> shares: \<open>dprice * q + dfee\<close>.\<close>

definition notional_dec :: "money \<Rightarrow> nat \<Rightarrow> rat" where
  "notional_dec price q = dec28 (repr_dec price * of_nat q)"

definition total_dec :: "fee_fn \<Rightarrow> money \<Rightarrow> nat \<Rightarrow> rat" where
  "total_dec fee price q = dec28 (notional_dec price q + fee_dec (fee (of_nat q) price))"

text \<open>\<open>for q in range(q_max, 0, -1)\<close>\<close>

fun size_search :: "fee_fn \<Rightarrow> money \<Rightarrow> rat \<Rightarrow> rat \<Rightarrow> nat \<Rightarrow> sizing_result" where
  "size_search fee price dalloc davail 0 = refuse ONE_SHARE_PLUS_FEE_EXCEEDS_ALLOCATION"
| "size_search fee price dalloc davail (Suc k) =
     (let q = Suc k; total = total_dec fee price q
      in if total \<le> dalloc
         then \<lparr> sz_shares = (if davail < total then 0 else q),
                sz_entry_notional = fl (notional_dec price q),
                sz_entry_fee = fl (fee_dec (fee (of_nat q) price)), sz_entry_total = fl total,
                sz_ok = (\<not> davail < total),
                sz_reason = (if davail < total then INSUFFICIENT_AVAILABLE_CASH else SIZING_OK) \<rparr>
         else size_search fee price dalloc davail k)"

definition q_max :: "money \<Rightarrow> money \<Rightarrow> nat" where
  "q_max price alloc = nat \<lfloor>dec28 (repr_dec alloc / repr_dec price)\<rfloor>"

definition avail_dec :: "pyfloat option \<Rightarrow> rat" where
  "avail_dec available = (case finite_value available of Some c \<Rightarrow> repr_dec c | None \<Rightarrow> 0)"

definition size_whole_shares_fee_inclusive ::
    "pyfloat option \<Rightarrow> pyfloat option \<Rightarrow> pyfloat option \<Rightarrow> fee_fn \<Rightarrow> sizing_result" where
  "size_whole_shares_fee_inclusive price allocation_usd available_cash fee =
     (case finite_value price of
        None \<Rightarrow> refuse BAD_PRICE
      | Some p \<Rightarrow>
          if p \<le> 0 then refuse BAD_PRICE else
          (case finite_value allocation_usd of
             None \<Rightarrow> refuse NO_ALLOCATION
           | Some a \<Rightarrow>
               if a \<le> 0 then refuse NO_ALLOCATION
               else if q_max p a < 1 then refuse ALLOCATION_BELOW_ONE_SHARE
               else size_search fee p (repr_dec a) (avail_dec available_cash) (q_max p a)))"

record exit_economics =
  ee_exit_notional :: money
  ee_exit_fee :: money
  ee_exit_net :: money
  ee_realized_pnl_usd :: money
  ee_realized_pnl_pct :: money

text \<open>\<open>shares\<close> is the Decimal the settlement passes.\<close>

definition compute_exit_economics :: "rat \<Rightarrow> money \<Rightarrow> money \<Rightarrow> fee_fn \<Rightarrow> exit_economics" where
  "compute_exit_economics shares exit_price entry_total fee =
     (let notional = dec28 (shares * repr_dec exit_price);
          dfee = fee_dec (fee (fl shares) exit_price);
          net = dec28 (notional - dfee);
          pnl = dec28 (net - repr_dec entry_total);
          pct = (if repr_dec entry_total \<noteq> 0
                 then dec28 (dec28 (pnl / repr_dec entry_total) * 100) else 0)
      in \<lparr> ee_exit_notional = fl notional, ee_exit_fee = fl dfee, ee_exit_net = fl net,
           ee_realized_pnl_usd = fl pnl, ee_realized_pnl_pct = fl pct \<rparr>)"

section \<open>The search\<close>

lemma fee_dec_zero [simp]: "fee_dec (zero_fee q p) = 0"
  by (simp add: fee_dec_def zero_fee_def)

lemma size_search_ok:
  assumes "size_search fee p da dv n = r" "sz_ok r"
  shows "0 < sz_shares r \<and> sz_shares r \<le> n \<and> total_dec fee p (sz_shares r) \<le> da
     \<and> total_dec fee p (sz_shares r) \<le> dv
     \<and> sz_entry_total r = fl (total_dec fee p (sz_shares r))
     \<and> (\<forall>q. sz_shares r < q \<and> q \<le> n \<longrightarrow> da < total_dec fee p q)"
  using assms
proof (induction n arbitrary: r)
  case 0
  then show ?case by (auto simp: refuse_def)
next
  case (Suc k)
  show ?case
  proof (cases "total_dec fee p (Suc k) \<le> da")
    case True
    with Suc.prems show ?thesis by (auto simp: Let_def split: if_splits)
  next
    case False
    then have "size_search fee p da dv k = r" using Suc.prems(1) by (simp add: Let_def)
    from Suc.IH [OF this Suc.prems(2)] False show ?thesis by (auto simp: le_Suc_eq)
  qed
qed

text \<open>A search that refuses for lack of cash found an affordable quantity and did not shrink it.\<close>

lemma size_search_refused:
  assumes "size_search fee p da dv n = r" "\<not> sz_ok r"
  shows "sz_shares r = 0 \<and>
     (if sz_reason r = INSUFFICIENT_AVAILABLE_CASH
      then \<exists>q. 0 < q \<and> q \<le> n \<and> total_dec fee p q \<le> da \<and> dv < total_dec fee p q
             \<and> (\<forall>q'. q < q' \<and> q' \<le> n \<longrightarrow> da < total_dec fee p q')
      else \<forall>q. 0 < q \<and> q \<le> n \<longrightarrow> da < total_dec fee p q)"
  using assms
proof (induction n arbitrary: r)
  case 0
  then show ?case by (auto simp: refuse_def)
next
  case (Suc k)
  show ?case
  proof (cases "total_dec fee p (Suc k) \<le> da")
    case True
    with Suc.prems show ?thesis by (auto simp: Let_def not_le intro!: exI [of _ "Suc k"] split: if_splits)
  next
    case False
    then have "size_search fee p da dv k = r" using Suc.prems(1) by (simp add: Let_def)
    from Suc.IH [OF this Suc.prems(2)] False show ?thesis
      by (auto simp: le_Suc_eq not_le split: if_splits)
  qed
qed

lemma size_search_reason:
  "size_search fee p da dv n = r \<Longrightarrow> sz_ok r \<longleftrightarrow> sz_reason r = SIZING_OK"
  by (induction n arbitrary: r) (auto simp: refuse_def Let_def split: if_splits)

text \<open>\<open>q_max\<close> is not too small: a larger quantity costs more than the allocation, fees aside.\<close>

lemma above_q_max:
  assumes "is_float p" "0 < p" "q_max p a < q" "q < 10 ^ 28"
  shows "repr_dec a < repr_dec p * of_nat q"
proof (rule ccontr)
  assume "\<not> repr_dec a < repr_dec p * of_nat q"
  moreover have dp: "0 < repr_dec p" using assms(1,2) by (rule repr_dec_pos)
  ultimately have le: "of_int (int q) \<le> repr_dec a / repr_dec p"
    by (simp add: pos_le_divide_eq mult.commute)
  have "dec28 (of_int (int q)) = of_int (int q)"
    using assms(4) by (intro dec28_of_int) (simp flip: of_nat_power)
  with d28.rnd_mono [OF le] have "of_int (int q) \<le> dec28 (repr_dec a / repr_dec p)" by simp
  then have "int q \<le> \<lfloor>dec28 (repr_dec a / repr_dec p)\<rfloor>" by (simp add: le_floor_iff)
  with assms(3) show False by (simp add: q_max_def)
qed

lemma size_whole_shares_ok:
  assumes "sz_ok (size_whole_shares_fee_inclusive price alloc avail fee)"
  shows "\<exists>p a. finite_value price = Some p \<and> 0 < p \<and> finite_value alloc = Some a
     \<and> size_whole_shares_fee_inclusive price alloc avail fee
       = size_search fee p (repr_dec a) (avail_dec avail) (q_max p a)"
  using assms by (auto simp: size_whole_shares_fee_inclusive_def refuse_def split: option.splits if_splits)

text \<open>The facts the ledger uses: an accepted size costs at most the available cash.\<close>

lemma accepted_size_affordable:
  assumes "sz_ok (size_whole_shares_fee_inclusive price alloc (Some (Finite c)) fee)" "is_float c"
  defines "r \<equiv> size_whole_shares_fee_inclusive price alloc (Some (Finite c)) fee"
  shows "0 < sz_shares r" "sz_entry_total r \<le> c" "is_float (sz_entry_total r)"
proof -
  obtain p a where e: "r = size_search fee p (repr_dec a) (repr_dec c) (q_max p a)"
    using size_whole_shares_ok [OF assms(1)] unfolding r_def avail_dec_def by auto
  note ok = size_search_ok [OF e [symmetric] assms(1) [folded r_def]]
  show "0 < sz_shares r" "is_float (sz_entry_total r)" using ok by simp_all
  show "sz_entry_total r \<le> c" using ok fl_le_of_repr [OF assms(2)] by simp
qed

lemma total_dec_pos:
  assumes "is_float p" "0 < p"
  shows "0 \<le> total_dec fee p q"
proof -
  have "0 \<le> fee_dec x" for x
  proof (cases "finite_value x")
    case (Some f)
    have "0 \<le> repr_dec f" if "0 < f"
    proof (cases "f = 0")
      case False
      with that show ?thesis by (auto simp: repr_dec_def intro: repr_pos_nonneg)
    qed simp
    with Some show ?thesis by (simp add: fee_dec_def)
  qed (simp add: fee_dec_def)
  moreover have "0 \<le> notional_dec p q"
    using repr_dec_pos [OF assms] by (simp add: notional_dec_def d28.rnd_nonneg)
  ultimately show ?thesis by (simp add: total_dec_def d28.rnd_nonneg)
qed

section \<open>Properties of the sizing\<close>

text \<open>
  C31. The accepted quantity is the largest whole number of shares that fits the allocation cap: its
  fee-inclusive Decimal total is within the cap and within the available cash (also as the float the
  ledger stores), and every larger quantity breaks the cap.
\<close>

theorem sizing_is_largest_within_cap:
  assumes "is_float p" "is_float a" "is_float c"
    and "size_whole_shares_fee_inclusive (Some (Finite p)) (Some (Finite a)) (Some (Finite c)) fee = r"
    and "sz_ok r"
  shows "1 \<le> sz_shares r
     \<and> total_dec fee p (sz_shares r) \<le> repr_dec a \<and> total_dec fee p (sz_shares r) \<le> repr_dec c
     \<and> sz_entry_total r \<le> a \<and> sz_entry_total r \<le> c
     \<and> (\<forall>q. sz_shares r < q \<and> q < 10 ^ 28 \<longrightarrow>
          repr_dec a < total_dec fee p q \<or> repr_dec a < repr_dec p * of_nat q)"
proof -
  from assms(4,5) have e: "size_search fee p (repr_dec a) (repr_dec c) (q_max p a) = r" and "0 < p"
    using size_whole_shares_ok [of "Some (Finite p)" "Some (Finite a)" "Some (Finite c)" fee]
    by (simp_all add: avail_dec_def)
  note ok = size_search_ok [OF e assms(5)]
  have "repr_dec a < total_dec fee p q \<or> repr_dec a < repr_dec p * of_nat q"
    if "sz_shares r < q" "q < 10 ^ 28" for q
    using ok above_q_max [OF assms(1) \<open>0 < p\<close>, of a q] that by (meson not_le)
  with ok fl_le_of_repr [OF assms(2)] fl_le_of_repr [OF assms(3)] show ?thesis by simp
qed

text \<open>
  A trade is never silently shrunk to the cash at hand: when the sizing refuses for insufficient
  cash, the largest quantity that fits the cap exists and costs more than the available cash, and
  the refusal carries no shares.
\<close>

theorem sizing_never_shrinks_to_cash:
  assumes "size_whole_shares_fee_inclusive (Some (Finite p)) (Some (Finite a)) avail fee = r"
    and "sz_reason r = INSUFFICIENT_AVAILABLE_CASH"
  shows "sz_shares r = 0 \<and> \<not> sz_ok r \<and>
     (\<exists>q. 1 \<le> q \<and> q \<le> q_max p a \<and> total_dec fee p q \<le> repr_dec a
        \<and> avail_dec avail < total_dec fee p q
        \<and> (\<forall>q'. q < q' \<and> q' \<le> q_max p a \<longrightarrow> repr_dec a < total_dec fee p q'))"
proof -
  from assms have e: "size_search fee p (repr_dec a) (avail_dec avail) (q_max p a) = r"
    by (auto simp: size_whole_shares_fee_inclusive_def refuse_def split: if_splits)
  have "\<not> sz_ok r" using size_search_reason [OF e] assms(2) by auto
  from size_search_refused [OF e this] this assms(2) show ?thesis by (auto simp: Suc_le_eq)
qed

section \<open>Exit economics\<close>

lemma exit_net_float [simp]: "is_float (ee_exit_net (compute_exit_economics q x c fee))"
  by (simp add: compute_exit_economics_def Let_def)

text \<open>Without a fee an exit never takes cash out of the ledger.\<close>

lemma exit_net_nonneg:
  assumes "0 \<le> q" "is_float x" "0 \<le> x"
  shows "0 \<le> ee_exit_net (compute_exit_economics q x c zero_fee)"
  using assms repr_dec_nonneg [of x]
  by (simp add: compute_exit_economics_def Let_def d28.rnd_nonneg f64.rnd_nonneg)

text \<open>
  The exit economics agree with each other: without a fee the credited net is the notional, the
  profit is non-negative exactly when the Decimal net covers the persisted entry cost, and the
  percentage has the sign of the amount.
\<close>

theorem exit_economics_consistent:
  assumes "is_float entry_total" "0 < entry_total"
    and "compute_exit_economics q x entry_total zero_fee = r"
  shows "ee_exit_net r = ee_exit_notional r \<and> ee_exit_fee r = 0
     \<and> (repr_dec entry_total \<le> dec28 (q * repr_dec x) \<longrightarrow>
          0 \<le> ee_realized_pnl_usd r \<and> 0 \<le> ee_realized_pnl_pct r)
     \<and> (dec28 (q * repr_dec x) \<le> repr_dec entry_total \<longrightarrow>
          ee_realized_pnl_usd r \<le> 0 \<and> ee_realized_pnl_pct r \<le> 0)"
proof -
  let ?n = "dec28 (q * repr_dec x)" and ?e = "repr_dec entry_total"
  have e: "0 < ?e" using assms(1,2) by (rule repr_dec_pos)
  have r: "r = \<lparr> ee_exit_notional = fl ?n, ee_exit_fee = 0, ee_exit_net = fl ?n,
      ee_realized_pnl_usd = fl (dec28 (?n - ?e)),
      ee_realized_pnl_pct = fl (dec28 (dec28 (dec28 (?n - ?e) / ?e) * 100)) \<rparr>"
    using assms(3) e by (simp add: compute_exit_economics_def Let_def d28.rnd_idem)
  have "0 \<le> dec28 (?n - ?e)" if "?e \<le> ?n" using that by (simp add: d28.rnd_nonneg)
  moreover have "dec28 (?n - ?e) \<le> 0" if "?n \<le> ?e" using that by (simp add: d28.rnd_nonpos)
  ultimately show ?thesis using e unfolding r
    by (auto intro!: d28.rnd_nonneg f64.rnd_nonneg d28.rnd_nonpos f64.rnd_nonpos mult_nonneg_nonneg
        mult_nonpos_nonneg divide_nonneg_pos divide_nonpos_pos)
qed

section \<open>Concrete sizes\<close>

theorem sizing_is_largest_within_cap_witness:
  "sz_shares (size_whole_shares_fee_inclusive (Some (Finite 3000)) (Some (Finite 10000))
      (Some (Finite 100000)) zero_fee) = 3
   \<and> 10000 < total_dec zero_fee 3000 4"
proof -
  let ?r = "size_whole_shares_fee_inclusive (Some (Finite 3000)) (Some (Finite 10000))
      (Some (Finite 100000)) zero_fee"
  have fs: "is_float 3000" "is_float 10000" "is_float 100000" by code_simp+
  have r: "sz_ok ?r" "sz_shares ?r = 3" by code_simp+
  have d: "repr_dec 10000 = 10000" "total_dec zero_fee 3000 4 = repr_dec 3000 * of_nat 4" by code_simp+
  have "repr_dec 10000 < total_dec zero_fee 3000 4 \<or> repr_dec 10000 < repr_dec 3000 * of_nat 4"
    using sizing_is_largest_within_cap [OF fs refl r(1)] r(2)
    by (elim conjE allE [of _ 4] impE) simp_all
  with r(2) d show ?thesis by simp
qed

theorem sizing_never_shrinks_to_cash_witness:
  "\<exists>q. total_dec zero_fee 3000 q \<le> repr_dec 10000 \<and> avail_dec (Some (Finite 5000)) < total_dec zero_fee 3000 q"
proof -
  have "sz_reason (size_whole_shares_fee_inclusive (Some (Finite 3000)) (Some (Finite 10000))
      (Some (Finite 5000)) zero_fee) = INSUFFICIENT_AVAILABLE_CASH" by code_simp
  from sizing_never_shrinks_to_cash [OF refl this] show ?thesis by blast
qed

theorem exit_economics_consistent_witness:
  "0 \<le> ee_realized_pnl_usd (compute_exit_economics 3 3500 9000 zero_fee)"
proof -
  have "is_float 9000" "repr_dec 9000 \<le> dec28 (3 * repr_dec 3500)" by code_simp+
  then show ?thesis using exit_economics_consistent [of 9000, OF _ _ refl, of 3 3500] by simp
qed

end
