(* ===== verification/Tables.thy ===== *)
theory Tables
  imports Prelude
begin

text \<open>
  SQL tables as lists of row records in insertion order: the statements the stores use (SELECT by
  key, UPDATE ... WHERE, INSERT ... ON CONFLICT DO UPDATE, INSERT OR IGNORE, ORDER BY) and their laws.
  The locale \<open>keyed_store\<close> is the contract of a last-write-wins key-value table, up to a
  normal form of its keys; the components that keep one interpret it.
\<close>

section \<open>Statements\<close>

text \<open>\<open>SELECT ... WHERE key = k\<close>, first row\<close>

definition row_by :: "('r \<Rightarrow> 'k) \<Rightarrow> 'k \<Rightarrow> 'r list \<Rightarrow> 'r option" where
  "row_by key k rows = find (\<lambda>r. key r = k) rows"

text \<open>\<open>UPDATE ... SET f WHERE P\<close> and its \<open>rowcount\<close>\<close>

definition update_rows :: "('r \<Rightarrow> bool) \<Rightarrow> ('r \<Rightarrow> 'r) \<Rightarrow> 'r list \<Rightarrow> 'r list" where
  "update_rows P f rows = map (\<lambda>r. if P r then f r else r) rows"

definition rowcount :: "('r \<Rightarrow> bool) \<Rightarrow> 'r list \<Rightarrow> nat" where
  "rowcount P rows = length (filter P rows)"

text \<open>\<open>INSERT ... ON CONFLICT(key) DO UPDATE SET merge\<close>\<close>

definition upsert_row :: "('r \<Rightarrow> 'k) \<Rightarrow> 'r \<Rightarrow> ('r \<Rightarrow> 'r) \<Rightarrow> 'r list \<Rightarrow> 'r list" where
  "upsert_row key new merge rows =
     (if key new \<in> key ` set rows then update_rows (\<lambda>r. key r = key new) merge rows else rows @ [new])"

section \<open>Laws\<close>

lemma find_SomeD: "find P xs = Some x \<Longrightarrow> x \<in> set xs \<and> P x"
  by (auto simp: find_Some_iff)

lemma row_by_Some: "row_by key k rows = Some r \<Longrightarrow> r \<in> set rows \<and> key r = k"
  by (auto simp: row_by_def find_Some_iff)

lemma row_by_None: "row_by key k rows = None \<longleftrightarrow> k \<notin> key ` set rows"
  by (auto simp: row_by_def find_None_iff)

lemma row_by_distinct:
  "distinct (map key rows) \<Longrightarrow> row_by key k rows = Some r \<longleftrightarrow> r \<in> set rows \<and> key r = k"
proof (induction rows)
  case (Cons x xs)
  then show ?case by (auto simp: row_by_def)
qed (simp add: row_by_def)

lemma distinct_key:
  assumes "distinct (map key rows)" "r \<in> set rows" "s \<in> set rows" "key r = key s"
  shows "r = s"
  using assms by (auto simp: distinct_map inj_on_def)

lemma row_by_append:
  "row_by key k (xs @ ys) = (case row_by key k xs of Some r \<Rightarrow> Some r | None \<Rightarrow> row_by key k ys)"
  by (induction xs) (auto simp: row_by_def)

lemma row_by_update:
  assumes "\<And>r. key (f r) = key r"
  shows "row_by key k (update_rows P f rows) =
    (case row_by key k rows of Some r \<Rightarrow> Some (if P r then f r else r) | None \<Rightarrow> None)"
  using assms by (induction rows) (auto simp: row_by_def update_rows_def)

lemma map_update_rows: "(\<And>r. P r \<Longrightarrow> g (f r) = g r) \<Longrightarrow> map g (update_rows P f rows) = map g rows"
  by (auto simp: update_rows_def)

lemma length_update_rows [simp]: "length (update_rows P f rows) = length rows"
  by (simp add: update_rows_def)

lemma in_update_rows: "r \<in> set (update_rows P f rows) \<longleftrightarrow>
    (\<exists>x \<in> set rows. r = (if P x then f x else x))"
  by (auto simp: update_rows_def)

lemma update_rows_exhausts: "(\<And>r. \<not> P (f r)) \<Longrightarrow> r \<in> set (update_rows P f rows) \<Longrightarrow> \<not> P r"
  by (auto simp: update_rows_def)

lemma update_rows_id: "(\<And>r. r \<in> set rows \<Longrightarrow> \<not> P r) \<Longrightarrow> update_rows P f rows = rows"
  by (auto simp: update_rows_def intro: map_idI)

lemma filter_update_rows:
  "(\<And>r. P r \<Longrightarrow> Q (f r) = Q r) \<Longrightarrow> filter Q (update_rows P f rows) = update_rows P f (filter Q rows)"
  by (induction rows) (auto simp: update_rows_def)

lemma rowcount_pos: "0 < rowcount P rows \<longleftrightarrow> (\<exists>r \<in> set rows. P r)"
  by (auto simp: rowcount_def filter_empty_conv)

lemma upsert_distinct:
  assumes "distinct (map key rows)" "\<And>r. key (merge r) = key r"
  shows "distinct (map key (upsert_row key new merge rows))"
  using assms by (auto simp: upsert_row_def map_update_rows)

lemma upsert_keys:
  assumes "\<And>r. key (merge r) = key r"
  shows "key ` set (upsert_row key new merge rows) = insert (key new) (key ` set rows)"
proof -
  have "key ` set (update_rows P merge rows) = key ` set rows" for P
    using map_update_rows [of P key merge rows] assms by (metis list.set_map)
  then show ?thesis by (auto simp: upsert_row_def)
qed

lemma row_by_upsert_same:
  assumes "\<And>r. key (merge r) = key r"
  shows "row_by key (key new) (upsert_row key new merge rows) =
    Some (case row_by key (key new) rows of Some r \<Rightarrow> merge r | None \<Rightarrow> new)"
proof (cases "row_by key (key new) rows")
  case None
  then have "key new \<notin> key ` set rows" by (simp add: row_by_None)
  with None show ?thesis by (simp add: upsert_row_def row_by_append) (simp add: row_by_def)
next
  case (Some r)
  then have "r \<in> set rows" "key r = key new" using row_by_Some [OF Some] by auto
  then have "key new \<in> key ` set rows" by (metis image_eqI)
  with Some \<open>key r = key new\<close> show ?thesis
    by (simp add: upsert_row_def row_by_update [where f = merge and key = key, OF assms])
qed

lemma row_by_upsert_other:
  assumes "\<And>r. key (merge r) = key r" "k \<noteq> key new"
  shows "row_by key k (upsert_row key new merge rows) = row_by key k rows"
proof -
  have "row_by key k (update_rows (\<lambda>r. key r = key new) merge rows) = row_by key k rows"
    using assms(2) row_by_Some [of key k rows]
    by (auto simp: row_by_update [where f = merge and key = key, OF assms(1)] split: option.splits)
  moreover have "row_by key k (rows @ [new]) = row_by key k rows"
    using assms(2) by (auto simp: row_by_append split: option.splits) (simp add: row_by_def)
  ultimately show ?thesis by (simp add: upsert_row_def)
qed

lemma upsert_row_mem:
  assumes "r \<in> set (upsert_row key new merge rows)"
  shows "r = new \<or> (\<exists>x \<in> set rows. r = (if key x = key new then merge x else x))"
proof (cases "key new \<in> key ` set rows")
  case True
  with assms show ?thesis by (auto simp: upsert_row_def in_update_rows)
next
  case False
  then have "key x \<noteq> key new" if "x \<in> set rows" for x using that by (metis image_eqI)
  with False assms show ?thesis by (auto simp: upsert_row_def)
qed

lemma upsert_row_at_key:
  assumes "r \<in> set (upsert_row key new merge rows)" "key r = key new" "\<And>x. key (merge x) = key x"
  shows "r = new \<or> (\<exists>x \<in> set rows. r = merge x)"
  using upsert_row_mem [OF assms(1)] assms(1,2)
  by (auto simp: upsert_row_def image_iff split: if_splits)

text \<open>What a WHERE selects after an update or an upsert, by key.\<close>

lemma update_rows_select:
  assumes "\<And>r. key (f r) = key r"
  shows "key ` {r \<in> set (update_rows P f rows). Q r} =
    key ` {r \<in> set rows. \<not> P r \<and> Q r} \<union> key ` {r \<in> set rows. P r \<and> Q (f r)}"
proof -
  have "{r \<in> set (update_rows P f rows). Q r} =
      {r \<in> set rows. \<not> P r \<and> Q r} \<union> f ` {r \<in> set rows. P r \<and> Q (f r)}"
    by (auto simp: update_rows_def)
  then show ?thesis using assms by (simp add: image_Un image_image)
qed

lemma upsert_select:
  assumes "\<And>r. key (merge r) = key r"
  shows "key ` {r \<in> set (upsert_row key new merge rows). Q r} =
    (if key new \<in> key ` set rows
     then key ` {r \<in> set rows. key r \<noteq> key new \<and> Q r} \<union> key ` {r \<in> set rows. key r = key new \<and> Q (merge r)}
     else key ` {r \<in> set rows. Q r} \<union> (if Q new then {key new} else {}))"
proof (cases "key new \<in> key ` set rows")
  case True
  then show ?thesis
    unfolding upsert_row_def using update_rows_select [where f = merge and key = key, OF assms] by simp
next
  case False
  then show ?thesis by (auto simp: upsert_row_def)
qed

section \<open>The contract of a key-value table\<close>

locale keyed_store =
  fixes norm :: "'k \<Rightarrow> 'n"
    and get :: "'s \<Rightarrow> 'k \<Rightarrow> 'v option"
    and put :: "'k \<Rightarrow> 'v \<Rightarrow> 's \<Rightarrow> 's"
  assumes get_put: "get (put k v s) k' = (if norm k' = norm k then Some v else get s k')"
begin

lemma get_put_same: "get (put k v s) k = Some v"
  by (simp add: get_put)

lemma get_put_other: "norm k' \<noteq> norm k \<Longrightarrow> get (put k v s) k' = get s k'"
  by (simp add: get_put)

text \<open>After any sequence of writes a key holds the last value written to it.\<close>

lemma get_fold_put:
  "get (fold (\<lambda>p. put (fst p) (snd p)) ws s) k =
     (case row_by (\<lambda>p. norm (fst p)) (norm k) (rev ws) of Some p \<Rightarrow> Some (snd p) | None \<Rightarrow> get s k)"
proof (induction ws arbitrary: s)
  case Nil
  then show ?case by (simp add: row_by_def)
next
  case (Cons w ws)
  then show ?case by (simp add: row_by_append get_put split: option.splits) (auto simp: row_by_def)
qed

lemma put_commute: "norm k \<noteq> norm k' \<Longrightarrow> get (put k v (put k' v' s)) = get (put k' v' (put k v s))"
  by (auto simp: fun_eq_iff get_put)

end

end
