(* ===== verification/V2_Events.thy ===== *)
theory V2_Events
  imports V2_Config Tables
begin

text \<open>
  The event half of \<open>talonx_v2/corporate_actions.py\<close>: typed corporate-action events, their
  classification from provider records, the per-source de-duplication with conflict detection
  (\<open>_finalize\<close>) and the merging of several sources (\<open>combine_sources\<close>).

  The idempotency keys and conflict strings of the code are \<open>|\<close>-separated renderings of their parts;
  here they are constructors over the parts.  A provider record carries its fields already parsed by
  \<open>_d\<close> and \<open>_fraction\<close> (\<open>None\<close> where the parser returns \<open>None\<close>).  An exact \<open>Fraction\<close> is a rational.
\<close>

section \<open>Definitions\<close>

datatype ca_kind = FORWARD_SPLIT | REVERSE_SPLIT | CASH_DIVIDEND | UNSUPPORTED

definition split_kind :: "ca_kind \<Rightarrow> bool" where
  "split_kind k \<longleftrightarrow> k = FORWARD_SPLIT \<or> k = REVERSE_SPLIT"

datatype action_key =
    SPLIT_KEY symbol date rat
  | DIV_KEY symbol date rat
  | UNSUPPORTED_KEY symbol string "date option" string
  | MALFORMED_KEY symbol string "date option" string
  | CONFLICT_SPLITS symbol date "rat list"
  | CONFLICT_DIVIDENDS symbol date "rat list"
  | CONFLICT_PRESENCE symbol "date option" action_key "string list"
  | CONFLICT_NOT_REPORTED symbol

record source_ref =
  sr_source :: string
  sr_provider_id :: string
  sr_received_at :: stamp

record ca_event =
  ev_key :: action_key
  ev_symbol :: symbol
  ev_kind :: ca_kind
  ev_provider_type :: string
  ev_ex_date :: "date option"
  ev_ratio :: "rat option"
  ev_cash_rate :: "rat option"
  ev_source :: string
  ev_provider_id :: string
  ev_received_at :: stamp
  ev_malformed :: bool
  ev_payable_date :: "date option"
  ev_record_date :: "date option"
  ev_source_refs :: "source_ref list"

record provider_record =
  rec_id :: string
  rec_ex_date :: "date option"
  rec_effective_date :: "date option"
  rec_process_date :: "date option"
  rec_new_rate :: "rat option"
  rec_old_rate :: "rat option"
  rec_rate :: "rat option"
  rec_special :: bool
  rec_foreign :: bool
  rec_payable_date :: "date option"
  rec_record_date :: "date option"

definition event_source_ref :: "ca_event \<Rightarrow> source_ref" where
  "event_source_ref e = \<lparr> sr_source = ev_source e, sr_provider_id = ev_provider_id e,
     sr_received_at = ev_received_at e \<rparr>"

text \<open>\<open>fraction_to_decimal\<close>: numerator over denominator in the 28-digit context.\<close>

definition fraction_to_decimal :: "rat \<Rightarrow> rat" where
  "fraction_to_decimal f = (case quotient_of f of (p, q) \<Rightarrow> dec28 (of_int p / of_int q))"

definition alpaca_kind :: "string \<Rightarrow> ca_kind option" where
  "alpaca_kind ptype =
     (if ptype = ''forward_splits'' then Some FORWARD_SPLIT
      else if ptype = ''reverse_splits'' then Some REVERSE_SPLIT
      else if ptype = ''cash_dividends'' then Some CASH_DIVIDEND else None)"

definition first_some :: "'a option list \<Rightarrow> 'a option" where
  "first_some xs = (case filter (\<lambda>x. x \<noteq> None) xs of [] \<Rightarrow> None | x # _ \<Rightarrow> x)"

definition classify_alpaca_record ::
    "symbol \<Rightarrow> string \<Rightarrow> provider_record \<Rightarrow> string \<Rightarrow> stamp \<Rightarrow> ca_event" where
  "classify_alpaca_record symbol ptype rec source received =
     (let sym = upper symbol; pid = rec_id rec;
          ex = first_some [rec_ex_date rec, rec_effective_date rec, rec_process_date rec];
          base = \<lparr> ev_key = UNSUPPORTED_KEY sym ptype ex pid, ev_symbol = sym, ev_kind = UNSUPPORTED,
                   ev_provider_type = ptype, ev_ex_date = ex, ev_ratio = None, ev_cash_rate = None,
                   ev_source = source, ev_provider_id = pid, ev_received_at = received,
                   ev_malformed = False, ev_payable_date = None, ev_record_date = None,
                   ev_source_refs = [] \<rparr>;
          malformed = base\<lparr> ev_key := MALFORMED_KEY sym ptype ex pid, ev_malformed := True \<rparr>
      in case alpaca_kind ptype of
           None \<Rightarrow> base
         | Some kind \<Rightarrow>
             if split_kind kind
             then (case (rec_ex_date rec, rec_new_rate rec, rec_old_rate rec) of
                     (Some d, Some new, Some old) \<Rightarrow>
                       if new \<le> 0 \<or> old \<le> 0 then malformed
                       else if new / old = 1 then malformed
                       else if (kind = FORWARD_SPLIT) \<noteq> (1 < new / old) then malformed
                       else base\<lparr> ev_key := SPLIT_KEY sym d (new / old), ev_kind := kind,
                                  ev_ex_date := Some d, ev_ratio := Some (new / old) \<rparr>
                   | _ \<Rightarrow> malformed)
             else (case (rec_ex_date rec, rec_rate rec) of
                     (Some d, Some r) \<Rightarrow>
                       if r \<le> 0 \<or> rec_special rec \<or> rec_foreign rec then malformed
                       else base\<lparr> ev_key := DIV_KEY sym d (dec28 r), ev_kind := kind,
                                  ev_ex_date := Some d, ev_cash_rate := Some (dec28 r),
                                  ev_payable_date := rec_payable_date rec,
                                  ev_record_date := rec_record_date rec \<rparr>
                   | _ \<Rightarrow> malformed))"

record ca_source_result =
  ca_source :: string
  ca_ok :: bool
  ca_events :: "ca_event list"
  ca_conflicts :: "action_key list"

definition unavailable :: "string \<Rightarrow> ca_source_result" where
  "unavailable name = \<lparr> ca_source = name, ca_ok = False, ca_events = [], ca_conflicts = [] \<rparr>"

text \<open>
  \<open>sorted(..., key=lambda e: (e.ex_date or date.min, e.action_key))\<close>; \<open>date.min\<close> has ordinal 1.  The
  order of equal dates is the string order of the keys, the argument \<open>render\<close>.
\<close>

definition event_order :: "(action_key \<Rightarrow> string) \<Rightarrow> ca_event \<Rightarrow> date \<times> string" where
  "event_order render e = ((case ev_ex_date e of None \<Rightarrow> 1 | Some d \<Rightarrow> d), render (ev_key e))"

definition same_day_values ::
    "(ca_event \<Rightarrow> bool) \<Rightarrow> (ca_event \<Rightarrow> rat option) \<Rightarrow> ca_event list \<Rightarrow> symbol \<times> date \<Rightarrow> rat list" where
  "same_day_values P value es k =
     sort (uniq (map (\<lambda>e. the (value e))
       (filter (\<lambda>e. P e \<and> ev_symbol e = fst k \<and> ev_ex_date e = Some (snd k) \<and> value e \<noteq> None) es)))"

definition day_keys :: "(ca_event \<Rightarrow> bool) \<Rightarrow> ca_event list \<Rightarrow> (symbol \<times> date) list" where
  "day_keys P es =
     sort (uniq (map (\<lambda>e. (ev_symbol e, the (ev_ex_date e))) (filter (\<lambda>e. P e \<and> ev_ex_date e \<noteq> None) es)))"

definition same_day_conflicts ::
    "(symbol \<Rightarrow> date \<Rightarrow> rat list \<Rightarrow> action_key) \<Rightarrow> (ca_event \<Rightarrow> bool) \<Rightarrow> (ca_event \<Rightarrow> rat option)
       \<Rightarrow> ca_event list \<Rightarrow> action_key list" where
  "same_day_conflicts mk P value es =
     map (\<lambda>k. mk (fst k) (snd k) (same_day_values P value es k))
       (filter (\<lambda>k. 1 < length (same_day_values P value es k)) (day_keys P es))"

definition finalize_events :: "(action_key \<Rightarrow> string) \<Rightarrow> string \<Rightarrow> ca_event list \<Rightarrow> ca_source_result" where
  "finalize_events render source events =
     (let es = sort_key (event_order render) (dedup_by ev_key [] events)
      in \<lparr> ca_source = source, ca_ok = True, ca_events = es,
           ca_conflicts =
             same_day_conflicts CONFLICT_SPLITS (\<lambda>e. split_kind (ev_kind e)) ev_ratio es
             @ same_day_conflicts CONFLICT_DIVIDENDS (\<lambda>e. ev_kind e = CASH_DIVIDEND) ev_cash_rate es \<rparr>)"

text \<open>The sources that report a split must be all of them.\<close>

definition reporting :: "ca_source_result list \<Rightarrow> action_key \<Rightarrow> string list" where
  "reporting results key =
     map ca_source (filter (\<lambda>r. list_ex (\<lambda>x. ev_key x = key) (ca_events r)) results)"

definition presence_conflicts :: "ca_source_result list \<Rightarrow> ca_event list \<Rightarrow> action_key list" where
  "presence_conflicts results merged =
     (if length results \<le> 1 then [] else
      map (\<lambda>e. CONFLICT_PRESENCE (ev_symbol e) (ev_ex_date e) (ev_key e)
             (sort (filter (\<lambda>s. s \<notin> set (reporting results (ev_key e))) (uniq (map ca_source results)))))
        (filter (\<lambda>e. split_kind (ev_kind e) \<and> card (set (reporting results (ev_key e))) \<noteq> length results) merged))"

definition combine_sources :: "(action_key \<Rightarrow> string) \<Rightarrow> ca_source_result list \<Rightarrow> ca_source_result" where
  "combine_sources render results =
     (let names = join_with ''+'' (map ca_source results) in
      if results = [] then unavailable ''none''
      else if list_ex (\<lambda>r. \<not> ca_ok r) results then unavailable names
      else let all = concat (map ca_events results);
               merged = dedup_by ev_key [] all;
               es = sort_key (event_order render) merged
           in \<lparr> ca_source = names, ca_ok = True,
                ca_events = map (\<lambda>e. e\<lparr> ev_source_refs :=
                    map event_source_ref (filter (\<lambda>x. ev_key x = ev_key e) all) \<rparr>) es,
                ca_conflicts = uniq (concat (map ca_conflicts results) @ presence_conflicts results merged) \<rparr>)"

section \<open>Laws\<close>

text \<open>A supported event is well formed: a split has a date and a positive ratio other than one, a dividend a positive rate.\<close>

definition event_ok :: "ca_event \<Rightarrow> bool" where
  "event_ok e \<longleftrightarrow>
     (split_kind (ev_kind e) \<longrightarrow>
        (\<exists>d r. ev_ex_date e = Some d \<and> ev_ratio e = Some r \<and> 0 < r \<and> r \<noteq> 1
             \<and> (ev_kind e = FORWARD_SPLIT \<longleftrightarrow> 1 < r) \<and> ev_key e = SPLIT_KEY (ev_symbol e) d r))
   \<and> (ev_kind e = CASH_DIVIDEND \<longrightarrow>
        (\<exists>d r. ev_ex_date e = Some d \<and> ev_cash_rate e = Some r \<and> 0 \<le> r
             \<and> ev_key e = DIV_KEY (ev_symbol e) d r))
   \<and> (\<forall>r. ev_ratio e = Some r \<longrightarrow> 0 < r) \<and> (\<forall>r. ev_cash_rate e = Some r \<longrightarrow> 0 \<le> r)"

lemma classify_event_ok: "event_ok (classify_alpaca_record symbol ptype rec source received)"
proof -
  have "0 \<le> dec28 r" if "\<not> r \<le> 0" for r using that by (simp add: d28.rnd_nonneg)
  then show ?thesis
    by (auto simp: classify_alpaca_record_def Let_def event_ok_def split_kind_def alpaca_kind_def
        split: option.splits if_splits)
qed

lemma finalize_events_simps [simp]:
  "ca_ok (finalize_events render source es)"
  "ca_source (finalize_events render source es) = source"
  "set (ca_events (finalize_events render source es)) \<subseteq> set es"
  "ev_key ` set (ca_events (finalize_events render source es)) = ev_key ` set es"
  using dedup_by_set [of ev_key "[]" es] by (simp_all add: finalize_events_def Let_def dedup_by_keys)

lemma finalize_events_distinct: "distinct (map ev_key (ca_events (finalize_events render source es)))"
  unfolding finalize_events_def Let_def
  by (simp, metis dedup_by_distinct distinct_map distinct_sort set_sort)

text \<open>The values one day's events carry, and when they conflict.\<close>

lemma same_day_values_mem:
  "v \<in> set (same_day_values P value es k) \<longleftrightarrow>
     (\<exists>e \<in> set es. P e \<and> ev_symbol e = fst k \<and> ev_ex_date e = Some (snd k) \<and> value e = Some v)"
  by (auto simp: same_day_values_def image_iff)

lemma distinct_same_day_values: "distinct (same_day_values P value es k)"
  by (simp add: same_day_values_def)

lemma day_keys_mem:
  "k \<in> set (day_keys P es) \<longleftrightarrow> (\<exists>e \<in> set es. P e \<and> ev_symbol e = fst k \<and> ev_ex_date e = Some (snd k))"
proof (cases k)
  case (Pair a b)
  then show ?thesis by (auto simp: day_keys_def image_iff)
qed

lemma same_day_conflicts_Nil:
  "same_day_conflicts mk P value es = [] \<longleftrightarrow>
     (\<forall>e \<in> set es. \<forall>f \<in> set es. \<forall>d u v. P e \<and> P f \<and> ev_symbol e = ev_symbol f \<and> ev_ex_date e = Some d
        \<and> ev_ex_date f = Some d \<and> value e = Some u \<and> value f = Some v \<longrightarrow> u = v)"
    (is "_ \<longleftrightarrow> ?agree")
proof -
  have one: "1 < length xs \<longleftrightarrow> (\<exists>u \<in> set xs. \<exists>v \<in> set xs. u \<noteq> v)" if "distinct xs" for xs :: "rat list"
  proof (cases xs rule: remdups_adj.cases)
    case (3 a b ys)
    with that show ?thesis by auto
  qed auto
  have "same_day_conflicts mk P value es = [] \<longleftrightarrow>
      (\<forall>k \<in> set (day_keys P es). \<not> 1 < length (same_day_values P value es k))"
    by (simp add: same_day_conflicts_def filter_empty_conv)
  also have "\<dots> \<longleftrightarrow> (\<forall>k. \<forall>u \<in> set (same_day_values P value es k). \<forall>v \<in> set (same_day_values P value es k). u = v)"
    unfolding one [OF distinct_same_day_values]
    by (metis (no_types, lifting) day_keys_mem same_day_values_mem)
  also have "\<dots> \<longleftrightarrow> ?agree"
  proof
    assume all: "\<forall>k. \<forall>u \<in> set (same_day_values P value es k). \<forall>v \<in> set (same_day_values P value es k). u = v"
    show ?agree
    proof (intro ballI allI impI)
      fix e f d u v
      assume "e \<in> set es" "f \<in> set es" "P e \<and> P f \<and> ev_symbol e = ev_symbol f \<and> ev_ex_date e = Some d
        \<and> ev_ex_date f = Some d \<and> value e = Some u \<and> value f = Some v"
      then have "u \<in> set (same_day_values P value es (ev_symbol e, d))"
        "v \<in> set (same_day_values P value es (ev_symbol e, d))" by (auto simp: same_day_values_mem)
      with all show "u = v" by blast
    qed
  next
    assume agree: ?agree
    show "\<forall>k. \<forall>u \<in> set (same_day_values P value es k). \<forall>v \<in> set (same_day_values P value es k). u = v"
    proof (intro allI ballI)
      fix k u v
      assume "u \<in> set (same_day_values P value es k)" "v \<in> set (same_day_values P value es k)"
      then obtain e f where "e \<in> set es" "f \<in> set es" "P e \<and> P f \<and> ev_symbol e = ev_symbol f
          \<and> ev_ex_date e = Some (snd k) \<and> ev_ex_date f = Some (snd k) \<and> value e = Some u \<and> value f = Some v"
        unfolding same_day_values_mem by fastforce
      with agree show "u = v" by blast
    qed
  qed
  finally show ?thesis .
qed

lemma combine_sources_okD:
  assumes "combine_sources render results = r" "ca_ok r"
  shows "results \<noteq> []" "\<forall>s \<in> set results. ca_ok s"
    and "r = \<lparr> ca_source = join_with ''+'' (map ca_source results), ca_ok = True,
        ca_events = map (\<lambda>e. e\<lparr> ev_source_refs :=
            map event_source_ref (filter (\<lambda>x. ev_key x = ev_key e) (concat (map ca_events results))) \<rparr>)
          (sort_key (event_order render) (dedup_by ev_key [] (concat (map ca_events results)))),
        ca_conflicts = uniq (concat (map ca_conflicts results)
          @ presence_conflicts results (dedup_by ev_key [] (concat (map ca_events results)))) \<rparr>"
  using assms by (auto simp: combine_sources_def Let_def unavailable_def list_ex_iff split: if_splits)

section \<open>Properties\<close>

text \<open>
  C32. Classification never coerces: whatever the provider sends, the event is either unsupported (and
  so blocks) or well formed: a split with an ex-date and a positive ratio, not one, in the direction
  the provider named; a dividend with an ex-date and a non-negative amount; and its key is the
  content it was derived from.
\<close>

theorem classified_event_well_formed:
  "let e = classify_alpaca_record symbol ptype rec source received
   in ev_symbol e = upper symbol
      \<and> (ev_kind e = UNSUPPORTED \<or>
         (split_kind (ev_kind e) \<and> (\<exists>d r. ev_ex_date e = Some d \<and> ev_ratio e = Some r \<and> 0 < r \<and> r \<noteq> 1
              \<and> (ev_kind e = FORWARD_SPLIT \<longleftrightarrow> 1 < r) \<and> ev_key e = SPLIT_KEY (upper symbol) d r)) \<or>
         (ev_kind e = CASH_DIVIDEND \<and> (\<exists>d r. ev_ex_date e = Some d \<and> ev_cash_rate e = Some r \<and> 0 \<le> r
              \<and> ev_key e = DIV_KEY (upper symbol) d r)))"
proof -
  let ?e = "classify_alpaca_record symbol ptype rec source received"
  have sym: "ev_symbol ?e = upper symbol"
    by (simp add: classify_alpaca_record_def Let_def split: option.splits)
  show ?thesis
    using classify_event_ok [of symbol ptype rec source received] sym
    unfolding event_ok_def Let_def by (cases "ev_kind ?e") (auto simp: split_kind_def)
qed

text \<open>
  C23. Evidence without a conflict is unambiguous: when \<open>_finalize\<close> reports no conflict, all splits of a
  symbol with the same ex-date have the same ratio and all its dividends of that date the same amount,
  and every event the source listed is still there, once.
\<close>

theorem finalize_detects_conflicts:
  assumes "finalize_events render source events = r" "ca_conflicts r = []"
    and "e \<in> set (ca_events r)" "f \<in> set (ca_events r)"
    and "ev_symbol e = ev_symbol f" "ev_ex_date e = Some d" "ev_ex_date f = Some d"
  shows "(split_kind (ev_kind e) \<and> split_kind (ev_kind f) \<and> ev_ratio e = Some u \<and> ev_ratio f = Some v \<longrightarrow> u = v)
     \<and> (ev_kind e = CASH_DIVIDEND \<and> ev_kind f = CASH_DIVIDEND \<and> ev_cash_rate e = Some u \<and> ev_cash_rate f = Some v
          \<longrightarrow> u = v)
     \<and> distinct (map ev_key (ca_events r)) \<and> ev_key ` set (ca_events r) = ev_key ` set events"
proof -
  let ?es = "ca_events (finalize_events render source events)"
  have "same_day_conflicts CONFLICT_SPLITS (\<lambda>e. split_kind (ev_kind e)) ev_ratio ?es = []"
    "same_day_conflicts CONFLICT_DIVIDENDS (\<lambda>e. ev_kind e = CASH_DIVIDEND) ev_cash_rate ?es = []"
    using assms(1,2) by (auto simp: finalize_events_def Let_def)
  note none = this [unfolded same_day_conflicts_Nil]
  show ?thesis
    using none assms(3-) finalize_events_distinct [of render source events]
    unfolding assms(1) [symmetric] finalize_events_simps(4) by blast
qed

text \<open>
  A split that is used was reported by every configured source: when the merged evidence is
  available and free of conflicts, each source answered, and each source lists every split.
\<close>

theorem combined_split_is_corroborated:
  assumes "combine_sources render results = r" "ca_ok r" "ca_conflicts r = []"
    and "e \<in> set (ca_events r)" "split_kind (ev_kind e)" "s \<in> set results"
  shows "ca_ok s \<and> (\<exists>x \<in> set (ca_events s). ev_key x = ev_key e)"
proof -
  note ok = combine_sources_okD [OF assms(1,2)]
  let ?merged = "dedup_by ev_key [] (concat (map ca_events results))"
  from assms(4) obtain m where m: "m \<in> set ?merged" "ev_key m = ev_key e" "ev_kind m = ev_kind e"
    unfolding ok(3) by auto
  have "set (ca_conflicts r) = {}" using assms(3) by simp
  then have pc: "presence_conflicts results ?merged = []" unfolding ok(3) by simp
  have "\<exists>x \<in> set (ca_events s). ev_key x = ev_key e"
  proof (cases "length results \<le> 1")
    case True
    then have "results = [s]" using assms(6) by (cases results; cases "tl results") auto
    then show ?thesis using m(1,2) dedup_by_set [of ev_key "[]" "ca_events s"] by auto
  next
    case False
    then have "card (set (reporting results (ev_key e))) = length results"
      using pc m assms(5) by (auto simp: presence_conflicts_def filter_empty_conv)
    moreover have "card (set (reporting results (ev_key e))) \<le> length (reporting results (ev_key e))"
      by (rule card_length)
    moreover have "length (reporting results (ev_key e)) \<le> length results"
      by (simp add: reporting_def)
    ultimately have "length (filter (\<lambda>r. list_ex (\<lambda>x. ev_key x = ev_key e) (ca_events r)) results) = length results"
      unfolding reporting_def length_map by linarith
    with assms(6) have "list_ex (\<lambda>x. ev_key x = ev_key e) (ca_events s)"
      by (rule length_filter_all)
    then show ?thesis by (simp add: list_ex_iff)
  qed
  with ok(2) assms(6) show ?thesis by blast
qed

section \<open>Concrete evidence\<close>

definition demo_split :: "string \<Rightarrow> ca_event" where
  "demo_split source = classify_alpaca_record ''abc'' ''forward_splits''
     \<lparr> rec_id = ''s1'', rec_ex_date = Some 738890, rec_effective_date = None, rec_process_date = None,
       rec_new_rate = Some 10, rec_old_rate = Some 1, rec_rate = None, rec_special = False,
       rec_foreign = False, rec_payable_date = None, rec_record_date = None \<rparr> source 0"

definition demo_result :: "string \<Rightarrow> ca_source_result" where
  "demo_result source = finalize_events (\<lambda>_. []) source [demo_split source, demo_split source]"

theorem finalize_detects_conflicts_witness:
  "distinct (map ev_key (ca_events (demo_result ''a''))) \<and> length (ca_events (demo_result ''a'')) = 1"
proof -
  have "ca_conflicts (demo_result ''a'') = []" "ca_events (demo_result ''a'') = [demo_split ''a'']"
    "ev_ex_date (demo_split ''a'') = Some 738890" by code_simp+
  then show ?thesis
    using finalize_detects_conflicts [of "\<lambda>_. []" "''a''" "[demo_split ''a'', demo_split ''a'']" "demo_result ''a''"
        "demo_split ''a''" "demo_split ''a''" 738890 0 0]
    by (simp add: demo_result_def)
qed

theorem combined_split_is_corroborated_witness:
  "\<exists>x \<in> set (ca_events (demo_result ''b'')). ev_key x = SPLIT_KEY ''ABC'' 738890 10"
proof -
  let ?r = "combine_sources (\<lambda>_. []) [demo_result ''a'', demo_result ''b'']"
  have "ca_ok ?r" "ca_conflicts ?r = []" "ca_events ?r = [hd (ca_events ?r)]"
    "split_kind (ev_kind (hd (ca_events ?r)))" by code_simp+
  then have "\<exists>x \<in> set (ca_events (demo_result ''b'')). ev_key x = ev_key (hd (ca_events ?r))"
    using combined_split_is_corroborated [OF refl, of "\<lambda>_. []" "[demo_result ''a'', demo_result ''b'']"
        "hd (ca_events ?r)" "demo_result ''b''"] by (metis list.set_intros(1) list.set_intros(2))
  moreover have "ev_key (hd (ca_events ?r)) = SPLIT_KEY ''ABC'' 738890 10" by code_simp
  ultimately show ?thesis by simp
qed

end
