(* ===== verification/Account_Blocks.thy ===== *)
theory Account_Blocks
  imports Tables
begin

text \<open>
  \<open>talonx_ops/account_blocks.py\<close>: durable account-wide admission blocks and their audited clearance.
  The connection is the pair of tables; a function of the module is a function on that pair.  \<open>now\<close>
  is \<open>_utcnow()\<close>, \<open>sha\<close> the 24-digit SHA-256 prefix of a text.
\<close>

section \<open>Definitions\<close>

definition REASON_EXIT_UNRESOLVED :: string where
  "REASON_EXIT_UNRESOLVED = ''EXIT_UNRESOLVED''"

definition VALID_REASON_TYPES :: "string list" where
  "VALID_REASON_TYPES = [REASON_EXIT_UNRESOLVED, ''LEDGER_MISMATCH'', ''CASH_DEFICIT'', ''IDENTITY_MISMATCH'']"

datatype block_status = ACTIVE | CLEARED

record block =
  block_id :: string
  bl_account :: string
  bl_reason_type :: string
  bl_reference :: string
  bl_detail :: string
  bl_status :: block_status
  bl_detected_at :: stamp
  bl_updated_at :: stamp

datatype clearance_outcome = OUTCOME_CLEARED | OUTCOME_REFUSED

record clearance =
  clearance_id :: string
  cl_block_id :: string
  cl_operator :: string
  cl_reason :: string
  cl_evidence :: string
  cl_outcome :: clearance_outcome
  cl_detail :: string
  cl_attempted_at :: stamp

record block_tables =
  account_blocks :: "block list"
  block_clearances :: "clearance list"

definition mk_block_id :: "(string \<Rightarrow> string) \<Rightarrow> string \<Rightarrow> string \<Rightarrow> string \<Rightarrow> string" where
  "mk_block_id sha account reason ref = sha (account @ ''|'' @ reason @ ''|'' @ ref)"

text \<open>
  The row an INSERT writes and what ON CONFLICT makes of an existing row: \<open>detected_at_utc\<close> of a row
  that is still ACTIVE is kept.
\<close>

definition new_block :: "string \<Rightarrow> stamp \<Rightarrow> string \<Rightarrow> string \<Rightarrow> string \<Rightarrow> string \<Rightarrow> block" where
  "new_block bid now account reason ref detail =
     \<lparr> block_id = bid, bl_account = account, bl_reason_type = reason, bl_reference = ref,
       bl_detail = take 2000 detail, bl_status = ACTIVE, bl_detected_at = now, bl_updated_at = now \<rparr>"

definition refresh_block :: "stamp \<Rightarrow> string \<Rightarrow> block \<Rightarrow> block" where
  "refresh_block now detail b =
     b\<lparr> bl_detail := take 2000 detail, bl_updated_at := now, bl_status := ACTIVE,
        bl_detected_at := (if bl_status b = ACTIVE then bl_detected_at b else now) \<rparr>"

definition record_block ::
    "(string \<Rightarrow> string) \<Rightarrow> stamp \<Rightarrow> string \<Rightarrow> string \<Rightarrow> string \<Rightarrow> string \<Rightarrow> block_tables
       \<Rightarrow> (string \<times> block_tables) result" where
  "record_block sha now account reason ref detail t =
     (if reason \<notin> set VALID_REASON_TYPES then Inl ValueError
      else let bid = mk_block_id sha account reason ref
           in Inr (bid, t\<lparr> account_blocks := upsert_row block_id (new_block bid now account reason ref detail)
                            (refresh_block now detail) (account_blocks t) \<rparr>))"

definition active_blocks :: "block_tables \<Rightarrow> string \<Rightarrow> block list" where
  "active_blocks t account =
     sort_key bl_detected_at (filter (\<lambda>b. bl_account b = account \<and> bl_status b = ACTIVE) (account_blocks t))"

definition blocked_reason :: "block_tables \<Rightarrow> string \<Rightarrow> string option" where
  "blocked_reason t account =
     (let bs = active_blocks t account
      in if bs = [] then None
         else Some (join_with ''; '' (map (\<lambda>b. bl_reason_type b @ '':'' @ bl_reference b) bs)))"

definition get_block :: "block_tables \<Rightarrow> string \<Rightarrow> block option" where
  "get_block t bid = row_by block_id bid (account_blocks t)"

definition clearance_history :: "block_tables \<Rightarrow> string \<Rightarrow> clearance list" where
  "clearance_history t bid =
     sort_key cl_attempted_at (filter (\<lambda>c. cl_block_id c = bid) (block_clearances t))"

text \<open>\<open>clearance_id\<close> is a PRIMARY KEY: the same operator clearing the same block twice in one microsecond raises.\<close>

definition clear_block :: "stamp \<Rightarrow> block \<Rightarrow> block" where
  "clear_block now b = b\<lparr> bl_status := CLEARED, bl_updated_at := now \<rparr>"

definition attempt_clearance ::
    "(string \<Rightarrow> string) \<Rightarrow> stamp \<Rightarrow> string \<Rightarrow> string \<Rightarrow> string \<Rightarrow> string \<Rightarrow> bool \<Rightarrow> string
       \<Rightarrow> block_tables \<Rightarrow> (clearance \<times> block_tables) result" where
  "attempt_clearance sha now bid operator reason evidence allow detail t =
     (if operator = [] \<or> reason = [] \<or> evidence = [] then Inl ValueError
      else if get_block t bid = None then Inl ValueError
      else let cid = sha (bid @ ''|'' @ operator @ ''|'' @ iso_stamp now);
               row = \<lparr> clearance_id = cid, cl_block_id = bid, cl_operator = operator,
                       cl_reason = take 500 reason, cl_evidence = take 500 evidence,
                       cl_outcome = (if allow then OUTCOME_CLEARED else OUTCOME_REFUSED),
                       cl_detail = take 2000 detail, cl_attempted_at = now \<rparr>
           in if cid \<in> clearance_id ` set (block_clearances t) then Inl IntegrityError
              else Inr (row, t\<lparr> block_clearances := block_clearances t @ [row],
                     account_blocks := (if allow
                        then update_rows (\<lambda>b. block_id b = bid) (clear_block now) (account_blocks t)
                        else account_blocks t) \<rparr>))"

section \<open>Laws\<close>

definition active_ids :: "block_tables \<Rightarrow> string \<Rightarrow> string set" where
  "active_ids t account = block_id ` {b \<in> set (account_blocks t). bl_account b = account \<and> bl_status b = ACTIVE}"

definition blocks_ok :: "block_tables \<Rightarrow> bool" where
  "blocks_ok t \<longleftrightarrow> distinct (map block_id (account_blocks t)) \<and> distinct (map clearance_id (block_clearances t))"

lemma set_active_blocks:
  "set (active_blocks t account) = {b \<in> set (account_blocks t). bl_account b = account \<and> bl_status b = ACTIVE}"
  by (simp add: active_blocks_def)

lemma blocked_reason_None: "blocked_reason t account = None \<longleftrightarrow> active_ids t account = {}"
proof -
  have "active_blocks t account = [] \<longleftrightarrow> active_ids t account = {}"
    by (metis active_ids_def image_is_empty set_active_blocks set_empty)
  then show ?thesis by (simp add: blocked_reason_def Let_def)
qed

lemma block_row_simps [simp]:
  "block_id (refresh_block now d b) = block_id b" "bl_account (refresh_block now d b) = bl_account b"
  "bl_status (refresh_block now d b) = ACTIVE"
  "block_id (clear_block now b) = block_id b" "bl_account (clear_block now b) = bl_account b"
  "bl_status (clear_block now b) = CLEARED"
  "block_id (new_block bid now a rt ref d) = bid" "bl_account (new_block bid now a rt ref d) = a"
  "bl_status (new_block bid now a rt ref d) = ACTIVE"
  by (simp_all add: refresh_block_def clear_block_def new_block_def)

lemma record_block_InrD:
  assumes "record_block sha now account reason ref detail t = Inr (bid, t')"
  shows "bid = mk_block_id sha account reason ref" "reason \<in> set VALID_REASON_TYPES"
    and "t' = t\<lparr> account_blocks := upsert_row block_id (new_block bid now account reason ref detail)
                  (refresh_block now detail) (account_blocks t) \<rparr>"
  using assms by (auto simp: record_block_def Let_def split: if_splits)

lemma record_block_ids:
  assumes "record_block sha now account reason ref detail t = Inr (bid, t')"
  shows "block_id ` set (account_blocks t') = insert bid (block_id ` set (account_blocks t))"
  using record_block_InrD(3) [OF assms] by (simp add: upsert_keys)

lemma record_block_ok:
  assumes "record_block sha now account reason ref detail t = Inr (bid, t')" "blocks_ok t"
  shows "blocks_ok t'"
  using record_block_InrD(3) [OF assms(1)] assms(2) by (simp add: blocks_ok_def upsert_distinct)

lemma attempt_clearance_InrD:
  assumes "attempt_clearance sha now bid op reason ev allow detail t = Inr (row, t')"
  shows "op \<noteq> []" "reason \<noteq> []" "ev \<noteq> []" "bid \<in> block_id ` set (account_blocks t)"
    "block_clearances t' = block_clearances t @ [row]" "cl_block_id row = bid"
    "cl_outcome row = (if allow then OUTCOME_CLEARED else OUTCOME_REFUSED)"
    "clearance_id row \<notin> clearance_id ` set (block_clearances t)"
    "account_blocks t' = (if allow then update_rows (\<lambda>b. block_id b = bid) (clear_block now) (account_blocks t)
        else account_blocks t)"
  using assms by (auto simp: attempt_clearance_def Let_def get_block_def row_by_None split: if_splits)

lemma attempt_clearance_ok:
  assumes "attempt_clearance sha now bid op reason ev allow detail t = Inr (row, t')" "blocks_ok t"
  shows "blocks_ok t'"
  using attempt_clearance_InrD(5,8,9) [OF assms(1)] assms(2)
  by (simp add: blocks_ok_def map_update_rows)

text \<open>A clearance removes its block from the active set, and no other.\<close>

lemma attempt_clearance_active:
  assumes "attempt_clearance sha now bid op reason ev allow detail t = Inr (row, t')"
  shows "active_ids t' account = (if allow then active_ids t account - {bid} else active_ids t account)"
proof (cases allow)
  case True
  then show ?thesis
    unfolding active_ids_def attempt_clearance_InrD(9) [OF assms]
    by (auto simp: update_rows_select)
qed (simp add: active_ids_def attempt_clearance_InrD(9) [OF assms])

text \<open>
  Recording adds exactly the recorded block to the account's active set; \<open>owned\<close> says that a block id
  never belongs to two accounts, which holds as long as \<open>sha\<close> does not collide on the recorded texts.
\<close>

definition owned :: "string \<Rightarrow> string \<Rightarrow> block_tables \<Rightarrow> bool" where
  "owned account bid t \<longleftrightarrow> (\<forall>b \<in> set (account_blocks t). block_id b = bid \<longrightarrow> bl_account b = account)"

lemma record_block_active:
  assumes "record_block sha now account reason ref detail t = Inr (bid, t')" "owned account bid t"
  shows "active_ids t' acc = (if acc = account then insert bid (active_ids t acc) else active_ids t acc)"
proof -
  have sel: "active_ids t' acc = block_id ` {b \<in> set (upsert_row block_id
      (new_block bid now account reason ref detail) (refresh_block now detail) (account_blocks t)).
        bl_account b = acc \<and> bl_status b = ACTIVE}"
    unfolding active_ids_def record_block_InrD(3) [OF assms(1)] by simp
  show ?thesis unfolding sel using assms(2) by (auto simp: upsert_select active_ids_def owned_def)
qed

section \<open>The contract of the admission gate\<close>

text \<open>
  What a ledger relies on: an account is blocked as long as some block is active, raising a block
  activates its identity, and clearing one identity never deactivates another.
\<close>

locale admission_gate =
  fixes inv :: "'s \<Rightarrow> bool"
    and blocked :: "'s \<Rightarrow> bool"
    and active :: "'s \<Rightarrow> 'b set"
    and ident :: "'r \<Rightarrow> 'b"
    and raise_block :: "'r \<Rightarrow> 's \<Rightarrow> 's"
    and clear :: "'b \<Rightarrow> 's \<Rightarrow> 's"
  assumes blocked_iff: "blocked s \<longleftrightarrow> active s \<noteq> {}"
    and inv_raise: "inv s \<Longrightarrow> inv (raise_block r s)"
    and inv_clear: "inv s \<Longrightarrow> inv (clear b s)"
    and active_raise: "inv s \<Longrightarrow> active (raise_block r s) = insert (ident r) (active s)"
    and active_clear: "inv s \<Longrightarrow> active s - {b} \<subseteq> active (clear b s)"
begin

lemma inv_clears: "inv s \<Longrightarrow> inv (fold clear bs s)"
  by (induction bs arbitrary: s) (auto intro: inv_clear)

lemma active_clears: "inv s \<Longrightarrow> active s - set bs \<subseteq> active (fold clear bs s)"
proof (induction bs arbitrary: s)
  case (Cons b bs)
  have "active s - set (b # bs) = (active s - {b}) - set bs" by auto
  also have "\<dots> \<subseteq> active (clear b s) - set bs" using active_clear [OF Cons.prems, of b] by auto
  also have "\<dots> \<subseteq> active (fold clear bs (clear b s))" by (rule Cons.IH [OF inv_clear [OF Cons.prems]])
  finally show ?case by simp
qed simp

lemma raised_stays_blocked:
  "inv s \<Longrightarrow> ident r \<notin> set bs \<Longrightarrow> blocked (fold clear bs (raise_block r s))"
  using active_clears [OF inv_raise, of s r bs] active_raise [of s r] by (auto simp: blocked_iff)

lemma raise_again: "inv s \<Longrightarrow> active (raise_block r (raise_block r s)) = active (raise_block r s)"
  by (simp add: active_raise inv_raise)

end

text \<open>One logical account per ledger file; an attempt that raises leaves the tables as they are.\<close>

definition one_account :: "string \<Rightarrow> block_tables \<Rightarrow> bool" where
  "one_account account t \<longleftrightarrow> (\<forall>b \<in> set (account_blocks t). bl_account b = account)"

definition committed :: "'s \<Rightarrow> ('a \<times> 's) result \<Rightarrow> 's" where
  "committed s r = (case r of Inl _ \<Rightarrow> s | Inr (_, s') \<Rightarrow> s')"

definition raise_unresolved :: "(string \<Rightarrow> string) \<Rightarrow> stamp \<Rightarrow> string \<Rightarrow> string \<Rightarrow> block_tables \<Rightarrow> block_tables" where
  "raise_unresolved sha now account ref t =
     committed t (record_block sha now account REASON_EXIT_UNRESOLVED ref [] t)"

definition clear_with ::
    "(string \<Rightarrow> string) \<Rightarrow> stamp \<Rightarrow> string \<Rightarrow> string \<Rightarrow> string \<Rightarrow> string \<Rightarrow> block_tables \<Rightarrow> block_tables" where
  "clear_with sha now op reason ev bid t = committed t (attempt_clearance sha now bid op reason ev True [] t)"

lemma one_account_update:
  "one_account account t \<Longrightarrow> (\<And>b. bl_account (f b) = bl_account b) \<Longrightarrow>
     one_account account (t\<lparr> account_blocks := update_rows P f (account_blocks t) \<rparr>)"
  by (auto simp: one_account_def in_update_rows)

lemma record_block_one_account:
  assumes "record_block sha now account reason ref detail t = Inr (bid, t')" "one_account account t"
  shows "one_account account t'"
  using record_block_InrD(3) [OF assms(1)] assms(2)
  by (auto simp: one_account_def dest!: upsert_row_mem split: if_splits)

lemma attempt_clearance_one_account:
  assumes "attempt_clearance sha now bid op reason ev allow detail t = Inr (row, t')" "one_account account t"
  shows "one_account account t'"
  using attempt_clearance_InrD(9) [OF assms(1)] assms(2)
  by (auto simp: one_account_def in_update_rows split: if_splits)

lemma raise_unresolved_Inr:
  obtains bid t' where "record_block sha now account REASON_EXIT_UNRESOLVED ref [] t = Inr (bid, t')"
    "raise_unresolved sha now account ref t = t'" "bid = mk_block_id sha account REASON_EXIT_UNRESOLVED ref"
  by (auto simp: raise_unresolved_def record_block_def VALID_REASON_TYPES_def committed_def Let_def)

lemma clear_with_cases:
  "clear_with sha now op reason ev bid t = t \<or>
   (\<exists>row. attempt_clearance sha now bid op reason ev True [] t = Inr (row, clear_with sha now op reason ev bid t))"
  by (auto simp: clear_with_def committed_def split: sum.splits)

interpretation v2_gate: admission_gate "one_account account" "\<lambda>t. blocked_reason t account \<noteq> None"
  "\<lambda>t. active_ids t account" "mk_block_id sha account REASON_EXIT_UNRESOLVED"
  "raise_unresolved sha now account" "clear_with sha now op reason ev"
  for account sha now op reason ev
proof unfold_locales
  fix s r
  assume inv: "one_account account s"
  obtain bid t' where t': "record_block sha now account REASON_EXIT_UNRESOLVED r [] s = Inr (bid, t')"
    "raise_unresolved sha now account r s = t'" "bid = mk_block_id sha account REASON_EXIT_UNRESOLVED r"
    by (rule raise_unresolved_Inr)
  show "one_account account (raise_unresolved sha now account r s)"
    using record_block_one_account [OF t'(1) inv] t'(2) by simp
  have "owned account bid s" using inv by (simp add: owned_def one_account_def)
  from record_block_active [OF t'(1) this, of account] t'(2,3)
  show "active_ids (raise_unresolved sha now account r s) account
      = insert (mk_block_id sha account REASON_EXIT_UNRESOLVED r) (active_ids s account)" by simp
next
  fix s b
  assume inv: "one_account account s"
  show "one_account account (clear_with sha now op reason ev b s)"
    using clear_with_cases [of sha now op reason ev b s] inv attempt_clearance_one_account by metis
  show "active_ids s account - {b} \<subseteq> active_ids (clear_with sha now op reason ev b s) account"
    using clear_with_cases [of sha now op reason ev b s] attempt_clearance_active by (metis Diff_subset order_refl)
qed (simp add: blocked_reason_None)

section \<open>Properties\<close>

text \<open>
  C25. A recorded block keeps the account out of the market until it is cleared itself: whatever
  other blocks an operator clears, in whatever order, \<open>blocked_reason\<close> still reports the account.
\<close>

theorem block_survives_other_clearances:
  assumes "one_account account t" "mk_block_id sha account REASON_EXIT_UNRESOLVED ref \<notin> set cleared"
  shows "blocked_reason (fold (clear_with sha now op reason ev) cleared
           (raise_unresolved sha now account ref t)) account \<noteq> None"
  using v2_gate.raised_stays_blocked [OF assms] .

text \<open>
  Detecting the same issue again is idempotent: no second row, the same active blocks, and the
  first detection time is kept while the block is active.
\<close>

theorem record_block_idempotent:
  assumes "blocks_ok t" "owned account (mk_block_id sha account reason ref) t"
    and "record_block sha now1 account reason ref d1 t = Inr (bid1, t1)"
    and "record_block sha now2 account reason ref d2 t1 = Inr (bid2, t2)"
  shows "bid2 = bid1 \<and> map block_id (account_blocks t2) = map block_id (account_blocks t1)
     \<and> active_ids t2 account = active_ids t1 account
     \<and> map bl_detected_at (account_blocks t2) = map bl_detected_at (account_blocks t1)
     \<and> block_clearances t2 = block_clearances t"
proof -
  note r1 = record_block_InrD [OF assms(3)] and r2 = record_block_InrD [OF assms(4)]
  have in1: "bid1 \<in> block_id ` set (account_blocks t1)" by (simp add: record_block_ids [OF assms(3)])
  have bid: "bid2 = bid1" using r1(1) r2(1) by simp
  have ok1: "blocks_ok t1" using record_block_ok [OF assms(3,1)] .
  have act: "bl_status b = ACTIVE" if "b \<in> set (account_blocks t1)" "block_id b = bid1" for b
  proof -
    have "b \<in> set (upsert_row block_id (new_block bid1 now1 account reason ref d1) (refresh_block now1 d1)
        (account_blocks t))" using that(1) r1(3) by simp
    from upsert_row_at_key [OF this] that(2)
    have "b = new_block bid1 now1 account reason ref d1 \<or> (\<exists>x. b = refresh_block now1 d1 x)" by auto
    then show ?thesis by (metis block_row_simps(3,9))
  qed
  have up: "account_blocks t2 = update_rows (\<lambda>b. block_id b = bid1) (refresh_block now2 d2) (account_blocks t1)"
    using r2(3) in1 bid by (simp add: upsert_row_def)
  have "map bl_detected_at (account_blocks t2) = map bl_detected_at (account_blocks t1)"
    using act by (simp add: up update_rows_def refresh_block_def)
  moreover have "map block_id (account_blocks t2) = map block_id (account_blocks t1)"
    by (simp add: up map_update_rows)
  moreover have "owned account bid1 t1"
    using assms(2) r1(1,3) by (auto simp: owned_def dest!: upsert_row_mem split: if_splits)
  then have "active_ids t2 account = insert bid1 (active_ids t1 account)"
    using record_block_active [OF assms(4), of account] bid by simp
  moreover have "bid1 \<in> active_ids t1 account"
    using record_block_active [OF assms(3), of account] assms(2) r1(1) by simp
  ultimately show ?thesis using bid r1(3) r2(3) by auto
qed

text \<open>
  Every clearance attempt that is accepted, approved or refused, needs an operator, a reason and
  evidence, appends exactly one row to the history of its own block and none to another's, and
  changes the active set by at most its own block.
\<close>

theorem clearance_is_audited:
  assumes "attempt_clearance sha now bid op reason ev allow detail t = Inr (row, t')"
  shows "op \<noteq> [] \<and> reason \<noteq> [] \<and> ev \<noteq> []
     \<and> mset (clearance_history t' bid) = add_mset row (mset (clearance_history t bid))
     \<and> (\<forall>other. other \<noteq> bid \<longrightarrow> clearance_history t' other = clearance_history t other)
     \<and> active_ids t' account = (if allow then active_ids t account - {bid} else active_ids t account)"
  using attempt_clearance_InrD [OF assms] attempt_clearance_active [OF assms, of account]
  by (simp add: clearance_history_def)

section \<open>A concrete account\<close>

definition demo_blocks :: block_tables where
  "demo_blocks = \<lparr> account_blocks = [], block_clearances = [] \<rparr>"

theorem block_survives_other_clearances_witness:
  "blocked_reason (fold (clear_with id 7 ''op'' ''why'' ''ev'') [''other'']
     (raise_unresolved id 7 ''V2'' ''1'' demo_blocks)) ''V2'' \<noteq> None"
proof -
  have "one_account ''V2'' demo_blocks" by (simp add: one_account_def demo_blocks_def)
  moreover have "mk_block_id id ''V2'' REASON_EXIT_UNRESOLVED ''1'' \<notin> set [''other'']" by code_simp
  ultimately show ?thesis by (rule block_survives_other_clearances)
qed

definition demo_recorded :: "stamp \<Rightarrow> block_tables \<Rightarrow> block_tables" where
  "demo_recorded now t = raise_unresolved id now ''V2'' ''1'' t"

theorem record_block_idempotent_witness:
  "map bl_detected_at (account_blocks (demo_recorded 9 (demo_recorded 7 demo_blocks)))
   = map bl_detected_at (account_blocks (demo_recorded 7 demo_blocks))"
proof -
  have "blocks_ok demo_blocks" "owned ''V2'' (mk_block_id id ''V2'' REASON_EXIT_UNRESOLVED ''1'') demo_blocks"
    by (simp_all add: blocks_ok_def owned_def demo_blocks_def)
  moreover have "record_block id 7 ''V2'' REASON_EXIT_UNRESOLVED ''1'' [] demo_blocks
      = Inr (mk_block_id id ''V2'' REASON_EXIT_UNRESOLVED ''1'', demo_recorded 7 demo_blocks)" by code_simp
  moreover have "record_block id 9 ''V2'' REASON_EXIT_UNRESOLVED ''1'' [] (demo_recorded 7 demo_blocks)
      = Inr (mk_block_id id ''V2'' REASON_EXIT_UNRESOLVED ''1'', demo_recorded 9 (demo_recorded 7 demo_blocks))"
    by code_simp
  ultimately show ?thesis using record_block_idempotent by blast
qed

theorem clearance_is_audited_witness:
  "\<exists>row t'. attempt_clearance id 9 (mk_block_id id ''V2'' REASON_EXIT_UNRESOLVED ''1'') ''op'' ''why'' ''ev'' True []
       (demo_recorded 7 demo_blocks) = Inr (row, t') \<and> active_ids t' ''V2'' = {}"
proof -
  let ?b = "mk_block_id id ''V2'' REASON_EXIT_UNRESOLVED ''1''"
  have "\<not> isl (attempt_clearance id 9 ?b ''op'' ''why'' ''ev'' True [] (demo_recorded 7 demo_blocks))" by code_simp
  then obtain row t' where r: "attempt_clearance id 9 ?b ''op'' ''why'' ''ev'' True [] (demo_recorded 7 demo_blocks)
      = Inr (row, t')" by (metis sum.collapse(2) prod.exhaust)
  moreover have "active_ids (demo_recorded 7 demo_blocks) ''V2'' = {?b}" by code_simp
  ultimately show ?thesis using clearance_is_audited [OF r, of "''V2''"] by auto
qed

end
