(* ===== verification/V2_Ledger.thy ===== *)
theory V2_Ledger
  imports V2_Cluster V2_Liquidity V2_Sizing V2_Events Account_Blocks
begin

text \<open>
  The tables of the lane's SQLite ledger (\<open>talonx_v2/store.py\<close>, \<open>_SCHEMA\<close>): one record per row type and
  the record \<open>ledger\<close> with one field per table, rows in insertion order, AUTOINCREMENT as a counter.

  Text columns that are only displayed (rationales, JSON source metadata, the free-text details of
  dispositions and trades) are left out; codes and identifiers are constructors.
\<close>

section \<open>Rows\<close>

datatype skip_reason =
    ACCOUNT_BLOCKED string
  | SYMBOL_ALREADY_OPEN
  | IN_COOLDOWN_UNTIL date
  | MAX_CONCURRENT nat
  | BAD_ENTRY_PRICE
  | NO_CASH sizing_reason
  | LIQUIDITY liq_reason
  | NON_BUY
  | NO_ENTRY_BAR
  | NO_PRIOR_INTENT
  | TEMPORAL_BOUNDARY_VIOLATION
  | RECOVERY_DEADLINE_PASSED
  | ENTRY_STALE
  | ADMISSION_DEADLINE_PASSED
  | ACCOUNT_BLOCKED_AT_ADMISSION

datatype disposition = ENTERED | SKIPPED skip_reason | FAILED_NO_MARKET_DATA | REJECTED_CAPACITY_EXCEEDED

record episode_row =
  er_episode :: string
  er_symbol :: symbol
  er_issuer :: string
  er_activation :: "date option"
  er_entry_session :: "date option"
  er_disposition :: disposition
  er_first_seen :: stamp
  er_updated :: stamp

record price_provenance =
  pp_field :: string
  basis_as_of :: "date option"
  adjustment_state :: "string option"

datatype position_status = OPEN | CLOSED | EXIT_UNRESOLVED

record position =
  position_id :: nat
  p_episode :: string
  p_symbol :: symbol
  p_issuer :: string
  p_status :: position_status
  entry_session :: date
  target_exit_session :: date
  p_entry_price :: money
  p_shares :: money
  position_cost :: money
  p_exit_session :: "date option"
  p_exit_price :: "money option"
  p_pnl_usd :: "money option"
  p_pnl_pct :: "money option"
  p_days_held :: "int option"
  p_unresolved_detail :: "string option"
  p_opened_at :: stamp
  p_closed_at :: "stamp option"
  p_entry_fee :: money
  p_exit_fee :: "money option"
  entry_provenance :: "price_provenance option"
  exit_provenance :: "price_provenance option"

datatype trade_action = BUY_TRADE | SELL_TRADE

record trade =
  trade_id :: nat
  t_episode :: string
  t_symbol :: symbol
  t_action :: trade_action
  t_price :: money
  t_shares :: money
  t_cost :: money
  t_entry_price :: "money option"
  t_pnl_usd :: "money option"
  t_pnl_pct :: "money option"
  t_days_held :: "int option"
  t_cash_after :: money
  t_executed_at :: stamp
  t_fee :: money
  t_provenance :: "price_provenance option"

record cooldown =
  cd_symbol :: symbol
  cd_until :: date
  cd_set_at :: stamp

datatype intent_status =
    PENDING | FILLED | EXPIRED_STALE | EXPIRED_RECOVERY_DEADLINE | CANCELLED_CUTOVER
  | REJECTED_TEMPORAL_BOUNDARY | FAILED_NO_DATA | SUPERSEDED

record intent =
  intent_id :: string
  i_episode :: string
  i_symbol :: symbol
  i_issuer :: string
  i_activation :: date
  target_entry_session :: date
  planned_exit_session :: "date option"
  i_horizon :: int
  i_liq_ok :: bool
  i_liq_median :: "money option"
  i_liq_close :: "money option"
  i_status :: intent_status
  i_created_at :: stamp
  i_updated_at :: stamp
  i_position :: "nat option"
  i_fill_price :: "money option"
  i_fill_session :: "date option"
  i_reconciled_at :: "stamp option"
  i_source_ts :: "stamp option"
  i_receipt_ts :: "stamp option"

datatype alert_kind = ENTRY_INTENT | ENTRY_FILL | EXIT_FILL | ENTRY_STALE_ALERT | ENTRY_FAILED_NO_DATA
datatype alert_action = ALERT_BUY | ALERT_SELL | ALERT_INFO
datatype outbox_state = OB_PENDING | OB_SENT | OB_HELD | OB_FAILED | OB_AMBIGUOUS | OB_RETRY | OB_EXPIRED

record outbox_row =
  event_id :: string
  o_episode :: string
  o_intent :: "string option"
  o_position :: "nat option"
  o_kind :: alert_kind
  o_action :: alert_action
  o_symbol :: symbol
  o_horizon :: int
  dedup_key :: string
  o_payload :: string
  o_state :: outbox_state
  o_attempts :: nat
  o_next_attempt :: "stamp option"
  o_last_error :: "string option"
  o_transport_ref :: "string option"
  o_deliver_by :: "stamp option"
  o_created_at :: stamp
  o_updated_at :: stamp
  o_sent_at :: "stamp option"

record registered_action =
  ra_key :: action_key
  ra_event :: ca_event
  ra_sources :: "source_ref list"

text \<open>
  \<open>BLOCKED_<code>\<close> rows carry no ratio and no quantities.  \<open>ratio_num/ratio_den\<close> is the exact ratio,
  \<open>1/1\<close> for an event that has none.
\<close>

datatype block_code =
    CA_EVIDENCE_UNAVAILABLE | CA_CONFLICTING_EVIDENCE | CA_UNSUPPORTED_ACTION | CA_PRICE_BASIS_UNKNOWN
  | CA_EXIT_BASIS_PREDATES_SPLIT | CA_MALFORMED_EVENT | CA_DIVIDEND_PRICE_BASIS_NOT_UNADJUSTED
  | CA_DIVIDEND_SPLIT_SAME_EX_DATE | CA_PRICE_BASIS_AMBIGUOUS

datatype trail_status = APPLIED | REFLECTED_IN_ENTRY_BASIS | DIVIDEND_OBSERVED | BLOCKED block_code

record trail_row =
  tr_id :: nat
  tr_position :: nat
  tr_key :: action_key
  tr_kind :: "ca_kind option"
  tr_ex_date :: "date option"
  tr_ratio :: "rat option"
  tr_status :: trail_status
  tr_before :: "rat option"
  tr_after :: "rat option"
  tr_cost_basis :: "money option"
  tr_entry_basis :: "date option"
  tr_exit_basis :: "date option"
  tr_applied_at :: stamp

datatype entitlement_state = ACCRUED | CREDITED

record entitlement =
  entitlement_id :: nat
  en_campaign :: string
  en_position :: nat
  en_episode :: string
  en_symbol :: symbol
  en_key :: action_key
  en_ex_date :: date
  en_record_date :: "date option"
  en_payable :: "date option"
  en_rate :: rat
  en_qty :: rat
  en_exact :: rat
  en_usd :: money
  en_state :: entitlement_state
  en_accrued_at :: stamp
  en_credited_at :: "stamp option"
  en_credited_as_of :: "date option"
  en_cash_after :: "money option"

datatype campaign_provenance = SEEDED_AT_CREATION | LEGACY_MIGRATED | LEGACY_MIGRATED_BACKFILLED string

record campaign =
  c_campaign_id :: string
  c_execution_mode :: string
  starting_cash :: "money option"
  c_allocation :: "money option"
  c_provenance :: campaign_provenance
  c_created_at :: stamp

record cutover_row =
  co_id :: string
  co_executed_at :: stamp
  co_as_of :: date
  co_cancelled :: "string list"
  co_retained :: "string list"
  co_expired :: "string list"

record ledger =
  portfolio_cash :: money
  campaign_row :: campaign
  cutovers :: "cutover_row list"
  episodes :: "episode_row list"
  positions :: "position list"
  position_seq :: nat
  trades :: "trade list"
  cooldowns :: "cooldown list"
  intents :: "intent list"
  outbox :: "outbox_row list"
  registry :: "registered_action list"
  trail :: "trail_row list"
  trail_seq :: nat
  entitlements :: "entitlement list"
  entitlement_seq :: nat
  block_table :: block_tables

end
