(* ===== verification/V2_Store.thy ===== *)
theory V2_Store
  imports V2_Ledger
begin

text \<open>
  The methods of \<open>V2Store\<close> (\<open>talonx_v2/store.py\<close>), one definition each.  A method that cannot raise
  returns the new ledger, one that can returns a \<open>result\<close>; the caller's transaction keeps the old
  ledger when the result is an error (ROLLBACK).  \<open>now\<close> is the clock reading.
\<close>

section \<open>Opening a ledger file\<close>

text \<open>
  \<open>_init\<close>: the portfolio and campaign rows are seeded once, in one transaction; a file that already has
  a portfolio row but no campaign row is a legacy ledger whose starting cash stays unknown.
\<close>

definition seed_rows ::
    "money \<Rightarrow> string \<Rightarrow> string \<Rightarrow> money option \<Rightarrow> stamp \<Rightarrow> money option \<times> campaign option \<Rightarrow> money \<times> campaign" where
  "seed_rows starting campaign mode alloc now file =
     ((case fst file of Some c \<Rightarrow> c | None \<Rightarrow> starting),
      (case snd file of Some c \<Rightarrow> c
       | None \<Rightarrow> \<lparr> c_campaign_id = campaign, c_execution_mode = mode,
                  starting_cash = (if fst file = None then Some starting else None),
                  c_allocation = alloc,
                  c_provenance = (if fst file = None then SEEDED_AT_CREATION else LEGACY_MIGRATED),
                  c_created_at = now \<rparr>))"

definition fresh_ledger :: "money \<Rightarrow> string \<Rightarrow> string \<Rightarrow> money option \<Rightarrow> stamp \<Rightarrow> ledger" where
  "fresh_ledger starting campaign mode alloc now =
     (let rows = seed_rows starting campaign mode alloc now (None, None)
      in \<lparr> portfolio_cash = fst rows, campaign_row = snd rows, cutovers = [], episodes = [],
           positions = [], position_seq = 0, trades = [], cooldowns = [], intents = [], outbox = [],
           registry = [], trail = [], trail_seq = 0, entitlements = [], entitlement_seq = 0,
           block_table = \<lparr> account_blocks = [], block_clearances = [] \<rparr> \<rparr>)"

definition account_id :: "ledger \<Rightarrow> string" where
  "account_id l = c_campaign_id (campaign_row l)"

definition cash :: "ledger \<Rightarrow> money" where
  "cash l = portfolio_cash l"

definition set_cash :: "money \<Rightarrow> ledger \<Rightarrow> ledger" where
  "set_cash v l = l\<lparr> portfolio_cash := v \<rparr>"

definition set_legacy_starting_cash :: "money \<Rightarrow> string \<Rightarrow> ledger \<Rightarrow> ledger result" where
  "set_legacy_starting_cash amount evidence l =
     (if c_provenance (campaign_row l) \<noteq> LEGACY_MIGRATED \<or> starting_cash (campaign_row l) \<noteq> None
      then Inl RuntimeError
      else Inr (l\<lparr> campaign_row := (campaign_row l)\<lparr> starting_cash := Some amount,
                     c_provenance := LEGACY_MIGRATED_BACKFILLED evidence \<rparr> \<rparr>))"

definition record_cutover ::
    "stamp \<Rightarrow> string \<Rightarrow> date \<Rightarrow> string list \<Rightarrow> string list \<Rightarrow> string list \<Rightarrow> ledger \<Rightarrow> ledger" where
  "record_cutover now cid as_of cancelled retained expired l =
     l\<lparr> cutovers := cutovers l @ [\<lparr> co_id = cid, co_executed_at = now, co_as_of = as_of,
          co_cancelled = cancelled, co_retained = retained, co_expired = expired \<rparr>] \<rparr>"

section \<open>Episode dispositions\<close>

definition episode_seen :: "ledger \<Rightarrow> string \<Rightarrow> bool" where
  "episode_seen l eid \<longleftrightarrow> eid \<in> er_episode ` set (episodes l)"

definition record_disposition ::
    "stamp \<Rightarrow> string \<Rightarrow> symbol \<Rightarrow> disposition \<Rightarrow> string \<Rightarrow> date option \<Rightarrow> date option \<Rightarrow> ledger \<Rightarrow> ledger" where
  "record_disposition now eid sy disp issuer activation entry l =
     l\<lparr> episodes := upsert_row er_episode
          \<lparr> er_episode = eid, er_symbol = upper sy, er_issuer = issuer, er_activation = activation,
            er_entry_session = entry, er_disposition = disp, er_first_seen = now, er_updated = now \<rparr>
          (\<lambda>r. r\<lparr> er_disposition := disp, er_updated := now \<rparr>) (episodes l) \<rparr>"

definition record_episode :: "stamp \<Rightarrow> cluster_episode \<Rightarrow> disposition \<Rightarrow> ledger \<Rightarrow> ledger" where
  "record_episode now ep disp l =
     l\<lparr> episodes := upsert_row er_episode
          \<lparr> er_episode = episode_id ep, er_symbol = ep_symbol ep, er_issuer = ep_issuer_cik ep,
            er_activation = Some (activation_filing_date ep),
            er_entry_session = Some (eligible_entry_session ep), er_disposition = disp,
            er_first_seen = now, er_updated = now \<rparr>
          (\<lambda>r. r\<lparr> er_disposition := disp, er_updated := now \<rparr>) (episodes l) \<rparr>"

definition episode_disposition :: "ledger \<Rightarrow> string \<Rightarrow> disposition option" where
  "episode_disposition l eid = map_option er_disposition (row_by er_episode eid (episodes l))"

section \<open>Positions\<close>

definition occupying :: "position \<Rightarrow> bool" where
  "occupying p \<longleftrightarrow> p_status p = OPEN \<or> p_status p = EXIT_UNRESOLVED"

definition open_positions :: "ledger \<Rightarrow> position list" where
  "open_positions l =
     sort_key (\<lambda>p. (entry_session p, p_symbol p)) (filter (\<lambda>p. p_status p = OPEN) (positions l))"

definition all_positions :: "ledger \<Rightarrow> position list" where
  "all_positions l = sort_key p_opened_at (positions l)"

definition position_for_symbol :: "ledger \<Rightarrow> symbol \<Rightarrow> position option" where
  "position_for_symbol l sy = find (\<lambda>p. p_symbol p = upper sy \<and> occupying p) (positions l)"

definition position_for_episode :: "ledger \<Rightarrow> string \<Rightarrow> position option" where
  "position_for_episode l eid = row_by p_episode eid (positions l)"

definition position_by_id :: "ledger \<Rightarrow> nat \<Rightarrow> position option" where
  "position_by_id l pid = row_by position_id pid (positions l)"

definition n_open :: "ledger \<Rightarrow> nat" where
  "n_open l = length (filter occupying (positions l))"

text \<open>The row an entry writes; \<open>episode_id\<close> is UNIQUE.\<close>

definition new_position ::
    "nat \<Rightarrow> stamp \<Rightarrow> string \<Rightarrow> symbol \<Rightarrow> string \<Rightarrow> date \<Rightarrow> date \<Rightarrow> money \<Rightarrow> money \<Rightarrow> money \<Rightarrow> money
       \<Rightarrow> price_provenance option \<Rightarrow> position" where
  "new_position pid now eid sy issuer entry target price shares cost fee prov =
     \<lparr> position_id = pid, p_episode = eid, p_symbol = upper sy, p_issuer = issuer, p_status = OPEN,
       entry_session = entry, target_exit_session = target, p_entry_price = price, p_shares = shares,
       position_cost = cost, p_exit_session = None, p_exit_price = None, p_pnl_usd = None,
       p_pnl_pct = None, p_days_held = None, p_unresolved_detail = None, p_opened_at = now,
       p_closed_at = None, p_entry_fee = fee, p_exit_fee = None, entry_provenance = prov,
       exit_provenance = None \<rparr>"

definition insert_open_position ::
    "stamp \<Rightarrow> string \<Rightarrow> symbol \<Rightarrow> string \<Rightarrow> date \<Rightarrow> date \<Rightarrow> money \<Rightarrow> money \<Rightarrow> money \<Rightarrow> money
       \<Rightarrow> price_provenance option \<Rightarrow> ledger \<Rightarrow> (nat \<times> ledger) result" where
  "insert_open_position now eid sy issuer entry target price shares cost fee prov l =
     (if eid \<in> p_episode ` set (positions l) then Inl IntegrityError
      else let pid = Suc (position_seq l)
           in Inr (pid, l\<lparr> position_seq := pid, positions := positions l @
                [new_position pid now eid sy issuer entry target price shares cost fee prov] \<rparr>))"

text \<open>\<open>UPDATE ... WHERE position_id=? AND status='OPEN'\<close>, and the account block in the same commit.\<close>

definition mark_exit_unresolved ::
    "(string \<Rightarrow> string) \<Rightarrow> stamp \<Rightarrow> nat \<Rightarrow> string \<Rightarrow> ledger \<Rightarrow> ledger result" where
  "mark_exit_unresolved sha now pid detail l =
     (let ps = update_rows (\<lambda>p. position_id p = pid \<and> p_status p = OPEN)
                 (\<lambda>p. p\<lparr> p_status := EXIT_UNRESOLVED, p_unresolved_detail := Some detail,
                         p_closed_at := Some now \<rparr>) (positions l);
          l' = l\<lparr> positions := ps \<rparr>
      in case row_by position_id pid ps of
           None \<Rightarrow> Inl TypeError
         | Some p \<Rightarrow>
             if p_status p = EXIT_UNRESOLVED
             then bindR (record_block sha now (account_id l) REASON_EXIT_UNRESOLVED (str_int (int pid))
                          detail (block_table l))
                    (\<lambda>(_, bt). Inr (l'\<lparr> block_table := bt \<rparr>))
             else Inr l')"

definition unresolved_positions :: "ledger \<Rightarrow> position list" where
  "unresolved_positions l = sort_key entry_session (filter (\<lambda>p. p_status p = EXIT_UNRESOLVED) (positions l))"

text \<open>\<open>V2Store.close_position\<close> and its \<open>rowcount > 0\<close>.\<close>

definition closed_row ::
    "stamp \<Rightarrow> date \<Rightarrow> money \<Rightarrow> money \<Rightarrow> money \<Rightarrow> int \<Rightarrow> money \<Rightarrow> price_provenance option \<Rightarrow> position \<Rightarrow> position" where
  "closed_row now exit price usd pct held fee prov p =
     p\<lparr> p_status := CLOSED, p_exit_session := Some exit, p_exit_price := Some price,
        p_pnl_usd := Some usd, p_pnl_pct := Some pct, p_days_held := Some held,
        p_closed_at := Some now, p_exit_fee := Some fee, exit_provenance := prov \<rparr>"

definition store_close_position ::
    "stamp \<Rightarrow> nat \<Rightarrow> date \<Rightarrow> money \<Rightarrow> money \<Rightarrow> money \<Rightarrow> int \<Rightarrow> money \<Rightarrow> price_provenance option
       \<Rightarrow> ledger \<Rightarrow> bool \<times> ledger" where
  "store_close_position now pid exit price usd pct held fee prov l =
     (0 < rowcount (\<lambda>p. position_id p = pid \<and> p_status p = OPEN) (positions l),
      l\<lparr> positions := update_rows (\<lambda>p. position_id p = pid \<and> p_status p = OPEN)
            (closed_row now exit price usd pct held fee prov) (positions l) \<rparr>)"

section \<open>Trades and cooldowns\<close>

definition append_trade ::
    "stamp \<Rightarrow> string \<Rightarrow> symbol \<Rightarrow> trade_action \<Rightarrow> money \<Rightarrow> money \<Rightarrow> money \<Rightarrow> money \<Rightarrow> money option
       \<Rightarrow> money option \<Rightarrow> money option \<Rightarrow> int option \<Rightarrow> money \<Rightarrow> price_provenance option \<Rightarrow> ledger \<Rightarrow> ledger" where
  "append_trade now eid sy action price shares cost cash_after entry_price usd pct held fee prov l =
     l\<lparr> trades := trades l @ [\<lparr> trade_id = Suc (length (trades l)), t_episode = eid, t_symbol = upper sy,
          t_action = action, t_price = price, t_shares = shares, t_cost = cost,
          t_entry_price = entry_price, t_pnl_usd = usd, t_pnl_pct = pct, t_days_held = held,
          t_cash_after = cash_after, t_executed_at = now, t_fee = fee, t_provenance = prov \<rparr>] \<rparr>"

definition set_cooldown :: "stamp \<Rightarrow> symbol \<Rightarrow> date \<Rightarrow> ledger \<Rightarrow> ledger" where
  "set_cooldown now sy until l =
     l\<lparr> cooldowns := upsert_row cd_symbol \<lparr> cd_symbol = upper sy, cd_until = until, cd_set_at = now \<rparr>
          (\<lambda>r. r\<lparr> cd_until := until, cd_set_at := now \<rparr>) (cooldowns l) \<rparr>"

definition cooldown_until :: "ledger \<Rightarrow> symbol \<Rightarrow> date option" where
  "cooldown_until l sy = map_option cd_until (row_by cd_symbol (upper sy) (cooldowns l))"

section \<open>Corporate actions\<close>

definition position_action_trail :: "ledger \<Rightarrow> nat \<Rightarrow> trail_row list" where
  "position_action_trail l pid = filter (\<lambda>r. tr_position r = pid) (trail l)"

definition row_ratio :: "trail_row \<Rightarrow> rat" where
  "row_ratio r = (case tr_ratio r of Some q \<Rightarrow> q | None \<Rightarrow> 1)"

text \<open>Entry shares times the product of the APPLIED ratios, exact; \<open>Fraction(str(shares))\<close> is \<open>repr_dec\<close>.\<close>

definition effective_shares_exact :: "ledger \<Rightarrow> nat \<Rightarrow> rat" where
  "effective_shares_exact l pid =
     foldl (\<lambda>q r. q * row_ratio r)
       (case position_by_id l pid of Some p \<Rightarrow> repr_dec (p_shares p) | None \<Rightarrow> 0)
       (filter (\<lambda>r. tr_status r = APPLIED) (position_action_trail l pid))"

definition is_blocked_row :: "trail_row \<Rightarrow> bool" where
  "is_blocked_row r = (case tr_status r of BLOCKED _ \<Rightarrow> True | _ \<Rightarrow> False)"

definition blocked_action_rows :: "ledger \<Rightarrow> nat \<Rightarrow> trail_row list" where
  "blocked_action_rows l pid = filter is_blocked_row (position_action_trail l pid)"

definition clear_blocked_action_rows :: "nat \<Rightarrow> ledger \<Rightarrow> ledger" where
  "clear_blocked_action_rows pid l =
     l\<lparr> trail := filter (\<lambda>r. \<not> (tr_position r = pid \<and> is_blocked_row r)) (trail l) \<rparr>"

text \<open>\<open>INSERT OR IGNORE\<close> under \<open>UNIQUE(position_id, action_key)\<close>: the row and whether it was inserted.\<close>

definition insert_trail_row :: "(nat \<Rightarrow> trail_row) \<Rightarrow> ledger \<Rightarrow> bool \<times> ledger" where
  "insert_trail_row mk l =
     (let r = mk (Suc (trail_seq l))
      in if (tr_position r, tr_key r) \<in> (\<lambda>x. (tr_position x, tr_key x)) ` set (trail l) then (False, l)
         else (True, l\<lparr> trail_seq := Suc (trail_seq l), trail := trail l @ [r] \<rparr>))"

definition record_blocked_action :: "stamp \<Rightarrow> nat \<Rightarrow> action_key \<Rightarrow> block_code \<Rightarrow> ledger \<Rightarrow> ledger" where
  "record_blocked_action now pid key code l =
     snd (insert_trail_row (\<lambda>i. \<lparr> tr_id = i, tr_position = pid, tr_key = key, tr_kind = None,
       tr_ex_date = None, tr_ratio = None, tr_status = BLOCKED code, tr_before = None, tr_after = None,
       tr_cost_basis = None, tr_entry_basis = None, tr_exit_basis = None, tr_applied_at = now \<rparr>) l)"

definition register_corporate_action :: "ca_event \<Rightarrow> ledger \<Rightarrow> ledger" where
  "register_corporate_action e l =
     (let refs = uniq (event_source_ref e # ev_source_refs e)
      in l\<lparr> registry := upsert_row ra_key \<lparr> ra_key = ev_key e, ra_event = e, ra_sources = refs \<rparr>
              (\<lambda>r. r\<lparr> ra_sources := ra_sources r @ filter (\<lambda>s. s \<notin> set (ra_sources r)) refs \<rparr>)
              (registry l) \<rparr>)"

definition apply_position_action ::
    "stamp \<Rightarrow> nat \<Rightarrow> ca_event \<Rightarrow> trail_status \<Rightarrow> date option \<Rightarrow> date option \<Rightarrow> ledger \<Rightarrow> bool \<times> ledger" where
  "apply_position_action now pid e status entry_basis exit_basis l =
     (let l1 = register_corporate_action e l
      in case position_by_id l1 pid of
           None \<Rightarrow> (False, l1)
         | Some p \<Rightarrow>
             let held = effective_shares_exact l1 pid;
                 ratio = (if status = APPLIED then (case ev_ratio e of Some r \<Rightarrow> r | None \<Rightarrow> 1) else 1)
             in insert_trail_row (\<lambda>i. \<lparr> tr_id = i, tr_position = pid, tr_key = ev_key e,
                  tr_kind = Some (ev_kind e), tr_ex_date = ev_ex_date e,
                  tr_ratio = Some (case ev_ratio e of Some r \<Rightarrow> r | None \<Rightarrow> 1), tr_status = status,
                  tr_before = Some held, tr_after = Some (held * ratio),
                  tr_cost_basis = Some (position_cost p), tr_entry_basis = entry_basis,
                  tr_exit_basis = exit_basis, tr_applied_at = now \<rparr>) l1)"

text \<open>
  \<open>shares_at_date\<close>: the shares held at the close before \<open>on_date\<close>.  APPLIED splits count once their
  ex-date is before it; splits reflected in the entry basis are undone for a date before theirs.
\<close>

definition split_row :: "trail_row \<Rightarrow> bool" where
  "split_row r = (case tr_kind r of Some k \<Rightarrow> split_kind k | None \<Rightarrow> False)"

definition shares_step :: "date \<Rightarrow> rat \<Rightarrow> trail_row \<Rightarrow> rat" where
  "shares_step on_date q r =
     (case tr_ex_date r of
        None \<Rightarrow> q
      | Some ex \<Rightarrow>
          if tr_status r = APPLIED \<and> ex < on_date then q * row_ratio r
          else if tr_status r = REFLECTED_IN_ENTRY_BASIS \<and> on_date < ex then q / row_ratio r else q)"

definition shares_at_date :: "ledger \<Rightarrow> nat \<Rightarrow> date \<Rightarrow> rat" where
  "shares_at_date l pid on_date =
     foldl (shares_step on_date)
       (case position_by_id l pid of Some p \<Rightarrow> repr_dec (p_shares p) | None \<Rightarrow> 0)
       (filter (\<lambda>r. (tr_status r = APPLIED \<or> tr_status r = REFLECTED_IN_ENTRY_BASIS) \<and> split_row r)
         (position_action_trail l pid))"

section \<open>Dividends\<close>

text \<open>\<open>quantize(Decimal("0.01"), ROUND_HALF_UP)\<close>: ties away from zero.\<close>

definition cents_half_up :: "rat \<Rightarrow> rat" where
  "cents_half_up x = (if 0 \<le> x then of_int \<lfloor>x * 100 + 1/2\<rfloor> / 100 else - of_int \<lfloor>- x * 100 + 1/2\<rfloor> / 100)"

definition record_dividend_entitlement :: "stamp \<Rightarrow> nat \<Rightarrow> ca_event \<Rightarrow> date \<Rightarrow> ledger \<Rightarrow> bool \<times> ledger" where
  "record_dividend_entitlement now pid e exit l =
     (case (position_by_id l pid, ev_ex_date e, ev_cash_rate e) of
        (Some p, Some ex, Some rate) \<Rightarrow>
          if \<not> (entry_session p < ex \<and> ex \<le> exit) then (False, l)
          else let l1 = register_corporate_action e l;
                   qty = shares_at_date l1 pid ex;
                   exact = dec28 (rate * fraction_to_decimal qty)
               in if (pid, ev_key e) \<in> (\<lambda>x. (en_position x, en_key x)) ` set (entitlements l1) then (False, l1)
                  else (True, l1\<lparr> entitlement_seq := Suc (entitlement_seq l1), entitlements := entitlements l1 @
                    [\<lparr> entitlement_id = Suc (entitlement_seq l1), en_campaign = account_id l1,
                       en_position = pid, en_episode = p_episode p, en_symbol = p_symbol p,
                       en_key = ev_key e, en_ex_date = ex, en_record_date = ev_record_date e,
                       en_payable = ev_payable_date e, en_rate = rate, en_qty = qty, en_exact = exact,
                       en_usd = fl (cents_half_up exact), en_state = ACCRUED, en_accrued_at = now,
                       en_credited_at = None, en_credited_as_of = None, en_cash_after = None \<rparr>] \<rparr>)
      | _ \<Rightarrow> (False, l))"

definition accrued_entitlements :: "ledger \<Rightarrow> entitlement list" where
  "accrued_entitlements l = filter (\<lambda>e. en_state e = ACCRUED) (entitlements l)"

definition credit_dividend :: "stamp \<Rightarrow> nat \<Rightarrow> date \<Rightarrow> ledger \<Rightarrow> bool \<times> ledger" where
  "credit_dividend now eid as_of l =
     (case find (\<lambda>e. entitlement_id e = eid \<and> en_state e = ACCRUED) (entitlements l) of
        None \<Rightarrow> (False, l)
      | Some e \<Rightarrow>
          (case en_payable e of
             None \<Rightarrow> (False, l)
           | Some pay \<Rightarrow>
               if as_of < pay then (False, l)
               else let cash_after = fl (cash l + en_usd e)
                    in (True, set_cash cash_after (l\<lparr> entitlements :=
                         update_rows (\<lambda>x. entitlement_id x = eid \<and> en_state x = ACCRUED)
                           (\<lambda>x. x\<lparr> en_state := CREDITED, en_credited_at := Some now,
                                  en_credited_as_of := Some as_of, en_cash_after := Some cash_after \<rparr>)
                           (entitlements l) \<rparr>))))"

section \<open>Account blocks\<close>

definition store_blocked_reason :: "ledger \<Rightarrow> string option" where
  "store_blocked_reason l = blocked_reason (block_table l) (account_id l)"

definition record_account_block ::
    "(string \<Rightarrow> string) \<Rightarrow> stamp \<Rightarrow> string \<Rightarrow> string \<Rightarrow> string \<Rightarrow> ledger \<Rightarrow> (string \<times> ledger) result" where
  "record_account_block sha now reason ref detail l =
     bindR (record_block sha now (account_id l) reason ref detail (block_table l))
       (\<lambda>(bid, bt). Inr (bid, l\<lparr> block_table := bt \<rparr>))"

definition attempt_block_clearance ::
    "(string \<Rightarrow> string) \<Rightarrow> stamp \<Rightarrow> string \<Rightarrow> string \<Rightarrow> string \<Rightarrow> string \<Rightarrow> bool \<Rightarrow> string \<Rightarrow> ledger
       \<Rightarrow> (clearance \<times> ledger) result" where
  "attempt_block_clearance sha now bid op reason evidence allow detail l =
     bindR (attempt_clearance sha now bid op reason evidence allow detail (block_table l))
       (\<lambda>(row, bt). Inr (row, l\<lparr> block_table := bt \<rparr>))"

section \<open>Entry intents\<close>

definition mk_intent_id :: "(string \<Rightarrow> string) \<Rightarrow> string \<Rightarrow> date \<Rightarrow> string" where
  "mk_intent_id sha eid target = sha (eid @ ''|'' @ isoformat target)"

definition entry_intent :: "ledger \<Rightarrow> string \<Rightarrow> intent option" where
  "entry_intent l eid = row_by i_episode eid (intents l)"

text \<open>\<open>intent_id\<close> is the PRIMARY KEY, \<open>episode_id\<close> UNIQUE; an episode that has an intent keeps it.\<close>

definition upsert_entry_intent ::
    "(string \<Rightarrow> string) \<Rightarrow> stamp \<Rightarrow> cluster_episode \<Rightarrow> liquidity_result \<Rightarrow> int \<Rightarrow> date option \<Rightarrow> stamp option
       \<Rightarrow> stamp option \<Rightarrow> ledger \<Rightarrow> (intent \<times> ledger) result" where
  "upsert_entry_intent sha now ep liq horizon planned source_ts receipt_ts l =
     (case entry_intent l (episode_id ep) of
        Some i \<Rightarrow> Inr (i, l)
      | None \<Rightarrow>
          let iid = mk_intent_id sha (episode_id ep) (eligible_entry_session ep);
              row = \<lparr> intent_id = iid, i_episode = episode_id ep, i_symbol = upper (ep_symbol ep),
                      i_issuer = ep_issuer_cik ep, i_activation = activation_filing_date ep,
                      target_entry_session = eligible_entry_session ep, planned_exit_session = planned,
                      i_horizon = horizon, i_liq_ok = liq_ok liq, i_liq_median = median_dollar_volume liq,
                      i_liq_close = last_close liq, i_status = PENDING, i_created_at = now,
                      i_updated_at = now, i_position = None, i_fill_price = None, i_fill_session = None,
                      i_reconciled_at = None, i_source_ts = source_ts, i_receipt_ts = receipt_ts \<rparr>
          in if iid \<in> intent_id ` set (intents l) then Inl IntegrityError
             else Inr (row, l\<lparr> intents := intents l @ [row] \<rparr>))"

definition pending_entry_intents :: "ledger \<Rightarrow> intent list" where
  "pending_entry_intents l =
     sort_key (\<lambda>i. (target_entry_session i, i_symbol i)) (filter (\<lambda>i. i_status i = PENDING) (intents l))"

definition mark_entry_intent ::
    "stamp \<Rightarrow> string \<Rightarrow> intent_status \<Rightarrow> nat option \<Rightarrow> money option \<Rightarrow> date option \<Rightarrow> ledger \<Rightarrow> ledger" where
  "mark_entry_intent now iid status pid price session l =
     l\<lparr> intents := update_rows (\<lambda>i. intent_id i = iid \<and> i_status i = PENDING)
          (\<lambda>i. i\<lparr> i_status := status, i_position := pid, i_fill_price := price, i_fill_session := session,
                  i_reconciled_at := Some now, i_updated_at := now \<rparr>) (intents l) \<rparr>"

section \<open>The alert outbox\<close>

definition enqueue_alert ::
    "stamp \<Rightarrow> string \<Rightarrow> string \<Rightarrow> alert_kind \<Rightarrow> alert_action \<Rightarrow> symbol \<Rightarrow> string \<Rightarrow> string \<Rightarrow> int
       \<Rightarrow> string option \<Rightarrow> nat option \<Rightarrow> stamp option \<Rightarrow> ledger \<Rightarrow> bool \<times> ledger" where
  "enqueue_alert now evid eid kind action sy dedup payload horizon iid pid deliver_by l =
     (if evid \<in> event_id ` set (outbox l) then (False, l)
      else (True, l\<lparr> outbox := outbox l @ [\<lparr> event_id = evid, o_episode = eid, o_intent = iid,
             o_position = pid, o_kind = kind, o_action = action, o_symbol = upper sy, o_horizon = horizon,
             dedup_key = dedup, o_payload = payload, o_state = OB_PENDING, o_attempts = 0,
             o_next_attempt = None, o_last_error = None, o_transport_ref = None,
             o_deliver_by = deliver_by, o_created_at = now, o_updated_at = now, o_sent_at = None \<rparr>] \<rparr>))"

definition outbox_due :: "stamp \<Rightarrow> ledger \<Rightarrow> outbox_row list" where
  "outbox_due now l =
     sort_key o_created_at (filter (\<lambda>r. (o_state r = OB_PENDING \<or> o_state r = OB_RETRY) \<and>
       (case o_next_attempt r of None \<Rightarrow> True | Some t \<Rightarrow> t \<le> now)) (outbox l))"

definition update_outbox ::
    "stamp \<Rightarrow> string \<Rightarrow> outbox_state \<Rightarrow> nat option \<Rightarrow> stamp option \<Rightarrow> string option \<Rightarrow> string option \<Rightarrow> bool
       \<Rightarrow> ledger \<Rightarrow> ledger" where
  "update_outbox now evid state attempts next error ref sent l =
     l\<lparr> outbox := update_rows (\<lambda>r. event_id r = evid)
          (\<lambda>r. r\<lparr> o_state := state, o_attempts := (case attempts of Some n \<Rightarrow> n | None \<Rightarrow> o_attempts r),
                  o_next_attempt := next, o_last_error := error,
                  o_transport_ref := (case ref of Some x \<Rightarrow> Some x | None \<Rightarrow> o_transport_ref r),
                  o_updated_at := now, o_sent_at := (if sent then Some now else o_sent_at r) \<rparr>) (outbox l) \<rparr>"

section \<open>Frame laws: what each method leaves alone\<close>

lemma set_cash_simps [store_simps]:
  "portfolio_cash (set_cash v l) = v" "positions (set_cash v l) = positions l" "trades (set_cash v l) = trades l"
  "episodes (set_cash v l) = episodes l" "intents (set_cash v l) = intents l" "outbox (set_cash v l) = outbox l"
  "trail (set_cash v l) = trail l" "entitlements (set_cash v l) = entitlements l"
  "cooldowns (set_cash v l) = cooldowns l" "block_table (set_cash v l) = block_table l"
  "campaign_row (set_cash v l) = campaign_row l" "position_seq (set_cash v l) = position_seq l"
  "trail_seq (set_cash v l) = trail_seq l" "entitlement_seq (set_cash v l) = entitlement_seq l"
  by (simp_all add: set_cash_def)

lemma record_disposition_simps [store_simps]:
  fixes now eid sy d i a e l
  defines "l' \<equiv> record_disposition now eid sy d i a e l"
  shows "portfolio_cash l' = portfolio_cash l" "positions l' = positions l" "trades l' = trades l"
    "intents l' = intents l" "outbox l' = outbox l" "trail l' = trail l" "entitlements l' = entitlements l"
    "cooldowns l' = cooldowns l" "block_table l' = block_table l" "campaign_row l' = campaign_row l"
    "position_seq l' = position_seq l" "trail_seq l' = trail_seq l" "entitlement_seq l' = entitlement_seq l"
  by (simp_all add: l'_def record_disposition_def)

lemma append_trade_simps [store_simps]:
  fixes now eid sy act px sh c ca ep u pc h f pv l
  defines "l' \<equiv> append_trade now eid sy act px sh c ca ep u pc h f pv l"
  shows "portfolio_cash l' = portfolio_cash l" "positions l' = positions l" "episodes l' = episodes l"
    "intents l' = intents l" "outbox l' = outbox l" "trail l' = trail l" "entitlements l' = entitlements l"
    "cooldowns l' = cooldowns l" "block_table l' = block_table l" "campaign_row l' = campaign_row l"
    "position_seq l' = position_seq l" "trail_seq l' = trail_seq l" "entitlement_seq l' = entitlement_seq l"
    and "map t_episode (trades l') = map t_episode (trades l) @ [eid]"
    "map t_action (trades l') = map t_action (trades l) @ [act]"
    "filter P (trades l') = filter P (trades l) @ (if P (last (trades l')) then [last (trades l')] else [])"
    "t_episode (last (trades l')) = eid" "t_action (last (trades l')) = act"
    "t_cash_after (last (trades l')) = ca" "t_cost (last (trades l')) = c"
    "trades l' = trades l @ [last (trades l')]"
  by (simp_all add: l'_def append_trade_def)

lemma set_cooldown_simps [store_simps]:
  fixes now sy u l
  defines "l' \<equiv> set_cooldown now sy u l"
  shows "portfolio_cash l' = portfolio_cash l" "positions l' = positions l" "trades l' = trades l"
    "episodes l' = episodes l" "intents l' = intents l" "outbox l' = outbox l" "trail l' = trail l"
    "entitlements l' = entitlements l" "block_table l' = block_table l" "campaign_row l' = campaign_row l"
    "position_seq l' = position_seq l" "trail_seq l' = trail_seq l" "entitlement_seq l' = entitlement_seq l"
  by (simp_all add: l'_def set_cooldown_def)

lemma mark_entry_intent_simps [store_simps]:
  fixes now iid st pid px s l
  defines "l' \<equiv> mark_entry_intent now iid st pid px s l"
  shows "portfolio_cash l' = portfolio_cash l" "positions l' = positions l" "trades l' = trades l"
    "episodes l' = episodes l" "outbox l' = outbox l" "trail l' = trail l" "entitlements l' = entitlements l"
    "cooldowns l' = cooldowns l" "block_table l' = block_table l" "campaign_row l' = campaign_row l"
    "position_seq l' = position_seq l" "trail_seq l' = trail_seq l" "entitlement_seq l' = entitlement_seq l"
    "map i_episode (intents l') = map i_episode (intents l)" "map intent_id (intents l') = map intent_id (intents l)"
  by (simp_all add: l'_def mark_entry_intent_def map_update_rows)

lemma enqueue_alert_simps [store_simps]:
  fixes now ev eid k a sy dd pl h iid pid db l
  defines "l' \<equiv> snd (enqueue_alert now ev eid k a sy dd pl h iid pid db l)"
  shows "portfolio_cash l' = portfolio_cash l" "positions l' = positions l" "trades l' = trades l"
    "episodes l' = episodes l" "intents l' = intents l" "trail l' = trail l" "entitlements l' = entitlements l"
    "cooldowns l' = cooldowns l" "block_table l' = block_table l" "campaign_row l' = campaign_row l"
    "position_seq l' = position_seq l" "trail_seq l' = trail_seq l" "entitlement_seq l' = entitlement_seq l"
  by (simp_all add: l'_def enqueue_alert_def)

lemma register_simps [store_simps]:
  fixes e l
  defines "l' \<equiv> register_corporate_action e l"
  shows "portfolio_cash l' = portfolio_cash l" "positions l' = positions l" "trades l' = trades l"
    "episodes l' = episodes l" "intents l' = intents l" "outbox l' = outbox l" "trail l' = trail l"
    "entitlements l' = entitlements l"
    "cooldowns l' = cooldowns l" "block_table l' = block_table l" "campaign_row l' = campaign_row l"
    "position_seq l' = position_seq l" "trail_seq l' = trail_seq l" "entitlement_seq l' = entitlement_seq l"
  by (simp_all add: l'_def register_corporate_action_def Let_def)

lemma read_simps:
  "positions l' = positions l \<Longrightarrow> position_by_id l' = position_by_id l"
  "positions l' = positions l \<Longrightarrow> n_open l' = n_open l"
  "campaign_row l' = campaign_row l \<Longrightarrow> account_id l' = account_id l"
  by (simp_all add: fun_eq_iff position_by_id_def n_open_def account_id_def)

section \<open>The key-value tables of the ledger\<close>

interpretation cooldown_table: keyed_store upper cooldown_until "set_cooldown now" for now
proof
  fix k v s k'
  let ?new = "\<lparr> cd_symbol = upper k, cd_until = v, cd_set_at = now \<rparr>"
  let ?merge = "\<lambda>r. r\<lparr> cd_until := v, cd_set_at := now \<rparr>"
  have merge: "cd_symbol (?merge r) = cd_symbol r" for r :: cooldown by simp
  show "cooldown_until (set_cooldown now k v s) k' = (if upper k' = upper k then Some v else cooldown_until s k')"
  proof (cases "upper k' = upper k")
    case True
    then show ?thesis
      using row_by_upsert_same [where key = cd_symbol and merge = ?merge and new = ?new, OF merge]
      by (simp add: cooldown_until_def set_cooldown_def split: option.splits)
  next
    case False
    then show ?thesis
      using row_by_upsert_other [where key = cd_symbol and merge = ?merge and new = ?new, OF merge, of "upper k'"]
      by (simp add: cooldown_until_def set_cooldown_def)
  qed
qed

interpretation disposition_table: keyed_store "\<lambda>eid. eid" episode_disposition
  "\<lambda>eid d. record_disposition now eid sy d issuer activation entry" for now sy issuer activation entry
proof
  fix k v s k'
  let ?new = "\<lparr> er_episode = k, er_symbol = upper sy, er_issuer = issuer, er_activation = activation,
      er_entry_session = entry, er_disposition = v, er_first_seen = now, er_updated = now \<rparr>"
  let ?merge = "\<lambda>r. r\<lparr> er_disposition := v, er_updated := now \<rparr>"
  have merge: "er_episode (?merge r) = er_episode r" for r :: episode_row by simp
  show "episode_disposition (record_disposition now k sy v issuer activation entry s) k' =
      (if k' = k then Some v else episode_disposition s k')"
  proof (cases "k' = k")
    case True
    then show ?thesis
      using row_by_upsert_same [where key = er_episode and merge = ?merge and new = ?new, OF merge]
      by (simp add: episode_disposition_def record_disposition_def split: option.splits)
  next
    case False
    then show ?thesis
      using row_by_upsert_other [where key = er_episode and merge = ?merge and new = ?new, OF merge, of k']
      by (simp add: episode_disposition_def record_disposition_def)
  qed
qed

end
