(* ===== verification/V2_Bridges.thy ===== *)
theory V2_Bridges
  imports V2_Cluster V2_Liquidity
begin

text \<open>
  \<open>talonx_v2/schemas.py\<close>, \<open>quant_bridge.py\<close>, \<open>brain_bridge.py\<close> and the routing half of
  \<open>dispatch_bridge.py\<close>: from an episode and its liquidity verdict to a signal, a decision and the key
  under which an alert is routed.  Rationales and message texts are left out.
\<close>

datatype v2_direction = BULLISH | BEARISH

datatype v2_action = BUY | SELL | HOLD

record v2_signal =
  sg_signal_id :: string
  sg_symbol :: symbol
  sg_issuer_cik :: string
  sg_direction :: v2_direction
  sg_horizon :: int
  sg_paper_eligible :: bool
  sg_episode_id :: string
  sg_distinct_owner_ciks :: "string list"
  sg_n_distinct_owners :: nat
  sg_causal_event_ts :: stamp
  sg_eligible_entry_session :: date
  sg_liquidity_ok :: bool
  sg_liquidity_median :: "money option"
  sg_liquidity_last_close :: "money option"

record v2_decision =
  d_signal_id :: string
  d_episode_id :: string
  d_symbol :: symbol
  d_direction :: v2_direction
  d_action :: v2_action
  d_official_eligible :: bool
  d_entry_session :: date

definition build_signal :: "v2_config \<Rightarrow> cluster_episode \<Rightarrow> liquidity_result \<Rightarrow> v2_signal" where
  "build_signal cfg ep liq =
     \<lparr> sg_signal_id = ''v2sig-'' @ episode_id ep, sg_symbol = ep_symbol ep,
       sg_issuer_cik = ep_issuer_cik ep, sg_direction = BULLISH, sg_horizon = hold_trading_days cfg,
       sg_paper_eligible = True, sg_episode_id = episode_id ep,
       sg_distinct_owner_ciks = distinct_owner_ciks ep, sg_n_distinct_owners = n_distinct_owners ep,
       sg_causal_event_ts = causal_event_ts ep, sg_eligible_entry_session = eligible_entry_session ep,
       sg_liquidity_ok = liq_ok liq, sg_liquidity_median = median_dollar_volume liq,
       sg_liquidity_last_close = last_close liq \<rparr>"

definition contextualize :: "v2_signal \<Rightarrow> v2_decision" where
  "contextualize s =
     \<lparr> d_signal_id = sg_signal_id s, d_episode_id = sg_episode_id s, d_symbol = sg_symbol s,
       d_direction = BULLISH, d_action = (if sg_liquidity_ok s then BUY else HOLD),
       d_official_eligible = sg_liquidity_ok s, d_entry_session = sg_eligible_entry_session s \<rparr>"

text \<open>The routing key of an alert: a BUY and its later SELL are distinct.\<close>

definition action_name :: "v2_action \<Rightarrow> string" where
  "action_name a = (case a of BUY \<Rightarrow> ''BUY'' | SELL \<Rightarrow> ''SELL'' | HOLD \<Rightarrow> ''HOLD'')"

definition route_key :: "v2_decision \<Rightarrow> string" where
  "route_key d = d_episode_id d @ '':'' @ action_name (d_action d)"

lemma decision_simps [simp]:
  "d_action (contextualize (build_signal cfg ep liq)) = (if liq_ok liq then BUY else HOLD)"
  "d_episode_id (contextualize (build_signal cfg ep liq)) = episode_id ep"
  "d_symbol (contextualize (build_signal cfg ep liq)) = ep_symbol ep"
  "d_entry_session (contextualize (build_signal cfg ep liq)) = eligible_entry_session ep"
  by (simp_all add: contextualize_def build_signal_def)

end
