(* ===== verification/V2_Paper.thy ===== *)
theory V2_Paper
  imports V2_Store V2_Bridges
begin

text \<open>
  \<open>talonx_v2/paper.py\<close>: the paper lifecycle.  \<open>enter_position\<close> and \<open>close_position\<close> are whole
  transactions: an error result is the exception that rolls the transaction back.
\<close>

section \<open>Entry\<close>

datatype entry_reason =
    ENTERED_OK | DECISION_NOT_BUY v2_action | EPISODE_ALREADY_HAS_POSITION | EPISODE_ALREADY_ENTERED
  | SKIP skip_reason

record entry_outcome =
  eo_entered :: bool
  eo_reason :: entry_reason
  eo_position_id :: "nat option"
  eo_shares :: "money option"
  eo_target_exit :: "date option"

definition not_entered :: "entry_reason \<Rightarrow> entry_outcome" where
  "not_entered why = \<lparr> eo_entered = False, eo_reason = why, eo_position_id = None, eo_shares = None,
     eo_target_exit = None \<rparr>"

definition skip_entry :: "stamp \<Rightarrow> v2_decision \<Rightarrow> date \<Rightarrow> skip_reason \<Rightarrow> ledger \<Rightarrow> entry_outcome \<times> ledger" where
  "skip_entry now d es why l =
     (not_entered (SKIP why),
      record_disposition now (d_episode_id d) (upper (d_symbol d)) (SKIPPED why) [] None (Some es) l)"

text \<open>\<open>entry_price is None or entry_price <= 0\<close>; every comparison with NaN is false.\<close>

fun bad_price :: "pyfloat option \<Rightarrow> bool" where
  "bad_price None = True"
| "bad_price (Some (Finite x)) = (x \<le> 0)"
| "bad_price (Some NegInf) = True"
| "bad_price (Some PosInf) = False"
| "bad_price (Some NaN) = False"

text \<open>Cash not reserved by another episode's pending intent.\<close>

definition others_pending :: "ledger \<Rightarrow> string \<Rightarrow> intent list" where
  "others_pending l eid = filter (\<lambda>i. i_episode i \<noteq> eid) (pending_entry_intents l)"

definition available_cash :: "v2_config \<Rightarrow> ledger \<Rightarrow> string \<Rightarrow> money" where
  "available_cash cfg l eid =
     fl (cash l - fl (per_position_allocation_usd cfg * of_nat (length (others_pending l eid))))"

definition entry_sizing :: "v2_config \<Rightarrow> fee_fn \<Rightarrow> pyfloat option \<Rightarrow> ledger \<Rightarrow> string \<Rightarrow> sizing_result" where
  "entry_sizing cfg fee price l eid =
     size_whole_shares_fee_inclusive price (Some (Finite (per_position_allocation_usd cfg)))
       (Some (Finite (available_cash cfg l eid))) fee"

text \<open>What an admitted entry commits: position, cash debit, BUY trade, ENTERED disposition.\<close>

definition commit_entry ::
    "stamp \<Rightarrow> v2_decision \<Rightarrow> money \<Rightarrow> date \<Rightarrow> date \<Rightarrow> string \<Rightarrow> price_provenance option \<Rightarrow> sizing_result \<Rightarrow> ledger
       \<Rightarrow> (entry_outcome \<times> ledger) result" where
  "commit_entry now d price es target issuer prov sz l =
     (let eid = d_episode_id d; sy = upper (d_symbol d); shares = fl (of_nat (sz_shares sz));
          cost = sz_entry_total sz; after = fl (cash l - cost)
      in bindR (insert_open_position now eid sy issuer es target price shares cost (sz_entry_fee sz) prov l)
           (\<lambda>(pid, l1).
             let l2 = set_cash after l1;
                 l3 = append_trade now eid sy BUY_TRADE price shares cost after None None None None
                        (sz_entry_fee sz) prov l2;
                 l4 = record_disposition now eid sy ENTERED issuer None (Some es) l3
             in Inr (\<lparr> eo_entered = True, eo_reason = ENTERED_OK, eo_position_id = Some pid,
                       eo_shares = Some shares, eo_target_exit = Some target \<rparr>, l4)))"

text \<open>The checks that skip the episode, in the order of the code.\<close>

definition entry_refusal ::
    "v2_config \<Rightarrow> fee_fn \<Rightarrow> pyfloat option \<Rightarrow> date \<Rightarrow> string \<Rightarrow> symbol \<Rightarrow> ledger \<Rightarrow> skip_reason option" where
  "entry_refusal cfg fee price es eid sy l =
     (let cd = cooldown_until l sy; sz = entry_sizing cfg fee price l eid
      in if position_for_symbol l sy \<noteq> None then Some SYMBOL_ALREADY_OPEN
         else if cd \<noteq> None \<and> es < the cd then Some (IN_COOLDOWN_UNTIL (the cd))
         else if max_concurrent_positions cfg \<le> n_open l then Some (MAX_CONCURRENT (max_concurrent_positions cfg))
         else if bad_price price then Some BAD_ENTRY_PRICE
         else if \<not> sz_ok sz \<or> sz_shares sz < 1 then Some (NO_CASH (sz_reason sz))
         else None)"

text \<open>All reads happen under the write lock of the transaction.\<close>

definition enter_position ::
    "date list \<Rightarrow> v2_config \<Rightarrow> fee_fn \<Rightarrow> stamp \<Rightarrow> v2_decision \<Rightarrow> pyfloat option \<Rightarrow> date \<Rightarrow> string
       \<Rightarrow> price_provenance option \<Rightarrow> ledger \<Rightarrow> (entry_outcome \<times> ledger) result" where
  "enter_position sess cfg fee now d price es issuer prov l =
     bindR (validate_frozen cfg) (\<lambda>_.
       let eid = d_episode_id d; sy = upper (d_symbol d)
       in if d_action d \<noteq> BUY then Inr (not_entered (DECISION_NOT_BUY (d_action d)), l)
          else case blocked_reason (block_table l) (account_id l) of
            Some br \<Rightarrow> Inr (skip_entry now d es (ACCOUNT_BLOCKED br) l)
          | None \<Rightarrow>
              if position_for_episode l eid \<noteq> None then Inr (not_entered EPISODE_ALREADY_HAS_POSITION, l)
              else if episode_disposition l eid = Some ENTERED then Inr (not_entered EPISODE_ALREADY_ENTERED, l)
              else (case entry_refusal cfg fee price es eid sy l of
                Some why \<Rightarrow> Inr (skip_entry now d es why l)
              | None \<Rightarrow>
                  bindR (add_sessions sess es (hold_trading_days cfg)) (\<lambda>target.
                    commit_entry now d (case finite_value price of Some p \<Rightarrow> p | None \<Rightarrow> 0) es target issuer prov
                      (entry_sizing cfg fee price l eid) l)))"

section \<open>Exit\<close>

definition due_exits :: "ledger \<Rightarrow> date \<Rightarrow> position list" where
  "due_exits l as_of = filter (\<lambda>p. target_exit_session p \<le> as_of) (open_positions l)"

record exit_outcome =
  xo_symbol :: symbol
  xo_episode :: string
  xo_session :: date
  xo_price :: money
  xo_pnl_usd :: money
  xo_pnl_pct :: money
  xo_days_held :: int
  xo_settled :: bool
  xo_blocked :: "block_code option"
  xo_shares :: "money option"

definition not_settled :: "symbol \<Rightarrow> string \<Rightarrow> date \<Rightarrow> money \<Rightarrow> block_code option \<Rightarrow> exit_outcome" where
  "not_settled sy eid es price why =
     \<lparr> xo_symbol = sy, xo_episode = eid, xo_session = es, xo_price = price, xo_pnl_usd = 0, xo_pnl_pct = 0,
       xo_days_held = 0, xo_settled = False, xo_blocked = why, xo_shares = None \<rparr>"

text \<open>The code of a blocked row's status.\<close>

definition row_block_code :: "trail_row \<Rightarrow> block_code option" where
  "row_block_code r = (case tr_status r of BLOCKED c \<Rightarrow> Some c | _ \<Rightarrow> None)"

text \<open>What follows a close that did transition: cash credit, SELL trade, cooldown, dividend receivables.\<close>

definition commit_exit ::
    "date list \<Rightarrow> v2_config \<Rightarrow> stamp \<Rightarrow> position \<Rightarrow> money \<Rightarrow> date \<Rightarrow> money \<Rightarrow> exit_economics \<Rightarrow> int
       \<Rightarrow> price_provenance option \<Rightarrow> ca_event list \<Rightarrow> ledger \<Rightarrow> ledger result" where
  "commit_exit sess cfg now row price es shares econ held prov dividends l =
     (let after = fl (cash l + ee_exit_net econ);
          l1 = set_cash after l;
          l2 = append_trade now (p_episode row) (p_symbol row) SELL_TRADE price shares (position_cost row) after
                 (Some (p_entry_price row)) (Some (ee_realized_pnl_usd econ)) (Some (ee_realized_pnl_pct econ))
                 (Some held) (ee_exit_fee econ) prov l1
      in bindR (add_sessions sess es (reentry_cooldown_trading_days cfg)) (\<lambda>until.
           Inr (fold (\<lambda>e s. snd (record_dividend_entitlement now (position_id row) e es s)) dividends
                 (set_cooldown now (p_symbol row) until l2))))"

definition settle_row ::
    "date list \<Rightarrow> v2_config \<Rightarrow> fee_fn \<Rightarrow> stamp \<Rightarrow> position \<Rightarrow> money \<Rightarrow> date \<Rightarrow> price_provenance option
       \<Rightarrow> ca_event list \<Rightarrow> ledger \<Rightarrow> (exit_outcome \<times> ledger) result" where
  "settle_row sess cfg fee now row price es prov dividends l =
     (let pid = position_id row; qty = effective_shares_exact l pid; shares = fl qty;
          econ = compute_exit_economics (fraction_to_decimal qty) price (position_cost row) fee
      in bindR (trading_days_elapsed sess (entry_session row) es) (\<lambda>held.
           let out = \<lparr> xo_symbol = p_symbol row, xo_episode = p_episode row, xo_session = es, xo_price = price,
                       xo_pnl_usd = ee_realized_pnl_usd econ, xo_pnl_pct = ee_realized_pnl_pct econ,
                       xo_days_held = held, xo_settled = False, xo_blocked = None, xo_shares = None \<rparr>
           in case store_close_position now pid es price (ee_realized_pnl_usd econ) (ee_realized_pnl_pct econ)
                     held (ee_exit_fee econ) prov l of
                (False, l1) \<Rightarrow> Inr (out, l1)
              | (True, l1) \<Rightarrow>
                  bindR (commit_exit sess cfg now row price es shares econ held prov dividends l1) (\<lambda>l2.
                    Inr (out\<lparr> xo_settled := True, xo_shares := Some shares \<rparr>, l2))))"

text \<open>The snapshot \<open>position\<close> supplies the key only; every value is read from the stored row.\<close>

definition close_position ::
    "date list \<Rightarrow> v2_config \<Rightarrow> fee_fn \<Rightarrow> stamp \<Rightarrow> position \<Rightarrow> money \<Rightarrow> date \<Rightarrow> price_provenance option
       \<Rightarrow> ca_event list \<Rightarrow> ledger \<Rightarrow> (exit_outcome \<times> ledger) result" where
  "close_position sess cfg fee now position price es prov dividends l =
     (case position_by_id l (position_id position) of
        None \<Rightarrow> Inr (not_settled (p_symbol position) (p_episode position) es price None, l)
      | Some row \<Rightarrow>
          (case blocked_action_rows l (position_id row) of
             b # _ \<Rightarrow> Inr (not_settled (p_symbol row) (p_episode row) es price (row_block_code b), l)
           | [] \<Rightarrow> settle_row sess cfg fee now row price es prov dividends l))"

section \<open>Reports\<close>

record position_report =
  rp_symbol :: symbol
  rp_episode :: string
  rp_entry :: date
  rp_target :: date
  rp_price :: money
  rp_shares :: money
  rp_held :: int
  rp_remaining :: int
  rp_overdue :: bool

definition open_position_report :: "date list \<Rightarrow> ledger \<Rightarrow> date \<Rightarrow> position_report list result" where
  "open_position_report sess l a =
     mapR (\<lambda>p. bindR (trading_days_elapsed sess (entry_session p) a) (\<lambda>held.
       Inr \<lparr> rp_symbol = p_symbol p, rp_episode = p_episode p, rp_entry = entry_session p,
             rp_target = target_exit_session p, rp_price = p_entry_price p, rp_shares = p_shares p,
             rp_held = held, rp_remaining = max 0 (sessions_between sess a (target_exit_session p)),
             rp_overdue = (target_exit_session p < a) \<rparr>)) (open_positions l)"

text \<open>\<open>recover\<close>: the count and symbols of the open positions, and the symbols that are overdue.\<close>

definition recover :: "ledger \<Rightarrow> date option \<Rightarrow> nat \<times> symbol list \<times> symbol list" where
  "recover l as_of =
     (length (open_positions l), map p_symbol (open_positions l),
      (case as_of of None \<Rightarrow> [] | Some a \<Rightarrow> map p_symbol (due_exits l a)))"

section \<open>Entry: the three ways a call returns\<close>

lemma not_entered_simps [simp]:
  "\<not> eo_entered (not_entered why)" "eo_reason (not_entered why) = why"
  by (simp_all add: not_entered_def)

lemma entry_refusal_None:
  assumes "entry_refusal cfg fee price es eid sy l = None"
  shows "position_for_symbol l sy = None" "cooldown_until l sy = Some cd \<Longrightarrow> cd \<le> es"
    "n_open l < max_concurrent_positions cfg" "\<not> bad_price price"
    "sz_ok (entry_sizing cfg fee price l eid)" "0 < sz_shares (entry_sizing cfg fee price l eid)"
  using assms by (auto simp: entry_refusal_def Let_def split: if_splits)

lemma commit_entry_Inr:
  assumes "commit_entry now d price es target issuer prov sz l = Inr (out, l')"
  defines "eid \<equiv> d_episode_id d" and "sy \<equiv> upper (d_symbol d)" and "sh \<equiv> fl (of_nat (sz_shares sz))"
    and "after \<equiv> fl (cash l - sz_entry_total sz)" and "pid \<equiv> Suc (position_seq l)"
  shows "eid \<notin> p_episode ` set (positions l)"
    and "out = \<lparr> eo_entered = True, eo_reason = ENTERED_OK, eo_position_id = Some pid, eo_shares = Some sh,
           eo_target_exit = Some target \<rparr>"
    and "l' = record_disposition now eid sy ENTERED issuer None (Some es)
        (append_trade now eid sy BUY_TRADE price sh (sz_entry_total sz) after None None None None
          (sz_entry_fee sz) prov (set_cash after (l\<lparr> position_seq := pid, positions := positions l @
            [new_position pid now eid sy issuer es target price sh (sz_entry_total sz) (sz_entry_fee sz) prov] \<rparr>)))"
  using assms by (auto simp: commit_entry_def insert_open_position_def Let_def split: if_splits)

text \<open>What an entry writes, table by table.\<close>

lemma commit_entry_tables:
  assumes "commit_entry now d price es target issuer prov sz l = Inr (out, l')"
  shows "portfolio_cash l' = fl (cash l - sz_entry_total sz)" "position_seq l' = Suc (position_seq l)"
    "positions l' = positions l @ [new_position (Suc (position_seq l)) now (d_episode_id d) (upper (d_symbol d))
        issuer es target price (fl (of_nat (sz_shares sz))) (sz_entry_total sz) (sz_entry_fee sz) prov]"
    "map t_episode (filter (\<lambda>t. t_action t = BUY_TRADE) (trades l')) =
       map t_episode (filter (\<lambda>t. t_action t = BUY_TRADE) (trades l)) @ [d_episode_id d]"
    "filter (\<lambda>t. t_action t = SELL_TRADE) (trades l') = filter (\<lambda>t. t_action t = SELL_TRADE) (trades l)"
    "intents l' = intents l" "outbox l' = outbox l" "trail l' = trail l" "trail_seq l' = trail_seq l"
    "entitlements l' = entitlements l" "entitlement_seq l' = entitlement_seq l" "cooldowns l' = cooldowns l"
    "block_table l' = block_table l" "campaign_row l' = campaign_row l"
    "episode_disposition l' (d_episode_id d) = Some ENTERED"
  using commit_entry_Inr(3) [OF assms] by (simp_all add: store_simps append_trade_def disposition_table.get_put_same)

lemma enter_positionE:
  assumes "enter_position sess cfg fee now d price es issuer prov l = Inr (out, l')"
  obtains
    (declined) "\<not> eo_entered out" "l' = l"
      "d_action d \<noteq> BUY \<or> position_for_episode l (d_episode_id d) \<noteq> None
       \<or> episode_disposition l (d_episode_id d) = Some ENTERED"
  | (skipped) why where "out = not_entered (SKIP why)" "d_action d = BUY"
      "l' = record_disposition now (d_episode_id d) (upper (d_symbol d)) (SKIPPED why) [] None (Some es) l"
  | (entered) target p where "validate_frozen cfg = Inr ()" "d_action d = BUY"
      "blocked_reason (block_table l) (account_id l) = None"
      "position_for_episode l (d_episode_id d) = None" "episode_disposition l (d_episode_id d) \<noteq> Some ENTERED"
      "entry_refusal cfg fee price es (d_episode_id d) (upper (d_symbol d)) l = None"
      "add_sessions sess es (hold_trading_days cfg) = Inr target" "finite_value price = Some p" "0 < p"
      "commit_entry now d p es target issuer prov (entry_sizing cfg fee price l (d_episode_id d)) l = Inr (out, l')"
proof -
  let ?eid = "d_episode_id d" and ?sy = "upper (d_symbol d)"
  from assms obtain u where frozen: "validate_frozen cfg = Inr u" by (auto simp: enter_position_def bindR_Inr_iff)
  note body = assms [unfolded enter_position_def frozen bindR_simps Let_def]
  show thesis
  proof (cases "d_action d \<noteq> BUY \<or> blocked_reason (block_table l) (account_id l) \<noteq> None
      \<or> position_for_episode l ?eid \<noteq> None \<or> episode_disposition l ?eid = Some ENTERED
      \<or> entry_refusal cfg fee price es ?eid ?sy l \<noteq> None")
    case True
    with body show ?thesis
      by (auto simp: skip_entry_def split: if_splits option.splits intro: declined skipped)
  next
    case False
    then have ref: "entry_refusal cfg fee price es ?eid ?sy l = None" by simp
    have "sz_ok (entry_sizing cfg fee price l ?eid)" by (rule entry_refusal_None(5) [OF ref])
    then obtain p where p: "finite_value price = Some p" "0 < p"
      using size_whole_shares_ok unfolding entry_sizing_def by blast
    from False body p obtain target where "add_sessions sess es (hold_trading_days cfg) = Inr target"
      "commit_entry now d p es target issuer prov (entry_sizing cfg fee price l ?eid) l = Inr (out, l')"
      by (auto simp: bindR_Inr_iff)
    with False ref p frozen show ?thesis by (intro entered [of target p]) simp_all
  qed
qed

text \<open>The admitted cost never exceeds the cash, and never the cash left after the other reservations.\<close>

lemma available_cash_le:
  assumes "is_float (cash l)" "0 \<le> per_position_allocation_usd cfg"
  shows "available_cash cfg l eid \<le> cash l"
proof -
  let ?r = "fl (per_position_allocation_usd cfg * of_nat (length (others_pending l eid)))"
  have "0 \<le> ?r" using assms(2) by (simp add: f64.rnd_nonneg)
  then have "fl (cash l - ?r) \<le> fl (cash l)" by (intro f64.rnd_mono) simp
  then show ?thesis using assms(1) by (simp add: available_cash_def is_float_def)
qed

lemma sized_allocation_pos:
  "sz_ok sz \<Longrightarrow> sz = size_whole_shares_fee_inclusive price (Some (Finite a)) avail fee \<Longrightarrow> 0 < a"
  by (auto simp: size_whole_shares_fee_inclusive_def refuse_def split: if_splits option.splits)

lemma entry_sizing_affordable:
  assumes "sz_ok (entry_sizing cfg fee price l eid)" "is_float (cash l)"
  defines "sz \<equiv> entry_sizing cfg fee price l eid"
  shows "0 < sz_shares sz" "sz_entry_total sz \<le> available_cash cfg l eid" "sz_entry_total sz \<le> cash l"
    "is_float (sz_entry_total sz)"
proof -
  have f: "is_float (available_cash cfg l eid)" by (simp add: available_cash_def)
  note ok = accepted_size_affordable [OF assms(1) [unfolded entry_sizing_def] f, folded entry_sizing_def sz_def]
  have "0 < per_position_allocation_usd cfg"
    using assms(1) by (rule sized_allocation_pos [OF _ entry_sizing_def])
  then have "available_cash cfg l eid \<le> cash l" using available_cash_le [OF assms(2)] by simp
  with ok show "0 < sz_shares sz" "sz_entry_total sz \<le> available_cash cfg l eid" "sz_entry_total sz \<le> cash l"
    "is_float (sz_entry_total sz)" by auto
qed

section \<open>Exit: settled or nothing\<close>

lemma not_settled_simps [simp]: "\<not> xo_settled (not_settled sy eid es price why)"
  by (simp add: not_settled_def)

lemma store_close_noop:
  assumes "\<not> (\<exists>p \<in> set (positions l). position_id p = pid \<and> p_status p = OPEN)"
  shows "store_close_position now pid es price usd pct held fee prov l = (False, l)"
  using assms by (auto simp: store_close_position_def rowcount_def filter_empty_conv update_rows_id)

definition settled_ledger ::
    "date list \<Rightarrow> v2_config \<Rightarrow> fee_fn \<Rightarrow> stamp \<Rightarrow> position \<Rightarrow> money \<Rightarrow> date \<Rightarrow> price_provenance option
       \<Rightarrow> ca_event list \<Rightarrow> int \<Rightarrow> date \<Rightarrow> ledger \<Rightarrow> ledger" where
  "settled_ledger sess cfg fee now row price es prov dividends held until l =
     (let pid = position_id row; qty = effective_shares_exact l pid;
          econ = compute_exit_economics (fraction_to_decimal qty) price (position_cost row) fee;
          after = fl (cash l + ee_exit_net econ)
      in fold (\<lambda>e s. snd (record_dividend_entitlement now pid e es s)) dividends
           (set_cooldown now (p_symbol row) until
             (append_trade now (p_episode row) (p_symbol row) SELL_TRADE price (fl qty) (position_cost row) after
               (Some (p_entry_price row)) (Some (ee_realized_pnl_usd econ)) (Some (ee_realized_pnl_pct econ))
               (Some held) (ee_exit_fee econ) prov
               (set_cash after (snd (store_close_position now pid es price (ee_realized_pnl_usd econ)
                  (ee_realized_pnl_pct econ) held (ee_exit_fee econ) prov l))))))"

lemma close_positionE:
  assumes "close_position sess cfg fee now pos price es prov dividends l = Inr (out, l')"
  obtains
    (unsettled) "\<not> xo_settled out" "l' = l"
  | (settled) row held until where "xo_settled out" "position_by_id l (position_id pos) = Some row"
      "position_id row = position_id pos" "row \<in> set (positions l)"
      "\<exists>p \<in> set (positions l). position_id p = position_id pos \<and> p_status p = OPEN"
      "blocked_action_rows l (position_id pos) = []"
      "trading_days_elapsed sess (entry_session row) es = Inr held"
      "add_sessions sess es (reentry_cooldown_trading_days cfg) = Inr until"
      "xo_shares out = Some (fl (effective_shares_exact l (position_id pos)))"
      "l' = settled_ledger sess cfg fee now row price es prov dividends held until l"
proof (cases "position_by_id l (position_id pos)")
  case None
  with assms show ?thesis by (intro unsettled) (auto simp: close_position_def)
next
  case (Some row)
  then have row: "position_id row = position_id pos" "row \<in> set (positions l)"
    by (auto simp: position_by_id_def dest: row_by_Some)
  show ?thesis
  proof (cases "blocked_action_rows l (position_id pos) = []
      \<and> (\<exists>p \<in> set (positions l). position_id p = position_id pos \<and> p_status p = OPEN)")
    case True
    then have closes: "0 < rowcount (\<lambda>p. position_id p = position_id pos \<and> p_status p = OPEN) (positions l)"
      by (auto simp: rowcount_pos)
    from assms True Some row obtain held until where
      "trading_days_elapsed sess (entry_session row) es = Inr held"
      "add_sessions sess es (reentry_cooldown_trading_days cfg) = Inr until"
      "l' = settled_ledger sess cfg fee now row price es prov dividends held until l"
      "xo_settled out" "xo_shares out = Some (fl (effective_shares_exact l (position_id pos)))"
      by (auto simp: close_position_def settle_row_def commit_exit_def settled_ledger_def bindR_Inr_iff
          Let_def store_close_position_def closes cash_def split: prod.splits)
    then show ?thesis using True Some row by (intro settled) simp_all
  next
    case False
    have "\<not> xo_settled out \<and> l' = l"
    proof (cases "blocked_action_rows l (position_id pos)")
      case Nil
      with False have none: "\<not> (\<exists>p \<in> set (positions l). position_id p = position_id pos \<and> p_status p = OPEN)"
        by simp
      with assms Some row Nil show ?thesis
        by (auto simp: close_position_def settle_row_def bindR_Inr_iff Let_def store_close_noop)
    next
      case (Cons b bs)
      with assms Some row show ?thesis by (auto simp: close_position_def)
    qed
    then show ?thesis by (intro unsettled) auto
  qed
qed

text \<open>A dividend receivable touches the registry and the entitlements only.\<close>

definition accrued_row :: "stamp \<Rightarrow> nat \<Rightarrow> ca_event \<Rightarrow> position \<Rightarrow> date \<Rightarrow> rat \<Rightarrow> ledger \<Rightarrow> entitlement" where
  "accrued_row now pid e p ex rate l =
     (let qty = shares_at_date l pid ex; exact = dec28 (rate * fraction_to_decimal qty)
      in \<lparr> entitlement_id = Suc (entitlement_seq l), en_campaign = account_id l,
           en_position = pid, en_episode = p_episode p, en_symbol = p_symbol p,
           en_key = ev_key e, en_ex_date = ex, en_record_date = ev_record_date e,
           en_payable = ev_payable_date e, en_rate = rate, en_qty = qty, en_exact = exact,
           en_usd = fl (cents_half_up exact), en_state = ACCRUED, en_accrued_at = now,
           en_credited_at = None, en_credited_as_of = None, en_cash_after = None \<rparr>)"

lemma record_dividend_cases:
  obtains (ineligible) "record_dividend_entitlement now pid e exit l = (False, l)"
  | (known) "record_dividend_entitlement now pid e exit l = (False, register_corporate_action e l)"
      "(pid, ev_key e) \<in> (\<lambda>x. (en_position x, en_key x)) ` set (entitlements l)"
  | (accrued) p ex rate where "position_by_id l pid = Some p" "ev_ex_date e = Some ex" "ev_cash_rate e = Some rate"
      "entry_session p < ex" "ex \<le> exit"
      "(pid, ev_key e) \<notin> (\<lambda>x. (en_position x, en_key x)) ` set (entitlements l)"
      "record_dividend_entitlement now pid e exit l =
        (True, (register_corporate_action e l)\<lparr> entitlement_seq := Suc (entitlement_seq l),
           entitlements := entitlements l @ [accrued_row now pid e p ex rate (register_corporate_action e l)] \<rparr>)"
proof (cases "\<exists>p ex rate. position_by_id l pid = Some p \<and> ev_ex_date e = Some ex \<and> ev_cash_rate e = Some rate
    \<and> entry_session p < ex \<and> ex \<le> exit")
  case True
  then obtain p ex rate where h: "position_by_id l pid = Some p" "ev_ex_date e = Some ex"
    "ev_cash_rate e = Some rate" "entry_session p < ex" "ex \<le> exit" by blast
  show ?thesis
  proof (cases "(pid, ev_key e) \<in> (\<lambda>x. (en_position x, en_key x)) ` set (entitlements l)")
    case dup: True
    have "record_dividend_entitlement now pid e exit l = (False, register_corporate_action e l)"
      using h dup by (simp add: record_dividend_entitlement_def register_simps Let_def)
    then show ?thesis using dup by (rule known)
  next
    case new: False
    have "record_dividend_entitlement now pid e exit l =
        (True, (register_corporate_action e l)\<lparr> entitlement_seq := Suc (entitlement_seq l),
           entitlements := entitlements l @ [accrued_row now pid e p ex rate (register_corporate_action e l)] \<rparr>)"
      using h new by (simp add: record_dividend_entitlement_def accrued_row_def register_simps Let_def)
    with h new show ?thesis by (rule accrued)
  qed
next
  case False
  then have "record_dividend_entitlement now pid e exit l = (False, l)"
    by (cases "position_by_id l pid"; cases "ev_ex_date e"; cases "ev_cash_rate e")
      (simp_all add: record_dividend_entitlement_def)
  then show ?thesis by (rule ineligible)
qed

lemma record_dividend_simps [store_simps]:
  fixes now pid e ex l
  defines "l' \<equiv> snd (record_dividend_entitlement now pid e ex l)"
  shows "portfolio_cash l' = portfolio_cash l" "positions l' = positions l" "trades l' = trades l"
    "episodes l' = episodes l" "intents l' = intents l" "outbox l' = outbox l" "trail l' = trail l"
    "cooldowns l' = cooldowns l" "block_table l' = block_table l" "campaign_row l' = campaign_row l"
    "position_seq l' = position_seq l" "trail_seq l' = trail_seq l"
  unfolding l'_def
  by (cases rule: record_dividend_cases [of now pid e ex l]; simp add: store_simps)+

lemma record_dividends_simps [store_simps]:
  fixes now pid es ex l
  defines "l' \<equiv> fold (\<lambda>e s. snd (record_dividend_entitlement now pid e ex s)) es l"
  shows "portfolio_cash l' = portfolio_cash l" "positions l' = positions l" "trades l' = trades l"
    "episodes l' = episodes l" "intents l' = intents l" "outbox l' = outbox l" "trail l' = trail l"
    "cooldowns l' = cooldowns l" "block_table l' = block_table l" "campaign_row l' = campaign_row l"
    "position_seq l' = position_seq l" "trail_seq l' = trail_seq l"
  unfolding l'_def by (induction es arbitrary: l) (simp_all add: store_simps)

lemma store_close_simps [store_simps]:
  fixes now pid es price usd pct held fee prov l
  defines "l' \<equiv> snd (store_close_position now pid es price usd pct held fee prov l)"
  shows "portfolio_cash l' = portfolio_cash l" "trades l' = trades l"
    "episodes l' = episodes l" "intents l' = intents l" "outbox l' = outbox l" "trail l' = trail l"
    "cooldowns l' = cooldowns l" "block_table l' = block_table l" "campaign_row l' = campaign_row l"
    "position_seq l' = position_seq l" "trail_seq l' = trail_seq l" "entitlements l' = entitlements l"
    "entitlement_seq l' = entitlement_seq l"
    "positions l' = update_rows (\<lambda>p. position_id p = pid \<and> p_status p = OPEN)
        (closed_row now es price usd pct held fee prov) (positions l)"
  by (simp_all add: l'_def store_close_position_def)

lemma closed_row_simps [simp]:
  "position_id (closed_row now es price usd pct held fee prov p) = position_id p"
  "p_episode (closed_row now es price usd pct held fee prov p) = p_episode p"
  "p_symbol (closed_row now es price usd pct held fee prov p) = p_symbol p"
  "p_status (closed_row now es price usd pct held fee prov p) = CLOSED"
  "position_cost (closed_row now es price usd pct held fee prov p) = position_cost p"
  "p_shares (closed_row now es price usd pct held fee prov p) = p_shares p"
  "entry_session (closed_row now es price usd pct held fee prov p) = entry_session p"
  "target_exit_session (closed_row now es price usd pct held fee prov p) = target_exit_session p"
  by (simp_all add: closed_row_def)

text \<open>What a settlement writes, table by table.\<close>

lemma settled_ledger_tables:
  fixes sess cfg fee now row price es prov dividends held until l
  defines "l' \<equiv> settled_ledger sess cfg fee now row price es prov dividends held until l"
    and "econ \<equiv> compute_exit_economics (fraction_to_decimal (effective_shares_exact l (position_id row)))
           price (position_cost row) fee"
  shows "portfolio_cash l' = fl (portfolio_cash l + ee_exit_net econ)"
    "positions l' = update_rows (\<lambda>p. position_id p = position_id row \<and> p_status p = OPEN)
       (closed_row now es price (ee_realized_pnl_usd econ) (ee_realized_pnl_pct econ) held
          (ee_exit_fee econ) prov) (positions l)"
    "filter (\<lambda>t. t_action t = BUY_TRADE) (trades l') = filter (\<lambda>t. t_action t = BUY_TRADE) (trades l)"
    "map t_episode (filter (\<lambda>t. t_action t = SELL_TRADE) (trades l')) =
       map t_episode (filter (\<lambda>t. t_action t = SELL_TRADE) (trades l)) @ [p_episode row]"
    "episodes l' = episodes l" "intents l' = intents l" "outbox l' = outbox l" "trail l' = trail l"
    "trail_seq l' = trail_seq l" "block_table l' = block_table l" "campaign_row l' = campaign_row l"
    "position_seq l' = position_seq l"
    "cooldown_until l' (p_symbol row) = Some until"
proof -
  have cd: "cooldowns (fold (\<lambda>e s. snd (record_dividend_entitlement now pid e es s)) dividends s) = cooldowns s"
    for pid s by (simp add: store_simps)
  show "cooldown_until l' (p_symbol row) = Some until"
    unfolding l'_def settled_ledger_def Let_def cooldown_until_def cd
    by (simp flip: cooldown_until_def add: cooldown_table.get_put_same)
qed (simp_all add: l'_def econ_def settled_ledger_def Let_def store_simps append_trade_def cash_def)

section \<open>Properties of the lifecycle\<close>


text \<open>
  The four writes of an entry commit together: exactly one OPEN position row, the debit of its
  cost, one BUY trade that records the same cost and the cash after it, and the disposition ENTERED;
  the cost is within the cash that is not reserved by other pending intents.
\<close>

theorem entry_writes_agree:
  assumes "enter_position sess cfg fee now d price es issuer prov l = Inr (out, l')" "eo_entered out"
    and "is_float (cash l)"
  shows "\<exists>row t. positions l' = positions l @ [row] \<and> trades l' = trades l @ [t]
     \<and> p_status row = OPEN \<and> p_episode row = d_episode_id d \<and> eo_position_id out = Some (position_id row)
     \<and> entry_session row = es \<and> eo_shares out = Some (p_shares row)
     \<and> t_action t = BUY_TRADE \<and> t_episode t = p_episode row \<and> t_cost t = position_cost row
     \<and> t_shares t = p_shares row \<and> t_cash_after t = cash l' \<and> cash l' = fl (cash l - position_cost row)
     \<and> position_cost row \<le> available_cash cfg l (d_episode_id d)
     \<and> episode_disposition l' (d_episode_id d) = Some ENTERED"
  using assms(1)
proof (cases rule: enter_positionE)
  case (entered target p)
  let ?sz = "entry_sizing cfg fee price l (d_episode_id d)"
  have afford: "sz_entry_total ?sz \<le> available_cash cfg l (d_episode_id d)"
    by (rule entry_sizing_affordable(2) [OF entry_refusal_None(5) [OF entered(6)] assms(3)])
  note com = commit_entry_Inr [OF entered(10)] and tab = commit_entry_tables [OF entered(10)]
  have t: "trades l' = trades l @ [last (trades l')]" "t_action (last (trades l')) = BUY_TRADE"
    "t_episode (last (trades l')) = d_episode_id d" "t_cost (last (trades l')) = sz_entry_total ?sz"
    "t_shares (last (trades l')) = fl (of_nat (sz_shares ?sz))"
    "t_cash_after (last (trades l')) = fl (cash l - sz_entry_total ?sz)"
    unfolding com(3) by (simp_all add: store_simps append_trade_def record_disposition_def)
  let ?row = "new_position (Suc (position_seq l)) now (d_episode_id d) (upper (d_symbol d)) issuer es target p
      (fl (of_nat (sz_shares ?sz))) (sz_entry_total ?sz) (sz_entry_fee ?sz) prov"
  show ?thesis
    by (rule exI [of _ ?row], rule exI [of _ "last (trades l')"])
      (use afford com(2) tab t in \<open>simp add: new_position_def cash_def\<close>)
qed (use assms(2) in simp_all)

text \<open>
  A refused entry costs nothing: cash, positions, trades, intents, cooldowns and blocks are as
  before; at most the disposition of that one episode is rewritten.
\<close>

theorem refused_entry_costs_nothing:
  assumes "enter_position sess cfg fee now d price es issuer prov l = Inr (out, l')" "\<not> eo_entered out"
  shows "cash l' = cash l \<and> positions l' = positions l \<and> trades l' = trades l \<and> intents l' = intents l
     \<and> cooldowns l' = cooldowns l \<and> block_table l' = block_table l
     \<and> (\<forall>e. e \<noteq> d_episode_id d \<longrightarrow> episode_disposition l' e = episode_disposition l e)"
  using assms(1)
proof (cases rule: enter_positionE)
  case (skipped why)
  then show ?thesis by (simp add: store_simps cash_def disposition_table.get_put_other)
next
  case (entered target p)
  with assms(2) commit_entry_Inr(2) [OF entered(10)] show ?thesis by simp
qed simp

text \<open>
  One logical cluster is one BUY: once an episode has entered, presenting it again, with any price,
  session or decision, never enters, moves no cash and adds no position.
\<close>

theorem episode_enters_once:
  assumes "enter_position sess cfg fee now d price es issuer prov l = Inr (out, l1)" "eo_entered out"
    and "enter_position sess' cfg' fee' now' d' price' es' issuer' prov' l1 = Inr (out', l2)"
    and "d_episode_id d' = d_episode_id d"
  shows "\<not> eo_entered out' \<and> cash l2 = cash l1 \<and> positions l2 = positions l1 \<and> trades l2 = trades l1"
proof -
  have pos: "position_for_episode l1 (d_episode_id d) \<noteq> None"
    using assms(1)
  proof (cases rule: enter_positionE)
    case (entered target p)
    then show ?thesis
      by (simp add: position_for_episode_def row_by_None commit_entry_tables(3) [OF entered(10)] new_position_def)
  qed (use assms(2) in simp_all)
  show ?thesis using assms(3)
  proof (cases rule: enter_positionE)
    case (skipped why)
    then show ?thesis by (simp add: store_simps cash_def)
  next
    case (entered target p)
    with pos assms(4) show ?thesis by simp
  qed (simp_all add: assms(4))
qed

text \<open>
  C10. A settlement happens at most once: after a close that settled, every further close of that
  position, with any price, session or snapshot, settles nothing and commits no change.
\<close>

theorem settlement_happens_once:
  assumes "close_position sess cfg fee now pos price es prov divs l = Inr (out, l1)" "xo_settled out"
    and "position_id pos' = position_id pos"
  shows "committed l1 (close_position sess' cfg' fee' now' pos' price' es' prov' divs' l1) = l1
     \<and> (\<forall>out' l2. close_position sess' cfg' fee' now' pos' price' es' prov' divs' l1 = Inr (out', l2) \<longrightarrow>
          \<not> xo_settled out')"
proof -
  have none: "\<not> (\<exists>p \<in> set (positions l1). position_id p = position_id pos \<and> p_status p = OPEN)"
    using assms(1)
  proof (cases rule: close_positionE)
    case (settled row held until)
    have tab: "positions l1 = update_rows (\<lambda>p. position_id p = position_id pos \<and> p_status p = OPEN) f (positions l)"
      if "f = closed_row now es price (ee_realized_pnl_usd e) (ee_realized_pnl_pct e) held (ee_exit_fee e) prov"
        "e = compute_exit_economics (fraction_to_decimal (effective_shares_exact l (position_id row))) price
           (position_cost row) fee" for f e
      using settled_ledger_tables(2) settled(3,10) that by simp
    have "\<not> (position_id p = position_id pos \<and> p_status p = OPEN)" if "p \<in> set (positions l1)" for p
      using that unfolding tab [OF refl refl] by (rule update_rows_exhausts [rotated]) simp
    then show ?thesis by blast
  qed (use assms(2) in simp)
  have again: "\<not> xo_settled out' \<and> l2 = l1"
    if "close_position sess' cfg' fee' now' pos' price' es' prov' divs' l1 = Inr (out', l2)" for out' l2
    using that
  proof (cases rule: close_positionE)
    case (settled row held until)
    with none assms(3) show ?thesis by auto
  qed simp
  then show ?thesis by (auto simp: committed_def split: sum.splits)
qed

text \<open>
  C11. A settlement pays for the shares the position really holds: the quantity is the entry quantity
  adjusted by the applied splits, the cash grows by the net of that quantity at the exit price, the
  row becomes CLOSED with the same economics, one SELL is appended and the symbol cools down for five
  sessions.
\<close>

theorem settlement_pays_effective_shares:
  assumes "close_position sess cfg fee now pos price es prov divs l = Inr (out, l')" "xo_settled out"
    and "distinct (map position_id (positions l))" "reentry_cooldown_trading_days cfg = 5"
  defines "qty \<equiv> effective_shares_exact l (position_id pos)"
  shows "\<exists>row econ until. row \<in> set (positions l) \<and> position_id row = position_id pos \<and> p_status row = OPEN
     \<and> econ = compute_exit_economics (fraction_to_decimal qty) price (position_cost row) fee
     \<and> xo_shares out = Some (fl qty) \<and> cash l' = fl (cash l + ee_exit_net econ)
     \<and> map_option p_status (position_by_id l' (position_id pos)) = Some CLOSED
     \<and> map_option p_pnl_usd (position_by_id l' (position_id pos)) = Some (Some (ee_realized_pnl_usd econ))
     \<and> map t_episode (filter (\<lambda>t. t_action t = SELL_TRADE) (trades l')) =
         map t_episode (filter (\<lambda>t. t_action t = SELL_TRADE) (trades l)) @ [p_episode row]
     \<and> add_sessions sess es 5 = Inr until \<and> cooldown_until l' (p_symbol row) = Some until"
  using assms(1)
proof (cases rule: close_positionE)
  case (settled row held until)
  from settled(5) obtain p where p: "p \<in> set (positions l)" "position_id p = position_id pos" "p_status p = OPEN"
    by blast
  have "p = row" by (rule distinct_key [OF assms(3) p(1) settled(4)]) (use p(2) settled(3) in simp)
  with p have open_row: "p_status row = OPEN" by simp
  let ?econ = "compute_exit_economics (fraction_to_decimal qty) price (position_cost row) fee"
  note tab = settled_ledger_tables [of sess cfg fee now row price es prov divs held until l,
      folded settled(10), unfolded settled(3), folded qty_def]
  have "position_by_id l' (position_id pos) = Some (closed_row now es price (ee_realized_pnl_usd ?econ)
      (ee_realized_pnl_pct ?econ) held (ee_exit_fee ?econ) prov row)"
    using settled(2,3) open_row
    by (simp add: position_by_id_def tab(2) row_by_update [where key = position_id])
  then have "map_option p_status (position_by_id l' (position_id pos)) = Some CLOSED"
    "map_option p_pnl_usd (position_by_id l' (position_id pos)) = Some (Some (ee_realized_pnl_usd ?econ))"
    by (simp_all add: closed_row_def)
  with settled(3,4,8,9) open_row tab(1,4,13) assms(4) show ?thesis
    by (intro exI [of _ row] exI [of _ ?econ] exI [of _ until]) (simp add: cash_def qty_def)
qed (use assms(2) in simp)

text \<open>
  A position with a recorded corporate-action block is never settled: the close reports the
  block and changes nothing.
\<close>

theorem blocked_position_is_not_settled:
  assumes "position_by_id l (position_id pos) \<noteq> None" "blocked_action_rows l (position_id pos) \<noteq> []"
  shows "\<exists>out. close_position sess cfg fee now pos price es prov divs l = Inr (out, l)
     \<and> \<not> xo_settled out \<and> xo_blocked out \<noteq> None"
proof -
  from assms(1) obtain row where row: "position_by_id l (position_id pos) = Some row" by auto
  then have "position_id row = position_id pos" by (auto simp: position_by_id_def dest: row_by_Some)
  moreover from assms(2) obtain b bs where b: "blocked_action_rows l (position_id pos) = b # bs"
    by (cases "blocked_action_rows l (position_id pos)") auto
  moreover have "b \<in> set (blocked_action_rows l (position_id pos))" using b by simp
  then have "is_blocked_row b" by (simp add: blocked_action_rows_def)
  then have "row_block_code b \<noteq> None" by (auto simp: is_blocked_row_def row_block_code_def split: trail_status.splits)
  ultimately show ?thesis using row by (auto simp: close_position_def not_settled_def)
qed

text \<open>
  C12. The re-entry cooldown holds across components: after a position in a symbol settled at \<open>es\<close>, no
  entry in that symbol is admitted for a session before the fifth session after \<open>es\<close>.
\<close>

theorem no_reentry_during_cooldown:
  assumes "close_position sess cfg fee now pos price es prov divs l = Inr (out, l1)" "xo_settled out"
    and "add_sessions sess es (reentry_cooldown_trading_days cfg) = Inr until"
    and "enter_position sess' cfg' fee' now' d price' entry issuer prov' l1 = Inr (out', l2)"
    and "\<exists>row \<in> set (positions l). position_id row = position_id pos \<and> upper (p_symbol row) = upper (d_symbol d)"
    and "distinct (map position_id (positions l))" "entry < until"
  shows "\<not> eo_entered out' \<and> cash l2 = cash l1"
proof -
  from assms(1) have cd: "cooldown_until l1 (upper (d_symbol d)) = Some until"
  proof (cases rule: close_positionE)
    case (settled row held until')
    from assms(5) obtain q where q: "q \<in> set (positions l)" "position_id q = position_id pos"
      "upper (p_symbol q) = upper (d_symbol d)" by blast
    have "q = row" by (rule distinct_key [OF assms(6) q(1) settled(4)]) (use q(2) settled(3) in simp)
    moreover have "until' = until" using settled(8) assms(3) by simp
    moreover have "cooldown_until l1 (p_symbol row) = Some until'" using settled(10) settled_ledger_tables(13) by simp
    ultimately show ?thesis using q(3) by (simp add: cooldown_until_def)
  qed (use assms(2) in simp)
  show ?thesis using assms(4)
  proof (cases rule: enter_positionE)
    case (skipped why)
    then show ?thesis by (simp add: store_simps cash_def)
  next
    case (entered target p)
    from entry_refusal_None(2) [OF entered(6) cd] assms(7) show ?thesis by simp
  qed simp
qed

section \<open>A concrete run: enter, hold, settle\<close>

definition lane_sessions :: "date list" where
  "lane_sessions = map int [100..<160]"

definition demo_decision :: v2_decision where
  "demo_decision = \<lparr> d_signal_id = ''v2sig-E1'', d_episode_id = ''E1'', d_symbol = ''ACME'',
     d_direction = BULLISH, d_action = BUY, d_official_eligible = True, d_entry_session = 110 \<rparr>"

definition demo_ledger :: ledger where
  "demo_ledger = fresh_ledger 100000 ''V2'' ''PAPER'' (Some 10000) 1"

definition demo_position :: position where
  "demo_position = new_position 1 2 ''E1'' ''ACME'' ''C1'' 110 120 3000 3 9000 0 None"

definition demo_held :: ledger where
  "demo_held = demo_ledger\<lparr> portfolio_cash := 91000, position_seq := 1, positions := [demo_position],
     episodes := [\<lparr> er_episode = ''E1'', er_symbol = ''ACME'', er_issuer = ''C1'', er_activation = None,
        er_entry_session = Some 110, er_disposition = ENTERED, er_first_seen = 2, er_updated = 2 \<rparr>],
     trades := [\<lparr> trade_id = 1, t_episode = ''E1'', t_symbol = ''ACME'', t_action = BUY_TRADE, t_price = 3000,
        t_shares = 3, t_cost = 9000, t_entry_price = None, t_pnl_usd = None, t_pnl_pct = None,
        t_days_held = None, t_cash_after = 91000, t_executed_at = 2, t_fee = 0, t_provenance = None \<rparr>] \<rparr>"

definition demo_outcome :: entry_outcome where
  "demo_outcome = \<lparr> eo_entered = True, eo_reason = ENTERED_OK, eo_position_id = Some 1, eo_shares = Some 3,
     eo_target_exit = Some 120 \<rparr>"

lemma demo_entry:
  "enter_position lane_sessions default_config zero_fee 2 demo_decision (Some (Finite 3000)) 110 ''C1'' None
     demo_ledger = Inr (demo_outcome, demo_held)"
  by code_simp

definition demo_settled :: ledger where
  "demo_settled = settled_ledger lane_sessions default_config zero_fee 3 demo_position 3500 120 None [] 10 125 demo_held"

definition demo_exit :: exit_outcome where
  "demo_exit = \<lparr> xo_symbol = ''ACME'', xo_episode = ''E1'', xo_session = 120, xo_price = 3500, xo_pnl_usd = 1500,
     xo_pnl_pct = fl (1666666666666666666666666667 / 10 ^ 26), xo_days_held = 10, xo_settled = True,
     xo_blocked = None, xo_shares = Some 3 \<rparr>"

lemma demo_exit:
  "close_position lane_sessions default_config zero_fee 3 demo_position 3500 120 None [] demo_held
     = Inr (demo_exit, demo_settled)"
  by code_simp

lemma demo_facts: "eo_entered demo_outcome" "xo_settled demo_exit" "is_float (cash demo_ledger)"
  "position_id demo_position = 1" "distinct (map position_id (positions demo_held))"
  "reentry_cooldown_trading_days default_config = 5"
  by code_simp+


theorem entry_writes_agree_witness:
  "\<exists>row t. positions demo_held = [row] \<and> trades demo_held = [t] \<and> t_cost t = position_cost row"
  using entry_writes_agree [OF demo_entry demo_facts(1,3)] by (auto simp: demo_ledger_def fresh_ledger_def Let_def)

theorem refused_entry_costs_nothing_witness:
  "\<exists>out l'. enter_position lane_sessions default_config zero_fee 9 demo_decision (Some (Finite 3000)) 110 ''C1''
     None demo_held = Inr (out, l') \<and> cash l' = cash demo_held"
proof -
  have r: "enter_position lane_sessions default_config zero_fee 9 demo_decision (Some (Finite 3000)) 110 ''C1'' None
      demo_held = Inr (not_entered EPISODE_ALREADY_HAS_POSITION, demo_held)" by code_simp
  from refused_entry_costs_nothing [OF r not_entered_simps(1)] r show ?thesis by blast
qed

theorem episode_enters_once_witness:
  "\<exists>out l'. enter_position lane_sessions default_config zero_fee 9 demo_decision (Some (Finite 3000)) 110 ''C1''
     None demo_held = Inr (out, l') \<and> \<not> eo_entered out"
proof -
  have r: "enter_position lane_sessions default_config zero_fee 9 demo_decision (Some (Finite 3000)) 110 ''C1'' None
      demo_held = Inr (not_entered EPISODE_ALREADY_HAS_POSITION, demo_held)" by code_simp
  from episode_enters_once [OF demo_entry demo_facts(1) r refl] r show ?thesis by blast
qed

theorem settlement_happens_once_witness:
  "committed demo_settled (close_position lane_sessions default_config zero_fee 9 demo_position 4000 121 None []
     demo_settled) = demo_settled"
  using settlement_happens_once [OF demo_exit demo_facts(2) refl] by blast

theorem settlement_pays_effective_shares_witness:
  "map_option p_status (position_by_id demo_settled 1) = Some CLOSED \<and> cooldown_until demo_settled ''ACME'' = Some 125"
proof -
  have "p_symbol row = ''ACME''" if "row \<in> set (positions demo_held)" for row
    using that by (simp add: demo_held_def demo_position_def new_position_def upper_def upper_char_def)
  moreover have "add_sessions lane_sessions 120 5 = Inr 125" by code_simp
  ultimately show ?thesis
    using settlement_pays_effective_shares [OF demo_exit demo_facts(2,5,6)] demo_facts(4) by fastforce
qed

theorem blocked_position_is_not_settled_witness:
  "\<exists>out. close_position lane_sessions default_config zero_fee 3 demo_position 3500 120 None []
      (record_blocked_action 3 1 (CONFLICT_NOT_REPORTED ''ACME'') CA_CONFLICTING_EVIDENCE demo_held) =
      Inr (out, record_blocked_action 3 1 (CONFLICT_NOT_REPORTED ''ACME'') CA_CONFLICTING_EVIDENCE demo_held)
    \<and> \<not> xo_settled out"
proof -
  let ?l = "record_blocked_action 3 1 (CONFLICT_NOT_REPORTED ''ACME'') CA_CONFLICTING_EVIDENCE demo_held"
  have "position_by_id ?l (position_id demo_position) \<noteq> None" "blocked_action_rows ?l (position_id demo_position) \<noteq> []"
    by code_simp+
  from blocked_position_is_not_settled [OF this, of lane_sessions default_config zero_fee 3 3500 120 None "[]"]
  show ?thesis by blast
qed

theorem no_reentry_during_cooldown_witness:
  "\<exists>out l'. enter_position lane_sessions default_config zero_fee 9 (demo_decision\<lparr> d_episode_id := ''E2'' \<rparr>)
     (Some (Finite 3000)) 123 ''C1'' None demo_settled = Inr (out, l') \<and> \<not> eo_entered out"
proof -
  have c: "add_sessions lane_sessions 120 (reentry_cooldown_trading_days default_config) = Inr 125" by code_simp
  have e: "\<exists>row \<in> set (positions demo_held). position_id row = position_id demo_position \<and>
      upper (p_symbol row) = upper (d_symbol (demo_decision\<lparr> d_episode_id := ''E2'' \<rparr>))" by code_simp
  have "\<not> isl (enter_position lane_sessions default_config zero_fee 9 (demo_decision\<lparr> d_episode_id := ''E2'' \<rparr>)
      (Some (Finite 3000)) 123 ''C1'' None demo_settled)" by code_simp
  then obtain out l' where r: "enter_position lane_sessions default_config zero_fee 9
      (demo_decision\<lparr> d_episode_id := ''E2'' \<rparr>) (Some (Finite 3000)) 123 ''C1'' None demo_settled = Inr (out, l')"
    by (metis surj_pair sum.collapse(2))
  from no_reentry_during_cooldown [OF demo_exit demo_facts(2) c r e demo_facts(5)] r show ?thesis by auto
qed

end
