(* ===== verification/V2_Machine.thy ===== *)
theory V2_Machine
  imports V2_Paper
begin

text \<open>
  The ledger as a state machine: one step per committed transaction of the lane, the invariant every
  reachable ledger satisfies, and the history no step rewrites.  The pipeline, the guard, the
  dividend pass, the cutover and the service are shown elsewhere to be sequences of these steps, so
  that the invariant and the history hold for whole runs of the lane.
\<close>

section \<open>Transition systems\<close>

locale transition_system =
  fixes step :: "'s \<Rightarrow> 's \<Rightarrow> bool"
    and inv :: "'s \<Rightarrow> bool"
  assumes inv_step: "step s t \<Longrightarrow> inv s \<Longrightarrow> inv t"
begin

lemma inv_steps: "step\<^sup>*\<^sup>* s t \<Longrightarrow> inv s \<Longrightarrow> inv t"
  by (induction rule: rtranclp_induct) (auto intro: inv_step)

end

text \<open>A history is a preorder that every step from a good state respects.\<close>

locale recorded_history = transition_system step inv for step :: "'s \<Rightarrow> 's \<Rightarrow> bool" and inv +
  fixes extends :: "'s \<Rightarrow> 's \<Rightarrow> bool"
  assumes extends_refl: "extends s s"
    and extends_trans: "extends s t \<Longrightarrow> extends t u \<Longrightarrow> extends s u"
    and extends_step: "step s t \<Longrightarrow> inv s \<Longrightarrow> extends s t"
begin

lemma extends_steps: "step\<^sup>*\<^sup>* s t \<Longrightarrow> inv s \<Longrightarrow> extends s t"
proof (induction rule: rtranclp_induct)
  case base
  show ?case by (rule extends_refl)
next
  case (step t u)
  then show ?case using inv_steps extends_step extends_trans by metis
qed

end

section \<open>The steps\<close>

inductive ledger_step :: "(string \<Rightarrow> string) \<Rightarrow> date list \<Rightarrow> ledger \<Rightarrow> ledger \<Rightarrow> bool" for sha sess where
  enter: "enter_position sess cfg zero_fee now d price es issuer prov l = Inr (out, l') \<Longrightarrow> ledger_step sha sess l l'"
| settle: "close_position sess cfg zero_fee now pos price es prov divs l = Inr (out, l') \<Longrightarrow> is_float price \<Longrightarrow> 0 \<le> price
    \<Longrightarrow> \<forall>e \<in> set divs. event_ok e \<Longrightarrow> ledger_step sha sess l l'"
| unresolved: "mark_exit_unresolved sha now pid detail l = Inr l' \<Longrightarrow> ledger_step sha sess l l'"
| act: "position_by_id l pid = Some p \<Longrightarrow> p_status p = OPEN \<Longrightarrow> event_ok e \<Longrightarrow> \<not> (\<exists>c. status = BLOCKED c) \<Longrightarrow>
    status = APPLIED \<longrightarrow> (\<exists>ex. ev_ex_date e = Some ex \<and> entry_session p < ex) \<Longrightarrow>
    ledger_step sha sess l (snd (apply_position_action now pid e status eb xb l))"
| block_action: "ledger_step sha sess l (record_blocked_action now pid key code l)"
| unblock_action: "ledger_step sha sess l (clear_blocked_action_rows pid l)"
| accrue: "position_by_id l pid = Some p \<Longrightarrow> p_exit_session p = Some ex \<Longrightarrow> event_ok e \<Longrightarrow>
    ledger_step sha sess l (snd (record_dividend_entitlement now pid e ex l))"
| credit: "ledger_step sha sess l (snd (credit_dividend now eid as_of l))"
| dispose: "ledger_step sha sess l (record_disposition now eid sy disp issuer activation entry l)"
| intend: "upsert_entry_intent sha now ep liq horizon planned src rec l = Inr (i, l') \<Longrightarrow> ledger_step sha sess l l'"
| resolve: "ledger_step sha sess l (mark_entry_intent now iid status ipid price session l)"
| enqueue: "ledger_step sha sess l (snd (enqueue_alert now evid eid kind action sy dedup payload hz iid ipid by' l))"
| deliver: "ledger_step sha sess l (update_outbox now evid state attempts nxt err ref sent l)"
| block: "record_account_block sha now reason ref detail l = Inr (bid, l') \<Longrightarrow> ledger_step sha sess l l'"
| clear: "attempt_block_clearance sha now bid op reason ev allow detail l = Inr (row, l') \<Longrightarrow> ledger_step sha sess l l'"
| cutover: "ledger_step sha sess l (record_cutover now cid as_of cs rs xs l)"
| backfill: "set_legacy_starting_cash amount evidence l = Inr l' \<Longrightarrow> ledger_step sha sess l l'"

abbreviation ledger_steps :: "(string \<Rightarrow> string) \<Rightarrow> date list \<Rightarrow> ledger \<Rightarrow> ledger \<Rightarrow> bool" where
  "ledger_steps sha sess \<equiv> (ledger_step sha sess)\<^sup>*\<^sup>*"

section \<open>The invariant, table by table\<close>

definition positions_ok :: "position list \<Rightarrow> nat \<Rightarrow> bool" where
  "positions_ok ps n \<longleftrightarrow>
     distinct (map position_id ps) \<and> (\<forall>p \<in> set ps. position_id p \<le> n) \<and> distinct (map p_episode ps)
   \<and> distinct (map p_symbol (filter occupying ps)) \<and> length (filter occupying ps) \<le> 20
   \<and> (\<forall>p \<in> set ps. upper (p_symbol p) = p_symbol p \<and> is_float (p_shares p) \<and> 0 \<le> p_shares p)"

text \<open>The trade log agrees with the position table: one BUY per position in order, one SELL per closed one.\<close>

definition episodes_of :: "trade_action \<Rightarrow> trade list \<Rightarrow> string list" where
  "episodes_of a ts = map t_episode (filter (\<lambda>t. t_action t = a) ts)"

definition book_ok :: "position list \<Rightarrow> trade list \<Rightarrow> bool" where
  "book_ok ps ts \<longleftrightarrow> episodes_of BUY_TRADE ts = map p_episode ps \<and> distinct (episodes_of SELL_TRADE ts)
   \<and> set (episodes_of SELL_TRADE ts) = p_episode ` {p \<in> set ps. p_status p = CLOSED}"

definition trail_ok :: "trail_row list \<Rightarrow> nat \<Rightarrow> bool" where
  "trail_ok rs n \<longleftrightarrow> distinct (map (\<lambda>r. (tr_position r, tr_key r)) rs) \<and> distinct (map tr_id rs)
   \<and> (\<forall>r \<in> set rs. tr_id r \<le> n \<and> 0 < row_ratio r)"

definition entitlement_ok :: "position list \<Rightarrow> entitlement \<Rightarrow> bool" where
  "entitlement_ok ps e \<longleftrightarrow> 0 \<le> en_usd e
   \<and> (\<exists>p \<in> set ps. position_id p = en_position e \<and> p_episode p = en_episode e \<and> entry_session p < en_ex_date e)
   \<and> (en_state e = CREDITED \<longrightarrow> (\<exists>pay as_of. en_payable e = Some pay \<and> en_credited_as_of e = Some as_of \<and> pay \<le> as_of))"

definition entitlements_ok :: "entitlement list \<Rightarrow> nat \<Rightarrow> position list \<Rightarrow> bool" where
  "entitlements_ok es n ps \<longleftrightarrow> distinct (map (\<lambda>e. (en_position e, en_key e)) es) \<and> distinct (map entitlement_id es)
   \<and> (\<forall>e \<in> set es. entitlement_id e \<le> n \<and> entitlement_ok ps e)"

definition intents_ok :: "intent list \<Rightarrow> bool" where
  "intents_ok is \<longleftrightarrow> distinct (map intent_id is) \<and> distinct (map i_episode is)"

text \<open>An unresolved exit always has a durable account block on record.\<close>

definition unresolved_ok :: "(string \<Rightarrow> string) \<Rightarrow> string \<Rightarrow> position list \<Rightarrow> block_tables \<Rightarrow> bool" where
  "unresolved_ok sha acc ps t \<longleftrightarrow> (\<forall>p \<in> set ps. p_status p = EXIT_UNRESOLVED \<longrightarrow>
     mk_block_id sha acc REASON_EXIT_UNRESOLVED (str_int (int (position_id p))) \<in> block_id ` set (account_blocks t))"

text \<open>A cleared block has an audit row that cleared it.\<close>

definition audited :: "block_tables \<Rightarrow> bool" where
  "audited t \<longleftrightarrow> (\<forall>b \<in> set (account_blocks t). bl_status b = CLEARED \<longrightarrow>
     (\<exists>c \<in> set (block_clearances t). cl_block_id c = block_id b \<and> cl_outcome c = OUTCOME_CLEARED))"

lemma audited_record:
  assumes "record_block sha now account reason ref detail t = Inr (bid, t')" "audited t"
  shows "audited t'"
proof -
  have "\<exists>c \<in> set (block_clearances t). cl_block_id c = block_id b \<and> cl_outcome c = OUTCOME_CLEARED"
    if "b \<in> set (account_blocks t')" "bl_status b = CLEARED" for b
    using that assms(2) unfolding record_block_InrD(3) [OF assms(1)]
    by (auto simp: audited_def dest!: upsert_row_mem split: if_splits)
  then show ?thesis using record_block_InrD(3) [OF assms(1)] by (simp add: audited_def)
qed

lemma audited_clear:
  assumes "attempt_clearance sha now bid op reason ev allow detail t = Inr (row, t')" "audited t"
  shows "audited t'"
  unfolding audited_def
proof (intro ballI impI)
  fix b assume b: "b \<in> set (account_blocks t')" "bl_status b = CLEARED"
  note eff = attempt_clearance_InrD(5-7,9) [OF assms(1)]
  show "\<exists>c \<in> set (block_clearances t'). cl_block_id c = block_id b \<and> cl_outcome c = OUTCOME_CLEARED"
  proof (cases "allow \<and> block_id b = bid")
    case True
    with eff show ?thesis by (intro bexI [of _ row]) simp_all
  next
    case False
    then have "b \<in> set (account_blocks t)" using b(1) eff(4) by (auto simp: in_update_rows split: if_splits)
    with assms(2) b(2) obtain c where "c \<in> set (block_clearances t)" "cl_block_id c = block_id b"
      "cl_outcome c = OUTCOME_CLEARED" by (auto simp: audited_def)
    with eff(1) show ?thesis by (intro bexI [of _ c]) simp_all
  qed
qed

definition ledger_ok :: "(string \<Rightarrow> string) \<Rightarrow> ledger \<Rightarrow> bool" where
  "ledger_ok sha l \<longleftrightarrow> is_float (portfolio_cash l) \<and> 0 \<le> portfolio_cash l
   \<and> positions_ok (positions l) (position_seq l) \<and> book_ok (positions l) (trades l)
   \<and> trail_ok (trail l) (trail_seq l) \<and> entitlements_ok (entitlements l) (entitlement_seq l) (positions l)
   \<and> intents_ok (intents l) \<and> distinct (map event_id (outbox l))
   \<and> blocks_ok (block_table l) \<and> one_account (account_id l) (block_table l)
   \<and> unresolved_ok sha (account_id l) (positions l) (block_table l) \<and> audited (block_table l)"

section \<open>Positions under the two ways a row changes\<close>

lemma positions_ok_append:
  assumes "positions_ok ps n" "p_episode p \<notin> p_episode ` set ps" "position_id p = Suc n"
    and "\<not> (\<exists>q \<in> set ps. p_symbol q = p_symbol p \<and> occupying q)" "length (filter occupying ps) < 20"
    and "upper (p_symbol p) = p_symbol p" "is_float (p_shares p)" "0 \<le> p_shares p"
  shows "positions_ok (ps @ [p]) (Suc n)"
  using assms by (auto simp: positions_ok_def)

text \<open>A status change of a row that leaves its identity alone.\<close>

lemma positions_ok_update:
  assumes ok: "positions_ok ps n"
    and keeps: "\<And>p. position_id (f p) = position_id p" "\<And>p. p_episode (f p) = p_episode p"
      "\<And>p. p_symbol (f p) = p_symbol p" "\<And>p. p_shares (f p) = p_shares p"
    and occ: "\<And>p. P p \<Longrightarrow> occupying (f p) \<Longrightarrow> occupying p"
  shows "positions_ok (update_rows P f ps) n"
proof -
  have sub: "subseq (map p_symbol (filter occupying (update_rows P f ps))) (map p_symbol (filter occupying ps))"
    using occ by (induction ps) (auto simp: update_rows_def keeps)
  have "length (filter occupying (update_rows P f ps)) \<le> length (filter occupying ps)"
    using list_emb_length [OF sub] by simp
  moreover have "distinct (map p_symbol (filter occupying (update_rows P f ps)))"
    using sub ok by (auto simp: positions_ok_def subseq_conv_nths distinct_nthsI)
  moreover note ok
  ultimately show ?thesis
    by (auto simp: positions_ok_def in_update_rows map_update_rows keeps split: if_splits)
qed

lemma positions_ok_id:
  "positions_ok ps n \<Longrightarrow> p \<in> set ps \<Longrightarrow> q \<in> set ps \<Longrightarrow> position_id p = position_id q \<Longrightarrow> p = q"
  by (auto simp: positions_ok_def intro: distinct_key [of position_id])

lemma positions_ok_episode:
  "positions_ok ps n \<Longrightarrow> p \<in> set ps \<Longrightarrow> q \<in> set ps \<Longrightarrow> p_episode p = p_episode q \<Longrightarrow> p = q"
  by (auto simp: positions_ok_def intro: distinct_key [of p_episode])

lemma entitlements_ok_positions:
  assumes "entitlements_ok es n ps"
    and "\<And>p. p \<in> set ps \<Longrightarrow> \<exists>q \<in> set qs. position_id q = position_id p \<and> p_episode q = p_episode p
      \<and> entry_session q = entry_session p"
  shows "entitlements_ok es n qs"
proof -
  have "entitlement_ok qs e" if "entitlement_ok ps e" for e
    using that assms(2) unfolding entitlement_ok_def by metis
  with assms(1) show ?thesis by (auto simp: entitlements_ok_def)
qed

lemma entitlements_ok_update:
  assumes "entitlements_ok es n ps" "\<And>p. position_id (f p) = position_id p" "\<And>p. p_episode (f p) = p_episode p"
    "\<And>p. entry_session (f p) = entry_session p"
  shows "entitlements_ok es n (update_rows P f ps)"
  using assms(1)
proof (rule entitlements_ok_positions)
  fix p assume "p \<in> set ps"
  then show "\<exists>q \<in> set (update_rows P f ps). position_id q = position_id p \<and> p_episode q = p_episode p
      \<and> entry_session q = entry_session p"
    by (intro bexI [of _ "if P p then f p else p"]) (auto simp: in_update_rows assms(2-4))
qed

section \<open>Quantities stay non-negative\<close>

lemma repr_dec_float_nonneg: "is_float x \<Longrightarrow> 0 \<le> x \<Longrightarrow> 0 \<le> repr_dec x"
  by (rule repr_dec_nonneg)

lemma foldl_nonneg:
  assumes "0 \<le> (q :: rat)" "\<And>r q. r \<in> set rs \<Longrightarrow> 0 \<le> q \<Longrightarrow> 0 \<le> f q r"
  shows "0 \<le> foldl f q rs"
  using assms by (induction rs arbitrary: q) auto

lemma fraction_to_decimal_nonneg: "0 \<le> q \<Longrightarrow> 0 \<le> fraction_to_decimal q"
proof -
  assume "0 \<le> q"
  obtain a b where ab: "quotient_of q = (a, b)" by force
  from quotient_of_div [OF ab] have "q = of_int a / of_int b" .
  with \<open>0 \<le> q\<close> ab show ?thesis by (simp add: fraction_to_decimal_def d28.rnd_nonneg)
qed

lemma position_shares_nonneg:
  "positions_ok ps n \<Longrightarrow> 0 \<le> (case row_by position_id pid ps of Some p \<Rightarrow> repr_dec (p_shares p) | None \<Rightarrow> 0)"
  by (auto simp: positions_ok_def repr_dec_float_nonneg split: option.splits dest!: row_by_Some)

lemma effective_shares_nonneg:
  assumes "positions_ok (positions l) n" "trail_ok (trail l) m"
  shows "0 \<le> effective_shares_exact l pid"
  unfolding effective_shares_exact_def
proof (rule foldl_nonneg)
  show "0 \<le> (case position_by_id l pid of Some p \<Rightarrow> repr_dec (p_shares p) | None \<Rightarrow> 0)"
    using position_shares_nonneg [OF assms(1)] by (simp add: position_by_id_def)
qed (use assms(2) in \<open>auto simp: trail_ok_def position_action_trail_def less_imp_le\<close>)

lemma shares_at_date_nonneg:
  assumes "positions_ok (positions l) n" "trail_ok (trail l) m"
  shows "0 \<le> shares_at_date l pid d"
  unfolding shares_at_date_def
proof (rule foldl_nonneg)
  show "0 \<le> (case position_by_id l pid of Some p \<Rightarrow> repr_dec (p_shares p) | None \<Rightarrow> 0)"
    using position_shares_nonneg [OF assms(1)] by (simp add: position_by_id_def)
qed (use assms(2) in \<open>auto simp: trail_ok_def position_action_trail_def shares_step_def less_imp_le split: option.splits\<close>)

lemma cents_half_up_nonneg: "0 \<le> x \<Longrightarrow> 0 \<le> cents_half_up x"
  by (auto simp: cents_half_up_def intro!: divide_nonneg_pos)

section \<open>Every step keeps the invariant\<close>

text \<open>Rows of an accrual: the new receivable is well formed.\<close>

lemma accrue_ok:
  fixes now pid ex
  assumes "entitlements_ok (entitlements l) (entitlement_seq l) (positions l)"
    and pos: "positions_ok (positions l) n" and tr: "trail_ok (trail l) m" and ev: "event_ok e"
  defines "l' \<equiv> snd (record_dividend_entitlement now pid e ex l)"
  shows "entitlements_ok (entitlements l') (entitlement_seq l') (positions l')"
proof (cases rule: record_dividend_cases [of now pid e ex l])
  case (accrued p d rate)
  let ?r = "register_corporate_action e l"
  let ?row = "accrued_row now pid e p d rate ?r"
  have rate: "0 \<le> rate" using ev accrued(3) by (simp add: event_ok_def)
  have "0 \<le> shares_at_date ?r pid d"
    using shares_at_date_nonneg [of ?r] pos tr by (simp add: store_simps)
  with rate have usd: "0 \<le> en_usd ?row"
    by (simp add: accrued_row_def Let_def f64.rnd_nonneg cents_half_up_nonneg d28.rnd_nonneg fraction_to_decimal_nonneg)
  have "p \<in> set (positions l)" "position_id p = pid"
    using accrued(1) by (auto simp: position_by_id_def dest: row_by_Some)
  with usd accrued(4) have "entitlement_ok (positions l) ?row"
    unfolding entitlement_ok_def by (auto simp: accrued_row_def Let_def)
  moreover have "(en_position ?row, en_key ?row) = (pid, ev_key e)" "entitlement_id ?row = Suc (entitlement_seq l)"
    by (simp_all add: accrued_row_def Let_def store_simps)
  ultimately show ?thesis
    using assms(1) accrued(6) by (auto simp: l'_def accrued(7) entitlements_ok_def store_simps)
qed (use assms(1) in \<open>simp_all add: l'_def store_simps register_corporate_action_def Let_def\<close>)

lemma accrues_ok:
  fixes now pid ex
  assumes "entitlements_ok (entitlements l) (entitlement_seq l) (positions l)"
    and "positions_ok (positions l) n" "trail_ok (trail l) m" "\<forall>e \<in> set es. event_ok e"
  defines "l' \<equiv> fold (\<lambda>e s. snd (record_dividend_entitlement now pid e ex s)) es l"
  shows "entitlements_ok (entitlements l') (entitlement_seq l') (positions l')"
  unfolding l'_def using assms(1-4)
proof (induction es arbitrary: l)
  case (Cons e es)
  let ?l = "snd (record_dividend_entitlement now pid e ex l)"
  have "entitlements_ok (entitlements ?l) (entitlement_seq ?l) (positions ?l)"
    using accrue_ok Cons.prems by simp
  with Cons.IH [of ?l] Cons.prems show ?case by (simp add: store_simps)
qed simp

lemma enter_ok [store_inv]:
  assumes "enter_position sess cfg zero_fee now d price es issuer prov l = Inr (out, l')" "ledger_ok sha l"
  shows "ledger_ok sha l'"
  using assms(1)
proof (cases rule: enter_positionE)
  case (skipped why)
  with assms(2) show ?thesis by (simp add: ledger_ok_def store_simps account_id_def)
next
  case (entered target p)
  let ?sz = "entry_sizing cfg zero_fee price l (d_episode_id d)"
  let ?row = "new_position (Suc (position_seq l)) now (d_episode_id d) (upper (d_symbol d)) issuer es target p
      (fl (of_nat (sz_shares ?sz))) (sz_entry_total ?sz) (sz_entry_fee ?sz) prov"
  note ref = entry_refusal_None [OF entered(6)] and tab = commit_entry_tables [OF entered(10)]
  have cash: "is_float (cash l)" using assms(2) by (simp add: ledger_ok_def cash_def)
  have "sz_entry_total ?sz \<le> cash l" by (rule entry_sizing_affordable(3) [OF ref(5) cash])
  then have "0 \<le> portfolio_cash l'" by (simp add: tab f64.rnd_nonneg)
  moreover have "positions_ok (positions l') (position_seq l')" unfolding tab(2,3)
  proof (rule positions_ok_append)
    show "positions_ok (positions l) (position_seq l)" using assms(2) by (simp add: ledger_ok_def)
    show "p_episode ?row \<notin> p_episode ` set (positions l)"
      using commit_entry_Inr(1) [OF entered(10)] by (simp add: new_position_def)
    show "\<not> (\<exists>q \<in> set (positions l). p_symbol q = p_symbol ?row \<and> occupying q)"
      using ref(1) by (auto simp: position_for_symbol_def find_None_iff new_position_def)
    show "length (filter occupying (positions l)) < 20"
      using ref(3) validate_frozen_InrD(5) [OF entered(1)] by (simp add: n_open_def)
  qed (simp_all add: new_position_def f64.rnd_nonneg)
  moreover have "entitlements_ok (entitlements l') (entitlement_seq l') (positions l')"
    unfolding tab
    by (rule entitlements_ok_positions [where ps = "positions l"]) (use assms(2) in \<open>auto simp: ledger_ok_def\<close>)
  moreover have "book_ok (positions l') (trades l')"
    using assms(2) tab(3-5) by (auto simp: ledger_ok_def book_ok_def episodes_of_def new_position_def)
  moreover have "unresolved_ok sha (account_id l') (positions l') (block_table l')"
    using assms(2) by (auto simp: ledger_ok_def unresolved_ok_def account_id_def tab new_position_def)
  ultimately show ?thesis using assms(2) by (simp add: ledger_ok_def tab account_id_def)
qed (use assms(2) in simp)

lemma settle_ok [store_inv]:
  assumes "close_position sess cfg zero_fee now pos price es prov divs l = Inr (out, l')"
    and price: "is_float price" "0 \<le> price" and divs: "\<forall>e \<in> set divs. event_ok e" and ok: "ledger_ok sha l"
  shows "ledger_ok sha l'"
  using assms(1)
proof (cases rule: close_positionE)
  case (settled row held until)
  let ?pid = "position_id row" and ?q = "effective_shares_exact l (position_id row)"
  let ?econ = "compute_exit_economics (fraction_to_decimal ?q) price (position_cost row) zero_fee"
  let ?P = "\<lambda>p. position_id p = ?pid \<and> p_status p = OPEN"
  let ?f = "closed_row now es price (ee_realized_pnl_usd ?econ) (ee_realized_pnl_pct ?econ) held (ee_exit_fee ?econ) prov"
  note tab = settled_ledger_tables [of sess cfg zero_fee now row price es prov divs held until l, folded settled(10)]
  have pos: "positions_ok (positions l) (position_seq l)" and tr: "trail_ok (trail l) (trail_seq l)"
    and book: "book_ok (positions l) (trades l)"
    using ok by (simp_all add: ledger_ok_def)
  obtain p where "p \<in> set (positions l)" "position_id p = ?pid" "p_status p = OPEN"
    using settled(3,5) by auto
  then have open_row: "p_status row = OPEN" using positions_ok_id [OF pos _ settled(4)] by metis
  have "0 \<le> ee_exit_net ?econ"
    by (rule exit_net_nonneg) (use price fraction_to_decimal_nonneg [OF effective_shares_nonneg [OF pos tr]] in simp_all)
  then have cash: "is_float (portfolio_cash l')" "0 \<le> portfolio_cash l'"
    using ok by (simp_all add: tab(1) ledger_ok_def f64.rnd_nonneg)
  have pos': "positions_ok (positions l') (position_seq l')"
    unfolding tab(2,12) by (rule positions_ok_update [OF pos]) (auto simp: occupying_def)
  have "p_episode ` {p \<in> set (positions l'). p_status p = CLOSED}
      = insert (p_episode row) (p_episode ` {p \<in> set (positions l). p_status p = CLOSED})"
  proof -
    have "{p \<in> set (positions l). ?P p \<and> p_status (?f p) = CLOSED} = {row}"
      using settled(4) open_row positions_ok_id [OF pos] by auto
    then show ?thesis unfolding tab(2)
      by (subst update_rows_select [where key = p_episode]) (auto simp: open_row)
  qed
  moreover have "p_episode row \<notin> p_episode ` {p \<in> set (positions l). p_status p = CLOSED}"
    using positions_ok_episode [OF pos settled(4)] open_row by auto
  ultimately have book': "book_ok (positions l') (trades l')"
    using book tab(3,4) by (auto simp: book_ok_def episodes_of_def tab(2) map_update_rows)
  have ent: "entitlements_ok (entitlements l') (entitlement_seq l') (positions l')"
    unfolding settled(10) settled_ledger_def Let_def
  proof (rule accrues_ok)
    show "\<forall>e \<in> set divs. event_ok e" by (rule divs)
  qed (use pos pos' tr ok tab(2,12) in \<open>auto simp: store_simps ledger_ok_def cash_def intro!: entitlements_ok_update\<close>)
  have unres: "unresolved_ok sha (account_id l') (positions l') (block_table l')"
    using ok by (auto simp: ledger_ok_def unresolved_ok_def account_id_def tab in_update_rows)
  from cash pos' book' ent unres ok show ?thesis by (simp add: ledger_ok_def tab account_id_def)
qed (use ok in simp)

text \<open>Marking an exit unresolved: the two ways it returns.\<close>

definition unresolved_row :: "stamp \<Rightarrow> string \<Rightarrow> position \<Rightarrow> position" where
  "unresolved_row now detail p =
     p\<lparr> p_status := EXIT_UNRESOLVED, p_unresolved_detail := Some detail, p_closed_at := Some now \<rparr>"

lemma unresolved_row_simps [simp]:
  "position_id (unresolved_row now detail p) = position_id p" "p_episode (unresolved_row now detail p) = p_episode p"
  "p_symbol (unresolved_row now detail p) = p_symbol p" "p_shares (unresolved_row now detail p) = p_shares p"
  "entry_session (unresolved_row now detail p) = entry_session p"
  "p_status (unresolved_row now detail p) = EXIT_UNRESOLVED"
  by (simp_all add: unresolved_row_def)

lemma mark_exit_unresolvedE:
  assumes "mark_exit_unresolved sha now pid detail l = Inr l'"
  defines "ps \<equiv> update_rows (\<lambda>p. position_id p = pid \<and> p_status p = OPEN) (unresolved_row now detail) (positions l)"
  obtains (marked) p bid bt where "row_by position_id pid ps = Some p" "p_status p = EXIT_UNRESOLVED"
      "record_block sha now (account_id l) REASON_EXIT_UNRESOLVED (str_int (int pid)) detail (block_table l) = Inr (bid, bt)"
      "l' = l\<lparr> positions := ps, block_table := bt \<rparr>"
  | (other) p where "row_by position_id pid ps = Some p" "p_status p \<noteq> EXIT_UNRESOLVED" "l' = l\<lparr> positions := ps \<rparr>"
proof -
  have ps: "update_rows (\<lambda>p. position_id p = pid \<and> p_status p = OPEN)
      (\<lambda>p. p\<lparr> p_status := EXIT_UNRESOLVED, p_unresolved_detail := Some detail, p_closed_at := Some now \<rparr>) (positions l) = ps"
    by (simp add: ps_def unresolved_row_def [abs_def])
  note body = assms(1) [unfolded mark_exit_unresolved_def Let_def ps]
  show thesis
  proof (cases "row_by position_id pid ps")
    case None
    with body show ?thesis by simp
  next
    case (Some p)
    show ?thesis
    proof (cases "p_status p = EXIT_UNRESOLVED")
      case True
      from body Some True obtain bid bt where
        r: "record_block sha now (account_id l) REASON_EXIT_UNRESOLVED (str_int (int pid)) detail (block_table l) = Inr (bid, bt)"
        "l' = l\<lparr> positions := ps, block_table := bt \<rparr>" by (auto simp: bindR_Inr_iff)
      show ?thesis by (rule marked [OF Some True r])
    next
      case False
      with body Some have "l' = l\<lparr> positions := ps \<rparr>" by simp
      with Some False show ?thesis by (rule other)
    qed
  qed
qed

lemma unresolved_step_ok [store_inv]:
  assumes "mark_exit_unresolved sha now pid detail l = Inr l'" "ledger_ok sha l"
  shows "ledger_ok sha l'"
proof -
  let ?P = "\<lambda>p. position_id p = pid \<and> p_status p = OPEN" and ?f = "unresolved_row now detail"
  let ?ps = "update_rows ?P ?f (positions l)"
  have pos: "positions_ok (positions l) (position_seq l)" and book: "book_ok (positions l) (trades l)"
    using assms(2) by (simp_all add: ledger_ok_def)
  have pos': "positions_ok ?ps (position_seq l)"
    by (rule positions_ok_update [OF pos]) (auto simp: occupying_def)
  have ent: "entitlements_ok (entitlements l) (entitlement_seq l) ?ps"
    using assms(2) by (auto simp: ledger_ok_def intro!: entitlements_ok_update)
  have "p_episode ` {p \<in> set ?ps. p_status p = CLOSED} = p_episode ` {p \<in> set (positions l). p_status p = CLOSED}"
    by (subst update_rows_select [where key = p_episode]) auto
  then have book': "book_ok ?ps (trades l)"
    using book by (auto simp: book_ok_def map_update_rows)
  show ?thesis using assms(1)
  proof (cases rule: mark_exit_unresolvedE)
    case (marked p bid bt)
    note ids = record_block_ids [OF marked(3)] record_block_InrD(1) [OF marked(3)]
    have "unresolved_ok sha (account_id l) ?ps bt"
      using assms(2) ids by (auto simp: ledger_ok_def unresolved_ok_def in_update_rows split: if_splits)
    moreover have "blocks_ok bt" "one_account (account_id l) bt" "audited bt"
      using record_block_ok [OF marked(3)] record_block_one_account [OF marked(3)] audited_record [OF marked(3)] assms(2)
      by (simp_all add: ledger_ok_def)
    ultimately show ?thesis using assms(2) pos' ent book' marked(4) by (simp add: ledger_ok_def account_id_def)
  next
    case (other p)
    have "?ps = positions l"
    proof (rule update_rows_id)
      fix r assume r: "r \<in> set (positions l)"
      show "\<not> ?P r"
      proof
        assume P: "?P r"
        then have "?f r \<in> set ?ps" using r by (auto simp: update_rows_def intro!: image_eqI [of _ _ r])
        moreover have "p \<in> set ?ps" "position_id p = pid" using row_by_Some [OF other(1)] by simp_all
        ultimately have "p = ?f r" using P by (intro positions_ok_id [OF pos']) auto
        with other(2) show False by simp
      qed
    qed
    with other(3) assms(2) show ?thesis by simp
  qed
qed

section \<open>Steps on the other tables\<close>

lemma insert_trail_row_cases:
  obtains (known) "insert_trail_row mk l = (False, l)"
  | (inserted) "insert_trail_row mk l = (True, l\<lparr> trail_seq := Suc (trail_seq l), trail := trail l @ [mk (Suc (trail_seq l))] \<rparr>)"
      "(tr_position (mk (Suc (trail_seq l))), tr_key (mk (Suc (trail_seq l)))) \<notin> (\<lambda>x. (tr_position x, tr_key x)) ` set (trail l)"
proof (cases "(tr_position (mk (Suc (trail_seq l))), tr_key (mk (Suc (trail_seq l)))) \<in> (\<lambda>x. (tr_position x, tr_key x)) ` set (trail l)")
  case True
  then show ?thesis by (intro known) (simp add: insert_trail_row_def Let_def)
next
  case False
  then show ?thesis by (intro inserted) (simp_all add: insert_trail_row_def Let_def)
qed

lemma insert_trail_row_ok:
  assumes "ledger_ok sha l" "tr_id (mk (Suc (trail_seq l))) = Suc (trail_seq l)" "0 < row_ratio (mk (Suc (trail_seq l)))"
  shows "ledger_ok sha (snd (insert_trail_row mk l))"
proof (cases rule: insert_trail_row_cases [of mk l])
  case inserted
  with assms show ?thesis by (auto simp: ledger_ok_def trail_ok_def account_id_def)
qed (use assms in simp)

lemma register_ok: "ledger_ok sha l \<Longrightarrow> ledger_ok sha (register_corporate_action e l)"
  by (simp add: ledger_ok_def store_simps account_id_def)

lemma act_ok [store_inv]:
  assumes "event_ok e" "ledger_ok sha l"
  shows "ledger_ok sha (snd (apply_position_action now pid e status eb xb l))"
proof -
  have "0 < (case ev_ratio e of Some r \<Rightarrow> r | None \<Rightarrow> 1)" using assms(1) by (simp add: event_ok_def split: option.splits)
  then show ?thesis
    using register_ok [OF assms(2)]
    by (auto simp: apply_position_action_def Let_def row_ratio_def split: option.splits intro!: insert_trail_row_ok)
qed

lemma block_action_ok [store_inv]: "ledger_ok sha l \<Longrightarrow> ledger_ok sha (record_blocked_action now pid key code l)"
  by (auto simp: record_blocked_action_def row_ratio_def intro!: insert_trail_row_ok)

lemma unblock_action_ok [store_inv]: "ledger_ok sha l \<Longrightarrow> ledger_ok sha (clear_blocked_action_rows pid l)"
  by (auto simp: ledger_ok_def clear_blocked_action_rows_def trail_ok_def account_id_def distinct_map_filter)

lemma accrue_step_ok [store_inv]:
  assumes "event_ok e" "ledger_ok sha l"
  shows "ledger_ok sha (snd (record_dividend_entitlement now pid e ex l))"
proof -
  have "entitlements_ok (entitlements (snd (record_dividend_entitlement now pid e ex l)))
      (entitlement_seq (snd (record_dividend_entitlement now pid e ex l)))
      (positions (snd (record_dividend_entitlement now pid e ex l)))"
    using assms by (intro accrue_ok) (auto simp: ledger_ok_def)
  then show ?thesis using assms(2) by (simp add: ledger_ok_def store_simps account_id_def)
qed

text \<open>A credit: the receivable it pays, or nothing.\<close>

definition credited_row :: "stamp \<Rightarrow> date \<Rightarrow> money \<Rightarrow> entitlement \<Rightarrow> entitlement" where
  "credited_row now as_of after x = x\<lparr> en_state := CREDITED, en_credited_at := Some now,
     en_credited_as_of := Some as_of, en_cash_after := Some after \<rparr>"

lemma credited_row_simps [simp]:
  "entitlement_id (credited_row now as_of after x) = entitlement_id x" "en_key (credited_row now as_of after x) = en_key x"
  "en_position (credited_row now as_of after x) = en_position x" "en_usd (credited_row now as_of after x) = en_usd x"
  "en_episode (credited_row now as_of after x) = en_episode x" "en_ex_date (credited_row now as_of after x) = en_ex_date x"
  "en_payable (credited_row now as_of after x) = en_payable x" "en_state (credited_row now as_of after x) = CREDITED"
  "en_credited_as_of (credited_row now as_of after x) = Some as_of"
  by (simp_all add: credited_row_def)

lemma credit_dividend_cases:
  obtains (refused) "credit_dividend now eid as_of l = (False, l)"
  | (credited) e pay where "e \<in> set (entitlements l)" "entitlement_id e = eid" "en_state e = ACCRUED"
      "en_payable e = Some pay" "pay \<le> as_of"
      "credit_dividend now eid as_of l = (True, set_cash (fl (cash l + en_usd e)) (l\<lparr> entitlements :=
         update_rows (\<lambda>x. entitlement_id x = eid \<and> en_state x = ACCRUED)
           (credited_row now as_of (fl (cash l + en_usd e))) (entitlements l) \<rparr>))"
proof (cases "find (\<lambda>e. entitlement_id e = eid \<and> en_state e = ACCRUED) (entitlements l)")
  case None
  then show ?thesis by (intro refused) (simp add: credit_dividend_def)
next
  case (Some e)
  then have e: "e \<in> set (entitlements l)" "entitlement_id e = eid" "en_state e = ACCRUED"
    by (auto simp: find_Some_iff)
  show ?thesis
  proof (cases "en_payable e")
    case None
    with Some show ?thesis by (intro refused) (simp add: credit_dividend_def)
  next
    case pay: (Some pay)
    show ?thesis
    proof (cases "as_of < pay")
      case True
      with Some pay show ?thesis by (intro refused) (simp add: credit_dividend_def)
    next
      case False
      with Some pay e show ?thesis
        by (intro credited) (simp_all add: credit_dividend_def Let_def credited_row_def [abs_def] not_less)
    qed
  qed
qed

lemma credit_ok [store_inv]:
  assumes "ledger_ok sha l"
  shows "ledger_ok sha (snd (credit_dividend now eid as_of l))"
proof (cases rule: credit_dividend_cases [of now eid as_of l])
  case (credited e pay)
  let ?P = "\<lambda>x. entitlement_id x = eid \<and> en_state x = ACCRUED"
  let ?f = "credited_row now as_of (fl (cash l + en_usd e))"
  have ents: "entitlements_ok (entitlements l) (entitlement_seq l) (positions l)" using assms by (simp add: ledger_ok_def)
  have same: "x = e" if "x \<in> set (entitlements l)" "?P x" for x
    using ents that credited(1,2) by (auto simp: entitlements_ok_def intro: distinct_key [of entitlement_id])
  have good: "entitlement_ok (positions l) (?f e)"
    using ents credited(1,4,5) by (auto simp: entitlements_ok_def entitlement_ok_def)
  have "entitlements_ok (update_rows ?P ?f (entitlements l)) (entitlement_seq l) (positions l)"
    using ents good same by (auto simp: entitlements_ok_def map_update_rows in_update_rows split: if_splits)
  moreover have "0 \<le> portfolio_cash l + en_usd e" using assms credited(1)
    by (auto simp: ledger_ok_def entitlements_ok_def entitlement_ok_def)
  ultimately show ?thesis
    using assms by (simp add: credited(6) ledger_ok_def store_simps account_id_def cash_def f64.rnd_nonneg)
qed (use assms in simp)

lemma dispose_ok [store_inv]:
  "ledger_ok sha l \<Longrightarrow> ledger_ok sha (record_disposition now eid sy disp issuer activation entry l)"
  by (simp add: ledger_ok_def store_simps account_id_def)

lemma upsert_entry_intent_cases:
  assumes "upsert_entry_intent sha now ep liq horizon planned src rec l = Inr (i, l')"
  obtains (existing) "entry_intent l (episode_id ep) = Some i" "l' = l"
  | (created) "entry_intent l (episode_id ep) = None" "i_episode i = episode_id ep" "i_status i = PENDING"
      "intent_id i \<notin> intent_id ` set (intents l)" "target_entry_session i = eligible_entry_session ep"
      "i_created_at i = now" "i_source_ts i = src" "i_symbol i = upper (ep_symbol ep)"
      "l' = l\<lparr> intents := intents l @ [i] \<rparr>"
proof (cases "entry_intent l (episode_id ep)")
  case None
  show ?thesis
    by (rule created [OF None]) (use assms None in \<open>auto simp: upsert_entry_intent_def Let_def split: if_splits\<close>)
next
  case (Some j)
  with assms show ?thesis by (intro existing) (auto simp: upsert_entry_intent_def)
qed

lemma intend_ok [store_inv]:
  assumes "upsert_entry_intent sha now ep liq horizon planned src rec l = Inr (i, l')" "ledger_ok sha' l"
  shows "ledger_ok sha' l'"
  using assms(1)
proof (cases rule: upsert_entry_intent_cases)
  case created
  then have "i_episode i \<notin> i_episode ` set (intents l)" by (simp add: entry_intent_def row_by_None)
  with created assms(2) show ?thesis by (simp add: ledger_ok_def intents_ok_def account_id_def)
qed (use assms(2) in simp)

lemma resolve_ok [store_inv]: "ledger_ok sha l \<Longrightarrow> ledger_ok sha (mark_entry_intent now iid status pid price session l)"
  by (simp add: ledger_ok_def store_simps account_id_def intents_ok_def)

lemma enqueue_ok [store_inv]:
  "ledger_ok sha l \<Longrightarrow> ledger_ok sha (snd (enqueue_alert now evid eid kind action sy dedup payload hz iid pid db l))"
  by (auto simp: ledger_ok_def enqueue_alert_def account_id_def)

lemma deliver_ok [store_inv]: "ledger_ok sha l \<Longrightarrow> ledger_ok sha (update_outbox now evid state attempts nxt err ref sent l)"
  by (simp add: ledger_ok_def update_outbox_def account_id_def map_update_rows)

lemma block_ok [store_inv]:
  assumes "record_account_block sha now reason ref detail l = Inr (bid, l')" "ledger_ok sha' l"
  shows "ledger_ok sha' l'"
proof -
  obtain bt where r: "record_block sha now (account_id l) reason ref detail (block_table l) = Inr (bid, bt)"
    and l': "l' = l\<lparr> block_table := bt \<rparr>" using assms(1) by (auto simp: record_account_block_def bindR_Inr_iff)
  have "blocks_ok bt" "one_account (account_id l) bt" "audited bt"
    "block_id ` set (account_blocks (block_table l)) \<subseteq> block_id ` set (account_blocks bt)"
    using record_block_ok [OF r] record_block_one_account [OF r] record_block_ids [OF r] audited_record [OF r] assms(2)
    by (auto simp: ledger_ok_def)
  with assms(2) show ?thesis unfolding l' by (auto simp: ledger_ok_def unresolved_ok_def account_id_def)
qed

lemma clear_ok [store_inv]:
  assumes "attempt_block_clearance sha now bid op reason ev allow detail l = Inr (row, l')" "ledger_ok sha' l"
  shows "ledger_ok sha' l'"
proof -
  obtain bt where r: "attempt_clearance sha now bid op reason ev allow detail (block_table l) = Inr (row, bt)"
    and l': "l' = l\<lparr> block_table := bt \<rparr>" using assms(1) by (auto simp: attempt_block_clearance_def bindR_Inr_iff)
  have "map block_id (account_blocks bt) = map block_id (account_blocks (block_table l))"
    unfolding attempt_clearance_InrD(9) [OF r] by (simp add: map_update_rows)
  then have "block_id ` set (account_blocks bt) = block_id ` set (account_blocks (block_table l))"
    by (metis list.set_map)
  moreover have "blocks_ok bt" "one_account (account_id l) bt" "audited bt"
    using attempt_clearance_ok [OF r] attempt_clearance_one_account [OF r] audited_clear [OF r] assms(2)
    by (auto simp: ledger_ok_def)
  ultimately show ?thesis using assms(2) unfolding l' by (simp add: ledger_ok_def unresolved_ok_def account_id_def)
qed

lemma cutover_ok [store_inv]: "ledger_ok sha l \<Longrightarrow> ledger_ok sha (record_cutover now cid as_of cs rs xs l)"
  by (simp add: ledger_ok_def record_cutover_def account_id_def)

lemma backfill_ok [store_inv]:
  "set_legacy_starting_cash amount evidence l = Inr l' \<Longrightarrow> ledger_ok sha l \<Longrightarrow> ledger_ok sha l'"
  by (auto simp: ledger_ok_def set_legacy_starting_cash_def account_id_def split: if_splits)

lemma ledger_step_ok: "ledger_step sha sess l l' \<Longrightarrow> ledger_ok sha l \<Longrightarrow> ledger_ok sha l'"
  by (induction rule: ledger_step.induct) (blast intro: store_inv)+

section \<open>What no step rewrites\<close>

text \<open>
  The trade log, the clearance log and the cutover log only grow; a closed position, a resolved
  intent and a credited receivable stay as they are; a position keeps its entry facts; an episode
  keeps a disposition; the campaign identity never changes.
\<close>

definition keeps_entry :: "position \<Rightarrow> position \<Rightarrow> bool" where
  "keeps_entry p q \<longleftrightarrow> position_id q = position_id p \<and> p_episode q = p_episode p \<and> p_symbol q = p_symbol p
   \<and> entry_session q = entry_session p \<and> target_exit_session q = target_exit_session p
   \<and> p_entry_price q = p_entry_price p \<and> p_shares q = p_shares p \<and> position_cost q = position_cost p
   \<and> (p_status p \<noteq> OPEN \<longrightarrow> q = p)"

definition history_extends :: "ledger \<Rightarrow> ledger \<Rightarrow> bool" where
  "history_extends l l' \<longleftrightarrow>
     prefix (trades l) (trades l') \<and> prefix (block_clearances (block_table l)) (block_clearances (block_table l'))
   \<and> prefix (cutovers l) (cutovers l')
   \<and> list_all2 keeps_entry (positions l) (take (length (positions l)) (positions l'))
   \<and> (\<forall>i \<in> set (intents l). i_status i \<noteq> PENDING \<longrightarrow> i \<in> set (intents l'))
   \<and> (\<forall>e \<in> set (entitlements l). en_state e = CREDITED \<longrightarrow> e \<in> set (entitlements l'))
   \<and> er_episode ` set (episodes l) \<subseteq> er_episode ` set (episodes l')
   \<and> account_id l' = account_id l"

lemma cutovers_simps [store_simps]:
  "cutovers (set_cash v l) = cutovers l"
  "cutovers (record_disposition now eid sy d i a e l) = cutovers l"
  "cutovers (append_trade now eid sy act px sh c ca ep u pc h f pv l) = cutovers l"
  "cutovers (set_cooldown now sy' until l) = cutovers l"
  "cutovers (register_corporate_action ev l) = cutovers l"
  "cutovers (snd (store_close_position now pid es price usd pct held fee prov l)) = cutovers l"
  by (simp_all add: set_cash_def record_disposition_def append_trade_def set_cooldown_def
      register_corporate_action_def store_close_position_def Let_def)

lemma record_dividend_cutovers [store_simps]:
  "cutovers (snd (record_dividend_entitlement now pid e ex l)) = cutovers l"
  by (cases rule: record_dividend_cases [of now pid e ex l]) (simp_all add: store_simps)

lemma record_dividends_cutovers [store_simps]:
  "cutovers (fold (\<lambda>e s. snd (record_dividend_entitlement now pid e ex s)) es l) = cutovers l"
  by (induction es arbitrary: l) (simp_all add: store_simps)

lemma keeps_entry_refl [simp]: "keeps_entry p p"
  by (simp add: keeps_entry_def)

lemma keeps_all_refl [simp]: "list_all2 keeps_entry ps ps"
  by (simp add: list_all2_refl)

lemma keeps_entry_trans: "keeps_entry p q \<Longrightarrow> keeps_entry q r \<Longrightarrow> keeps_entry p r"
  by (auto simp: keeps_entry_def)

lemma keeps_update:
  assumes "\<And>p. P p \<Longrightarrow> keeps_entry p (f p)"
  shows "list_all2 keeps_entry ps (update_rows P f ps)"
  using assms by (induction ps) (auto simp: update_rows_def)

lemma history_refl: "history_extends l l"
  by (simp add: history_extends_def)

lemma history_extendsD:
  assumes "history_extends l l'"
  shows "prefix (trades l) (trades l')" "prefix (block_clearances (block_table l)) (block_clearances (block_table l'))"
    "prefix (cutovers l) (cutovers l')" "list_all2 keeps_entry (positions l) (take (length (positions l)) (positions l'))"
    "i \<in> set (intents l) \<Longrightarrow> i_status i \<noteq> PENDING \<Longrightarrow> i \<in> set (intents l')"
    "e \<in> set (entitlements l) \<Longrightarrow> en_state e = CREDITED \<Longrightarrow> e \<in> set (entitlements l')"
    "er_episode ` set (episodes l) \<subseteq> er_episode ` set (episodes l')" "account_id l' = account_id l"
  using assms by (simp_all add: history_extends_def)

lemma history_trans:
  assumes "history_extends l m" "history_extends m r"
  shows "history_extends l r"
proof -
  have lm: "list_all2 keeps_entry (positions l) (take (length (positions l)) (positions m))"
    and mr: "list_all2 keeps_entry (positions m) (take (length (positions m)) (positions r))"
    using assms by (simp_all add: history_extends_def)
  have len: "length (positions l) \<le> length (positions m)"
    using list_all2_lengthD [OF lm] by simp
  have "list_all2 keeps_entry (take (length (positions l)) (positions m)) (take (length (positions l)) (positions r))"
    using list_all2_takeI [OF mr, of "length (positions l)"] len by (simp add: min_def)
  with lm have "list_all2 keeps_entry (positions l) (take (length (positions l)) (positions r))"
    by (rule list_all2_trans [where ?P1.0 = keeps_entry, rotated]) (rule keeps_entry_trans)
  then show ?thesis
    using history_extendsD [OF assms(1)] history_extendsD [OF assms(2)] unfolding history_extends_def
    by (intro conjI ballI impI) (rule prefix_order.trans subset_trans, assumption, assumption | simp)+
qed

text \<open>Steps that leave the recorded tables alone.\<close>

lemma history_same:
  assumes "trades l' = trades l" "block_table l' = block_table l" "cutovers l' = cutovers l"
    "positions l' = positions l" "intents l' = intents l" "entitlements l' = entitlements l"
    "er_episode ` set (episodes l) \<subseteq> er_episode ` set (episodes l')" "campaign_row l' = campaign_row l"
  shows "history_extends l l'"
  using assms by (simp add: history_extends_def account_id_def)

lemma disposition_keeps: "er_episode ` set (episodes l) \<subseteq> er_episode ` set (episodes (record_disposition now eid sy d i a e l))"
  by (auto simp: record_disposition_def upsert_keys)

lemma accrues_history:
  "x \<in> set (entitlements l) \<Longrightarrow>
    x \<in> set (entitlements (fold (\<lambda>e s. snd (record_dividend_entitlement now pid e ex s)) es l))"
proof (induction es arbitrary: l)
  case (Cons e es)
  then have "x \<in> set (entitlements (snd (record_dividend_entitlement now pid e ex l)))"
    by (cases rule: record_dividend_cases [of now pid e ex l]) (auto simp: store_simps)
  with Cons.IH show ?case by simp
qed simp

lemma history_enter:
  assumes "enter_position sess cfg zero_fee now d price es issuer prov l = Inr (out, l')"
  shows "history_extends l l'"
  using assms
proof (cases rule: enter_positionE)
  case (skipped why)
  show ?thesis by (rule history_same) (simp_all only: skipped store_simps disposition_keeps)
next
  case (entered target p)
  note com = commit_entry_Inr [OF entered(10)] and tab = commit_entry_tables [OF entered(10)]
  have "prefix (trades l) (trades l')" "cutovers l' = cutovers l"
    unfolding com(3) by (simp_all add: store_simps append_trade_def)
  moreover have "er_episode ` set (episodes l) \<subseteq> er_episode ` set (episodes l')"
    unfolding com(3) record_disposition_def by (auto simp: upsert_keys store_simps set_cash_def append_trade_def)
  ultimately show ?thesis by (simp add: history_extends_def tab account_id_def)
qed (simp add: history_refl)

lemma history_settle:
  assumes "close_position sess cfg zero_fee now pos price es prov divs l = Inr (out, l')"
  shows "history_extends l l'"
  using assms
proof (cases rule: close_positionE)
  case (settled row held until)
  note tab = settled_ledger_tables [of sess cfg zero_fee now row price es prov divs held until l, folded settled(10)]
  have "prefix (trades l) (trades l')" "cutovers l' = cutovers l"
    unfolding settled(10) settled_ledger_def Let_def by (simp_all add: store_simps append_trade_def)
  moreover have "x \<in> set (entitlements l')" if "x \<in> set (entitlements l)" for x
    unfolding settled(10) settled_ledger_def Let_def
    by (rule accrues_history) (use that in \<open>simp add: store_simps set_cooldown_def append_trade_def\<close>)
  moreover have "list_all2 keeps_entry (positions l) (positions l')"
    unfolding tab(2) by (rule keeps_update) (simp add: keeps_entry_def closed_row_def)
  ultimately show ?thesis by (simp add: history_extends_def tab account_id_def)
qed (simp add: history_refl)

lemma history_unresolved:
  assumes "mark_exit_unresolved sha now pid detail l = Inr l'"
  shows "history_extends l l'"
  using assms
proof (cases rule: mark_exit_unresolvedE)
  case (marked p bid bt)
  have "list_all2 keeps_entry (positions l) (positions l')"
    unfolding marked(4) by (simp, rule keeps_update) (simp add: keeps_entry_def unresolved_row_def)
  moreover have "block_clearances bt = block_clearances (block_table l)"
    using record_block_InrD(3) [OF marked(3)] by simp
  ultimately show ?thesis by (simp add: history_extends_def marked(4) account_id_def)
next
  case (other p)
  have "list_all2 keeps_entry (positions l) (positions l')"
    unfolding other(3) by (simp, rule keeps_update) (simp add: keeps_entry_def unresolved_row_def)
  then show ?thesis by (simp add: history_extends_def other(3) account_id_def)
qed

lemma history_trail:
  "history_extends l (snd (insert_trail_row mk l))" "history_extends l (clear_blocked_action_rows pid l)"
  by (simp_all add: insert_trail_row_def clear_blocked_action_rows_def Let_def history_extends_def account_id_def)

lemma history_register: "history_extends l (register_corporate_action e l)"
  by (rule history_same) (simp_all add: store_simps)

lemma history_act: "history_extends l (snd (apply_position_action now pid e status eb xb l))"
  using history_register [of l e] history_trans [OF history_register history_trail(1)]
  by (auto simp: apply_position_action_def Let_def split: option.splits)

lemma history_accrue: "history_extends l (snd (record_dividend_entitlement now pid e ex l))"
  using accrues_history [where es = "[e]" and l = l and now = now and pid = pid and ex = ex]
  by (simp add: history_extends_def store_simps account_id_def)

lemma history_credit: "history_extends l (snd (credit_dividend now eid as_of l))"
proof (cases rule: credit_dividend_cases [of now eid as_of l])
  case (credited e pay)
  have "x \<in> set (update_rows (\<lambda>x. entitlement_id x = eid \<and> en_state x = ACCRUED)
      (credited_row now as_of (fl (cash l + en_usd e))) (entitlements l))"
    if "x \<in> set (entitlements l)" "en_state x = CREDITED" for x
    using that by (auto simp: in_update_rows intro!: bexI [of _ x])
  then show ?thesis by (simp add: credited(6) history_extends_def store_simps account_id_def cutovers_simps)
qed (simp add: history_refl)

lemma history_intend:
  assumes "upsert_entry_intent sha now ep liq horizon planned src rec l = Inr (i, l')"
  shows "history_extends l l'"
  using assms by (cases rule: upsert_entry_intent_cases) (auto simp: history_extends_def account_id_def)

lemma history_resolve: "history_extends l (mark_entry_intent now iid status pid price session l)"
  by (auto simp: history_extends_def mark_entry_intent_def account_id_def in_update_rows)

lemma history_block:
  assumes "record_account_block sha now reason ref detail l = Inr (bid, l')"
  shows "history_extends l l'"
proof -
  obtain bt where r: "record_block sha now (account_id l) reason ref detail (block_table l) = Inr (bid, bt)"
    and l': "l' = l\<lparr> block_table := bt \<rparr>" using assms by (auto simp: record_account_block_def bindR_Inr_iff)
  then have "block_clearances bt = block_clearances (block_table l)" using record_block_InrD(3) [OF r] by simp
  then show ?thesis by (simp add: l' history_extends_def account_id_def)
qed

lemma history_clear:
  assumes "attempt_block_clearance sha now bid op reason ev allow detail l = Inr (row, l')"
  shows "history_extends l l'"
proof -
  obtain bt where r: "attempt_clearance sha now bid op reason ev allow detail (block_table l) = Inr (row, bt)"
    and l': "l' = l\<lparr> block_table := bt \<rparr>" using assms by (auto simp: attempt_block_clearance_def bindR_Inr_iff)
  from attempt_clearance_InrD(5) [OF r] show ?thesis by (simp add: l' history_extends_def account_id_def)
qed

lemma history_rest:
  "history_extends l (record_disposition now eid sy disp issuer activation entry l)"
  "history_extends l (snd (enqueue_alert now evid eid kind action sy dedup payload hz iid pid db l))"
  "history_extends l (update_outbox now evid state attempts nxt err ref sent l)"
  "history_extends l (record_cutover now cid as_of cs rs xs l)"
  "set_legacy_starting_cash amount evidence l = Inr l' \<Longrightarrow> history_extends l l'"
  by (rule history_same; simp only: store_simps disposition_keeps)
    (auto simp: history_extends_def enqueue_alert_def update_outbox_def record_cutover_def
      set_legacy_starting_cash_def account_id_def split: if_splits)

lemmas history_steps = history_enter history_settle history_unresolved history_act history_trail(2) history_accrue
  history_credit history_intend history_resolve history_block history_clear history_rest

lemma ledger_step_history: "ledger_step sha sess l l' \<Longrightarrow> history_extends l l'"
proof (induction rule: ledger_step.induct)
  case (block_action now pid key code l)
  show ?case by (simp add: record_blocked_action_def history_trail)
qed (blast intro: history_steps)+

interpretation v2_machine: recorded_history "ledger_step sha sess" "ledger_ok sha" history_extends for sha sess
  by unfold_locales (blast intro: ledger_step_ok history_refl history_trans ledger_step_history)+

section \<open>Properties of every reachable ledger\<close>

lemma fresh_ledger_ok: "is_float starting \<Longrightarrow> 0 \<le> starting \<Longrightarrow> ledger_ok sha (fresh_ledger starting campaign mode alloc now)"
  by (simp add: fresh_ledger_def seed_rows_def Let_def ledger_ok_def positions_ok_def book_ok_def episodes_of_def
      trail_ok_def entitlements_ok_def intents_ok_def blocks_ok_def one_account_def unresolved_ok_def audited_def)

lemma reachable_ok:
  assumes "ledger_steps sha sess (fresh_ledger starting campaign mode alloc now) l" "is_float starting" "0 \<le> starting"
  shows "ledger_ok sha l"
  using assms(1) fresh_ledger_ok [OF assms(2,3)] by (rule v2_machine.inv_steps)

text \<open>
  C35. Whatever sequence of committed operations runs on a fresh ledger, the cash is never negative,
  at most twenty positions are open or unresolved, no two of them are in the same symbol, and no
  episode ever has two positions.
\<close>

theorem exposure_is_bounded:
  assumes "ledger_steps sha sess (fresh_ledger starting campaign mode alloc now) l" "is_float starting" "0 \<le> starting"
  shows "0 \<le> cash l \<and> n_open l \<le> 20 \<and> distinct (map p_symbol (filter occupying (positions l)))
     \<and> distinct (map p_episode (positions l)) \<and> distinct (map position_id (positions l))"
  using reachable_ok [OF assms] by (simp add: ledger_ok_def positions_ok_def cash_def n_open_def)

text \<open>
  C36. The trade log and the position table always tell the same story: the BUY trades are, in order,
  one per position, and the SELL trades are exactly one per CLOSED position.
\<close>

theorem trade_log_matches_positions:
  assumes "ledger_steps sha sess (fresh_ledger starting campaign mode alloc now) l" "is_float starting" "0 \<le> starting"
  shows "episodes_of BUY_TRADE (trades l) = map p_episode (positions l) \<and> distinct (episodes_of SELL_TRADE (trades l))
     \<and> set (episodes_of SELL_TRADE (trades l)) = p_episode ` {p \<in> set (positions l). p_status p = CLOSED}"
  using reachable_ok [OF assms] by (simp add: ledger_ok_def book_ok_def)

text \<open>
  A dividend is paid at most once and never early: each position has at most one receivable per
  dividend event, it went ex after the position was entered, and a credited one was credited on or
  after its payable date.
\<close>

theorem dividends_are_paid_once:
  assumes "ledger_steps sha sess (fresh_ledger starting campaign mode alloc now) l" "is_float starting" "0 \<le> starting"
  shows "distinct (map (\<lambda>e. (en_position e, en_key e)) (entitlements l))
     \<and> (\<forall>e \<in> set (entitlements l). 0 \<le> en_usd e
          \<and> (\<exists>p \<in> set (positions l). position_id p = en_position e \<and> p_episode p = en_episode e
               \<and> entry_session p < en_ex_date e)
          \<and> (en_state e = CREDITED \<longrightarrow> (\<exists>pay as_of. en_payable e = Some pay
               \<and> en_credited_as_of e = Some as_of \<and> pay \<le> as_of)))"
  using reachable_ok [OF assms] by (auto simp: ledger_ok_def entitlements_ok_def entitlement_ok_def)

text \<open>
  An unresolved exit keeps the account blocked until an operator clears it with an audit row: in
  every reachable ledger with an EXIT_UNRESOLVED position whose block has no clearing audit row, no
  entry is admitted.
\<close>

theorem unresolved_exit_blocks_entries:
  assumes "ledger_steps sha sess (fresh_ledger starting campaign mode alloc now) l" "is_float starting" "0 \<le> starting"
    and "p \<in> set (positions l)" "p_status p = EXIT_UNRESOLVED"
    and "\<not> (\<exists>c \<in> set (block_clearances (block_table l)). cl_outcome c = OUTCOME_CLEARED \<and>
      cl_block_id c = mk_block_id sha (account_id l) REASON_EXIT_UNRESOLVED (str_int (int (position_id p))))"
  shows "store_blocked_reason l \<noteq> None
     \<and> (\<forall>sess' cfg fee now' d price es issuer prov out l'.
          enter_position sess' cfg fee now' d price es issuer prov l = Inr (out, l') \<longrightarrow> \<not> eo_entered out)"
proof -
  note ok = reachable_ok [OF assms(1-3)]
  let ?bid = "mk_block_id sha (account_id l) REASON_EXIT_UNRESOLVED (str_int (int (position_id p)))"
  from ok assms(4,5) obtain b where b: "b \<in> set (account_blocks (block_table l))" "block_id b = ?bid"
    by (auto simp: ledger_ok_def unresolved_ok_def image_iff)
  moreover have "bl_status b = ACTIVE"
    using ok assms(6) b by (cases "bl_status b") (auto simp: ledger_ok_def audited_def)
  moreover have "bl_account b = account_id l" using ok b(1) by (auto simp: ledger_ok_def one_account_def)
  ultimately have "active_ids (block_table l) (account_id l) \<noteq> {}" by (auto simp: active_ids_def)
  then have blocked: "blocked_reason (block_table l) (account_id l) \<noteq> None" by (simp add: blocked_reason_None)
  have "\<not> eo_entered out" if "enter_position sess' cfg fee now' d price es issuer prov l = Inr (out, l')"
    for sess' cfg fee now' d price es issuer prov out l'
    using that by (cases rule: enter_positionE) (use blocked in simp_all)
  with blocked show ?thesis by (auto simp: store_blocked_reason_def)
qed

text \<open>
  No operation rewrites history: over any run the trade log, the clearance audit and the cutover
  log only grow, every position keeps its row and its entry facts, a position that is no longer OPEN, an
  intent that is no longer PENDING and a credited receivable stay exactly as they are, and an episode
  with a disposition keeps one.
\<close>

theorem history_is_append_only:
  assumes "ledger_steps sha sess l l'"
  shows "prefix (trades l) (trades l') \<and> prefix (block_clearances (block_table l)) (block_clearances (block_table l'))
     \<and> prefix (cutovers l) (cutovers l') \<and> list_all2 keeps_entry (positions l) (take (length (positions l)) (positions l'))
     \<and> (\<forall>i \<in> set (intents l). i_status i \<noteq> PENDING \<longrightarrow> i \<in> set (intents l'))
     \<and> (\<forall>e \<in> set (entitlements l). en_state e = CREDITED \<longrightarrow> e \<in> set (entitlements l'))
     \<and> (\<forall>e. episode_disposition l e \<noteq> None \<longrightarrow> episode_disposition l' e \<noteq> None)"
proof -
  have h: "history_extends l l'"
    using assms by induction (blast intro: history_refl history_trans ledger_step_history)+
  then have "\<forall>e. episode_disposition l e \<noteq> None \<longrightarrow> episode_disposition l' e \<noteq> None"
    by (auto simp: history_extends_def episode_disposition_def row_by_None)
  with h show ?thesis by (simp add: history_extends_def)
qed

section \<open>A concrete run of the machine\<close>

lemma demo_steps:
  "ledger_step sha lane_sessions demo_ledger demo_held" "ledger_step sha lane_sessions demo_held demo_settled"
proof -
  show "ledger_step sha lane_sessions demo_ledger demo_held" by (rule ledger_step.enter [OF demo_entry])
  have "is_float 3500" by code_simp
  then show "ledger_step sha lane_sessions demo_held demo_settled" by (rule ledger_step.settle [OF demo_exit]) simp_all
qed

lemma machine_run: "ledger_steps sha lane_sessions demo_ledger demo_settled" "is_float 100000"
proof -
  show "ledger_steps sha lane_sessions demo_ledger demo_settled"
    using demo_steps [of sha] by (rule converse_rtranclp_into_rtranclp [OF _ r_into_rtranclp])
  show "is_float 100000" by code_simp
qed

lemmas demo_reachable = machine_run(1) [unfolded demo_ledger_def] machine_run(2)

theorem exposure_is_bounded_witness: "0 \<le> cash demo_settled \<and> n_open demo_settled \<le> 20"
  using exposure_is_bounded [OF demo_reachable] by simp

theorem trade_log_matches_positions_witness:
  "episodes_of BUY_TRADE (trades demo_settled) = map p_episode (positions demo_settled)"
  using trade_log_matches_positions [OF demo_reachable] by simp

theorem dividends_are_paid_once_witness:
  "distinct (map (\<lambda>e. (en_position e, en_key e)) (entitlements demo_settled))"
  using dividends_are_paid_once [OF demo_reachable] by simp

theorem history_is_append_only_witness: "prefix (trades demo_held) (trades demo_settled)"
proof -
  have "ledger_steps (\<lambda>x. x) lane_sessions demo_held demo_settled"
    using demo_steps(2) by (rule r_into_rtranclp)
  from history_is_append_only [OF this] show ?thesis by blast
qed

definition demo_stuck :: ledger where
  "demo_stuck = projr (mark_exit_unresolved (\<lambda>x. x) 5 1 [] demo_held)"

theorem unresolved_exit_blocks_entries_witness: "store_blocked_reason demo_stuck \<noteq> None"
proof -
  have "mark_exit_unresolved (\<lambda>x. x) 5 1 [] demo_held = Inr demo_stuck" by code_simp
  then have "ledger_step (\<lambda>x. x) lane_sessions demo_held demo_stuck" by (rule ledger_step.unresolved)
  then have "ledger_steps (\<lambda>x. x) lane_sessions demo_held demo_stuck" by (rule r_into_rtranclp)
  with demo_steps(1) have "ledger_steps (\<lambda>x. x) lane_sessions demo_ledger demo_stuck"
    by (rule converse_rtranclp_into_rtranclp)
  moreover have "unresolved_row 5 [] demo_position \<in> set (positions demo_stuck)"
    "block_clearances (block_table demo_stuck) = []" by code_simp+
  ultimately show ?thesis
    using unresolved_exit_blocks_entries [of "\<lambda>x. x" lane_sessions 100000 "''V2''" "''PAPER''" "Some 10000" 1
        demo_stuck "unresolved_row 5 [] demo_position"] machine_run(2)
    by (simp add: demo_ledger_def)
qed

end
