(* ===== verification/V2_Guard.thy ===== *)
theory V2_Guard
  imports V2_Machine
begin

text \<open>
  \<open>CorporateActionGuard\<close> of \<open>talonx_v2/corporate_actions.py\<close>: the cached fetch and the assessment that
  writes the corporate-action trail.  The providers are a parameter; the assessment takes the fetch as
  the function \<open>fetch symbol start end fresh\<close>.
\<close>

section \<open>Fetching evidence\<close>

record guard =
  gd_ttl :: rat
  gd_cache :: "(symbol \<times> date \<times> date) \<rightharpoonup> (rat \<times> ca_source_result)"

text \<open>\<open>sources symbol start end\<close> are the results of the configured sources at this moment.\<close>

definition guard_fetch ::
    "(action_key \<Rightarrow> string) \<Rightarrow> (symbol \<Rightarrow> date \<Rightarrow> date \<Rightarrow> ca_source_result list) \<Rightarrow> rat \<Rightarrow> symbol \<Rightarrow> date \<Rightarrow> date
       \<Rightarrow> bool \<Rightarrow> guard \<Rightarrow> ca_source_result \<times> guard" where
  "guard_fetch render sources clock sy start end' fresh g =
     (let key = (upper sy, start, end');
          refetch = (let res = combine_sources render (sources sy start end')
                     in (res, if ca_ok res \<and> 0 < gd_ttl g then g\<lparr> gd_cache := (gd_cache g)(key \<mapsto> (clock, res)) \<rparr> else g))
      in if \<not> fresh \<and> 0 < gd_ttl g
         then (case gd_cache g key of
                 Some hit \<Rightarrow> if fl (clock - fst hit) < gd_ttl g then (snd hit, g) else refetch
               | None \<Rightarrow> refetch)
         else refetch)"

section \<open>Verdicts\<close>

datatype verdict_status = V_CLEAR | V_ADJUSTED | V_HOLD | V_BLOCK

record verdict =
  v_status :: verdict_status
  v_code :: "block_code option"
  v_applied :: "action_key list"
  v_effective :: "rat option"
  v_dividends :: "ca_event list"

definition settle_ok :: "verdict \<Rightarrow> bool" where
  "settle_ok v \<longleftrightarrow> v_status v = V_CLEAR \<or> v_status v = V_ADJUSTED"

definition verdict_of :: "verdict_status \<Rightarrow> block_code option \<Rightarrow> verdict" where
  "verdict_of st code = \<lparr> v_status = st, v_code = code, v_applied = [], v_effective = None, v_dividends = [] \<rparr>"

text \<open>\<open>_persist_block\<close>: a keyed block replaces the blocked rows of the position.\<close>

definition persist_block ::
    "stamp \<Rightarrow> nat \<Rightarrow> verdict_status \<Rightarrow> block_code \<Rightarrow> action_key option \<Rightarrow> ledger \<Rightarrow> verdict \<times> ledger" where
  "persist_block now pid st code key l =
     (verdict_of st (Some code),
      case key of None \<Rightarrow> l
      | Some k \<Rightarrow> record_blocked_action now pid k code (clear_blocked_action_rows pid l))"

text \<open>\<open>_conflict_in_window\<close>: the third field of the conflict text is its ex-date, if it parses as one.\<close>

fun conflict_ex_date :: "action_key \<Rightarrow> date option" where
  "conflict_ex_date (CONFLICT_SPLITS sy ex rs) = Some ex"
| "conflict_ex_date (CONFLICT_DIVIDENDS sy ex rs) = Some ex"
| "conflict_ex_date (CONFLICT_PRESENCE sy ex k missing) = ex"
| "conflict_ex_date _ = None"

definition conflict_in_window :: "action_key \<Rightarrow> date \<Rightarrow> date \<Rightarrow> bool" where
  "conflict_in_window c entry end' =
     (case conflict_ex_date c of None \<Rightarrow> True | Some ex \<Rightarrow> entry < ex \<and> ex \<le> end')"

definition in_hold_window :: "date \<Rightarrow> date \<Rightarrow> ca_event \<Rightarrow> bool" where
  "in_hold_window entry end' e =
     (case ev_ex_date e of None \<Rightarrow> True | Some ex \<Rightarrow> entry < ex \<and> ex \<le> end')"

text \<open>Unsupported or undated, unless it is a dividend dated after the exit fill of a settlement.\<close>

definition bad_event :: "date option \<Rightarrow> ca_event \<Rightarrow> bool" where
  "bad_event fill e \<longleftrightarrow> (ev_kind e = UNSUPPORTED \<or> ev_ex_date e = None)
     \<and> \<not> (fill \<noteq> None \<and> ev_provider_type e = ''cash_dividends'' \<and> ev_ex_date e \<noteq> None
          \<and> the fill < the (ev_ex_date e))"

section \<open>The basis proof\<close>

text \<open>
  The entry side, split by split: reflected in the entry price, applicable to the share count, or a
  block.
\<close>

fun entry_side :: "date option \<Rightarrow> ca_event list \<Rightarrow> block_code \<times> action_key + ca_event list \<times> ca_event list" where
  "entry_side basis [] = Inr ([], [])"
| "entry_side basis (e # es) =
     (case basis of
        None \<Rightarrow> Inl (CA_PRICE_BASIS_UNKNOWN, ev_key e)
      | Some b \<Rightarrow>
          if the (ev_ex_date e) = b then Inl (CA_PRICE_BASIS_AMBIGUOUS, ev_key e)
          else (case entry_side basis es of
                  Inl err \<Rightarrow> Inl err
                | Inr (reflected, applicable) \<Rightarrow>
                    if the (ev_ex_date e) < b then Inr (e # reflected, applicable)
                    else Inr (reflected, e # applicable)))"

text \<open>The exit side: a split after the fill must already be in the exit price.\<close>

fun exit_side :: "date \<Rightarrow> date option \<Rightarrow> ca_event list \<Rightarrow> (verdict_status \<times> block_code \<times> action_key option) option" where
  "exit_side fill basis [] = None"
| "exit_side fill basis (e # es) =
     (if fill < the (ev_ex_date e)
      then (case basis of
              None \<Rightarrow> Some (V_BLOCK, CA_PRICE_BASIS_UNKNOWN, Some (ev_key e))
            | Some b \<Rightarrow> if b \<le> the (ev_ex_date e) then Some (V_HOLD, CA_EXIT_BASIS_PREDATES_SPLIT, None)
                        else exit_side fill basis es)
      else exit_side fill basis es)"

definition DIVIDEND_SAFE_BASES :: "string list" where
  "DIVIDEND_SAFE_BASES = [''RAW'', ''SPLIT_ADJUSTED'']"

definition safe_basis :: "string option \<Rightarrow> bool" where
  "safe_basis st = (case st of None \<Rightarrow> False | Some s \<Rightarrow> s \<in> set DIVIDEND_SAFE_BASES)"

definition parse_basis :: "price_provenance option \<Rightarrow> date option" where
  "parse_basis p = Option.bind p basis_as_of"

definition parse_adjustment_state :: "price_provenance option \<Rightarrow> string option" where
  "parse_adjustment_state p = Option.bind p adjustment_state"

definition eligible_dividends :: "date \<Rightarrow> date \<Rightarrow> ca_event list \<Rightarrow> ca_event list" where
  "eligible_dividends entry fill ds = filter (\<lambda>e. entry < the (ev_ex_date e) \<and> the (ev_ex_date e) \<le> fill) ds"

text \<open>The dividends' own obstacles: an adjusted price basis, or a split on the same ex-date.\<close>

definition dividend_obstacle ::
    "string option \<Rightarrow> string option \<Rightarrow> ca_event list \<Rightarrow> ca_event list \<Rightarrow> (block_code \<times> action_key) option" where
  "dividend_obstacle entry_state exit_state splits ds =
     (case ds of [] \<Rightarrow> None
      | d # _ \<Rightarrow>
          if \<not> safe_basis entry_state \<or> \<not> safe_basis exit_state
          then Some (CA_DIVIDEND_PRICE_BASIS_NOT_UNADJUSTED, ev_key d)
          else map_option (\<lambda>x. (CA_DIVIDEND_SPLIT_SAME_EX_DATE, ev_key x))
                 (find (\<lambda>x. list_ex (\<lambda>s. ev_ex_date s = ev_ex_date x) splits) ds))"

section \<open>Applying the evidence\<close>

fun apply_events ::
    "stamp \<Rightarrow> nat \<Rightarrow> trail_status \<Rightarrow> date option \<Rightarrow> date option \<Rightarrow> ca_event list \<Rightarrow> ledger \<Rightarrow> action_key list \<times> ledger" where
  "apply_events now pid status eb xb [] l = ([], l)"
| "apply_events now pid status eb xb (e # es) l =
     (let r = apply_position_action now pid e status eb xb l;
          rest = apply_events now pid status eb xb es (snd r)
      in ((if fst r then ev_key e # fst rest else fst rest), snd rest))"

definition apply_evidence ::
    "stamp \<Rightarrow> nat \<Rightarrow> date \<Rightarrow> date option \<Rightarrow> date option \<Rightarrow> ca_event list \<Rightarrow> ca_event list \<Rightarrow> ca_event list
       \<Rightarrow> ca_event list \<Rightarrow> ledger \<Rightarrow> verdict \<times> ledger" where
  "apply_evidence now pid entry eb xb reflected applicable dividends eligible l =
     (let l1 = clear_blocked_action_rows pid l;
          l2 = snd (apply_events now pid REFLECTED_IN_ENTRY_BASIS eb None reflected l1);
          r3 = apply_events now pid APPLIED eb xb applicable l2;
          l4 = snd (apply_events now pid DIVIDEND_OBSERVED eb None
                 (filter (\<lambda>e. entry < the (ev_ex_date e)) dividends) (snd r3));
          adjusted = list_ex (\<lambda>r. tr_status r = APPLIED) (position_action_trail l4 pid)
      in (\<lparr> v_status = (if adjusted then V_ADJUSTED else V_CLEAR), v_code = None, v_applied = fst r3,
            v_effective = Some (effective_shares_exact l4 pid), v_dividends = eligible \<rparr>, l4))"

text \<open>The window of an assessment: the end of the evidence, the exit fill and the fetched events.\<close>

definition assess_end :: "date \<Rightarrow> date option \<Rightarrow> bool \<Rightarrow> date" where
  "assess_end as_of exit_basis settlement =
     (case exit_basis of Some b \<Rightarrow> if settlement then max as_of b else as_of | None \<Rightarrow> as_of)"

definition exit_fill :: "date \<Rightarrow> date option \<Rightarrow> date" where
  "exit_fill as_of exit_session = (case exit_session of Some s \<Rightarrow> s | None \<Rightarrow> as_of)"

definition split_events :: "ca_event list \<Rightarrow> ca_event list" where
  "split_events es = filter (\<lambda>e. split_kind (ev_kind e)) es"

definition dividend_events :: "ca_event list \<Rightarrow> ca_event list" where
  "dividend_events es = filter (\<lambda>e. ev_kind e = CASH_DIVIDEND) es"

text \<open>The checks before anything is applied, in the order of the code: the refusal, or the two lists of splits.\<close>

definition assess_evidence ::
    "ca_source_result \<Rightarrow> position \<Rightarrow> trail_row list \<Rightarrow> date \<Rightarrow> date \<Rightarrow> date option \<Rightarrow> string option \<Rightarrow> bool
       \<Rightarrow> (verdict_status \<times> block_code \<times> action_key option) + (ca_event list \<times> ca_event list)" where
  "assess_evidence res row rows end' fill exit_basis exit_state settlement =
     (let entry = entry_session row; basis = parse_basis (entry_provenance row);
          window = filter (in_hold_window entry end') (ca_events res);
          splits = split_events window;
          eligible = (if settlement then eligible_dividends entry fill (dividend_events window) else [])
      in if \<not> ca_ok res then Inl (V_HOLD, CA_EVIDENCE_UNAVAILABLE, None)
         else case filter (\<lambda>c. conflict_in_window c entry end') (ca_conflicts res) of
           c # _ \<Rightarrow> Inl (V_BLOCK, CA_CONFLICTING_EVIDENCE, Some c)
         | [] \<Rightarrow>
         case filter (bad_event (if settlement then Some fill else None)) window of
           e # _ \<Rightarrow> Inl (V_BLOCK, if ev_malformed e then CA_MALFORMED_EVENT else CA_UNSUPPORTED_ACTION, Some (ev_key e))
         | [] \<Rightarrow>
         case entry_side basis splits of
           Inl (code, key) \<Rightarrow> Inl (V_BLOCK, code, Some key)
         | Inr sides \<Rightarrow>
         if list_ex (\<lambda>r. tr_status r = APPLIED \<and> tr_key r \<notin> ev_key ` set splits) rows
         then Inl (V_BLOCK, CA_CONFLICTING_EVIDENCE, Some (CONFLICT_NOT_REPORTED (p_symbol row)))
         else case (if settlement then exit_side fill exit_basis splits else None) of
           Some refusal \<Rightarrow> Inl refusal
         | None \<Rightarrow>
         case dividend_obstacle (parse_adjustment_state (entry_provenance row)) exit_state splits eligible of
           Some (code, key) \<Rightarrow> Inl (V_BLOCK, code, Some key)
         | None \<Rightarrow> Inr sides)"

definition assess_row ::
    "(symbol \<Rightarrow> date \<Rightarrow> date \<Rightarrow> bool \<Rightarrow> ca_source_result) \<Rightarrow> stamp \<Rightarrow> position \<Rightarrow> date \<Rightarrow> date option \<Rightarrow> date option
       \<Rightarrow> string option \<Rightarrow> bool \<Rightarrow> ledger \<Rightarrow> verdict \<times> ledger" where
  "assess_row fetch now row as_of exit_basis exit_session exit_state settlement l =
     (let pid = position_id row; entry = entry_session row;
          end' = assess_end as_of exit_basis settlement; fill = exit_fill as_of exit_session;
          res = fetch (p_symbol row) entry end' settlement;
          dividends = dividend_events (filter (in_hold_window entry end') (ca_events res));
          eligible = (if settlement then eligible_dividends entry fill dividends else [])
      in case assess_evidence res row (position_action_trail l pid) end' fill exit_basis exit_state settlement of
           Inl (st, code, key) \<Rightarrow> persist_block now pid st code key l
         | Inr (reflected, applicable) \<Rightarrow>
             apply_evidence now pid entry (parse_basis (entry_provenance row)) exit_basis reflected applicable
               dividends eligible l)"

definition assess_position ::
    "(symbol \<Rightarrow> date \<Rightarrow> date \<Rightarrow> bool \<Rightarrow> ca_source_result) \<Rightarrow> stamp \<Rightarrow> nat \<Rightarrow> date \<Rightarrow> date option \<Rightarrow> date option
       \<Rightarrow> string option \<Rightarrow> bool \<Rightarrow> ledger \<Rightarrow> verdict \<times> ledger" where
  "assess_position fetch now pid as_of exit_basis exit_session exit_state settlement l =
     (case position_by_id l pid of
        None \<Rightarrow> (verdict_of V_CLEAR None, l)
      | Some row \<Rightarrow>
          if p_status row \<noteq> OPEN then (verdict_of V_CLEAR None, l)
          else assess_row fetch now row as_of exit_basis exit_session exit_state settlement l)"

section \<open>One trail row\<close>

definition trail_keys :: "ledger \<Rightarrow> (nat \<times> action_key) set" where
  "trail_keys l = (\<lambda>r. (tr_position r, tr_key r)) ` set (trail l)"

definition event_ratio :: "ca_event \<Rightarrow> rat" where
  "event_ratio e = (case ev_ratio e of Some r \<Rightarrow> r | None \<Rightarrow> 1)"

definition action_row ::
    "stamp \<Rightarrow> nat \<Rightarrow> ca_event \<Rightarrow> trail_status \<Rightarrow> date option \<Rightarrow> date option \<Rightarrow> position \<Rightarrow> ledger \<Rightarrow> trail_row" where
  "action_row now pid e status eb xb p l =
     (let held = effective_shares_exact l pid
      in \<lparr> tr_id = Suc (trail_seq l), tr_position = pid, tr_key = ev_key e, tr_kind = Some (ev_kind e),
           tr_ex_date = ev_ex_date e, tr_ratio = Some (event_ratio e), tr_status = status, tr_before = Some held,
           tr_after = Some (held * (if status = APPLIED then event_ratio e else 1)),
           tr_cost_basis = Some (position_cost p), tr_entry_basis = eb, tr_exit_basis = xb, tr_applied_at = now \<rparr>)"

lemma action_row_simps [simp]:
  "tr_position (action_row now pid e status eb xb p l) = pid" "tr_key (action_row now pid e status eb xb p l) = ev_key e"
  "tr_status (action_row now pid e status eb xb p l) = status"
  "row_ratio (action_row now pid e status eb xb p l) = event_ratio e"
  by (simp_all add: action_row_def Let_def row_ratio_def)

lemma register_reads [simp]:
  "position_by_id (register_corporate_action e l) pid = position_by_id l pid"
  "effective_shares_exact (register_corporate_action e l) pid = effective_shares_exact l pid"
  "position_action_trail (register_corporate_action e l) pid = position_action_trail l pid"
  "trail_keys (register_corporate_action e l) = trail_keys l"
  by (simp_all add: position_by_id_def effective_shares_exact_def position_action_trail_def trail_keys_def register_simps)

lemma apply_action_cases:
  obtains (no_position) "position_by_id l pid = None"
      "apply_position_action now pid e status eb xb l = (False, register_corporate_action e l)"
  | (known) "(pid, ev_key e) \<in> trail_keys l"
      "apply_position_action now pid e status eb xb l = (False, register_corporate_action e l)"
  | (applied) p where "(pid, ev_key e) \<notin> trail_keys l" "position_by_id l pid = Some p"
      "apply_position_action now pid e status eb xb l = (True, (register_corporate_action e l)
         \<lparr> trail_seq := Suc (trail_seq l), trail := trail l @ [action_row now pid e status eb xb p l] \<rparr>)"
proof (cases "position_by_id l pid")
  case None
  then show ?thesis by (intro no_position) (simp_all add: apply_position_action_def Let_def)
next
  case (Some p)
  show ?thesis
  proof (cases "(pid, ev_key e) \<in> trail_keys l")
    case True
    with Some show ?thesis
      by (intro known) (simp_all add: apply_position_action_def insert_trail_row_def trail_keys_def register_simps)
  next
    case False
    with Some have "apply_position_action now pid e status eb xb l = (True, (register_corporate_action e l)
         \<lparr> trail_seq := Suc (trail_seq l), trail := trail l @ [action_row now pid e status eb xb p l] \<rparr>)"
      by (simp add: apply_position_action_def insert_trail_row_def trail_keys_def register_simps Let_def
          action_row_def event_ratio_def)
    with False Some show ?thesis by (rule applied)
  qed
qed

section \<open>The assessment writes the trail and nothing else\<close>

definition same_books :: "ledger \<Rightarrow> ledger \<Rightarrow> bool" where
  "same_books l l' \<longleftrightarrow> portfolio_cash l' = portfolio_cash l \<and> positions l' = positions l \<and> trades l' = trades l
   \<and> episodes l' = episodes l \<and> intents l' = intents l \<and> outbox l' = outbox l \<and> entitlements l' = entitlements l
   \<and> cooldowns l' = cooldowns l \<and> block_table l' = block_table l \<and> campaign_row l' = campaign_row l
   \<and> cutovers l' = cutovers l \<and> position_seq l' = position_seq l \<and> entitlement_seq l' = entitlement_seq l"

lemma same_books_refl [simp]: "same_books l l"
  by (simp add: same_books_def)

lemma same_books_trans: "same_books l m \<Longrightarrow> same_books m r \<Longrightarrow> same_books l r"
  by (simp add: same_books_def)

lemma same_books_position [simp]: "same_books l l' \<Longrightarrow> position_by_id l' pid = position_by_id l pid"
  by (simp add: same_books_def position_by_id_def)

lemma same_books_clear: "same_books l (clear_blocked_action_rows pid l)"
  by (simp add: same_books_def clear_blocked_action_rows_def)

lemma same_books_block: "same_books l (record_blocked_action now pid key code l)"
  by (simp add: same_books_def record_blocked_action_def insert_trail_row_def Let_def)

lemma same_books_register: "same_books l (register_corporate_action e l)"
  by (simp add: same_books_def register_corporate_action_def Let_def)

lemma same_books_apply: "same_books l (snd (apply_position_action now pid e status eb xb l))"
proof (cases rule: apply_action_cases [of l pid now e status eb xb])
  case (applied p)
  show ?thesis using same_books_register [of l e] unfolding applied(3) by (simp add: same_books_def)
qed (simp_all only: snd_conv same_books_register)

lemma same_books_applies: "same_books l (snd (apply_events now pid status eb xb es l))"
proof (induction es arbitrary: l)
  case (Cons e es)
  show ?case by (simp add: Let_def) (rule same_books_trans [OF same_books_apply Cons.IH])
qed simp

lemma same_books_persist: "same_books l (snd (persist_block now pid st code key l))"
  by (cases key) (simp_all add: persist_block_def same_books_trans [OF same_books_clear same_books_block])

lemma same_books_evidence:
  "same_books l (snd (apply_evidence now pid entry eb xb reflected applicable dividends eligible l))"
  unfolding apply_evidence_def Let_def snd_conv
  by (intro same_books_trans [OF _ same_books_applies] same_books_clear)

lemma same_books_row: "same_books l (snd (assess_row fetch now row as_of xb xs st settlement l))"
  by (auto simp: assess_row_def Let_def same_books_persist same_books_evidence split: sum.split prod.split)

lemma same_books_assess: "same_books l (snd (assess_position fetch now pid as_of xb xs st settlement l))"
  by (simp add: assess_position_def same_books_row split: option.split)

section \<open>The assessment is a sequence of ledger steps\<close>

lemma apply_events_steps:
  assumes "position_by_id l pid = Some p" "p_status p = OPEN" "\<forall>e \<in> set es. event_ok e" "\<not> (\<exists>c. status = BLOCKED c)"
    and "status = APPLIED \<longrightarrow> (\<forall>e \<in> set es. \<exists>ex. ev_ex_date e = Some ex \<and> entry_session p < ex)"
  shows "ledger_steps sha sess l (snd (apply_events now pid status eb xb es l))"
  using assms
proof (induction es arbitrary: l)
  case (Cons e es)
  let ?m = "snd (apply_position_action now pid e status eb xb l)"
  have "ledger_step sha sess l ?m"
    by (rule ledger_step.act [OF Cons.prems(1,2)]) (use Cons.prems(3-5) in auto)
  moreover have "position_by_id ?m pid = Some p"
    using Cons.prems(1) same_books_apply same_books_position by metis
  then have "ledger_steps sha sess ?m (snd (apply_events now pid status eb xb es ?m))"
    using Cons.prems by (intro Cons.IH) auto
  ultimately show ?case by (simp add: Let_def converse_rtranclp_into_rtranclp)
qed simp

lemma persist_block_steps: "ledger_steps sha sess l (snd (persist_block now pid st code key l))"
proof (cases key)
  case (Some k)
  have "ledger_step sha sess l (clear_blocked_action_rows pid l)" by (rule ledger_step.unblock_action)
  moreover have "ledger_step sha sess (clear_blocked_action_rows pid l)
      (record_blocked_action now pid k code (clear_blocked_action_rows pid l))" by (rule ledger_step.block_action)
  ultimately have "ledger_steps sha sess l (record_blocked_action now pid k code (clear_blocked_action_rows pid l))"
    by (meson converse_rtranclp_into_rtranclp r_into_rtranclp)
  then show ?thesis using Some by (simp add: persist_block_def)
qed (simp add: persist_block_def)

text \<open>The entry side splits the list by the basis date.\<close>

lemma entry_side_Inr:
  assumes "entry_side basis es = Inr (reflected, applicable)"
  shows "es = [] \<and> reflected = [] \<and> applicable = [] \<or>
     (\<exists>b. basis = Some b \<and> (\<forall>e \<in> set es. the (ev_ex_date e) \<noteq> b)
        \<and> reflected = filter (\<lambda>e. the (ev_ex_date e) < b) es \<and> applicable = filter (\<lambda>e. b < the (ev_ex_date e)) es)"
  using assms
proof (induction es arbitrary: reflected applicable)
  case (Cons e es)
  from Cons.prems obtain b r a where b: "basis = Some b" "the (ev_ex_date e) \<noteq> b" "entry_side basis es = Inr (r, a)"
    "reflected = (if the (ev_ex_date e) < b then e # r else r)"
    "applicable = (if the (ev_ex_date e) < b then a else e # a)"
    by (auto split: option.splits sum.splits if_splits prod.splits)
  from Cons.IH [OF b(3)] b show ?case by auto
qed simp

lemma entry_side_sub:
  "entry_side basis es = Inr (reflected, applicable) \<Longrightarrow> set reflected \<subseteq> set es \<and> set applicable \<subseteq> set es"
  by (auto dest: entry_side_Inr)

lemma exit_side_None:
  "exit_side fill basis es = None \<Longrightarrow> e \<in> set es \<Longrightarrow> fill < the (ev_ex_date e) \<Longrightarrow>
     \<exists>b. basis = Some b \<and> the (ev_ex_date e) < b"
  by (induction es) (auto split: if_splits option.splits)

lemma assess_evidence_Inr:
  assumes "assess_evidence res row rows end' fill xb st settlement = Inr (reflected, applicable)"
  defines "window \<equiv> filter (in_hold_window (entry_session row) end') (ca_events res)"
  shows "ca_ok res" "\<forall>c \<in> set (ca_conflicts res). \<not> conflict_in_window c (entry_session row) end'"
    "\<forall>e \<in> set window. \<not> bad_event (if settlement then Some fill else None) e"
    "entry_side (parse_basis (entry_provenance row)) (split_events window) = Inr (reflected, applicable)"
    "\<forall>r \<in> set rows. tr_status r = APPLIED \<longrightarrow> tr_key r \<in> ev_key ` set (split_events window)"
    "settlement \<Longrightarrow> exit_side fill xb (split_events window) = None"
    "dividend_obstacle (parse_adjustment_state (entry_provenance row)) st (split_events window)
       (if settlement then eligible_dividends (entry_session row) fill (dividend_events window) else []) = None"
  using assms(1) unfolding assess_evidence_def Let_def window_def [symmetric]
  by (auto simp: filter_empty_conv list_ex_iff split: if_splits list.splits sum.splits option.splits prod.splits)

lemma window_dated:
  assumes "\<forall>e \<in> set window. \<not> bad_event f e" "e \<in> set window" "in_hold_window entry end' e"
    and "split_kind (ev_kind e) \<or> ev_kind e = CASH_DIVIDEND"
  shows "\<exists>ex. ev_ex_date e = Some ex \<and> entry < ex \<and> ex \<le> end'"
  using assms by (cases "ev_ex_date e") (auto simp: bad_event_def in_hold_window_def)

text \<open>An assessment of an open position is a run of the ledger machine.\<close>

lemma assess_row_steps:
  assumes row: "position_by_id l (position_id row) = Some row" "p_status row = OPEN"
    and ev: "\<And>s a b f e. e \<in> set (ca_events (fetch s a b f)) \<Longrightarrow> event_ok e"
  shows "ledger_steps sha sess l (snd (assess_row fetch now row as_of xb xs st settlement l))"
proof -
  let ?upto = "assess_end as_of xb settlement" and ?fill = "exit_fill as_of xs"
  let ?res = "fetch (p_symbol row) (entry_session row) ?upto settlement"
  let ?window = "filter (in_hold_window (entry_session row) ?upto) (ca_events ?res)"
  show ?thesis
  proof (cases "assess_evidence ?res row (position_action_trail l (position_id row)) ?upto ?fill xb st settlement")
    case (Inl refusal)
    then show ?thesis by (cases refusal) (simp add: assess_row_def Let_def persist_block_steps)
  next
    case (Inr sides)
    obtain reflected applicable where sides: "sides = (reflected, applicable)" by force
    note A = assess_evidence_Inr [OF Inr [unfolded sides]]
    let ?pid = "position_id row" and ?b = "parse_basis (entry_provenance row)"
    let ?l1 = "clear_blocked_action_rows ?pid l"
    let ?l2 = "snd (apply_events now ?pid REFLECTED_IN_ENTRY_BASIS ?b None reflected ?l1)"
    let ?l3 = "snd (apply_events now ?pid APPLIED ?b xb applicable ?l2)"
    let ?ds = "filter (\<lambda>e. entry_session row < the (ev_ex_date e)) (dividend_events ?window)"
    let ?l4 = "snd (apply_events now ?pid DIVIDEND_OBSERVED ?b None ?ds ?l3)"
    have sub: "set reflected \<subseteq> set (split_events ?window)" "set applicable \<subseteq> set (split_events ?window)"
      using entry_side_sub [OF A(4)] by simp_all
    have ok: "\<forall>e \<in> set reflected. event_ok e" "\<forall>e \<in> set applicable. event_ok e" "\<forall>e \<in> set ?ds. event_ok e"
      using sub ev by (auto simp: split_events_def dividend_events_def)
    have late: "\<exists>ex. ev_ex_date e = Some ex \<and> entry_session row < ex" if "e \<in> set applicable" for e
    proof -
      have e: "e \<in> set ?window" "in_hold_window (entry_session row) ?upto e" "split_kind (ev_kind e)"
        using that sub(2) by (auto simp: split_events_def)
      then show ?thesis using window_dated [OF A(3) e(1,2)] by blast
    qed
    have p1: "position_by_id ?l1 ?pid = Some row" using row same_books_clear same_books_position by metis
    have p2: "position_by_id ?l2 ?pid = Some row" using p1 same_books_applies same_books_position by metis
    have p3: "position_by_id ?l3 ?pid = Some row" using p2 same_books_applies same_books_position by metis
    have "ledger_step sha sess l ?l1" by (rule ledger_step.unblock_action)
    moreover have "ledger_steps sha sess ?l1 ?l2" by (rule apply_events_steps [OF p1 row(2) ok(1)]) simp_all
    moreover have "ledger_steps sha sess ?l2 ?l3" by (rule apply_events_steps [OF p2 row(2) ok(2)]) (use late in auto)
    moreover have "ledger_steps sha sess ?l3 ?l4" by (rule apply_events_steps [OF p3 row(2) ok(3)]) simp_all
    ultimately have "ledger_steps sha sess l ?l4" by (meson converse_rtranclp_into_rtranclp rtranclp_trans)
    then show ?thesis by (simp add: assess_row_def Let_def Inr sides apply_evidence_def)
  qed
qed

lemma assess_steps:
  assumes "\<And>s a b f e. e \<in> set (ca_events (fetch s a b f)) \<Longrightarrow> event_ok e"
  shows "ledger_steps sha sess l (snd (assess_position fetch now pid as_of xb xs st settlement l))"
proof (cases "position_by_id l pid")
  case (Some row)
  then have "position_id row = pid" by (auto simp: position_by_id_def dest: row_by_Some)
  with Some assess_row_steps [OF _ _ assms] show ?thesis by (simp add: assess_position_def)
qed (simp add: assess_position_def)

section \<open>The economic effect of applying evidence\<close>

lemma apply_action_effect:
  fixes now e status eb xb
  assumes "position_by_id l pid = Some p"
  defines "l' \<equiv> snd (apply_position_action now pid e status eb xb l)"
  shows "trail_keys l' = insert (pid, ev_key e) (trail_keys l)"
    "effective_shares_exact l' pid = effective_shares_exact l pid *
       (if status = APPLIED \<and> (pid, ev_key e) \<notin> trail_keys l then event_ratio e else 1)"
    "set (position_action_trail l pid) \<subseteq> set (position_action_trail l' pid)"
    "\<forall>r \<in> set (position_action_trail l' pid). r \<in> set (position_action_trail l pid) \<or> tr_status r = status \<and> tr_key r = ev_key e"
    "fst (apply_position_action now pid e status eb xb l) \<longleftrightarrow> (pid, ev_key e) \<notin> trail_keys l"
    "(pid, ev_key e) \<in> trail_keys l \<Longrightarrow> trail l' = trail l"
proof -
  have "trail_keys l' = insert (pid, ev_key e) (trail_keys l) \<and>
    effective_shares_exact l' pid = effective_shares_exact l pid *
       (if status = APPLIED \<and> (pid, ev_key e) \<notin> trail_keys l then event_ratio e else 1) \<and>
    set (position_action_trail l pid) \<subseteq> set (position_action_trail l' pid) \<and>
    (\<forall>r \<in> set (position_action_trail l' pid). r \<in> set (position_action_trail l pid) \<or> tr_status r = status \<and> tr_key r = ev_key e) \<and>
    (fst (apply_position_action now pid e status eb xb l) \<longleftrightarrow> (pid, ev_key e) \<notin> trail_keys l) \<and>
    ((pid, ev_key e) \<in> trail_keys l \<longrightarrow> trail l' = trail l)"
  proof (cases rule: apply_action_cases [of l pid now e status eb xb])
    case known
    then show ?thesis by (auto simp: l'_def register_simps)
  next
    case (applied q)
    have "position_by_id (l'\<lparr> trail := t \<rparr>) pid = position_by_id l pid" for t
      by (simp add: l'_def applied(3) position_by_id_def register_simps)
    with applied show ?thesis
      by (auto simp: l'_def trail_keys_def effective_shares_exact_def position_action_trail_def position_by_id_def
          register_simps)
  qed (use assms(1) in simp)
  then show "trail_keys l' = insert (pid, ev_key e) (trail_keys l)"
    "effective_shares_exact l' pid = effective_shares_exact l pid *
       (if status = APPLIED \<and> (pid, ev_key e) \<notin> trail_keys l then event_ratio e else 1)"
    "set (position_action_trail l pid) \<subseteq> set (position_action_trail l' pid)"
    "\<forall>r \<in> set (position_action_trail l' pid). r \<in> set (position_action_trail l pid) \<or> tr_status r = status \<and> tr_key r = ev_key e"
    "fst (apply_position_action now pid e status eb xb l) \<longleftrightarrow> (pid, ev_key e) \<notin> trail_keys l"
    "(pid, ev_key e) \<in> trail_keys l \<Longrightarrow> trail l' = trail l"
    by blast+
qed

definition applied_factor :: "ledger \<Rightarrow> nat \<Rightarrow> trail_status \<Rightarrow> ca_event list \<Rightarrow> rat" where
  "applied_factor l pid status es =
     (if status = APPLIED then prod_list (map event_ratio (filter (\<lambda>e. (pid, ev_key e) \<notin> trail_keys l) es)) else 1)"

lemma apply_events_all:
  assumes "position_by_id l pid = Some p"
  shows "trail_keys (snd (apply_events now pid status eb xb es l)) = trail_keys l \<union> {(pid, ev_key e) | e. e \<in> set es}
    \<and> (\<forall>r \<in> set (position_action_trail (snd (apply_events now pid status eb xb es l)) pid).
         r \<in> set (position_action_trail l pid) \<or> tr_status r = status \<and> tr_key r \<in> ev_key ` set es)
    \<and> (distinct (map ev_key es) \<longrightarrow> effective_shares_exact (snd (apply_events now pid status eb xb es l)) pid
         = effective_shares_exact l pid * applied_factor l pid status es)
    \<and> ({(pid, ev_key e) | e. e \<in> set es} \<subseteq> trail_keys l \<longrightarrow>
         trail (snd (apply_events now pid status eb xb es l)) = trail l \<and> fst (apply_events now pid status eb xb es l) = [])"
  using assms
proof (induction es arbitrary: l)
  case (Cons e es)
  let ?m = "snd (apply_position_action now pid e status eb xb l)"
  have p: "position_by_id ?m pid = Some p"
    using Cons.prems same_books_apply same_books_position by metis
  note one = apply_action_effect [OF Cons.prems, where now = now and e = e and status = status and eb = eb and xb = xb] and rest = Cons.IH [OF p]
  have "applied_factor ?m pid status es = applied_factor l pid status es" if "ev_key e \<notin> ev_key ` set es"
  proof -
    have "filter (\<lambda>x. (pid, ev_key x) \<notin> trail_keys ?m) es = filter (\<lambda>x. (pid, ev_key x) \<notin> trail_keys l) es"
      unfolding one(1) using that by (intro filter_cong) (auto intro: rev_image_eqI)
    then show ?thesis unfolding applied_factor_def by metis
  qed
  then have "distinct (map ev_key (e # es)) \<longrightarrow>
      effective_shares_exact (snd (apply_events now pid status eb xb (e # es) l)) pid
        = effective_shares_exact l pid * applied_factor l pid status (e # es)"
    using rest one(2) by (auto simp: Let_def applied_factor_def)
  moreover have "trail (snd (apply_events now pid status eb xb (e # es) l)) = trail l
      \<and> fst (apply_events now pid status eb xb (e # es) l) = []"
    if "{(pid, ev_key x) | x. x \<in> set (e # es)} \<subseteq> trail_keys l"
  proof -
    have "(pid, ev_key e) \<in> trail_keys l" "{(pid, ev_key x) | x. x \<in> set es} \<subseteq> trail_keys ?m"
      using that one(1) by auto
    with one(5,6) rest show ?thesis by (simp add: Let_def)
  qed
  moreover have "trail_keys (snd (apply_events now pid status eb xb (e # es) l))
      = trail_keys l \<union> {(pid, ev_key x) | x. x \<in> set (e # es)}"
    using rest one(1) by (auto simp: Let_def)
  moreover have "\<forall>r \<in> set (position_action_trail (snd (apply_events now pid status eb xb (e # es) l)) pid).
      r \<in> set (position_action_trail l pid) \<or> tr_status r = status \<and> tr_key r \<in> ev_key ` set (e # es)"
    using rest one(4) by (fastforce simp: Let_def)
  ultimately show ?case by blast
qed (simp add: applied_factor_def)

lemmas apply_events_effect = apply_events_all [THEN conjunct1] apply_events_all [THEN conjunct2, THEN conjunct1]
  apply_events_all [THEN conjunct2, THEN conjunct2, THEN conjunct1, rule_format]
  apply_events_all [THEN conjunct2, THEN conjunct2, THEN conjunct2, rule_format]

lemma clear_effect:
  "effective_shares_exact (clear_blocked_action_rows pid l) pid' = effective_shares_exact l pid'"
  "set (position_action_trail (clear_blocked_action_rows pid l) pid) = {r \<in> set (position_action_trail l pid). \<not> is_blocked_row r}"
  "trail_keys (clear_blocked_action_rows pid l) \<subseteq> trail_keys l"
proof -
  have "\<not> (tr_position r = pid \<and> is_blocked_row r)" if "tr_status r = APPLIED" for r
    using that by (simp add: is_blocked_row_def)
  then show "effective_shares_exact (clear_blocked_action_rows pid l) pid' = effective_shares_exact l pid'"
    unfolding effective_shares_exact_def position_action_trail_def clear_blocked_action_rows_def position_by_id_def
    by (auto intro!: arg_cong [where f = "foldl _ _"] filter_cong)
qed (auto simp: position_action_trail_def clear_blocked_action_rows_def trail_keys_def)

section \<open>What an assessment concludes\<close>

text \<open>The evidence an assessment of \<open>row\<close> reads, as the code selects it.\<close>

definition assessed_window ::
    "(symbol \<Rightarrow> date \<Rightarrow> date \<Rightarrow> bool \<Rightarrow> ca_source_result) \<Rightarrow> position \<Rightarrow> date \<Rightarrow> date option \<Rightarrow> bool \<Rightarrow> ca_event list" where
  "assessed_window fetch row as_of xb settlement =
     filter (in_hold_window (entry_session row) (assess_end as_of xb settlement))
       (ca_events (fetch (p_symbol row) (entry_session row) (assess_end as_of xb settlement) settlement))"

definition assessed_conflicts ::
    "(symbol \<Rightarrow> date \<Rightarrow> date \<Rightarrow> bool \<Rightarrow> ca_source_result) \<Rightarrow> position \<Rightarrow> date \<Rightarrow> date option \<Rightarrow> bool \<Rightarrow> action_key list" where
  "assessed_conflicts fetch row as_of xb settlement =
     filter (\<lambda>c. conflict_in_window c (entry_session row) (assess_end as_of xb settlement))
       (ca_conflicts (fetch (p_symbol row) (entry_session row) (assess_end as_of xb settlement) settlement))"

lemma persist_block_not_ok: "settle_ok (fst (persist_block now pid st code key l)) \<longleftrightarrow> st = V_CLEAR \<or> st = V_ADJUSTED"
  by (simp add: persist_block_def settle_ok_def verdict_of_def)

lemma exit_side_status: "exit_side fill basis es = Some (st, code, key) \<Longrightarrow> st = V_BLOCK \<or> st = V_HOLD"
  by (induction es) (auto split: if_splits option.splits)

lemma assess_evidence_Inl:
  "assess_evidence res row rows end' fill xb st settlement = Inl (vs, code, key) \<Longrightarrow> vs = V_BLOCK \<or> vs = V_HOLD"
  by (auto simp: assess_evidence_def Let_def split: if_splits list.splits sum.splits option.splits prod.splits
      dest: exit_side_status)

text \<open>A settleable verdict on an open position went through the whole chain of checks.\<close>

lemma settle_okE:
  assumes "assess_position fetch now pid as_of xb xs st settlement l = (v, l')" "settle_ok v"
    and "position_by_id l pid = Some row" "p_status row = OPEN"
  obtains reflected applicable where
    "assess_evidence (fetch (p_symbol row) (entry_session row) (assess_end as_of xb settlement) settlement) row
       (position_action_trail l pid) (assess_end as_of xb settlement) (exit_fill as_of xs) xb st settlement
       = Inr (reflected, applicable)"
    "apply_evidence now pid (entry_session row) (parse_basis (entry_provenance row)) xb reflected applicable
       (dividend_events (assessed_window fetch row as_of xb settlement))
       (if settlement then eligible_dividends (entry_session row) (exit_fill as_of xs)
          (dividend_events (assessed_window fetch row as_of xb settlement)) else []) l = (v, l')"
proof -
  have pid: "position_id row = pid" using assms(3) by (auto simp: position_by_id_def dest: row_by_Some)
  let ?ev = "assess_evidence (fetch (p_symbol row) (entry_session row) (assess_end as_of xb settlement) settlement) row
       (position_action_trail l pid) (assess_end as_of xb settlement) (exit_fill as_of xs) xb st settlement"
  have body: "assess_row fetch now row as_of xb xs st settlement l = (v, l')"
    using assms(1,3,4) by (simp add: assess_position_def)
  show thesis
  proof (cases ?ev)
    case (Inl refusal)
    obtain vs code key where r: "refusal = (vs, code, key)" by (cases refusal)
    with body Inl pid have "v = fst (persist_block now pid vs code key l)" by (simp add: assess_row_def Let_def)
    with assms(2) assess_evidence_Inl [OF Inl [unfolded r]] show ?thesis by (auto simp: persist_block_not_ok)
  next
    case (Inr sides)
    obtain reflected applicable where "sides = (reflected, applicable)" by force
    then have A: "?ev = Inr (reflected, applicable)" using Inr by simp
    show ?thesis by (rule that [OF A])
      (use body A pid in \<open>cases settlement; simp add: assess_row_def Let_def assessed_window_def\<close>)
  qed
qed

lemma apply_evidence_verdict:
  assumes "apply_evidence now pid entry eb xb reflected applicable dividends eligible l = (v, l')"
  shows "v_dividends v = eligible" "v_effective v = Some (effective_shares_exact l' pid)"
    "v_status v = V_ADJUSTED \<longleftrightarrow> (\<exists>r \<in> set (position_action_trail l' pid). tr_status r = APPLIED)"
  using assms by (auto simp: apply_evidence_def Let_def list_ex_iff split: if_splits)

text \<open>The quantity after the evidence is applied: only the applicable splits not yet on the trail count.\<close>

lemma apply_evidence_effect:
  assumes "apply_evidence now pid entry eb xb reflected applicable dividends eligible l = (v, l')"
    and "position_by_id l pid = Some p" "distinct (map ev_key (reflected @ applicable @ dividends))"
  defines "l1 \<equiv> clear_blocked_action_rows pid l"
    and "ds \<equiv> filter (\<lambda>e. entry < the (ev_ex_date e)) dividends"
  shows "effective_shares_exact l' pid = effective_shares_exact l pid * applied_factor l1 pid APPLIED applicable"
    "trail_keys l' = trail_keys l1 \<union> {(pid, ev_key e) | e. e \<in> set (reflected @ applicable @ ds)}"
    "\<forall>r \<in> set (position_action_trail l' pid). \<not> is_blocked_row r \<and>
       (tr_status r = APPLIED \<longrightarrow> r \<in> set (position_action_trail l pid) \<or> tr_key r \<in> ev_key ` set applicable)"
    "{(pid, ev_key e) | e. e \<in> set (reflected @ applicable @ ds)} \<subseteq> trail_keys l1 \<Longrightarrow>
       trail l' = trail l1 \<and> v_applied v = []"
proof -
  let ?l2 = "snd (apply_events now pid REFLECTED_IN_ENTRY_BASIS eb None reflected l1)"
  let ?l3 = "snd (apply_events now pid APPLIED eb xb applicable ?l2)"
  have l': "l' = snd (apply_events now pid DIVIDEND_OBSERVED eb None ds ?l3)"
    and va: "v_applied v = fst (apply_events now pid APPLIED eb xb applicable ?l2)"
    using assms(1) by (auto simp: apply_evidence_def Let_def l1_def ds_def)
  have p1: "position_by_id l1 pid = Some p" unfolding l1_def using assms(2) same_books_clear same_books_position by metis
  have p2: "position_by_id ?l2 pid = Some p" using p1 same_books_applies same_books_position by metis
  have p3: "position_by_id ?l3 pid = Some p" using p2 same_books_applies same_books_position by metis
  note e1 = apply_events_effect [OF p1, where now = now and status = REFLECTED_IN_ENTRY_BASIS and eb = eb and xb = None and es = reflected]
    and e2 = apply_events_effect [OF p2, where now = now and status = APPLIED and eb = eb and xb = xb and es = applicable]
    and e3 = apply_events_effect [OF p3, where now = now and status = DIVIDEND_OBSERVED and eb = eb and xb = None and es = ds]
  have d: "distinct (map ev_key reflected)" "distinct (map ev_key applicable)" "distinct (map ev_key ds)"
    and apart: "ev_key ` set reflected \<inter> ev_key ` set applicable = {}"
    using assms(3) by (auto simp: ds_def distinct_map_filter)
  have "filter (\<lambda>e. (pid, ev_key e) \<notin> trail_keys ?l2) applicable = filter (\<lambda>e. (pid, ev_key e) \<notin> trail_keys l1) applicable"
    unfolding e1(1) using apart by (intro filter_cong) (auto intro: rev_image_eqI)
  then have "applied_factor ?l2 pid APPLIED applicable = applied_factor l1 pid APPLIED applicable"
    by (simp only: applied_factor_def)
  moreover have "applied_factor m pid REFLECTED_IN_ENTRY_BASIS es = 1" "applied_factor m pid DIVIDEND_OBSERVED es = 1" for m es
    by (simp_all add: applied_factor_def)
  ultimately show "effective_shares_exact l' pid = effective_shares_exact l pid * applied_factor l1 pid APPLIED applicable"
    unfolding l' e3(3) [OF d(3)] e2(3) [OF d(2)] e1(3) [OF d(1)] by (simp add: l1_def clear_effect(1))
  have "trail_keys l' = trail_keys l1 \<union> {(pid, ev_key e) | e. e \<in> set reflected}
      \<union> {(pid, ev_key e) | e. e \<in> set applicable} \<union> {(pid, ev_key e) | e. e \<in> set ds}"
    unfolding l' e3(1) e2(1) e1(1) ..
  then show "trail_keys l' = trail_keys l1 \<union> {(pid, ev_key e) | e. e \<in> set (reflected @ applicable @ ds)}"
    by auto
  show "\<forall>r \<in> set (position_action_trail l' pid). \<not> is_blocked_row r \<and>
       (tr_status r = APPLIED \<longrightarrow> r \<in> set (position_action_trail l pid) \<or> tr_key r \<in> ev_key ` set applicable)"
  proof
    fix r assume "r \<in> set (position_action_trail l' pid)"
    then have "r \<in> set (position_action_trail l1 pid) \<or> tr_status r = REFLECTED_IN_ENTRY_BASIS
        \<or> tr_status r = APPLIED \<and> tr_key r \<in> ev_key ` set applicable \<or> tr_status r = DIVIDEND_OBSERVED"
      unfolding l' using e1(2) e2(2) e3(2) by blast
    moreover have "r \<in> set (position_action_trail l pid) \<and> \<not> is_blocked_row r"
      if "r \<in> set (position_action_trail l1 pid)" using that clear_effect(2) [of pid l] by (simp add: l1_def)
    ultimately show "\<not> is_blocked_row r \<and>
       (tr_status r = APPLIED \<longrightarrow> r \<in> set (position_action_trail l pid) \<or> tr_key r \<in> ev_key ` set applicable)"
      by (elim disjE) (simp_all add: is_blocked_row_def)
  qed
  show "trail l' = trail l1 \<and> v_applied v = []"
    if "{(pid, ev_key e) | e. e \<in> set (reflected @ applicable @ ds)} \<subseteq> trail_keys l1"
  proof -
    have sub: "{(pid, ev_key e) | e. e \<in> set reflected} \<subseteq> trail_keys l1"
      "{(pid, ev_key e) | e. e \<in> set applicable} \<subseteq> trail_keys l1" "{(pid, ev_key e) | e. e \<in> set ds} \<subseteq> trail_keys l1"
      using that by auto
    have t2: "trail ?l2 = trail l1" using e1(4) [OF sub(1)] by simp
    then have k2: "trail_keys ?l2 = trail_keys l1" by (simp add: trail_keys_def)
    have t3: "trail ?l3 = trail ?l2 \<and> v_applied v = []" unfolding va by (rule e2(4)) (use sub(2) k2 in simp)
    then have k3: "trail_keys ?l3 = trail_keys l1" using t2 by (simp add: trail_keys_def)
    have "trail l' = trail ?l3" unfolding l' by (rule e3(4) [THEN conjunct1]) (use sub(3) k3 in simp)
    with t2 t3 show ?thesis by simp
  qed
qed

section \<open>Properties of the guard\<close>

lemma assess_evidence_rows:
  assumes "assess_evidence res row rows end' fill xb st settlement = Inr sides"
    and "\<forall>r \<in> set rows'. tr_status r = APPLIED \<longrightarrow>
      tr_key r \<in> ev_key ` set (split_events (filter (in_hold_window (entry_session row) end') (ca_events res)))"
  shows "assess_evidence res row rows' end' fill xb st settlement = Inr sides"
proof -
  have none: "\<not> list_ex (\<lambda>r. tr_status r = APPLIED \<and> tr_key r \<notin>
      ev_key ` set (split_events (filter (in_hold_window (entry_session row) end') (ca_events res)))) rows'"
    using assms(2) by (auto simp: list_ex_iff)
  show ?thesis using assms(1) none unfolding assess_evidence_def Let_def
    by (simp split: if_splits list.splits sum.splits option.splits prod.splits)
qed

lemma split_dividend_keys:
  assumes "distinct (map ev_key es)" "entry_side basis (split_events es) = Inr (reflected, applicable)"
  shows "distinct (map ev_key (reflected @ applicable @ dividend_events es))"
proof -
  have inj: "inj_on ev_key (set es)" and d: "distinct es" using assms(1) by (auto simp: distinct_map)
  have "reflected @ applicable @ dividend_events es = [] @ [] @ dividend_events es \<or>
    (\<exists>b. reflected = filter (\<lambda>e. the (ev_ex_date e) < b) (split_events es)
       \<and> applicable = filter (\<lambda>e. b < the (ev_ex_date e)) (split_events es))"
    using entry_side_Inr [OF assms(2)] by auto
  then have "set (reflected @ applicable @ dividend_events es) \<subseteq> set es \<and> distinct (reflected @ applicable @ dividend_events es)"
    using d by (auto simp: split_events_def dividend_events_def split_kind_def)
  then show ?thesis unfolding distinct_map using inj_on_subset [OF inj] by blast
qed

text \<open>
  Assessing a position never moves money: whatever the evidence, the cash, the positions, the
  trades, the dispositions, the intents, the outbox, the receivables, the cooldowns and the blocks
  are as before; only the corporate-action registry and trail may change.
\<close>

theorem assessment_moves_no_money:
  "same_books l (snd (assess_position fetch now pid as_of exit_basis exit_session exit_state settlement l))"
  by (rule same_books_assess)

text \<open>
  C33. The guard fails closed.  It lets an open position settle only when every source answered, no
  conflict touches the hold window, no unsupported, malformed or undated event is in it (a dividend
  dated after the exit fill aside), every split in it is provably on one side of the entry price basis,
  every split applied earlier is still reported, and a split after the exit fill is provably in the
  exit price.
\<close>

theorem settleable_evidence_is_clean:
  assumes "assess_position fetch now pid as_of exit_basis exit_session exit_state settlement l = (v, l')" "settle_ok v"
    and "position_by_id l pid = Some row" "p_status row = OPEN"
  defines "window \<equiv> assessed_window fetch row as_of exit_basis settlement"
  shows "ca_ok (fetch (p_symbol row) (entry_session row) (assess_end as_of exit_basis settlement) settlement)
     \<and> assessed_conflicts fetch row as_of exit_basis settlement = []
     \<and> (\<forall>e \<in> set window. \<not> bad_event (if settlement then Some (exit_fill as_of exit_session) else None) e)
     \<and> (\<forall>e \<in> set (split_events window). \<exists>b. parse_basis (entry_provenance row) = Some b \<and> the (ev_ex_date e) \<noteq> b)
     \<and> (\<forall>r \<in> set (position_action_trail l pid). tr_status r = APPLIED \<longrightarrow> tr_key r \<in> ev_key ` set (split_events window))
     \<and> (settlement \<longrightarrow> (\<forall>e \<in> set (split_events window). exit_fill as_of exit_session < the (ev_ex_date e) \<longrightarrow>
          (\<exists>b. exit_basis = Some b \<and> the (ev_ex_date e) < b)))"
proof -
  obtain reflected applicable where
    "assess_evidence (fetch (p_symbol row) (entry_session row) (assess_end as_of exit_basis settlement) settlement) row
       (position_action_trail l pid) (assess_end as_of exit_basis settlement) (exit_fill as_of exit_session)
       exit_basis exit_state settlement = Inr (reflected, applicable)"
    by (rule settle_okE [OF assms(1-4)])
  note A = assess_evidence_Inr [OF this, folded assessed_window_def [of fetch row as_of exit_basis settlement] window_def]
  have "\<forall>e \<in> set (split_events window). \<exists>b. parse_basis (entry_provenance row) = Some b \<and> the (ev_ex_date e) \<noteq> b"
    using entry_side_Inr [OF A(4)] by auto
  moreover have "assessed_conflicts fetch row as_of exit_basis settlement = []"
    using A(2) by (auto simp: assessed_conflicts_def filter_empty_conv)
  moreover have "\<exists>b. exit_basis = Some b \<and> the (ev_ex_date e) < b"
    if "settlement" "e \<in> set (split_events window)" "exit_fill as_of exit_session < the (ev_ex_date e)" for e
    using exit_side_None [OF A(6)] that by blast
  ultimately show ?thesis using A(1,3,5) by blast
qed

text \<open>
  C34. A split counts exactly once.  The first settleable assessment of a position multiplies its entry
  quantity by the ratios of exactly the splits after the entry price basis; assessing again on the same
  evidence applies nothing, adds no trail row and leaves that quantity.
\<close>

theorem splits_count_exactly_once:
  assumes "assess_position fetch now pid as_of exit_basis exit_session exit_state settlement l = (v, l')" "settle_ok v"
    and "position_by_id l pid = Some row" "p_status row = OPEN" "position_action_trail l pid = []"
    and "distinct (map ev_key (assessed_window fetch row as_of exit_basis settlement))"
    and "assess_position fetch now' pid as_of exit_basis exit_session exit_state settlement l' = (v2, l2)"
  shows "effective_shares_exact l' pid = repr_dec (p_shares row) *
       prod_list (map event_ratio (filter (\<lambda>e. \<exists>b. parse_basis (entry_provenance row) = Some b \<and> b < the (ev_ex_date e))
         (split_events (assessed_window fetch row as_of exit_basis settlement))))
     \<and> effective_shares_exact l2 pid = effective_shares_exact l' pid \<and> v_applied v2 = [] \<and> trail l2 = trail l'"
proof -
  let ?w = "assessed_window fetch row as_of exit_basis settlement" and ?b = "parse_basis (entry_provenance row)"
  let ?el = "if settlement then eligible_dividends (entry_session row) (exit_fill as_of exit_session) (dividend_events ?w) else []"
  obtain reflected applicable where E:
    "assess_evidence (fetch (p_symbol row) (entry_session row) (assess_end as_of exit_basis settlement) settlement) row
       (position_action_trail l pid) (assess_end as_of exit_basis settlement) (exit_fill as_of exit_session)
       exit_basis exit_state settlement = Inr (reflected, applicable)"
    and ap: "apply_evidence now pid (entry_session row) ?b exit_basis reflected applicable (dividend_events ?w) ?el l = (v, l')"
    by (rule settle_okE [OF assms(1-4)])
  note A = assess_evidence_Inr [OF E, folded assessed_window_def [of fetch row as_of exit_basis settlement]]
  note keys = split_dividend_keys [OF assms(6) A(4)] and app = entry_side_Inr [OF A(4)]
  note eff = apply_evidence_effect [OF ap assms(3) keys]
  have pid: "position_id row = pid" using assms(3) by (auto simp: position_by_id_def dest: row_by_Some)
  have "trail_keys l \<inter> {pid} \<times> UNIV = {}"
    using assms(5) by (auto simp: trail_keys_def position_action_trail_def filter_empty_conv)
  moreover have "trail_keys (clear_blocked_action_rows pid l) \<subseteq> trail_keys l"
    by (auto simp: trail_keys_def clear_blocked_action_rows_def)
  ultimately have "trail_keys (clear_blocked_action_rows pid l) \<inter> {pid} \<times> UNIV = {}" by blast
  then have "applied_factor (clear_blocked_action_rows pid l) pid APPLIED applicable = prod_list (map event_ratio applicable)"
    unfolding applied_factor_def by (subst filter_True) auto
  moreover have "effective_shares_exact l pid = repr_dec (p_shares row)"
    using assms(3,5) by (simp add: effective_shares_exact_def)
  moreover have "applicable = filter (\<lambda>e. \<exists>b. ?b = Some b \<and> b < the (ev_ex_date e)) (split_events ?w)"
    using app by auto
  ultimately have first: "effective_shares_exact l' pid = repr_dec (p_shares row) *
      prod_list (map event_ratio (filter (\<lambda>e. \<exists>b. ?b = Some b \<and> b < the (ev_ex_date e)) (split_events ?w)))"
    using eff(1) by simp
  have row': "position_by_id l' pid = Some row"
    using assms(3) same_books_evidence [of l now pid] ap same_books_position by (metis snd_conv)
  have "\<forall>r \<in> set (position_action_trail l' pid). tr_status r = APPLIED \<longrightarrow> tr_key r \<in> ev_key ` set (split_events ?w)"
    using eff(3) A(5) entry_side_sub [OF A(4)] by blast
  from assess_evidence_rows [OF E this [unfolded assessed_window_def]]
  have ap2: "apply_evidence now' pid (entry_session row) ?b exit_basis reflected applicable (dividend_events ?w) ?el l' = (v2, l2)"
    using assms(4,7) row' pid by (cases settlement; simp add: assess_position_def assess_row_def Let_def assessed_window_def)
  have clear: "clear_blocked_action_rows pid l' = l'"
  proof -
    have "filter (\<lambda>r. \<not> (tr_position r = pid \<and> is_blocked_row r)) (trail l') = trail l'"
      using eff(3) by (intro filter_True) (auto simp: position_action_trail_def)
    then show ?thesis by (simp add: clear_blocked_action_rows_def)
  qed
  note eff2 = apply_evidence_effect [OF ap2 row' keys, unfolded clear]
  have t2: "trail l2 = trail l' \<and> v_applied v2 = []" by (rule eff2(4)) (use eff(2) in auto)
  have "position_by_id l2 = position_by_id l'"
    using same_books_evidence [of l' now' pid] ap2 by (metis ext same_books_position snd_conv)
  with t2 have "effective_shares_exact l2 pid = effective_shares_exact l' pid"
    by (simp add: effective_shares_exact_def position_action_trail_def)
  with first t2 show ?thesis by simp
qed

text \<open>
  A settleable settlement accrues exactly the cash dividends of the hold: those whose ex-date is
  after the entry session and not after the exit fill.  When there is one, the entry price and the exit
  price are both proved not to be dividend-adjusted, and no split falls on a dividend's ex-date.
\<close>

theorem dividends_accrue_only_on_proved_prices:
  assumes "assess_position fetch now pid as_of exit_basis exit_session exit_state True l = (v, l')" "settle_ok v"
    and "position_by_id l pid = Some row" "p_status row = OPEN"
  defines "window \<equiv> assessed_window fetch row as_of exit_basis True"
  shows "v_dividends v = filter (\<lambda>e. entry_session row < the (ev_ex_date e)
         \<and> the (ev_ex_date e) \<le> exit_fill as_of exit_session) (dividend_events window)
     \<and> (v_dividends v \<noteq> [] \<longrightarrow> safe_basis (parse_adjustment_state (entry_provenance row)) \<and> safe_basis exit_state
         \<and> (\<forall>d \<in> set (v_dividends v). \<forall>s \<in> set (split_events window). ev_ex_date s \<noteq> ev_ex_date d))"
proof -
  let ?el = "eligible_dividends (entry_session row) (exit_fill as_of exit_session) (dividend_events window)"
  obtain reflected applicable where
    E: "assess_evidence (fetch (p_symbol row) (entry_session row) (assess_end as_of exit_basis True) True) row
       (position_action_trail l pid) (assess_end as_of exit_basis True) (exit_fill as_of exit_session)
       exit_basis exit_state True = Inr (reflected, applicable)"
    and ap: "apply_evidence now pid (entry_session row) (parse_basis (entry_provenance row)) exit_basis reflected applicable
       (dividend_events window) (if True then ?el else []) l = (v, l')"
    unfolding window_def by (rule settle_okE [OF assms(1-4)])
  have d: "v_dividends v = ?el" using ap by (auto simp: apply_evidence_def Let_def)
  have "dividend_obstacle (parse_adjustment_state (entry_provenance row)) exit_state (split_events window) ?el = None"
    using assess_evidence_Inr(7) [OF E, folded assessed_window_def [of fetch row as_of exit_basis True] window_def] by simp
  then have "?el \<noteq> [] \<longrightarrow> safe_basis (parse_adjustment_state (entry_provenance row)) \<and> safe_basis exit_state
      \<and> (\<forall>d \<in> set ?el. \<forall>s \<in> set (split_events window). ev_ex_date s \<noteq> ev_ex_date d)"
    by (auto simp: dividend_obstacle_def find_None_iff list_ex_iff split: list.splits if_splits)
  with d show ?thesis by (simp add: eligible_dividends_def)
qed

text \<open>
  The evidence cache is safe.  A settlement's fetch always asks the sources, an outage is never
  cached, and a cached answer is returned only while it is younger than the time to live.
\<close>

theorem evidence_cache_is_safe:
  assumes "guard_fetch render sources clock sy start end' fresh g = (res, g')" "\<forall>hit \<in> ran (gd_cache g). ca_ok (snd hit)"
  shows "(\<forall>hit \<in> ran (gd_cache g'). ca_ok (snd hit))
     \<and> (fresh \<longrightarrow> res = combine_sources render (sources sy start end'))
     \<and> (res = combine_sources render (sources sy start end') \<or>
        (\<exists>t. gd_cache g (upper sy, start, end') = Some (t, res) \<and> fl (clock - t) < gd_ttl g \<and> ca_ok res \<and> g' = g))"
proof -
  let ?k = "(upper sy, start, end')" and ?res = "combine_sources render (sources sy start end')"
  have upd: "\<forall>hit \<in> ran ((gd_cache g)(?k \<mapsto> (clock, ?res))). ca_ok (snd hit)" if "ca_ok ?res"
  proof
    fix hit assume "hit \<in> ran ((gd_cache g)(?k \<mapsto> (clock, ?res)))"
    then obtain k where "((gd_cache g)(?k \<mapsto> (clock, ?res))) k = Some hit" by (auto simp: ran_def)
    then show "ca_ok (snd hit)" using that assms(2) by (cases "k = ?k") (auto dest: ranI)
  qed
  consider "res = ?res" "\<forall>hit \<in> ran (gd_cache g'). ca_ok (snd hit)"
    | t where "\<not> fresh" "gd_cache g ?k = Some (t, res)" "fl (clock - t) < gd_ttl g" "g' = g"
    using assms(1) upd assms(2) unfolding guard_fetch_def Let_def
    by (cases "gd_cache g ?k") (fastforce split: if_splits)+
  then show ?thesis
  proof cases
    case 2
    from 2(2) have "(t, res) \<in> ran (gd_cache g)" by (rule ranI)
    with assms(2) have "ca_ok res" by fastforce
    with 2 assms(2) show ?thesis by blast
  qed simp
qed

section \<open>Examples\<close>

definition guard_split :: provider_record where
  "guard_split = \<lparr> rec_id = ''S1'', rec_ex_date = Some 115, rec_effective_date = None, rec_process_date = None,
     rec_new_rate = Some 2, rec_old_rate = Some 1, rec_rate = None, rec_special = False, rec_foreign = False,
     rec_payable_date = None, rec_record_date = None \<rparr>"

definition demo_dividend :: provider_record where
  "demo_dividend = \<lparr> rec_id = ''D1'', rec_ex_date = Some 117, rec_effective_date = None, rec_process_date = None,
     rec_new_rate = None, rec_old_rate = None, rec_rate = Some (1/2), rec_special = False, rec_foreign = False,
     rec_payable_date = Some 122, rec_record_date = None \<rparr>"

definition demo_render :: "action_key \<Rightarrow> string" where
  "demo_render k = []"

definition demo_fetch :: "symbol \<Rightarrow> date \<Rightarrow> date \<Rightarrow> bool \<Rightarrow> ca_source_result" where
  "demo_fetch sy start end' fresh = finalize_events demo_render ''alpaca''
     [classify_alpaca_record sy ''forward_splits'' guard_split ''alpaca'' 1,
      classify_alpaca_record sy ''cash_dividends'' demo_dividend ''alpaca'' 1]"

definition demo_priced :: position where
  "demo_priced = demo_position\<lparr> entry_provenance :=
     Some \<lparr> pp_field = ''open'', basis_as_of = Some 110, adjustment_state = Some ''RAW'' \<rparr> \<rparr>"

definition demo_priced_ledger :: ledger where
  "demo_priced_ledger = demo_held\<lparr> positions := [demo_priced] \<rparr>"

definition demo_assessed :: "verdict \<times> ledger" where
  "demo_assessed = assess_position demo_fetch 5 1 120 (Some 120) (Some 120) (Some ''RAW'') True demo_priced_ledger"

lemma demo_assessed_facts:
  "settle_ok (fst demo_assessed)" "length (v_dividends (fst demo_assessed)) = 1"
  "effective_shares_exact (snd demo_assessed) 1 = 6"
  by code_simp+

lemma demo_priced_facts:
  "position_by_id demo_priced_ledger 1 = Some demo_priced" "p_status demo_priced = OPEN"
  "position_action_trail demo_priced_ledger 1 = []"
  "distinct (map ev_key (assessed_window demo_fetch demo_priced 120 (Some 120) True))"
  by code_simp+

lemma demo_assessed_eq:
  "assess_position demo_fetch 5 1 120 (Some 120) (Some 120) (Some ''RAW'') True demo_priced_ledger
     = (fst demo_assessed, snd demo_assessed)"
  by (simp add: demo_assessed_def)

lemma settleable_evidence_is_clean_witness:
  "110 \<notin> (\<lambda>e. the (ev_ex_date e)) ` set (split_events (assessed_window demo_fetch demo_priced 120 (Some 120) True))"
  using settleable_evidence_is_clean [OF demo_assessed_eq demo_assessed_facts(1) demo_priced_facts(1,2)]
  by (auto simp: demo_priced_def parse_basis_def)

lemma splits_count_exactly_once_witness:
  "trail (snd (assess_position demo_fetch 9 1 120 (Some 120) (Some 120) (Some ''RAW'') True (snd demo_assessed)))
     = trail (snd demo_assessed)"
  using splits_count_exactly_once [OF demo_assessed_eq demo_assessed_facts(1) demo_priced_facts surjective_pairing]
  by blast

lemma dividends_accrue_only_on_proved_prices_witness:
  "length (v_dividends (fst demo_assessed)) = 1 \<and> safe_basis (parse_adjustment_state (entry_provenance demo_priced))"
  using dividends_accrue_only_on_proved_prices [OF demo_assessed_eq demo_assessed_facts(1) demo_priced_facts(1,2)]
    demo_assessed_facts(2) by auto

lemma evidence_cache_is_safe_witness:
  "fst (guard_fetch demo_render (\<lambda>sy a b. [demo_fetch sy a b True]) 10 ''acme'' 110 120 True
     \<lparr> gd_ttl = 60, gd_cache = Map.empty \<rparr>) = combine_sources demo_render [demo_fetch ''acme'' 110 120 True]"
  using evidence_cache_is_safe [OF surjective_pairing,
      where g = "\<lparr> gd_ttl = 60, gd_cache = Map.empty \<rparr>" and fresh = True] by (simp add: ran_def)

end
