(* ===== verification/V2_Pipeline.thy ===== *)
theory V2_Pipeline
  imports V2_Guard "HOL-Library.Product_Lexorder"
begin

text \<open>
  \<open>talonx_v2/pipeline.py\<close>: one episode from detection to entry, the corporate-action sweep, the
  settlement of the due exits and the offline replay.  \<open>bars_lookup\<close> and \<open>price_lookup\<close> are the injected
  callables; a price row carries finite prices (what the CSV loader and the resolver deliver), a missing
  one is \<open>None\<close>.  A function that can raise half-way returns what it had done by then, with the exception.
\<close>

section \<open>Rows and results\<close>

record price_row =
  px_open :: "pyfloat option"
  px_close :: "money option"
  px_provenance :: "price_provenance option"

datatype process_reason =
    ALREADY_PROCESSED | LIQUIDITY_FAILED liq_reason | NO_ENTRY_BAR_REASON | REFUSED entry_reason
  | EXIT_UNRESOLVED_REASON | EXIT_BAR_PENDING_FALLFORWARD | EXIT_HOLD_CORPORATE_ACTION | ALREADY_SETTLED

record entry_record =
  er_ep :: string
  er_sym :: symbol
  er_session :: date
  er_price :: pyfloat
  er_shares :: "money option"
  er_target :: "date option"

record exit_record =
  xr_ep :: string
  xr_sym :: symbol
  xr_session :: date
  xr_price :: money
  xr_pnl_usd :: money
  xr_pnl_pct :: money
  xr_days_held :: int

record process_result =
  pr_detected :: nat
  pr_signals :: nat
  pr_entries :: "entry_record list"
  pr_exits :: "exit_record list"
  pr_skipped :: "(string \<times> process_reason) list"
  pr_alerts :: "(v2_action \<times> symbol) list"

definition empty_result :: process_result where
  "empty_result = \<lparr> pr_detected = 0, pr_signals = 0, pr_entries = [], pr_exits = [], pr_skipped = [], pr_alerts = [] \<rparr>"

definition skip_result :: "string \<Rightarrow> process_reason \<Rightarrow> process_result \<Rightarrow> process_result" where
  "skip_result eid why res = res\<lparr> pr_skipped := pr_skipped res @ [(eid, why)] \<rparr>"

text \<open>\<open>_field_provenance\<close> and \<open>_basis_of\<close>.\<close>

definition field_provenance :: "price_row \<Rightarrow> string \<Rightarrow> price_provenance option" where
  "field_provenance px field = map_option (\<lambda>p. p\<lparr> pp_field := field \<rparr>) (px_provenance px)"

definition basis_of :: "price_row \<Rightarrow> date option" where
  "basis_of px = Option.bind (px_provenance px) basis_as_of"

text \<open>\<open>not px or not px.get("open")\<close>: absent, \<open>None\<close> or zero; NaN and negative numbers are truthy.\<close>

definition usable_open :: "price_row option \<Rightarrow> pyfloat option" where
  "usable_open px = (case Option.bind px px_open of Some p \<Rightarrow> if p = Finite 0 then None else Some p | None \<Rightarrow> None)"

definition usable_close :: "price_row option \<Rightarrow> money option" where
  "usable_close px = (case Option.bind px px_close of Some c \<Rightarrow> if c = 0 then None else Some c | None \<Rightarrow> None)"

section \<open>Entry\<close>

definition already_processed :: "ledger \<Rightarrow> string \<Rightarrow> bool" where
  "already_processed l eid \<longleftrightarrow> episode_disposition l eid = Some ENTERED
     \<or> episode_disposition l eid = Some (SKIPPED ENTRY_STALE) \<or> position_for_episode l eid \<noteq> None"

text \<open>\<open>process_episode\<close>; an exception leaves the result object as it was and the ledger unchanged.\<close>

definition process_episode ::
    "date list \<Rightarrow> v2_config \<Rightarrow> (symbol \<Rightarrow> daily_bar list) \<Rightarrow> (symbol \<Rightarrow> date \<Rightarrow> price_row option) \<Rightarrow> bool \<Rightarrow> stamp
       \<Rightarrow> cluster_episode \<Rightarrow> process_result \<Rightarrow> ledger \<Rightarrow> process_result \<times> ledger result" where
  "process_episode sess cfg bars_lookup price_lookup strict now ep res l =
     (let eid = episode_id ep; sy = ep_symbol ep; es = eligible_entry_session ep
      in if already_processed l eid then (skip_result eid ALREADY_PROCESSED res, Inr l)
         else case evaluate_liquidity_checked sess cfg (bars_lookup sy) es strict of
           Inl err \<Rightarrow> (res, Inl err)
         | Inr liq \<Rightarrow>
             let d = contextualize (build_signal cfg ep liq); res1 = res\<lparr> pr_signals := Suc (pr_signals res) \<rparr>
             in if d_action d \<noteq> BUY
                then (skip_result eid (LIQUIDITY_FAILED (liq_reason liq)) res1,
                      Inr (record_disposition now eid sy (SKIPPED (if liq_ok liq then NON_BUY else LIQUIDITY (liq_reason liq)))
                             (ep_issuer_cik ep) None (Some es) l))
                else case usable_open (price_lookup sy es) of
                  None \<Rightarrow> (skip_result eid NO_ENTRY_BAR_REASON res1,
                           Inr (record_disposition now eid sy (SKIPPED NO_ENTRY_BAR) (ep_issuer_cik ep) None (Some es) l))
                | Some p \<Rightarrow>
                    (case enter_position sess cfg zero_fee now d (Some p) es (ep_issuer_cik ep)
                            (Option.bind (price_lookup sy es) (\<lambda>px. field_provenance px ''open'')) l of
                       Inl err \<Rightarrow> (res1, Inl err)
                     | Inr (out, l') \<Rightarrow>
                         if \<not> eo_entered out then (skip_result eid (REFUSED (eo_reason out)) res1, Inr l')
                         else (res1\<lparr> pr_entries := pr_entries res1 @ [\<lparr> er_ep = eid, er_sym = sy, er_session = es,
                                       er_price = p, er_shares = eo_shares out, er_target = eo_target_exit out \<rparr>],
                                     pr_alerts := pr_alerts res1 @ [(BUY, sy)] \<rparr>, Inr l')))"

section \<open>The sweep\<close>

definition sweep_corporate_actions ::
    "(symbol \<Rightarrow> date \<Rightarrow> date \<Rightarrow> bool \<Rightarrow> ca_source_result) \<Rightarrow> stamp \<Rightarrow> date \<Rightarrow> ledger \<Rightarrow> verdict list \<times> ledger" where
  "sweep_corporate_actions fetch now as_of l =
     fold (\<lambda>p (vs, s). let r = assess_position fetch now (position_id p) as_of None None None False s
                      in (vs @ [fst r], snd r)) (open_positions l) ([], l)"

section \<open>Exit\<close>

text \<open>The data-availability fall-forward: the first close in the sessions \<open>target + k\<close> that have happened.\<close>

fun fall_forward ::
    "date list \<Rightarrow> (date \<Rightarrow> price_row option) \<Rightarrow> date \<Rightarrow> date \<Rightarrow> nat list \<Rightarrow> (price_row \<times> money \<times> date) option result" where
  "fall_forward sess lookup target as_of [] = Inr None"
| "fall_forward sess lookup target as_of (k # ks) =
     bindR (add_sessions sess target (int k)) (\<lambda>nxt.
       if as_of < nxt then Inr None
       else case (lookup nxt, usable_close (lookup nxt)) of
              (Some px, Some c) \<Rightarrow> Inr (Some (px, c, nxt))
            | _ \<Rightarrow> fall_forward sess lookup target as_of ks)"

definition exit_price ::
    "date list \<Rightarrow> v2_config \<Rightarrow> (date \<Rightarrow> price_row option) \<Rightarrow> date \<Rightarrow> date \<Rightarrow> (price_row \<times> money \<times> date) option result" where
  "exit_price sess cfg lookup target as_of =
     (case (lookup target, usable_close (lookup target)) of
        (Some px, Some c) \<Rightarrow> Inr (Some (px, c, target))
      | _ \<Rightarrow> fall_forward sess lookup target as_of [1..<Suc (nat (exit_fallforward_max_sessions cfg))])"

text \<open>\<open>as_of >= last_ff\<close>: the fall-forward window is over.\<close>

definition window_over :: "date list \<Rightarrow> v2_config \<Rightarrow> date \<Rightarrow> date \<Rightarrow> bool result" where
  "window_over sess cfg target as_of =
     bindR (add_sessions sess target (exit_fallforward_max_sessions cfg)) (\<lambda>last_ff. Inr (last_ff \<le> as_of))"

definition unresolve ::
    "(string \<Rightarrow> string) \<Rightarrow> stamp \<Rightarrow> position \<Rightarrow> process_result \<Rightarrow> ledger \<Rightarrow> (process_result \<times> ledger) result" where
  "unresolve sha now p res l =
     bindR (mark_exit_unresolved sha now (position_id p) [] l)
       (\<lambda>l'. Inr (skip_result (p_episode p) EXIT_UNRESOLVED_REASON res, l'))"

text \<open>The close of a position whose evidence allows it.\<close>

definition close_due ::
    "(string \<Rightarrow> string) \<Rightarrow> date list \<Rightarrow> v2_config \<Rightarrow> stamp \<Rightarrow> position \<Rightarrow> price_row \<times> money \<times> date \<Rightarrow> ca_event list
       \<Rightarrow> process_result \<Rightarrow> ledger \<Rightarrow> (process_result \<times> ledger) result" where
  "close_due sha sess cfg now p price divs res l =
     (case price of (px, c, session) \<Rightarrow>
        bindR (close_position sess cfg zero_fee now p c session (field_provenance px ''close'') divs l) (\<lambda>(out, l').
          if \<not> xo_settled out \<and> xo_blocked out \<noteq> None then unresolve sha now p res l'
          else if \<not> xo_settled out then Inr (skip_result (p_episode p) ALREADY_SETTLED res, l')
          else Inr (res\<lparr> pr_exits := pr_exits res @ [\<lparr> xr_ep = p_episode p, xr_sym = p_symbol p, xr_session = session,
                          xr_price = c, xr_pnl_usd = xo_pnl_usd out, xr_pnl_pct = xo_pnl_pct out,
                          xr_days_held = xo_days_held out \<rparr>],
                        pr_alerts := pr_alerts res @ [(SELL, p_symbol p)] \<rparr>, l')))"

text \<open>
  One due position.  \<open>guard\<close> is the evidence fetch of the corporate-action guard, \<open>None\<close> for a replay.
  The assessment commits before the settlement, so its writes stay when what follows raises.
\<close>

definition settle_due_position ::
    "(string \<Rightarrow> string) \<Rightarrow> date list \<Rightarrow> v2_config \<Rightarrow> (symbol \<Rightarrow> date \<Rightarrow> price_row option)
       \<Rightarrow> (symbol \<Rightarrow> date \<Rightarrow> date \<Rightarrow> bool \<Rightarrow> ca_source_result) option \<Rightarrow> stamp \<Rightarrow> date \<Rightarrow> position
       \<Rightarrow> process_result \<Rightarrow> ledger \<Rightarrow> ledger \<times> (process_result \<times> ledger) result" where
  "settle_due_position sha sess cfg price_lookup guard now as_of p res l =
     (let target = target_exit_session p; hold = (\<lambda>why. Inr (skip_result (p_episode p) why res, l))
      in case exit_price sess cfg (price_lookup (p_symbol p)) target as_of of
           Inl err \<Rightarrow> (l, Inl err)
         | Inr None \<Rightarrow>
             (l, bindR (window_over sess cfg target as_of) (\<lambda>over.
                if over then unresolve sha now p res l else hold EXIT_BAR_PENDING_FALLFORWARD))
         | Inr (Some (px, c, session)) \<Rightarrow>
             (case guard of
                None \<Rightarrow> (l, close_due sha sess cfg now p (px, c, session) [] res l)
              | Some fetch \<Rightarrow>
                  (case assess_position fetch now (position_id p) as_of (basis_of px) (Some session)
                          (parse_adjustment_state (px_provenance px)) True l of
                     (v, l1) \<Rightarrow>
                       (l1, if settle_ok v then close_due sha sess cfg now p (px, c, session) (v_dividends v) res l1
                            else bindR (window_over sess cfg target as_of) (\<lambda>over.
                                   if v_status v = V_BLOCK \<or> over then unresolve sha now p res l1
                                   else Inr (skip_result (p_episode p) EXIT_HOLD_CORPORATE_ACTION res, l1))))))"

text \<open>The loop stops at the first exception and keeps what was committed before it.\<close>

fun settle_due_list ::
    "(position \<Rightarrow> process_result \<Rightarrow> ledger \<Rightarrow> ledger \<times> (process_result \<times> ledger) result) \<Rightarrow> position list
       \<Rightarrow> process_result \<Rightarrow> ledger \<Rightarrow> py_error option \<times> process_result \<times> ledger" where
  "settle_due_list f [] res l = (None, res, l)"
| "settle_due_list f (p # ps) res l =
     (case f p res l of
        (l1, Inl err) \<Rightarrow> (Some err, res, l1)
      | (l1, Inr (res', l')) \<Rightarrow> settle_due_list f ps res' l')"

definition settle_due_exits ::
    "(string \<Rightarrow> string) \<Rightarrow> date list \<Rightarrow> v2_config \<Rightarrow> (symbol \<Rightarrow> date \<Rightarrow> price_row option)
       \<Rightarrow> (symbol \<Rightarrow> date \<Rightarrow> date \<Rightarrow> bool \<Rightarrow> ca_source_result) option \<Rightarrow> stamp \<Rightarrow> date
       \<Rightarrow> process_result \<Rightarrow> ledger \<Rightarrow> py_error option \<times> process_result \<times> ledger" where
  "settle_due_exits sha sess cfg price_lookup guard now as_of res l =
     settle_due_list (settle_due_position sha sess cfg price_lookup guard now as_of) (due_exits l as_of) res l"

section \<open>Replay\<close>

text \<open>On one date the exits are settled before the entries.\<close>

datatype timeline_kind = SETTLE | ENTRY

instantiation timeline_kind :: linorder
begin

definition less_timeline_kind :: "timeline_kind \<Rightarrow> timeline_kind \<Rightarrow> bool" where
  "a < b \<longleftrightarrow> a = SETTLE \<and> b = ENTRY"

definition less_eq_timeline_kind :: "timeline_kind \<Rightarrow> timeline_kind \<Rightarrow> bool" where
  "a \<le> b \<longleftrightarrow> a = SETTLE \<or> b = ENTRY"

instance
proof
  fix a b c :: timeline_kind
  show "a < b \<longleftrightarrow> a \<le> b \<and> \<not> b \<le> a" "a \<le> a" "a \<le> b \<Longrightarrow> b \<le> c \<Longrightarrow> a \<le> c" "a \<le> b \<Longrightarrow> b \<le> a \<Longrightarrow> a = b"
    "a \<le> b \<or> b \<le> a"
    by (cases a; cases b; cases c; simp add: less_timeline_kind_def less_eq_timeline_kind_def)+
qed

end

text \<open>An entry of the timeline: its date and the episode to process, or a settlement pass.\<close>

type_synonym timeline_item = "date \<times> cluster_episode option"

definition item_kind :: "timeline_item \<Rightarrow> timeline_kind" where
  "item_kind t = (case snd t of None \<Rightarrow> SETTLE | Some _ \<Rightarrow> ENTRY)"

definition exit_days :: "date list \<Rightarrow> v2_config \<Rightarrow> cluster_episode list \<Rightarrow> date list result" where
  "exit_days sess cfg eps =
     bindR (mapR (\<lambda>e. add_sessions sess (eligible_entry_session e) (hold_trading_days cfg)) eps)
       (\<lambda>targets. Inr (sort (uniq (map eligible_entry_session eps @ targets))))"

definition timeline :: "cluster_episode list \<Rightarrow> date list \<Rightarrow> timeline_item list" where
  "timeline eps days =
     sort_key (\<lambda>t. (fst t, item_kind t))
       (map (\<lambda>e. (eligible_entry_session e, Some e)) eps @ map (\<lambda>d. (d, None)) days)"

definition replay_item ::
    "(string \<Rightarrow> string) \<Rightarrow> date list \<Rightarrow> v2_config \<Rightarrow> (symbol \<Rightarrow> daily_bar list) \<Rightarrow> (symbol \<Rightarrow> date \<Rightarrow> price_row option)
       \<Rightarrow> stamp \<Rightarrow> timeline_item \<Rightarrow> process_result \<Rightarrow> ledger \<Rightarrow> py_error option \<times> process_result \<times> ledger" where
  "replay_item sha sess cfg bars_lookup price_lookup now t res l =
     (case snd t of
        None \<Rightarrow> settle_due_exits sha sess cfg price_lookup None now (fst t) res l
      | Some ep \<Rightarrow>
          (case process_episode sess cfg bars_lookup price_lookup False now ep res l of
             (res', Inl err) \<Rightarrow> (Some err, res', l)
           | (res', Inr l') \<Rightarrow> (None, res', l')))"

fun replay_items ::
    "(timeline_item \<Rightarrow> process_result \<Rightarrow> ledger \<Rightarrow> py_error option \<times> process_result \<times> ledger) \<Rightarrow> timeline_item list
       \<Rightarrow> process_result \<Rightarrow> ledger \<Rightarrow> py_error option \<times> process_result \<times> ledger" where
  "replay_items f [] res l = (None, res, l)"
| "replay_items f (t # ts) res l =
     (case f t res l of (Some err, res', l') \<Rightarrow> (Some err, res', l') | (None, res', l') \<Rightarrow> replay_items f ts res' l')"

definition run_replay ::
    "(string \<Rightarrow> string) \<Rightarrow> date list \<Rightarrow> v2_config \<Rightarrow> (symbol \<Rightarrow> daily_bar list) \<Rightarrow> (symbol \<Rightarrow> date \<Rightarrow> price_row option)
       \<Rightarrow> stamp \<Rightarrow> purchase_record list \<Rightarrow> ledger \<Rightarrow> py_error option \<times> process_result \<times> ledger" where
  "run_replay sha sess cfg bars_lookup price_lookup now records l =
     (case detect_episodes sha sess cfg records of
        Inl err \<Rightarrow> (Some err, empty_result, l)
      | Inr eps \<Rightarrow>
          let res = empty_result\<lparr> pr_detected := length eps \<rparr>
          in case exit_days sess cfg eps of
               Inl err \<Rightarrow> (Some err, res, l)
             | Inr days \<Rightarrow>
                 (case replay_items (replay_item sha sess cfg bars_lookup price_lookup now) (timeline eps days) res l of
                    (Some err, res', l') \<Rightarrow> (Some err, res', l')
                  | (None, res', l') \<Rightarrow>
                      if days = [] then (None, res', l')
                      else (case add_sessions sess (last days) (hold_trading_days cfg + 6) of
                              Inl err \<Rightarrow> (Some err, res', l')
                            | Inr last_day \<Rightarrow> settle_due_exits sha sess cfg price_lookup None now last_day res' l')))"

section \<open>Every function is a run of the ledger machine\<close>

text \<open>What the code relies on: evidence is well formed, and a delivered close is a finite non-negative price.\<close>

definition evidence_ok :: "(symbol \<Rightarrow> date \<Rightarrow> date \<Rightarrow> bool \<Rightarrow> ca_source_result) \<Rightarrow> bool" where
  "evidence_ok fetch \<longleftrightarrow> (\<forall>s a b f. \<forall>e \<in> set (ca_events (fetch s a b f)). event_ok e)"

definition prices_ok :: "(symbol \<Rightarrow> date \<Rightarrow> price_row option) \<Rightarrow> bool" where
  "prices_ok lookup \<longleftrightarrow> (\<forall>s d px c. lookup s d = Some px \<longrightarrow> px_close px = Some c \<longrightarrow> is_float c \<and> 0 \<le> c)"

definition guard_ok :: "(symbol \<Rightarrow> date \<Rightarrow> date \<Rightarrow> bool \<Rightarrow> ca_source_result) option \<Rightarrow> bool" where
  "guard_ok guard \<longleftrightarrow> (case guard of None \<Rightarrow> True | Some fetch \<Rightarrow> evidence_ok fetch)"

lemma evidence_okD: "evidence_ok fetch \<Longrightarrow> e \<in> set (ca_events (fetch s a b f)) \<Longrightarrow> event_ok e"
  by (auto simp: evidence_ok_def)

lemma usable_closeD: "usable_close px = Some c \<Longrightarrow> \<exists>r. px = Some r \<and> px_close r = Some c \<and> c \<noteq> 0"
  by (auto simp: usable_close_def split: option.splits if_splits bind_splits)

lemma fall_forward_Some:
  "fall_forward sess lookup target as_of ks = Inr (Some (px, c, s)) \<Longrightarrow>
     lookup s = Some px \<and> usable_close (lookup s) = Some c \<and> s \<le> as_of \<and> (\<exists>k \<in> set ks. add_sessions sess target (int k) = Inr s)"
  by (induction ks) (auto simp: bindR_Inr_iff split: if_splits option.splits)

lemma exit_price_Some:
  assumes "exit_price sess cfg lookup target as_of = Inr (Some (px, c, s))"
  shows "lookup s = Some px" "usable_close (lookup s) = Some c"
  using assms fall_forward_Some by (fastforce simp: exit_price_def split: option.splits)+

lemma persist_block_dividends [simp]: "v_dividends (fst (persist_block now pid st code key l)) = []"
  by (simp add: persist_block_def verdict_of_def)

lemma assess_dividends:
  assumes "e \<in> set (v_dividends (fst (assess_position fetch now pid as_of xb xs st settlement l)))"
  shows "\<exists>s a b f. e \<in> set (ca_events (fetch s a b f))"
  using assms
  by (auto simp: assess_position_def assess_row_def apply_evidence_def Let_def verdict_of_def eligible_dividends_def
      dividend_events_def split: option.splits sum.splits prod.splits if_splits)

lemma unresolve_step: "unresolve sha now p res l = Inr (res', l') \<Longrightarrow> ledger_step sha sess l l'"
  by (auto simp: unresolve_def bindR_Inr_iff intro: ledger_step.unresolved)

lemma unresolve_steps: "unresolve sha now p res l = Inr (res', l') \<Longrightarrow> ledger_steps sha sess l l'"
  using unresolve_step by (rule r_into_rtranclp)

lemma close_due_steps:
  assumes "close_due sha sess cfg now p (px, c, session) divs res l = Inr (res', l')"
    and "is_float c" "0 \<le> c" "\<forall>e \<in> set divs. event_ok e"
  shows "ledger_steps sha sess l l'"
proof -
  obtain out l1 where c: "close_position sess cfg zero_fee now p c session (field_provenance px ''close'') divs l = Inr (out, l1)"
    using assms(1) by (auto simp: close_due_def bindR_Inr_iff)
  have "ledger_step sha sess l l1" by (rule ledger_step.settle [OF c assms(2-4)])
  moreover have "l' = l1 \<or> ledger_step sha sess l1 l'"
    using assms(1) c unresolve_step by (auto simp: close_due_def split: if_splits)
  ultimately show ?thesis by (auto intro: converse_rtranclp_into_rtranclp)
qed

lemma settle_due_position_steps:
  assumes "prices_ok lookup" "guard_ok guard"
    and "settle_due_position sha sess cfg lookup guard now as_of p res l = (l1, r)"
  shows "ledger_steps sha sess l l1 \<and> (\<forall>res' l'. r = Inr (res', l') \<longrightarrow> ledger_steps sha sess l l')"
proof (cases "exit_price sess cfg (lookup (p_symbol p)) (target_exit_session p) as_of")
  case (Inl err)
  with assms(3) show ?thesis by (auto simp: settle_due_position_def)
next
  case (Inr found)
  show ?thesis
  proof (cases found)
    case None
    with Inr assms(3) show ?thesis
      by (auto simp: settle_due_position_def bindR_Inr_iff split: if_splits intro: unresolve_steps)
  next
    case (Some f)
    obtain px c session where f: "f = (px, c, session)" by (cases f)
    note found = Inr [unfolded Some f]
    have c: "is_float c" "0 \<le> c"
      using exit_price_Some [OF found] assms(1) by (auto simp: prices_ok_def dest!: usable_closeD)
    show ?thesis
    proof (cases guard)
      case None
      with found assms(3) c show ?thesis by (auto simp: settle_due_position_def intro!: close_due_steps)
    next
      case (Some fetch)
      have ev: "evidence_ok fetch" using assms(2) Some by (simp add: guard_ok_def)
      let ?a = "assess_position fetch now (position_id p) as_of (basis_of px) (Some session)
        (parse_adjustment_state (px_provenance px)) True l"
      have a: "ledger_steps sha sess l (snd ?a)" using evidence_okD [OF ev] by (rule assess_steps)
      have d: "\<forall>e \<in> set (v_dividends (fst ?a)). event_ok e" using assess_dividends evidence_okD [OF ev] by blast
      have step: "ledger_steps sha sess (snd ?a) l'" if "r = Inr (res', l')" for res' l'
        using found assms(3) Some that c d
        by (auto simp: settle_due_position_def bindR_Inr_iff split: if_splits prod.splits
            intro: close_due_steps unresolve_steps)
      have "ledger_steps sha sess l l'" if "r = Inr (res', l')" for res' l'
        using a step [OF that] by (rule rtranclp_trans)
      moreover have "l1 = snd ?a" using found assms(3) Some by (auto simp: settle_due_position_def split: prod.splits)
      ultimately show ?thesis using a by blast
    qed
  qed
qed

lemma settle_due_exits_steps:
  assumes "prices_ok lookup" "guard_ok guard"
    and "settle_due_exits sha sess cfg lookup guard now as_of res l = (err, res', l')"
  shows "ledger_steps sha sess l l'"
proof -
  have "ledger_steps sha sess l l'"
    if "settle_due_list (settle_due_position sha sess cfg lookup guard now as_of) ps res l = (err, res', l')" for ps
    using that
  proof (induction ps arbitrary: res l)
    case (Cons p ps)
    obtain l1 r where r: "settle_due_position sha sess cfg lookup guard now as_of p res l = (l1, r)" by force
    note one = settle_due_position_steps [OF assms(1,2) r]
    show ?case
    proof (cases r)
      case (Inl e)
      with r one Cons.prems show ?thesis by simp
    next
      case (Inr s)
      obtain res2 l2 where s: "s = (res2, l2)" by force
      have "ledger_steps sha sess l2 l'" by (rule Cons.IH [of res2]) (use r Inr s Cons.prems in simp)
      moreover have "ledger_steps sha sess l l2" using one Inr s by simp
      ultimately show ?thesis by (meson rtranclp_trans)
    qed
  qed simp
  then show ?thesis using assms(3) by (simp add: settle_due_exits_def)
qed

lemma sweep_steps:
  assumes "evidence_ok fetch"
  shows "ledger_steps sha sess l (snd (sweep_corporate_actions fetch now as_of l))"
proof -
  have "ledger_steps sha sess s (snd (fold (\<lambda>p (vs, s). let r = assess_position fetch now (position_id p) as_of None None None False s
          in (vs @ [fst r], snd r)) ps (vs, s)))" for ps vs s
  proof (induction ps arbitrary: vs s)
    case (Cons p ps)
    let ?s = "snd (assess_position fetch now (position_id p) as_of None None None False s)"
    have "ledger_steps sha sess s ?s" using evidence_okD [OF assms] by (rule assess_steps)
    then show ?case using Cons.IH [where s = ?s] by (simp add: Let_def) (meson rtranclp_trans)
  qed simp
  then show ?thesis by (simp add: sweep_corporate_actions_def)
qed

lemma process_episode_steps:
  assumes "process_episode sess cfg bars lookup strict now ep res l = (res', Inr l')"
  shows "ledger_steps sha sess l l'"
proof -
  have "l' = l \<or> ledger_step sha sess l l'"
    using assms by (auto simp: process_episode_def Let_def split: if_splits sum.splits option.splits
        intro: ledger_step.dispose ledger_step.enter)
  then show ?thesis by auto
qed

lemma replay_steps:
  assumes "prices_ok lookup" "run_replay sha sess cfg bars lookup now records l = (err, res, l')"
  shows "ledger_steps sha sess l l'"
proof -
  have item: "ledger_steps sha sess l l'" if "replay_item sha sess cfg bars lookup now t res l = (err, res', l')"
    for t res l err res' l'
    using that process_episode_steps settle_due_exits_steps [OF assms(1), of None, unfolded guard_ok_def option.case]
    by (fastforce simp: replay_item_def split: option.splits prod.splits sum.splits)
  have items: "ledger_steps sha sess l l'"
    if "replay_items (replay_item sha sess cfg bars lookup now) ts res l = (err, res', l')" for ts res l err res' l'
    using that
  proof (induction ts arbitrary: res l)
    case (Cons t ts)
    obtain e r m where t: "replay_item sha sess cfg bars lookup now t res l = (e, r, m)" by (metis surj_pair)
    note one = item [OF t]
    show ?case
    proof (cases e)
      case None
      have "ledger_steps sha sess m l'" by (rule Cons.IH [of r]) (use t None Cons.prems in simp)
      with one show ?thesis by (meson rtranclp_trans)
    qed (use t one Cons.prems in simp)
  qed simp
  show ?thesis
  proof (cases "\<exists>eps days. detect_episodes sha sess cfg records = Inr eps \<and> exit_days sess cfg eps = Inr days")
    case True
    then obtain eps days where ed: "detect_episodes sha sess cfg records = Inr eps" "exit_days sess cfg eps = Inr days" by blast
    obtain e r m where i: "replay_items (replay_item sha sess cfg bars lookup now) (timeline eps days)
        (empty_result\<lparr> pr_detected := length eps \<rparr>) l = (e, r, m)" by (metis surj_pair)
    have "ledger_steps sha sess m l'"
      using assms(2) ed i settle_due_exits_steps [OF assms(1), of None, unfolded guard_ok_def option.case]
      by (fastforce simp: run_replay_def Let_def split: option.splits sum.splits if_splits)
    with items [OF i] show ?thesis by (meson rtranclp_trans)
  next
    case False
    with assms(2) show ?thesis by (auto simp: run_replay_def Let_def split: sum.splits)
  qed
qed

section \<open>Which positions stay open\<close>

definition open_set :: "ledger \<Rightarrow> position set" where
  "open_set l = {p \<in> set (positions l). p_status p = OPEN}"

definition without :: "nat \<Rightarrow> position set \<Rightarrow> position set" where
  "without pid ps = {p \<in> ps. position_id p \<noteq> pid}"

lemma open_set_update:
  assumes "positions l' = update_rows (\<lambda>p. position_id p = pid \<and> p_status p = OPEN) f (positions l)" "\<And>p. p_status (f p) \<noteq> OPEN"
  shows "open_set l' = without pid (open_set l)"
  using assms(2) by (auto simp: open_set_def without_def assms(1) in_update_rows split: if_splits)

lemma open_set_books: "same_books l l' \<Longrightarrow> open_set l' = open_set l"
  by (simp add: open_set_def same_books_def)

lemma open_set_unresolve:
  assumes "unresolve sha now p res l = Inr (res', l')"
  shows "open_set l' = without (position_id p) (open_set l)"
proof -
  obtain m where "mark_exit_unresolved sha now (position_id p) [] l = Inr m" "l' = m"
    using assms by (auto simp: unresolve_def bindR_Inr_iff)
  then have "positions l' = update_rows (\<lambda>q. position_id q = position_id p \<and> p_status q = OPEN) (unresolved_row now []) (positions l)"
    by (auto elim: mark_exit_unresolvedE)
  then show ?thesis by (rule open_set_update) simp
qed

lemma close_unsettled:
  assumes "close_position sess cfg fee now p c session prov divs l = Inr (out, l')" "\<not> xo_settled out"
  shows "l' = l" "xo_blocked out = None \<Longrightarrow> without (position_id p) (open_set l) = open_set l"
proof -
  show "l' = l" using assms by (cases rule: close_positionE [OF assms(1)]) simp_all
  assume b: "xo_blocked out = None"
  show "without (position_id p) (open_set l) = open_set l"
  proof (cases "position_by_id l (position_id p)")
    case None
    then have "position_id p \<notin> position_id ` set (positions l)" by (simp add: position_by_id_def row_by_None)
    then show ?thesis by (auto simp: without_def open_set_def intro: rev_image_eqI)
  next
    case (Some row)
    then have row: "position_id row = position_id p" by (auto simp: position_by_id_def dest: row_by_Some)
    have "blocked_action_rows l (position_id p) = []"
    proof (cases "blocked_action_rows l (position_id p)")
      case (Cons r rs)
      then have "r \<in> set (blocked_action_rows l (position_id p))" by simp
      then have "row_block_code r \<noteq> None"
        by (auto simp: blocked_action_rows_def is_blocked_row_def row_block_code_def split: trail_status.splits)
      with Cons assms(1) b Some row show ?thesis by (auto simp: close_position_def not_settled_def)
    qed
    with assms Some row have "rowcount (\<lambda>q. position_id q = position_id p \<and> p_status q = OPEN) (positions l) = 0"
      by (auto simp: close_position_def settle_row_def Let_def bindR_Inr_iff store_close_position_def
          split: prod.splits bool.splits)
    then show ?thesis by (auto simp: without_def open_set_def rowcount_def filter_empty_conv)
  qed
qed

lemma close_settled_open:
  assumes "close_position sess cfg fee now p c session prov divs l = Inr (out, l')" "xo_settled out"
  shows "open_set l' = without (position_id p) (open_set l)"
  using assms(2)
proof (cases rule: close_positionE [OF assms(1)])
  case (2 row held until)
  show ?thesis
    by (rule open_set_update, simp add: 2(10) settled_ledger_tables(2) 2(3), simp add: closed_row_def)
qed simp

lemma close_due_open:
  assumes "close_due sha sess cfg now p price divs res l = Inr (res', l')"
  shows "open_set l' = without (position_id p) (open_set l)"
proof -
  obtain px c session where price: "price = (px, c, session)" by (cases price)
  obtain out m where m: "close_position sess cfg zero_fee now p c session (field_provenance px ''close'') divs l = Inr (out, m)"
    using assms by (auto simp: close_due_def price bindR_Inr_iff)
  show ?thesis
  proof (cases "xo_settled out")
    case True
    with assms m close_settled_open [OF m] show ?thesis by (auto simp: close_due_def price)
  next
    case False
    note u = close_unsettled [OF m False]
    show ?thesis
    proof (cases "xo_blocked out")
      case None
      with assms m False u show ?thesis by (simp add: close_due_def price)
    next
      case (Some b)
      with assms m False u(1) have "unresolve sha now p res l = Inr (res', l')" by (simp add: close_due_def price)
      then show ?thesis by (rule open_set_unresolve)
    qed
  qed
qed

lemma settle_due_position_open:
  assumes "settle_due_position sha sess cfg lookup guard now as_of p res l = (l1, Inr (res', l'))"
  shows "open_set l' = without (position_id p) (open_set l) \<or>
     open_set l' = open_set l \<and> window_over sess cfg (target_exit_session p) as_of = Inr False"
proof (cases "exit_price sess cfg (lookup (p_symbol p)) (target_exit_session p) as_of")
  case (Inl err)
  with assms show ?thesis by (simp add: settle_due_position_def)
next
  case (Inr found)
  show ?thesis
  proof (cases found)
    case None
    with Inr assms show ?thesis
      by (auto simp: settle_due_position_def bindR_Inr_iff split: if_splits dest: open_set_unresolve)
  next
    case (Some f)
    obtain px c session where f: "f = (px, c, session)" by (cases f)
    note found = Inr [unfolded Some f]
    show ?thesis
    proof (cases guard)
      case None
      with found assms show ?thesis by (auto simp: settle_due_position_def dest: close_due_open)
    next
      case (Some fetch)
      let ?a = "assess_position fetch now (position_id p) as_of (basis_of px) (Some session)
        (parse_adjustment_state (px_provenance px)) True l"
      obtain v m where a: "?a = (v, m)" by force
      have m: "open_set m = open_set l" using open_set_books [OF same_books_assess] a by (metis snd_conv)
      show ?thesis
      proof (cases "settle_ok v")
        case True
        with found assms Some a have "close_due sha sess cfg now p (px, c, session) (v_dividends v) res m = Inr (res', l')"
          by (auto simp: settle_due_position_def)
        from close_due_open [OF this] m show ?thesis by simp
      next
        case False
        with found assms Some a obtain over where w: "window_over sess cfg (target_exit_session p) as_of = Inr over"
          "(if v_status v = V_BLOCK \<or> over then unresolve sha now p res m
            else Inr (skip_result (p_episode p) EXIT_HOLD_CORPORATE_ACTION res, m)) = Inr (res', l')"
          by (auto simp: settle_due_position_def bindR_Inr_iff)
        show ?thesis
        proof (cases "v_status v = V_BLOCK \<or> over")
          case True
          with w(2) have "unresolve sha now p res m = Inr (res', l')" by simp
          from open_set_unresolve [OF this] m show ?thesis by simp
        qed (use w m in simp)
      qed
    qed
  qed
qed

lemma settle_due_list_open:
  assumes "settle_due_list (settle_due_position sha sess cfg lookup guard now as_of) ps res l = (None, res', l')"
  shows "open_set l' \<subseteq> open_set l \<and> (\<forall>p \<in> set ps. (\<exists>q \<in> open_set l'. position_id q = position_id p) \<longrightarrow>
     window_over sess cfg (target_exit_session p) as_of = Inr False)"
  using assms
proof (induction ps arbitrary: res l)
  case (Cons p ps)
  obtain l1 r where r: "settle_due_position sha sess cfg lookup guard now as_of p res l = (l1, r)" by force
  with Cons.prems obtain res2 l2 where i: "r = Inr (res2, l2)" by (cases r) auto
  with r Cons.prems have rest: "settle_due_list (settle_due_position sha sess cfg lookup guard now as_of) ps res2 l2 = (None, res', l')"
    by simp
  note IH = Cons.IH [OF rest] and one = settle_due_position_open [OF r [unfolded i]]
  show ?case using IH one by (auto simp: without_def)
qed simp

section \<open>How an exit is priced\<close>

lemma fall_forward_first:
  assumes "fall_forward sess lookup target as_of ks = Inr (Some (px, c, s))"
  shows "\<exists>as k bs. ks = as @ k # bs \<and> add_sessions sess target (int k) = Inr s
     \<and> (\<forall>j \<in> set as. \<exists>n. add_sessions sess target (int j) = Inr n \<and> usable_close (lookup n) = None)"
  using assms
proof (induction ks)
  case (Cons k ks)
  then obtain nxt where n: "add_sessions sess target (int k) = Inr nxt" "\<not> as_of < nxt"
    by (auto simp: bindR_Inr_iff split: if_splits)
  show ?case
  proof (cases "usable_close (lookup nxt)")
    case None
    with Cons n have "fall_forward sess lookup target as_of ks = Inr (Some (px, c, s))" by (auto split: option.splits)
    from Cons.IH [OF this] obtain as k' bs where "ks = as @ k' # bs" "add_sessions sess target (int k') = Inr s"
      "\<forall>j \<in> set as. \<exists>n. add_sessions sess target (int j) = Inr n \<and> usable_close (lookup n) = None" by blast
    with n None show ?thesis by (intro exI [of _ "k # as"]) auto
  next
    case (Some c')
    with Cons n have "s = nxt" by (auto dest!: usable_closeD)
    with n show ?thesis by (intro exI [of _ "[]"]) auto
  qed
qed simp

lemma upt_split:
  assumes "[m..<n] = as @ k # bs"
  shows "m \<le> k" "k < n" "set as = {m..<k}"
proof -
  have len: "length as < n - m" using arg_cong [OF assms, of length] by simp
  have k: "k = m + length as" using assms len by (metis nth_append_length nth_upt less_diff_conv2 add.commute le_add2 nat_less_le not_le_imp_less diff_is_0_eq' less_nat_zero_code less_diff_conv)
  show "m \<le> k" "k < n" using k len by simp_all
  have "as = take (length as) [m..<n]" using assms by simp
  also have "\<dots> = [m..<k]" using len k by (simp add: take_upt)
  finally show "set as = {m..<k}" by (metis set_upt)
qed

text \<open>The close used is that of the target session or of the first session after it that has one.\<close>

definition first_available ::
    "date list \<Rightarrow> v2_config \<Rightarrow> (date \<Rightarrow> price_row option) \<Rightarrow> date \<Rightarrow> date \<Rightarrow> money \<Rightarrow> date \<Rightarrow> bool" where
  "first_available sess cfg lookup target as_of c s \<longleftrightarrow> usable_close (lookup s) = Some c \<and>
     (s = target \<or> usable_close (lookup target) = None \<and> s \<le> as_of
        \<and> (\<exists>k. 1 \<le> k \<and> int k \<le> exit_fallforward_max_sessions cfg \<and> add_sessions sess target (int k) = Inr s
             \<and> (\<forall>j. 1 \<le> j \<and> j < k \<longrightarrow> (\<exists>n. add_sessions sess target (int j) = Inr n \<and> usable_close (lookup n) = None))))"

lemma exit_price_first:
  assumes "exit_price sess cfg lookup target as_of = Inr (Some (px, c, s))"
  shows "first_available sess cfg lookup target as_of c s"
proof (cases "usable_close (lookup target)")
  case None
  then have ff: "fall_forward sess lookup target as_of [1..<Suc (nat (exit_fallforward_max_sessions cfg))] = Inr (Some (px, c, s))"
    using assms by (auto simp: exit_price_def simp del: upt_Suc split: option.splits)
  note ff1 = fall_forward_Some [OF ff]
  obtain as k bs where k: "[1..<Suc (nat (exit_fallforward_max_sessions cfg))] = as @ k # bs"
    "add_sessions sess target (int k) = Inr s"
    "\<forall>j \<in> set as. \<exists>n. add_sessions sess target (int j) = Inr n \<and> usable_close (lookup n) = None"
    using fall_forward_first [OF ff] by blast
  note u = upt_split [OF k(1)]
  have "int k \<le> exit_fallforward_max_sessions cfg" using u(1,2) by linarith
  with u k ff1 None show ?thesis unfolding first_available_def by auto
next
  case (Some c')
  then obtain r where "lookup target = Some r" using usable_closeD by blast
  with Some assms show ?thesis by (auto simp: exit_price_def first_available_def)
qed

text \<open>An exit that was recorded had its price found, and its evidence cleared when there is a guard.\<close>

definition cleared_by ::
    "(symbol \<Rightarrow> date \<Rightarrow> date \<Rightarrow> bool \<Rightarrow> ca_source_result) \<Rightarrow> stamp \<Rightarrow> position \<Rightarrow> date \<Rightarrow> price_row \<Rightarrow> date \<Rightarrow> ledger \<Rightarrow> bool" where
  "cleared_by fetch now p as_of px session l \<longleftrightarrow> settle_ok (fst (assess_position fetch now (position_id p) as_of
     (basis_of px) (Some session) (parse_adjustment_state (px_provenance px)) True l))"

lemma unresolve_exits: "unresolve sha now p res l = Inr (res', l') \<Longrightarrow> pr_exits res' = pr_exits res"
  by (auto simp: unresolve_def bindR_Inr_iff skip_result_def)

lemma close_due_exits:
  assumes "close_due sha sess cfg now p (px, c, s) divs res l = Inr (res', l')"
  shows "pr_exits res' = pr_exits res \<or>
     (\<exists>x. pr_exits res' = pr_exits res @ [x] \<and> xr_ep x = p_episode p \<and> xr_session x = s \<and> xr_price x = c)"
  using assms by (auto simp: close_due_def bindR_Inr_iff skip_result_def unresolve_exits split: if_splits)

lemma settle_due_position_exits:
  assumes "settle_due_position sha sess cfg lookup guard now as_of p res l = (l1, Inr (res', l'))"
  shows "pr_exits res' = pr_exits res \<or>
     (\<exists>x px. pr_exits res' = pr_exits res @ [x] \<and> xr_ep x = p_episode p
        \<and> exit_price sess cfg (lookup (p_symbol p)) (target_exit_session p) as_of = Inr (Some (px, xr_price x, xr_session x))
        \<and> (\<forall>fetch. guard = Some fetch \<longrightarrow> cleared_by fetch now p as_of px (xr_session x) l))"
proof (cases "exit_price sess cfg (lookup (p_symbol p)) (target_exit_session p) as_of")
  case (Inl err)
  with assms show ?thesis by (simp add: settle_due_position_def)
next
  case (Inr found)
  show ?thesis
  proof (cases found)
    case None
    with Inr assms show ?thesis
      by (auto simp: settle_due_position_def bindR_Inr_iff skip_result_def split: if_splits dest: unresolve_exits)
  next
    case (Some f)
    obtain px c session where f: "f = (px, c, session)" by (cases f)
    note found = Inr [unfolded Some f]
    show ?thesis
    proof (cases guard)
      case None
      with found assms have "close_due sha sess cfg now p (px, c, session) [] res l = Inr (res', l')"
        by (auto simp: settle_due_position_def)
      from close_due_exits [OF this] found None show ?thesis by auto
    next
      case (Some fetch)
      obtain v m where a: "assess_position fetch now (position_id p) as_of (basis_of px) (Some session)
        (parse_adjustment_state (px_provenance px)) True l = (v, m)" by force
      show ?thesis
      proof (cases "settle_ok v")
        case True
        with found assms Some a have "close_due sha sess cfg now p (px, c, session) (v_dividends v) res m = Inr (res', l')"
          by (auto simp: settle_due_position_def)
        from close_due_exits [OF this] found Some a True show ?thesis by (auto simp: cleared_by_def)
      next
        case False
        with found assms Some a obtain over where
          "(if v_status v = V_BLOCK \<or> over then unresolve sha now p res m
            else Inr (skip_result (p_episode p) EXIT_HOLD_CORPORATE_ACTION res, m)) = Inr (res', l')"
          by (auto simp: settle_due_position_def bindR_Inr_iff)
        then show ?thesis by (auto simp: skip_result_def split: if_splits dest: unresolve_exits)
      qed
    qed
  qed
qed

lemma settle_due_list_exits:
  assumes "settle_due_list (settle_due_position sha sess cfg lookup guard now as_of) ps res l = (err, res', l')"
    and "x \<in> set (pr_exits res')" "x \<notin> set (pr_exits res)"
  shows "\<exists>p \<in> set ps. \<exists>px m. xr_ep x = p_episode p
     \<and> exit_price sess cfg (lookup (p_symbol p)) (target_exit_session p) as_of = Inr (Some (px, xr_price x, xr_session x))
     \<and> (\<forall>fetch. guard = Some fetch \<longrightarrow> cleared_by fetch now p as_of px (xr_session x) m)"
  using assms
proof (induction ps arbitrary: res l)
  case (Cons p ps)
  obtain l1 r where r: "settle_due_position sha sess cfg lookup guard now as_of p res l = (l1, r)" by force
  show ?case
  proof (cases r)
    case (Inl e)
    with r Cons.prems show ?thesis by simp
  next
    case (Inr i)
    obtain res2 l2 where i: "i = (res2, l2)" by force
    with Inr r Cons.prems have rest:
      "settle_due_list (settle_due_position sha sess cfg lookup guard now as_of) ps res2 l2 = (err, res', l')" by simp
    note one = settle_due_position_exits [OF r [unfolded Inr i]]
    show ?thesis
    proof (cases "x \<in> set (pr_exits res2)")
      case True
      with one Cons.prems(3) show ?thesis by (fastforce simp: bex_simps)
    next
      case False
      from Cons.IH [OF rest Cons.prems(2) False] show ?thesis by auto
    qed
  qed
qed simp

section \<open>Properties\<close>

text \<open>
  C37. No due position lingers.  After a settlement pass that returned, a position that is due and still
  OPEN is inside its fall-forward window: once the last fall-forward session has passed, every due
  position has been closed or marked EXIT_UNRESOLVED, whatever the prices and the evidence were.
\<close>

theorem no_due_position_lingers:
  assumes "settle_due_exits sha sess cfg lookup guard now as_of res l = (None, res', l')"
    and "p \<in> set (positions l')" "p_status p = OPEN" "target_exit_session p \<le> as_of"
  shows "\<exists>last. add_sessions sess (target_exit_session p) (exit_fallforward_max_sessions cfg) = Inr last \<and> as_of < last"
proof -
  note run = settle_due_list_open [OF assms(1) [unfolded settle_due_exits_def]]
  have p: "p \<in> open_set l'" using assms(2,3) by (simp add: open_set_def)
  then have "p \<in> open_set l" using run by blast
  then have "p \<in> set (due_exits l as_of)"
    using assms(4) by (simp add: open_set_def due_exits_def open_positions_def)
  with run p have "window_over sess cfg (target_exit_session p) as_of = Inr False" by blast
  then show ?thesis by (auto simp: window_over_def bindR_Inr_iff)
qed


text \<open>
  A replay refines the ledger machine: from a fresh ledger it only takes ledger steps, so it ends,
  even when an exception stops it, in a ledger with non-negative cash, at most twenty occupied positions
  and one BUY per position and one SELL per closed position in the trade log.
\<close>

theorem replay_refines_the_ledger:
  assumes "run_replay sha sess cfg bars lookup now records (fresh_ledger starting campaign mode alloc created) = (err, res, l')"
    and "prices_ok lookup" "is_float starting" "0 \<le> starting"
  shows "ledger_steps sha sess (fresh_ledger starting campaign mode alloc created) l' \<and> 0 \<le> cash l' \<and> n_open l' \<le> 20
     \<and> episodes_of BUY_TRADE (trades l') = map p_episode (positions l')
     \<and> set (episodes_of SELL_TRADE (trades l')) = p_episode ` {p \<in> set (positions l'). p_status p = CLOSED}"
proof -
  have steps: "ledger_steps sha sess (fresh_ledger starting campaign mode alloc created) l'"
    by (rule replay_steps [OF assms(2,1)])
  have "ledger_ok sha l'" by (rule reachable_ok [OF steps assms(3,4)])
  with steps show ?thesis
    by (simp add: ledger_ok_def book_ok_def positions_ok_def cash_def n_open_def)
qed

section \<open>Examples\<close>

definition demo_prices :: "symbol \<Rightarrow> date \<Rightarrow> price_row option" where
  "demo_prices sy d = (if d = 120 then None else Some \<lparr> px_open = Some (Finite 16), px_close = Some 3500,
     px_provenance = Some \<lparr> pp_field = [], basis_as_of = Some d, adjustment_state = Some ''RAW'' \<rparr> \<rparr>)"

definition demo_exits :: "py_error option \<times> process_result \<times> ledger" where
  "demo_exits = settle_due_exits (\<lambda>x. x) lane_sessions default_config demo_prices (Some demo_fetch) 5 121 empty_result
     demo_priced_ledger"

lemma demo_exits_facts:
  "fst demo_exits = None" "map xr_session (pr_exits (fst (snd demo_exits))) = [121]"
  by code_simp+

lemma demo_exits_eq:
  "settle_due_exits (\<lambda>x. x) lane_sessions default_config demo_prices (Some demo_fetch) 5 121 empty_result demo_priced_ledger
     = (None, fst (snd demo_exits), snd (snd demo_exits))"
  using demo_exits_facts(1) by (simp add: demo_exits_def prod_eq_iff)


definition demo_waiting :: "py_error option \<times> process_result \<times> ledger" where
  "demo_waiting = settle_due_exits (\<lambda>x. x) lane_sessions default_config (\<lambda>sy d. None) None 5 121 empty_result demo_held"

theorem no_due_position_lingers_witness: "\<exists>last. add_sessions lane_sessions 120 5 = Inr last \<and> 121 < last"
proof -
  have e: "fst demo_waiting = None" "positions (snd (snd demo_waiting)) = [demo_position]" "p_status demo_position = OPEN"
    "target_exit_session demo_position = 120" by code_simp+
  then have run: "settle_due_exits (\<lambda>x. x) lane_sessions default_config (\<lambda>sy d. None) None 5 121 empty_result demo_held
      = (None, fst (snd demo_waiting), snd (snd demo_waiting))" by (simp add: demo_waiting_def prod_eq_iff)
  have "exit_fallforward_max_sessions default_config = 5" by code_simp
  with no_due_position_lingers [OF run, of demo_position] e show ?thesis by simp
qed

definition demo_replay :: "py_error option \<times> process_result \<times> ledger" where
  "demo_replay = run_replay (\<lambda>x. x) lane_sessions default_config (\<lambda>sy. map (\<lambda>d. demo_bar (int d)) [100..<136])
     (\<lambda>sy d. Some \<lparr> px_open = Some (Finite 16), px_close = Some 20, px_provenance = None \<rparr>) 5
     [demo_purchase ''11'' 124 ''a1'', demo_purchase ''12'' 125 ''a2''] demo_ledger"

theorem replay_refines_the_ledger_witness: "0 \<le> cash (snd (snd demo_replay)) \<and> n_open (snd (snd demo_replay)) \<le> 20"
proof -
  have "is_float 20" by code_simp
  then have "prices_ok (\<lambda>sy d. Some \<lparr> px_open = Some (Finite 16), px_close = Some 20, px_provenance = None \<rparr>)"
    by (simp add: prices_ok_def)
  moreover have "demo_replay = (fst demo_replay, fst (snd demo_replay), snd (snd demo_replay))" by simp
  ultimately show ?thesis
    using replay_refines_the_ledger [OF _ _ machine_run(2)] unfolding demo_replay_def demo_ledger_def by fastforce
qed

end
