(* ===== verification/V2_Delivery.thy ===== *)
theory V2_Delivery
  imports V2_Machine
begin

text \<open>
  \<open>talonx_v2/delivery.py\<close>: the worker that drains the alert outbox, and the boundary transports.  The
  router (\<open>talonx_ops.official_dispatch\<close>) and the transport are parameters: what the router decides
  for a dedup key, and what the transport returns for a row (\<open>None\<close> when \<open>send\<close> raises).  \<open>wall\<close> is the
  clock the store stamps rows with, \<open>now\<close> the clock the worker was given.
\<close>

section \<open>Transports\<close>

text \<open>The keys of the result dict that the worker reads.\<close>

record send_result =
  sr_ok :: bool
  sr_ambiguous :: bool
  sr_held :: bool
  sr_permanent :: bool
  sr_ref :: string
  sr_detail :: string

definition not_ok :: "string \<Rightarrow> send_result" where
  "not_ok detail = \<lparr> sr_ok = False, sr_ambiguous = False, sr_held = False, sr_permanent = False, sr_ref = [],
     sr_detail = detail \<rparr>"

definition sent_ok :: "string \<Rightarrow> send_result" where
  "sent_ok ref = (not_ok [])\<lparr> sr_ok := True, sr_ref := ref \<rparr>"

definition dry_run_send :: "outbox_row \<Rightarrow> send_result option" where
  "dry_run_send row = Some ((not_ok ''dry-run transport'')\<lparr> sr_held := True \<rparr>)"

definition redis_publish_send :: "(string \<Rightarrow> int) \<Rightarrow> outbox_row \<Rightarrow> send_result option" where
  "redis_publish_send publish row =
     (let n = publish (o_payload row)
      in Some (if n \<le> 0 then (not_ok ''0 subscribers'')\<lparr> sr_ambiguous := True \<rparr>
               else sent_ok (''redis_publish:'' @ str_int n)))"

text \<open>
  The Telegram client is third-party: it returns, raises \<open>TelegramSendError\<close> (permanent when its text
  says \<open>non-retryable\<close>), or raises something else.
\<close>

datatype client_outcome = CLIENT_SENT | CLIENT_SEND_ERROR bool string | CLIENT_OTHER_ERROR string

definition telegram_send :: "bool \<Rightarrow> (string \<Rightarrow> client_outcome) \<Rightarrow> outbox_row \<Rightarrow> send_result option" where
  "telegram_send is_configured client row =
     Some (if \<not> is_configured then (not_ok ''not configured -- HOLD'')\<lparr> sr_held := True \<rparr>
           else case client (o_payload row) of
                  CLIENT_SEND_ERROR permanent txt \<Rightarrow> (not_ok (''telegram: '' @ txt))\<lparr> sr_permanent := permanent \<rparr>
                | CLIENT_OTHER_ERROR txt \<Rightarrow> not_ok (''telegram transport error: '' @ txt)
                | CLIENT_SENT \<Rightarrow> sent_ok (''telegram:sent:'' @ dedup_key row))"

section \<open>The worker\<close>

definition backoff_base_s :: int where "backoff_base_s = 5"
definition backoff_cap_s :: int where "backoff_cap_s = 300"
definition default_max_attempts :: nat where "default_max_attempts = 5"

definition backoff_s :: "nat \<Rightarrow> int" where
  "backoff_s attempts = min backoff_cap_s (backoff_base_s * 2 ^ nat (max 0 (int attempts - 1)))"

record route_decision =
  rd_eligible :: bool
  rd_already_delivered :: bool
  rd_reason :: string

text \<open>The arguments of the one \<open>update_outbox\<close> call a row gets.\<close>

record delivery =
  dv_state :: outbox_state
  dv_attempts :: "nat option"
  dv_next :: "stamp option"
  dv_error :: "string option"
  dv_ref :: "string option"
  dv_sent :: bool

definition deliver_to :: "outbox_state \<Rightarrow> nat option \<Rightarrow> string \<Rightarrow> delivery" where
  "deliver_to st attempts err = \<lparr> dv_state = st, dv_attempts = attempts, dv_next = None, dv_error = Some err,
     dv_ref = None, dv_sent = False \<rparr>"

definition past_deadline :: "stamp \<Rightarrow> outbox_row \<Rightarrow> bool" where
  "past_deadline now row = (case o_deliver_by row of None \<Rightarrow> False | Some d \<Rightarrow> d \<le> now)"

text \<open>\<open>True\<close> for origin \<open>BROAD_DISCOVERY\<close>.\<close>

definition broad_origin :: "symbol set \<Rightarrow> outbox_row \<Rightarrow> bool" where
  "broad_origin broad row \<longleftrightarrow> o_symbol row \<in> broad"

definition attempt_delivery :: "stamp \<Rightarrow> nat \<Rightarrow> (outbox_row \<Rightarrow> send_result option) \<Rightarrow> outbox_row \<Rightarrow> delivery" where
  "attempt_delivery now max_attempts send row =
     (let attempts = Suc (o_attempts row);
          res = (case send row of Some r \<Rightarrow> r | None \<Rightarrow> not_ok ''transport raised'')
      in if sr_ok res then \<lparr> dv_state = OB_SENT, dv_attempts = Some attempts, dv_next = None, dv_error = None,
                             dv_ref = Some (sr_ref res), dv_sent = True \<rparr>
         else if sr_ambiguous res then deliver_to OB_AMBIGUOUS (Some attempts) (sr_detail res)
         else if sr_held res then deliver_to OB_HELD (Some attempts) (sr_detail res)
         else if sr_permanent res \<or> max_attempts \<le> attempts
         then deliver_to OB_FAILED (Some attempts) (sr_detail res)
         else (deliver_to OB_RETRY (Some attempts) (sr_detail res))
                \<lparr> dv_next := Some (now + backoff_s attempts * 1000000) \<rparr>)"

definition delivery_of ::
    "stamp \<Rightarrow> nat \<Rightarrow> (string \<Rightarrow> bool \<Rightarrow> route_decision) \<Rightarrow> (outbox_row \<Rightarrow> send_result option) \<Rightarrow> symbol set
       \<Rightarrow> outbox_row \<Rightarrow> delivery" where
  "delivery_of now max_attempts decide send broad row =
     (if past_deadline now row then deliver_to OB_EXPIRED None ''deadline passed''
      else let rd = decide (dedup_key row) (broad_origin broad row)
           in if \<not> rd_eligible rd then deliver_to OB_HELD None (''router: '' @ rd_reason rd)
              else if rd_already_delivered rd
              then \<lparr> dv_state = OB_SENT, dv_attempts = None, dv_next = None, dv_error = None,
                     dv_ref = Some ''dedup:already_delivered'', dv_sent = True \<rparr>
              else attempt_delivery now max_attempts send row)"

definition deliver_row :: "stamp \<Rightarrow> (outbox_row \<Rightarrow> delivery) \<Rightarrow> outbox_row \<Rightarrow> ledger \<Rightarrow> ledger" where
  "deliver_row wall dv row l =
     (let d = dv row
      in update_outbox wall (event_id row) (dv_state d) (dv_attempts d) (dv_next d) (dv_error d) (dv_ref d) (dv_sent d) l)"

text \<open>The counters of the per-run summary, keyed by the state written; \<open>dedup_skipped\<close> is a SENT without an attempt.\<close>

record delivery_summary =
  ds_considered :: nat
  ds_sent :: nat
  ds_dedup_skipped :: nat
  ds_held :: nat
  ds_retry :: nat
  ds_failed :: nat
  ds_ambiguous :: nat
  ds_expired :: nat

definition summarize :: "delivery list \<Rightarrow> delivery_summary" where
  "summarize ds =
     (let n = (\<lambda>P. length (filter P ds))
      in \<lparr> ds_considered = length ds,
           ds_sent = n (\<lambda>d. dv_state d = OB_SENT \<and> dv_attempts d \<noteq> None),
           ds_dedup_skipped = n (\<lambda>d. dv_state d = OB_SENT \<and> dv_attempts d = None),
           ds_held = n (\<lambda>d. dv_state d = OB_HELD), ds_retry = n (\<lambda>d. dv_state d = OB_RETRY),
           ds_failed = n (\<lambda>d. dv_state d = OB_FAILED), ds_ambiguous = n (\<lambda>d. dv_state d = OB_AMBIGUOUS),
           ds_expired = n (\<lambda>d. dv_state d = OB_EXPIRED) \<rparr>)"

definition deliver_outbox ::
    "stamp \<Rightarrow> stamp \<Rightarrow> nat \<Rightarrow> (string \<Rightarrow> bool \<Rightarrow> route_decision) \<Rightarrow> (outbox_row \<Rightarrow> send_result option) \<Rightarrow> symbol set
       \<Rightarrow> ledger \<Rightarrow> delivery_summary \<times> ledger" where
  "deliver_outbox wall now max_attempts decide send broad l =
     (let dv = delivery_of now max_attempts decide send broad; rows = outbox_due now l
      in (summarize (map dv rows), fold (deliver_row wall dv) rows l))"

section \<open>A drain is a per-row function of the outbox\<close>

definition outbox_row_due :: "stamp \<Rightarrow> outbox_row \<Rightarrow> bool" where
  "outbox_row_due now r \<longleftrightarrow> (o_state r = OB_PENDING \<or> o_state r = OB_RETRY) \<and>
     (case o_next_attempt r of None \<Rightarrow> True | Some t \<Rightarrow> t \<le> now)"

definition delivered_row :: "stamp \<Rightarrow> delivery \<Rightarrow> outbox_row \<Rightarrow> outbox_row" where
  "delivered_row wall d r = r\<lparr> o_state := dv_state d,
     o_attempts := (case dv_attempts d of Some n \<Rightarrow> n | None \<Rightarrow> o_attempts r), o_next_attempt := dv_next d,
     o_last_error := dv_error d, o_transport_ref := (case dv_ref d of Some x \<Rightarrow> Some x | None \<Rightarrow> o_transport_ref r),
     o_updated_at := wall, o_sent_at := (if dv_sent d then Some wall else o_sent_at r) \<rparr>"

lemma delivered_row_simps [simp]:
  "event_id (delivered_row wall d r) = event_id r" "o_state (delivered_row wall d r) = dv_state d"
  "o_attempts (delivered_row wall d r) = (case dv_attempts d of Some n \<Rightarrow> n | None \<Rightarrow> o_attempts r)"
  "o_next_attempt (delivered_row wall d r) = dv_next d" "o_deliver_by (delivered_row wall d r) = o_deliver_by r"
  by (simp_all add: delivered_row_def)

lemma deliver_row_outbox:
  "deliver_row wall dv row l = l\<lparr> outbox := update_rows (\<lambda>r. event_id r = event_id row) (delivered_row wall (dv row)) (outbox l) \<rparr>"
  by (simp add: deliver_row_def update_outbox_def delivered_row_def [abs_def] Let_def)

lemma deliver_rows_outbox:
  assumes "distinct (map event_id rows)"
  shows "fold (deliver_row wall dv) rows l = l\<lparr> outbox := map (\<lambda>r.
     case find (\<lambda>x. event_id x = event_id r) rows of Some x \<Rightarrow> delivered_row wall (dv x) r | None \<Rightarrow> r) (outbox l) \<rparr>"
  using assms
proof (induction rows arbitrary: l)
  case (Cons x xs)
  then have x: "find (\<lambda>y. event_id y = event_id x) xs = None"
    unfolding find_None_iff by (auto intro: rev_image_eqI)
  have "(case find (\<lambda>y. event_id y = event_id (if event_id r = event_id x then delivered_row wall (dv x) r else r)) xs of
       Some y \<Rightarrow> delivered_row wall (dv y) (if event_id r = event_id x then delivered_row wall (dv x) r else r)
     | None \<Rightarrow> (if event_id r = event_id x then delivered_row wall (dv x) r else r)) =
    (case find (\<lambda>y. event_id y = event_id r) (x # xs) of Some y \<Rightarrow> delivered_row wall (dv y) r | None \<Rightarrow> r)" for r
    using x by (cases "event_id r = event_id x") auto
  with Cons show ?case by (simp add: deliver_row_outbox update_rows_def comp_def)
qed (simp add: map_idI)

lemma outbox_due_eq: "outbox_due now l = sort_key o_created_at (filter (outbox_row_due now) (outbox l))"
  by (simp add: outbox_due_def outbox_row_due_def [abs_def])

lemma deliver_outbox_rows:
  assumes "distinct (map event_id (outbox l))"
  shows "snd (deliver_outbox wall now mx decide send broad l) = l\<lparr> outbox := map (\<lambda>r.
     if outbox_row_due now r then delivered_row wall (delivery_of now mx decide send broad r) r else r) (outbox l) \<rparr>"
proof -
  let ?rows = "outbox_due now l" and ?dv = "delivery_of now mx decide send broad"
  have set: "set ?rows = {r \<in> set (outbox l). outbox_row_due now r}" by (simp add: outbox_due_eq)
  have d: "distinct (map event_id ?rows)"
    using assms by (simp add: outbox_due_eq distinct_map_filter distinct_map inj_on_def)
  have "(case find (\<lambda>x. event_id x = event_id r) ?rows of Some x \<Rightarrow> delivered_row wall (?dv x) r | None \<Rightarrow> r) =
      (if outbox_row_due now r then delivered_row wall (?dv r) r else r)" if r: "r \<in> set (outbox l)" for r
  proof (cases "find (\<lambda>x. event_id x = event_id r) ?rows")
    case None
    then have "\<not> outbox_row_due now r" using r set by (auto simp: find_None_iff)
    with None show ?thesis by simp
  next
    case (Some x)
    then have "row_by event_id (event_id r) ?rows = Some x" by (simp add: row_by_def)
    then have "x \<in> set (outbox l)" "outbox_row_due now x" "event_id x = event_id r"
      using set row_by_Some by fastforce+
    moreover from this have "x = r" using distinct_key [OF assms] r by blast
    ultimately show ?thesis using Some by simp
  qed
  then show ?thesis
    unfolding deliver_outbox_def Let_def snd_conv deliver_rows_outbox [OF d] by (simp cong: map_cong)
qed

lemma deliver_rows_steps: "ledger_steps sha sess l (fold (deliver_row wall dv) rows l)"
proof (induction rows arbitrary: l)
  case (Cons r rows)
  have "ledger_step sha sess l (deliver_row wall dv r l)"
    unfolding deliver_row_def Let_def by (rule ledger_step.deliver)
  then show ?case using Cons.IH by (simp add: converse_rtranclp_into_rtranclp)
qed simp

lemma deliver_outbox_steps: "ledger_steps sha sess l (snd (deliver_outbox wall now mx decide send broad l))"
  by (simp add: deliver_outbox_def Let_def deliver_rows_steps)

section \<open>What one delivery does to a row\<close>

text \<open>A row is pending while the worker will still consider it.\<close>

definition awaiting :: "outbox_row \<Rightarrow> bool" where
  "awaiting r \<longleftrightarrow> o_state r = OB_PENDING \<or> o_state r = OB_RETRY"

lemma due_awaiting: "outbox_row_due now r \<Longrightarrow> awaiting r"
  by (simp add: outbox_row_due_def awaiting_def)

lemma backoff_bounds: "5 \<le> backoff_s n" "backoff_s n \<le> 300"
  by (simp_all add: backoff_s_def backoff_base_s_def backoff_cap_s_def)

lemma delivery_cases:
  obtains (expired) "past_deadline now r" "dv_state (delivery_of now mx decide send broad r) = OB_EXPIRED"
      "dv_attempts (delivery_of now mx decide send broad r) = None"
  | (held) "\<not> past_deadline now r" "\<not> rd_eligible (decide (dedup_key r) (broad_origin broad r))"
      "dv_state (delivery_of now mx decide send broad r) = OB_HELD"
      "dv_attempts (delivery_of now mx decide send broad r) = None"
  | (duplicate) "\<not> past_deadline now r" "rd_eligible (decide (dedup_key r) (broad_origin broad r))"
      "rd_already_delivered (decide (dedup_key r) (broad_origin broad r))"
      "dv_state (delivery_of now mx decide send broad r) = OB_SENT"
      "dv_attempts (delivery_of now mx decide send broad r) = None"
  | (attempt) "\<not> past_deadline now r" "rd_eligible (decide (dedup_key r) (broad_origin broad r))"
      "\<not> rd_already_delivered (decide (dedup_key r) (broad_origin broad r))"
      "delivery_of now mx decide send broad r = attempt_delivery now mx send r"
  using that by (auto simp: delivery_of_def Let_def deliver_to_def)

lemma attempt_delivery_effect:
  fixes now mx send r
  defines "d \<equiv> attempt_delivery now mx send r"
  shows "dv_attempts d = Some (Suc (o_attempts r))" "dv_state d \<noteq> OB_PENDING" "dv_state d \<noteq> OB_EXPIRED"
    "dv_state d = OB_SENT \<Longrightarrow> \<exists>res. send r = Some res \<and> sr_ok res"
    "dv_state d = OB_RETRY \<Longrightarrow> Suc (o_attempts r) < mx \<and> dv_next d = Some (now + backoff_s (Suc (o_attempts r)) * 1000000)"
  by (auto simp: d_def attempt_delivery_def deliver_to_def not_ok_def Let_def split: if_splits option.splits)

lemma delivery_effect:
  fixes now mx decide send broad r
  defines "d \<equiv> delivery_of now mx decide send broad r"
  shows "dv_state d \<noteq> OB_PENDING"
    "dv_state d = OB_RETRY \<Longrightarrow> dv_attempts d = Some (Suc (o_attempts r)) \<and> Suc (o_attempts r) < mx
       \<and> dv_next d = Some (now + backoff_s (Suc (o_attempts r)) * 1000000)"
    "dv_attempts d = None \<or> dv_attempts d = Some (Suc (o_attempts r))"
  using attempt_delivery_effect [of now mx send r]
  by (cases rule: delivery_cases [of now r mx decide send broad]; simp add: d_def)+

section \<open>Properties\<close>

text \<open>
  C39. An alert is sent at most once, never late and only with the router's consent.  A drain leaves every
  row that is not awaiting delivery exactly as it is; a row it marks SENT was due, before its deadline and
  eligible, and was either already delivered by its family or accepted by the transport in this drain; a
  row past its deadline is expired without an attempt; and no row is attempted more than once.
\<close>

theorem alerts_are_sent_once_and_in_time:
  assumes "distinct (map event_id (outbox l))" "deliver_outbox wall now mx decide send broad l = (s, l')"
    and "r \<in> set (outbox l)" "r' \<in> set (outbox l')" "event_id r' = event_id r"
  shows "(\<not> awaiting r \<longrightarrow> r' = r)
     \<and> (o_state r' = OB_SENT \<and> r' \<noteq> r \<longrightarrow> outbox_row_due now r \<and> \<not> past_deadline now r
         \<and> rd_eligible (decide (dedup_key r) (broad_origin broad r))
         \<and> (rd_already_delivered (decide (dedup_key r) (broad_origin broad r)) \<or> (\<exists>res. send r = Some res \<and> sr_ok res)))
     \<and> (outbox_row_due now r \<and> past_deadline now r \<longrightarrow> o_state r' = OB_EXPIRED \<and> o_attempts r' = o_attempts r)
     \<and> o_attempts r' \<le> Suc (o_attempts r)"
proof -
  let ?d = "delivery_of now mx decide send broad r"
  have "outbox l' = map (\<lambda>r. if outbox_row_due now r then delivered_row wall (delivery_of now mx decide send broad r) r else r)
      (outbox l)"
    using deliver_outbox_rows [OF assms(1), of wall now mx decide send broad] assms(2) by simp
  then obtain q where q: "q \<in> set (outbox l)"
    "r' = (if outbox_row_due now q then delivered_row wall (delivery_of now mx decide send broad q) q else q)"
    using assms(4) by auto
  then have "event_id q = event_id r" using assms(5) by (auto split: if_splits)
  with q assms(1,3) have r': "r' = (if outbox_row_due now r then delivered_row wall ?d r else r)"
    using distinct_key by metis
  show ?thesis
  proof (cases "outbox_row_due now r")
    case True
    have "awaiting r" using True by (rule due_awaiting)
    then show ?thesis using True r' attempt_delivery_effect [of now mx send r]
      by (cases rule: delivery_cases [of now r mx decide send broad]) auto
  qed (use r' in simp)
qed

text \<open>
  A retry is scheduled between five seconds and five minutes ahead, and only while attempts remain:
  a row that a drain leaves in RETRY has used one more attempt, fewer than the maximum.
\<close>

theorem retry_backoff_is_bounded:
  assumes "distinct (map event_id (outbox l))" "deliver_outbox wall now mx decide send broad l = (s, l')"
    and "r' \<in> set (outbox l')" "r' \<notin> set (outbox l)" "o_state r' = OB_RETRY"
  shows "\<exists>t. o_next_attempt r' = Some t \<and> now + 5 * 1000000 \<le> t \<and> t \<le> now + 300 * 1000000
     \<and> 0 < o_attempts r' \<and> o_attempts r' < mx"
proof -
  have "outbox l' = map (\<lambda>r. if outbox_row_due now r then delivered_row wall (delivery_of now mx decide send broad r) r else r)
      (outbox l)"
    using deliver_outbox_rows [OF assms(1), of wall now mx decide send broad] assms(2) by simp
  then obtain q where q: "r' = delivered_row wall (delivery_of now mx decide send broad q) q"
    using assms(3,4) by (auto split: if_splits)
  with assms(5) delivery_effect(2) [of now mx decide send broad q] show ?thesis
    using backoff_bounds [of "Suc (o_attempts q)"] by auto
qed

section \<open>Repeated drains\<close>

text \<open>One pass of the worker: its clocks and what the router and the transport answer during it.\<close>

record pass =
  ps_wall :: stamp
  ps_now :: stamp
  ps_decide :: "string \<Rightarrow> bool \<Rightarrow> route_decision"
  ps_send :: "outbox_row \<Rightarrow> send_result option"

definition drain_pass :: "nat \<Rightarrow> symbol set \<Rightarrow> pass \<Rightarrow> ledger \<Rightarrow> ledger" where
  "drain_pass mx broad p l = snd (deliver_outbox (ps_wall p) (ps_now p) mx (ps_decide p) (ps_send p) broad l)"

lemma drain_pass_rows:
  fixes mx broad p
  assumes "distinct (map event_id (outbox l))"
  defines "l' \<equiv> drain_pass mx broad p l"
  shows "map event_id (outbox l') = map event_id (outbox l)"
    "r' \<in> set (outbox l') \<Longrightarrow> awaiting r' \<Longrightarrow>
       (\<exists>r \<in> set (outbox l). r' = r \<and> \<not> outbox_row_due (ps_now p) r \<or>
          outbox_row_due (ps_now p) r \<and> o_attempts r' = Suc (o_attempts r) \<and> o_attempts r' < mx
          \<and> outbox_row_due (ps_now p + 300 * 1000000) r')"
proof -
  let ?dv = "delivery_of (ps_now p) mx (ps_decide p) (ps_send p) broad"
  have o: "outbox l' = map (\<lambda>r. if outbox_row_due (ps_now p) r then delivered_row (ps_wall p) (?dv r) r else r) (outbox l)"
    using deliver_outbox_rows [OF assms(1), of "ps_wall p" "ps_now p" mx "ps_decide p" "ps_send p" broad]
    by (simp add: l'_def drain_pass_def)
  then show "map event_id (outbox l') = map event_id (outbox l)" by simp
  assume r': "r' \<in> set (outbox l')" "awaiting r'"
  then obtain q where q: "q \<in> set (outbox l)"
    "r' = (if outbox_row_due (ps_now p) q then delivered_row (ps_wall p) (?dv q) q else q)"
    using o by auto
  show "\<exists>r \<in> set (outbox l). r' = r \<and> \<not> outbox_row_due (ps_now p) r \<or>
          outbox_row_due (ps_now p) r \<and> o_attempts r' = Suc (o_attempts r) \<and> o_attempts r' < mx
          \<and> outbox_row_due (ps_now p + 300 * 1000000) r'"
  proof (cases "outbox_row_due (ps_now p) q")
    case True
    with q r'(2) have "dv_state (?dv q) = OB_RETRY"
      using delivery_effect(1) [of "ps_now p" mx "ps_decide p" "ps_send p" broad q] by (simp add: awaiting_def)
    note e = delivery_effect(2) [OF this]
    have "outbox_row_due (ps_now p + 300 * 1000000) r'"
      using True q e backoff_bounds(2) [of "Suc (o_attempts q)"] \<open>dv_state (?dv q) = OB_RETRY\<close>
      by (simp add: outbox_row_due_def)
    with True q e show ?thesis by (intro bexI [of _ q]) simp_all
  qed (use q in auto)
qed

lemma outbox_row_due_mono: "outbox_row_due t r \<Longrightarrow> t \<le> u \<Longrightarrow> outbox_row_due u r"
  by (auto simp: outbox_row_due_def split: option.splits)

lemma drain_progress:
  assumes "distinct (map event_id (outbox l))" "successively (\<lambda>p q. ps_now p + 300 * 1000000 \<le> ps_now q) (p # ps)"
    and "\<forall>r \<in> set (outbox l). awaiting r \<longrightarrow> outbox_row_due (ps_now p) r \<and> k \<le> o_attempts r"
    and "r \<in> set (outbox (fold (drain_pass mx broad) (p # ps) l))" "awaiting r"
  shows "Suc (k + length ps) \<le> o_attempts r \<and> o_attempts r < mx"
  using assms
proof (induction ps arbitrary: p l k)
  case Nil
  then show ?case using drain_pass_rows(2) [OF Nil.prems(1), of r mx broad p] due_awaiting by fastforce
next
  case (Cons p' ps)
  let ?l = "drain_pass mx broad p l"
  have d: "distinct (map event_id (outbox ?l))" using Cons.prems(1) by (simp add: drain_pass_rows(1) [OF Cons.prems(1)])
  have s: "ps_now p + 300 * 1000000 \<le> ps_now p'" "successively (\<lambda>p q. ps_now p + 300 * 1000000 \<le> ps_now q) (p' # ps)"
    using Cons.prems(2) by simp_all
  have "outbox_row_due (ps_now p') x \<and> Suc k \<le> o_attempts x" if x: "x \<in> set (outbox ?l)" "awaiting x" for x
  proof -
    obtain y where y: "y \<in> set (outbox l)" "x = y \<and> \<not> outbox_row_due (ps_now p) y \<or>
          outbox_row_due (ps_now p) y \<and> o_attempts x = Suc (o_attempts y) \<and> o_attempts x < mx
          \<and> outbox_row_due (ps_now p + 300 * 1000000) x"
      using drain_pass_rows(2) [OF Cons.prems(1) x] by blast
    with Cons.prems(3) x(2) have "outbox_row_due (ps_now p) y" by blast
    with y Cons.prems(3) due_awaiting [of "ps_now p" y] show ?thesis
      using outbox_row_due_mono [OF _ s(1), of x] by auto
  qed
  then have "Suc (Suc k + length ps) \<le> o_attempts r \<and> o_attempts r < mx"
    using Cons.prems(4,5) by (intro Cons.IH [OF d s(2)]) auto
  then show ?case by simp
qed

text \<open>
  Retrying always ends.  Whatever the router and the transport answer on each pass, drains at least
  five minutes apart leave no alert awaiting delivery after as many passes as the maximum number of
  attempts: every alert has been sent, held, expired, declared ambiguous or failed for good.
\<close>

theorem retries_always_end:
  assumes "distinct (map event_id (outbox l))" "successively (\<lambda>p q. ps_now p + 300 * 1000000 \<le> ps_now q) (p # ps)"
    and "\<forall>r \<in> set (outbox l). awaiting r \<longrightarrow> outbox_row_due (ps_now p) r" "mx \<le> length (p # ps)"
  shows "\<forall>r \<in> set (outbox (fold (drain_pass mx broad) (p # ps) l)). \<not> awaiting r"
  using drain_progress [OF assms(1,2), of 0 _ mx broad] assms(3,4) by fastforce

section \<open>Examples\<close>

definition demo_alerted :: ledger where
  "demo_alerted = snd (enqueue_alert 1 ''v1'' ''E1'' ENTRY_INTENT ALERT_BUY ''ACME'' ''E1:ENTRY_INTENT'' ''card'' 10
     None None (Some 50) (snd (enqueue_alert 2 ''v2'' ''E1'' ENTRY_FILL ALERT_BUY ''ACME'' ''E1:ENTRY_FILL'' ''card'' 10
     None None None demo_ledger)))"

definition demo_route :: "string \<Rightarrow> bool \<Rightarrow> route_decision" where
  "demo_route key broad = \<lparr> rd_eligible = True, rd_already_delivered = False, rd_reason = [] \<rparr>"

definition demo_pass :: "stamp \<Rightarrow> pass" where
  "demo_pass t = \<lparr> ps_wall = t, ps_now = t, ps_decide = demo_route, ps_send = (\<lambda>r. None) \<rparr>"

definition demo_drained :: "delivery_summary \<times> ledger" where
  "demo_drained = deliver_outbox 60 60 5 demo_route (\<lambda>r. if o_kind r = ENTRY_FILL then Some (sent_ok ''x'') else None) {} demo_alerted"

lemma demo_alerted_ids: "distinct (map event_id (outbox demo_alerted))"
  by code_simp

theorem alerts_are_sent_once_and_in_time_witness:
  "\<exists>r' \<in> set (outbox (snd demo_drained)). o_kind r' = ENTRY_INTENT \<and> o_state r' = OB_EXPIRED"
proof -
  let ?r = "outbox demo_alerted ! 1" and ?r' = "outbox (snd demo_drained) ! 1"
  have r: "?r \<in> set (outbox demo_alerted)" "outbox_row_due 60 ?r" "past_deadline 60 ?r" by code_simp+
  have r': "?r' \<in> set (outbox (snd demo_drained))" "event_id ?r' = event_id ?r" "o_kind ?r' = ENTRY_INTENT" by code_simp+
  have e: "deliver_outbox 60 60 5 demo_route (\<lambda>r. if o_kind r = ENTRY_FILL then Some (sent_ok ''x'') else None) {}
      demo_alerted = (fst demo_drained, snd demo_drained)" by (simp add: demo_drained_def)
  from alerts_are_sent_once_and_in_time [OF demo_alerted_ids e r(1) r'(1,2)] r(2,3) have "o_state ?r' = OB_EXPIRED" by blast
  with r' show ?thesis by blast
qed

definition demo_retried :: "delivery_summary \<times> ledger" where
  "demo_retried = deliver_outbox 40 40 5 demo_route (\<lambda>r. None) {} demo_alerted"

theorem retry_backoff_is_bounded_witness:
  "\<exists>t. o_next_attempt (outbox (snd demo_retried) ! 0) = Some t \<and> t \<le> 40 + 300 * 1000000"
proof -
  have r: "outbox (snd demo_retried) ! 0 \<in> set (outbox (snd demo_retried))"
    "outbox (snd demo_retried) ! 0 \<notin> set (outbox demo_alerted)" "o_state (outbox (snd demo_retried) ! 0) = OB_RETRY"
    by code_simp+
  have e: "deliver_outbox 40 40 5 demo_route (\<lambda>r. None) {} demo_alerted = (fst demo_retried, snd demo_retried)"
    by (simp add: demo_retried_def)
  from retry_backoff_is_bounded [OF demo_alerted_ids e r] show ?thesis by blast
qed

theorem retries_always_end_witness:
  "filter awaiting (outbox (fold (drain_pass 2 {}) [demo_pass 40, demo_pass 300000040] demo_alerted)) = []"
proof -
  have "\<forall>r \<in> set (outbox demo_alerted). awaiting r \<longrightarrow> outbox_row_due (ps_now (demo_pass 40)) r" by code_simp
  from retries_always_end [OF demo_alerted_ids _ this, of "[demo_pass 300000040]" 2 "{}"] show ?thesis
    by (simp add: demo_pass_def filter_empty_conv)
qed

end
