(* ===== verification/V2_Dividends.thy ===== *)
theory V2_Dividends
  imports V2_Guard
begin

text \<open>
  \<open>talonx_v2/dividends.py\<close>: the receivables after settlement.  The evidence is the function \<open>fetch\<close> of
  the guard, always asked fresh.  \<open>note_dividend_check\<close> writes only the free-text detail column, which the
  ledger model leaves out, so those branches return the ledger unchanged.
\<close>

section \<open>Late publications\<close>

definition LATE_DIVIDEND_LOOKBACK_SESSIONS :: int where
  "LATE_DIVIDEND_LOOKBACK_SESSIONS = 5"

datatype late_status =
    LATE_EVIDENCE_UNAVAILABLE | LATE_UNSUPPORTED_OR_CONFLICTING | LATE_BASIS_NOT_UNADJUSTED
  | LATE_SPLIT_SAME_EX_DATE "date option" | LATE_DIVIDEND_ACCRUED action_key

text \<open>The inner loop over the dividends of one closed position.\<close>

fun accrue_late ::
    "stamp \<Rightarrow> nat \<Rightarrow> date \<Rightarrow> ca_event list \<Rightarrow> ca_event list \<Rightarrow> ledger \<Rightarrow> late_status list \<times> ledger" where
  "accrue_late now pid exit splits [] l = ([], l)"
| "accrue_late now pid exit splits (d # ds) l =
     (if list_ex (\<lambda>s. ev_ex_date s = ev_ex_date d) splits
      then (let rest = accrue_late now pid exit splits ds l
            in (LATE_SPLIT_SAME_EX_DATE (ev_ex_date d) # fst rest, snd rest))
      else (let r = record_dividend_entitlement now pid d exit l;
                rest = accrue_late now pid exit splits ds (snd r)
            in ((if fst r then LATE_DIVIDEND_ACCRUED (ev_key d) # fst rest else fst rest), snd rest)))"

definition catch_up_position ::
    "date list \<Rightarrow> (symbol \<Rightarrow> date \<Rightarrow> date \<Rightarrow> bool \<Rightarrow> ca_source_result) \<Rightarrow> stamp \<Rightarrow> date \<Rightarrow> int \<Rightarrow> position \<Rightarrow> date
       \<Rightarrow> ledger \<Rightarrow> late_status list \<times> ledger" where
  "catch_up_position sess fetch now as_of lookback p exit l =
     (if lookback < sessions_between sess exit as_of then ([], l)
      else let res = fetch (p_symbol p) (entry_session p) exit True;
               window = filter (in_hold_window (entry_session p) exit) (ca_events res);
               divs = dividend_events window;
               unsupported = filter (\<lambda>e. ev_kind e = UNSUPPORTED) window
           in if \<not> ca_ok res then ([LATE_EVIDENCE_UNAVAILABLE], l)
              else if divs = [] \<and> unsupported = [] then ([], l)
              else if list_ex (\<lambda>c. conflict_in_window c (entry_session p) exit) (ca_conflicts res) \<or> unsupported \<noteq> []
              then ([LATE_UNSUPPORTED_OR_CONFLICTING], l)
              else if \<not> safe_basis (parse_adjustment_state (entry_provenance p))
                    \<or> \<not> safe_basis (parse_adjustment_state (exit_provenance p))
              then ([LATE_BASIS_NOT_UNADJUSTED], l)
              else accrue_late now (position_id p) exit (split_events window) divs l)"

fun catch_up_positions ::
    "date list \<Rightarrow> (symbol \<Rightarrow> date \<Rightarrow> date \<Rightarrow> bool \<Rightarrow> ca_source_result) \<Rightarrow> stamp \<Rightarrow> date \<Rightarrow> int \<Rightarrow> position list
       \<Rightarrow> ledger \<Rightarrow> late_status list \<times> ledger" where
  "catch_up_positions sess fetch now as_of lookback [] l = ([], l)"
| "catch_up_positions sess fetch now as_of lookback (p # ps) l =
     (let r = (case p_exit_session p of
                 Some exit \<Rightarrow> if p_status p = CLOSED then catch_up_position sess fetch now as_of lookback p exit l else ([], l)
               | None \<Rightarrow> ([], l));
          rest = catch_up_positions sess fetch now as_of lookback ps (snd r)
      in (fst r @ fst rest, snd rest))"

definition catch_up_recent_closed ::
    "date list \<Rightarrow> (symbol \<Rightarrow> date \<Rightarrow> date \<Rightarrow> bool \<Rightarrow> ca_source_result) \<Rightarrow> stamp \<Rightarrow> date \<Rightarrow> int \<Rightarrow> ledger
       \<Rightarrow> late_status list \<times> ledger" where
  "catch_up_recent_closed sess fetch now as_of lookback l =
     catch_up_positions sess fetch now as_of lookback (all_positions l) l"

section \<open>Crediting receivables\<close>

datatype credit_status =
    NO_PAYABLE_DATE | NOT_YET_PAYABLE | CREDIT_EVIDENCE_UNAVAILABLE | EVIDENCE_CONFLICT | NOT_CONFIRMED
  | PAYABLE_DATE_CHANGED | CREDITED_NOW | ALREADY_CREDITED

text \<open>What stands against crediting, \<open>None\<close> when a fresh fetch confirms the same event.\<close>

definition receivable_obstacle ::
    "(symbol \<Rightarrow> date \<Rightarrow> date \<Rightarrow> bool \<Rightarrow> ca_source_result) \<Rightarrow> date \<Rightarrow> entitlement \<Rightarrow> credit_status option" where
  "receivable_obstacle fetch as_of e =
     (case en_payable e of
        None \<Rightarrow> Some NO_PAYABLE_DATE
      | Some pay \<Rightarrow>
          if as_of < pay then Some NOT_YET_PAYABLE
          else let res = fetch (en_symbol e) (en_ex_date e - 1) pay True
               in if \<not> ca_ok res then Some CREDIT_EVIDENCE_UNAVAILABLE
                  else if list_ex (\<lambda>c. conflict_ex_date c = Some (en_ex_date e)) (ca_conflicts res)
                  then Some EVIDENCE_CONFLICT
                  else (case find (\<lambda>x. ev_key x = en_key e) (ca_events res) of
                          None \<Rightarrow> Some NOT_CONFIRMED
                        | Some x \<Rightarrow> if ev_payable_date x \<noteq> Some pay then Some PAYABLE_DATE_CHANGED else None))"

definition settle_receivable ::
    "(symbol \<Rightarrow> date \<Rightarrow> date \<Rightarrow> bool \<Rightarrow> ca_source_result) \<Rightarrow> stamp \<Rightarrow> date \<Rightarrow> entitlement \<Rightarrow> ledger
       \<Rightarrow> credit_status \<times> ledger" where
  "settle_receivable fetch now as_of e l =
     (case receivable_obstacle fetch as_of e of
        Some st \<Rightarrow> (st, l)
      | None \<Rightarrow> let r = credit_dividend now (entitlement_id e) as_of l
                in ((if fst r then CREDITED_NOW else ALREADY_CREDITED), snd r))"

fun settle_each ::
    "(symbol \<Rightarrow> date \<Rightarrow> date \<Rightarrow> bool \<Rightarrow> ca_source_result) \<Rightarrow> stamp \<Rightarrow> date \<Rightarrow> entitlement list \<Rightarrow> ledger
       \<Rightarrow> credit_status list \<times> ledger" where
  "settle_each fetch now as_of [] l = ([], l)"
| "settle_each fetch now as_of (e # es) l =
     (let r = settle_receivable fetch now as_of e l; rest = settle_each fetch now as_of es (snd r)
      in (fst r # fst rest, snd rest))"

definition settle_receivables ::
    "(symbol \<Rightarrow> date \<Rightarrow> date \<Rightarrow> bool \<Rightarrow> ca_source_result) \<Rightarrow> stamp \<Rightarrow> date \<Rightarrow> ledger \<Rightarrow> credit_status list \<times> ledger" where
  "settle_receivables fetch now as_of l = settle_each fetch now as_of (accrued_entitlements l) l"

section \<open>Totals\<close>

text \<open>\<open>per_position_totals\<close>: credited and accrued dollars of one position, added in row order.\<close>

definition sum_usd :: "entitlement list \<Rightarrow> money" where
  "sum_usd es = foldl (\<lambda>s e. fl (s + en_usd e)) 0 es"

definition per_position_totals :: "ledger \<Rightarrow> nat \<Rightarrow> (money \<times> money) option" where
  "per_position_totals l pid =
     (let es = filter (\<lambda>e. en_position e = pid) (entitlements l)
      in if es = [] then None
         else Some (sum_usd (filter (\<lambda>e. en_state e = CREDITED) es), sum_usd (filter (\<lambda>e. en_state e \<noteq> CREDITED) es)))"

section \<open>Runs of the ledger machine\<close>

lemma accrue_late_steps:
  assumes "position_by_id l pid = Some p" "p_exit_session p = Some exit" "\<forall>d \<in> set ds. event_ok d"
  shows "ledger_steps sha sess l (snd (accrue_late now pid exit splits ds l))"
  using assms
proof (induction ds arbitrary: l)
  case (Cons d ds)
  let ?l = "snd (record_dividend_entitlement now pid d exit l)"
  have "ledger_step sha sess l ?l" by (rule ledger_step.accrue [OF Cons.prems(1,2)]) (use Cons.prems(3) in simp)
  moreover have "position_by_id ?l pid = Some p" using Cons.prems(1) by (simp add: position_by_id_def store_simps)
  ultimately have "ledger_steps sha sess l (snd (accrue_late now pid exit splits ds ?l))"
    using Cons.IH [of ?l] Cons.prems(2,3) by (simp add: converse_rtranclp_into_rtranclp)
  moreover have "ledger_steps sha sess l (snd (accrue_late now pid exit splits ds l))" using Cons by simp
  ultimately show ?case by (simp add: Let_def)
qed simp

lemma accrue_late_frame:
  "positions (snd (accrue_late now pid exit splits ds l)) = positions l"
  "trades (snd (accrue_late now pid exit splits ds l)) = trades l"
  "cash (snd (accrue_late now pid exit splits ds l)) = cash l"
  by (induction ds arbitrary: l) (simp_all add: Let_def store_simps cash_def)

lemma catch_up_position_frame:
  "positions (snd (catch_up_position sess fetch now as_of k p exit l)) = positions l"
  "trades (snd (catch_up_position sess fetch now as_of k p exit l)) = trades l"
  "cash (snd (catch_up_position sess fetch now as_of k p exit l)) = cash l"
  by (simp_all add: catch_up_position_def Let_def accrue_late_frame)

lemma catch_up_frame:
  "positions (snd (catch_up_positions sess fetch now as_of k ps l)) = positions l"
  "trades (snd (catch_up_positions sess fetch now as_of k ps l)) = trades l"
  "cash (snd (catch_up_positions sess fetch now as_of k ps l)) = cash l"
  by (induction ps arbitrary: l) (simp_all add: Let_def catch_up_position_frame split: option.split)

lemma catch_up_steps:
  assumes "\<And>s a b f e. e \<in> set (ca_events (fetch s a b f)) \<Longrightarrow> event_ok e"
    and "\<forall>p \<in> set ps. position_by_id l (position_id p) = Some p"
  shows "ledger_steps sha sess l (snd (catch_up_positions sess' fetch now as_of k ps l))"
  using assms(2)
proof (induction ps arbitrary: l)
  case (Cons p ps)
  let ?r = "case p_exit_session p of
       Some exit \<Rightarrow> if p_status p = CLOSED then catch_up_position sess' fetch now as_of k p exit l else ([], l)
     | None \<Rightarrow> ([], l)"
  have "ledger_steps sha sess l (snd (catch_up_position sess' fetch now as_of k p exit l))"
    if "p_exit_session p = Some exit" for exit
    using Cons.prems that assms(1)
    by (auto simp: catch_up_position_def Let_def dividend_events_def intro!: accrue_late_steps)
  then have "ledger_steps sha sess l (snd ?r)" by (simp split: option.split)
  moreover have "positions (snd ?r) = positions l" by (simp add: catch_up_position_frame split: option.split)
  then have "position_by_id (snd ?r) = position_by_id l" by (rule read_simps)
  with Cons have "ledger_steps sha sess (snd ?r) (snd (catch_up_positions sess' fetch now as_of k ps (snd ?r)))" by simp
  ultimately show ?case by (simp add: Let_def)
qed simp

lemma settle_each_steps: "ledger_steps sha sess l (snd (settle_each fetch now as_of es l))"
proof (induction es arbitrary: l)
  case (Cons e es)
  have "ledger_step sha sess l (snd (credit_dividend now (entitlement_id e) as_of l))" by (rule ledger_step.credit)
  then have "ledger_steps sha sess l (snd (settle_receivable fetch now as_of e l))"
    by (auto simp: settle_receivable_def Let_def split: option.split)
  with Cons.IH [of "snd (settle_receivable fetch now as_of e l)"] show ?case by (simp add: Let_def)
qed simp

section \<open>What crediting does\<close>

definition creditable ::
    "(symbol \<Rightarrow> date \<Rightarrow> date \<Rightarrow> bool \<Rightarrow> ca_source_result) \<Rightarrow> date \<Rightarrow> entitlement \<Rightarrow> bool" where
  "creditable fetch as_of e \<longleftrightarrow> en_state e = ACCRUED \<and> receivable_obstacle fetch as_of e = None"

lemma receivable_obstacle_None:
  "receivable_obstacle fetch as_of e = None \<Longrightarrow> \<exists>pay x. en_payable e = Some pay \<and> pay \<le> as_of
     \<and> x \<in> set (ca_events (fetch (en_symbol e) (en_ex_date e - 1) pay True)) \<and> ev_key x = en_key e
     \<and> ev_payable_date x = Some pay"
  by (auto simp: receivable_obstacle_def Let_def dest!: find_SomeD split: option.splits if_splits)

lemma settle_receivable_effect:
  assumes "distinct (map entitlement_id (entitlements l))" "e \<in> set (entitlements l)" "en_state e = ACCRUED"
  shows "snd (settle_receivable fetch now as_of e l) = (if creditable fetch as_of e
     then set_cash (fl (cash l + en_usd e)) (l\<lparr> entitlements := map (\<lambda>x. if x = e then
            credited_row now as_of (fl (cash l + en_usd e)) x else x) (entitlements l) \<rparr>) else l)"
proof (cases "receivable_obstacle fetch as_of e")
  case None
  note no = receivable_obstacle_None [OF None]
  have same: "x = e" if "x \<in> set (entitlements l)" "entitlement_id x = entitlement_id e" for x
    using distinct_key [OF assms(1) that(1) assms(2) that(2)] .
  show ?thesis
  proof (cases rule: credit_dividend_cases [of now "entitlement_id e" as_of l])
    case refused
    have "find (\<lambda>x. entitlement_id x = entitlement_id e \<and> en_state x = ACCRUED) (entitlements l) = Some e"
    proof (cases "find (\<lambda>x. entitlement_id x = entitlement_id e \<and> en_state x = ACCRUED) (entitlements l)")
      case None
      then show ?thesis using assms(2,3) by (auto simp: find_None_iff)
    next
      case (Some x)
      then have "x \<in> set (entitlements l)" "entitlement_id x = entitlement_id e" by (auto simp: find_Some_iff)
      with same Some show ?thesis by simp
    qed
    with refused no show ?thesis by (auto simp: credit_dividend_def Let_def)
  next
    case (credited e' pay)
    then have "e' = e" using same by blast
    with credited(6) same assms(3) None show ?thesis
      by (auto simp: settle_receivable_def creditable_def update_rows_def intro!: arg_cong [where f = "set_cash _"]
          arg_cong [where f = "\<lambda>es. l\<lparr> entitlements := es \<rparr>"])
  qed
qed (simp add: settle_receivable_def creditable_def)

lemma settle_each_effect:
  fixes fetch now as_of
  assumes "distinct (map entitlement_id (entitlements l))" "distinct es"
    and "set es \<subseteq> {e \<in> set (entitlements l). en_state e = ACCRUED}"
  defines "l' \<equiv> snd (settle_each fetch now as_of es l)"
  shows "\<exists>paid. l' = set_cash (foldl (\<lambda>c e. fl (c + en_usd e)) (cash l) (filter (creditable fetch as_of) es))
     (l\<lparr> entitlements := map (\<lambda>x. if x \<in> set es \<and> creditable fetch as_of x then credited_row now as_of (paid x) x else x)
        (entitlements l) \<rparr>)"
  unfolding l'_def using assms(1-3)
proof (induction es arbitrary: l)
  case Nil
  then show ?case by (simp add: set_cash_def cash_def)
next
  case (Cons e es)
  let ?C = "creditable fetch as_of" and ?m = "snd (settle_receivable fetch now as_of e l)"
  let ?c = "fl (cash l + en_usd e)"
  have e: "e \<in> set (entitlements l)" "en_state e = ACCRUED" "e \<notin> set es" using Cons.prems by auto
  have m: "?m = (if ?C e then set_cash ?c (l\<lparr> entitlements := map (\<lambda>x. if x = e then
            credited_row now as_of ?c x else x) (entitlements l) \<rparr>) else l)"
    by (rule settle_receivable_effect [OF Cons.prems(1) e(1,2)])
  have ent: "entitlements ?m = map (\<lambda>x. if ?C e \<and> x = e then credited_row now as_of ?c x else x) (entitlements l)"
    using m by (simp add: store_simps)
  have "map entitlement_id (entitlements ?m) = map entitlement_id (entitlements l)" unfolding ent by auto
  then have d: "distinct (map entitlement_id (entitlements ?m))" using Cons.prems(1) by simp
  have "set es \<subseteq> {e \<in> set (entitlements ?m). en_state e = ACCRUED}"
    using Cons.prems(3) e(3) unfolding ent by (auto intro: rev_image_eqI)
  then obtain paid where IH: "snd (settle_each fetch now as_of es ?m) =
      set_cash (foldl (\<lambda>c e. fl (c + en_usd e)) (cash ?m) (filter ?C es))
     (?m\<lparr> entitlements := map (\<lambda>x. if x \<in> set es \<and> ?C x then credited_row now as_of (paid x) x else x) (entitlements ?m) \<rparr>)"
    using Cons.IH [OF d] Cons.prems(2) by auto
  have new: "\<not> ?C (credited_row now as_of c x)" for c x by (simp add: creditable_def)
  have "map (\<lambda>x. if x \<in> set es \<and> ?C x then credited_row now as_of (paid x) x else x) (entitlements ?m) =
      map (\<lambda>x. if x \<in> set (e # es) \<and> ?C x then credited_row now as_of ((paid(e := ?c)) x) x else x) (entitlements l)"
    unfolding ent using e(3) new by auto
  moreover have "cash ?m = (if ?C e then ?c else cash l)" using m by (simp add: cash_def store_simps)
  moreover have "set_cash c (?m\<lparr> entitlements := es \<rparr>) = set_cash c (l\<lparr> entitlements := es \<rparr>)" for c es
    using m by (simp add: set_cash_def)
  ultimately have "snd (settle_each fetch now as_of (e # es) l) =
      set_cash (foldl (\<lambda>c e. fl (c + en_usd e)) (cash l) (filter ?C (e # es)))
     (l\<lparr> entitlements := map (\<lambda>x. if x \<in> set (e # es) \<and> ?C x then credited_row now as_of ((paid(e := ?c)) x) x else x)
        (entitlements l) \<rparr>)"
    using IH by (simp add: Let_def)
  then show ?case by blast
qed

section \<open>Properties\<close>


section \<open>Late publications\<close>

text \<open>What a late receivable needs: a trade closed recently, held over the ex-date, on unadjusted prices.\<close>

definition late_eligible :: "date list \<Rightarrow> date \<Rightarrow> int \<Rightarrow> position list \<Rightarrow> entitlement \<Rightarrow> bool" where
  "late_eligible sess as_of k ps e \<longleftrightarrow> (\<exists>p \<in> set ps. \<exists>exit. position_id p = en_position e \<and> p_status p = CLOSED
     \<and> p_exit_session p = Some exit \<and> sessions_between sess exit as_of \<le> k
     \<and> entry_session p < en_ex_date e \<and> en_ex_date e \<le> exit
     \<and> safe_basis (parse_adjustment_state (entry_provenance p)) \<and> safe_basis (parse_adjustment_state (exit_provenance p)))"

lemma accrue_late_new:
  assumes "position_by_id l pid = Some p"
  shows "\<exists>new. entitlements (snd (accrue_late now pid exit splits ds l)) = entitlements l @ new
     \<and> (\<forall>e \<in> set new. en_position e = pid \<and> entry_session p < en_ex_date e \<and> en_ex_date e \<le> exit \<and> en_state e = ACCRUED)"
  using assms
proof (induction ds arbitrary: l)
  case (Cons d ds)
  let ?l = "snd (record_dividend_entitlement now pid d exit l)"
  have pos: "position_by_id ?l pid = Some p" using Cons.prems by (simp add: position_by_id_def store_simps)
  have "\<exists>new. entitlements ?l = entitlements l @ new
     \<and> (\<forall>e \<in> set new. en_position e = pid \<and> entry_session p < en_ex_date e \<and> en_ex_date e \<le> exit \<and> en_state e = ACCRUED)"
    using Cons.prems by (cases rule: record_dividend_cases [of now pid d exit l])
      (auto simp: store_simps accrued_row_def Let_def)
  with Cons.IH [OF pos] Cons.IH [OF Cons.prems] show ?case by (fastforce simp: Let_def)
qed simp

lemma catch_up_new:
  assumes "\<forall>p \<in> set ps. position_by_id l (position_id p) = Some p"
  shows "\<exists>new. entitlements (snd (catch_up_positions sess fetch now as_of k ps l)) = entitlements l @ new
     \<and> (\<forall>e \<in> set new. late_eligible sess as_of k ps e \<and> en_state e = ACCRUED)"
  using assms
proof (induction ps arbitrary: l)
  case (Cons p ps)
  let ?r = "case p_exit_session p of
       Some exit \<Rightarrow> if p_status p = CLOSED then catch_up_position sess fetch now as_of k p exit l else ([], l)
     | None \<Rightarrow> ([], l)"
  have "\<exists>new. entitlements (snd ?r) = entitlements l @ new
     \<and> (\<forall>e \<in> set new. late_eligible sess as_of k (p # ps) e \<and> en_state e = ACCRUED)"
  proof (cases "\<exists>exit. p_exit_session p = Some exit \<and> p_status p = CLOSED \<and> sessions_between sess exit as_of \<le> k
      \<and> safe_basis (parse_adjustment_state (entry_provenance p)) \<and> safe_basis (parse_adjustment_state (exit_provenance p))")
    case True
    then obtain exit where e: "p_exit_session p = Some exit" "p_status p = CLOSED" "sessions_between sess exit as_of \<le> k"
      "safe_basis (parse_adjustment_state (entry_provenance p))" "safe_basis (parse_adjustment_state (exit_provenance p))" by blast
    let ?w = "filter (in_hold_window (entry_session p) exit) (ca_events (fetch (p_symbol p) (entry_session p) exit True))"
    have pos: "position_by_id l (position_id p) = Some p" using Cons.prems by simp
    obtain new where "entitlements (snd (accrue_late now (position_id p) exit (split_events ?w) (dividend_events ?w) l)) = entitlements l @ new"
      "\<forall>e \<in> set new. late_eligible sess as_of k (p # ps) e \<and> en_state e = ACCRUED"
      using accrue_late_new [OF pos, of now exit "split_events ?w" "dividend_events ?w"] e unfolding late_eligible_def by fastforce
    then show ?thesis using e by (auto simp: catch_up_position_def Let_def)
  next
    case False
    then have "snd ?r = l" by (auto simp: catch_up_position_def Let_def not_less split: option.split)
    then show ?thesis by simp
  qed
  then obtain new where new: "entitlements (snd ?r) = entitlements l @ new"
    "\<forall>e \<in> set new. late_eligible sess as_of k (p # ps) e \<and> en_state e = ACCRUED" by blast
  have "positions (snd ?r) = positions l" by (simp add: catch_up_position_frame split: option.split)
  then have "position_by_id (snd ?r) = position_by_id l" by (rule read_simps)
  then obtain rest where rest: "entitlements (snd (catch_up_positions sess fetch now as_of k ps (snd ?r))) = entitlements (snd ?r) @ rest"
    "\<forall>e \<in> set rest. late_eligible sess as_of k ps e \<and> en_state e = ACCRUED"
    using Cons.IH [of "snd ?r"] Cons.prems by auto
  have "late_eligible sess as_of k (p # ps) e" if "late_eligible sess as_of k ps e" for e
    using that unfolding late_eligible_def by auto
  with new rest show ?case by (intro exI [of _ "new @ rest"]) (auto simp: Let_def)
qed simp

text \<open>
  A dividend published after the trade settled is only ever added as a new receivable: positions,
  trades and cash stay as they are, no existing receivable changes, and each new one belongs to a trade
  closed within the lookback, was held over its ex-date and has both prices proved unadjusted.
\<close>

theorem late_dividends_never_reopen_a_trade:
  assumes "catch_up_recent_closed sess fetch now as_of k l = (ss, l')" "distinct (map position_id (positions l))"
  shows "positions l' = positions l \<and> trades l' = trades l \<and> cash l' = cash l
     \<and> (\<exists>new. entitlements l' = entitlements l @ new
          \<and> (\<forall>e \<in> set new. late_eligible sess as_of k (positions l) e \<and> en_state e = ACCRUED))"
proof -
  have l': "l' = snd (catch_up_positions sess fetch now as_of k (all_positions l) l)"
    using assms(1) by (simp add: catch_up_recent_closed_def)
  have set: "set (all_positions l) = set (positions l)" by (simp add: all_positions_def)
  have "\<forall>p \<in> set (all_positions l). position_by_id l (position_id p) = Some p"
    unfolding set using assms(2) by (auto simp: position_by_id_def row_by_distinct)
  from catch_up_new [OF this, of sess fetch now as_of k] show ?thesis
    unfolding l' by (simp add: catch_up_frame late_eligible_def set)
qed

section \<open>Examples\<close>

definition demo_entitled :: ledger where
  "demo_entitled = snd (record_dividend_entitlement 4 1
     (classify_alpaca_record ''ACME'' ''cash_dividends'' demo_dividend ''alpaca'' 1) 120 demo_settled)"

lemma demo_entitled_facts:
  "distinct (map entitlement_id (entitlements demo_entitled))" "distinct (map position_id (positions demo_settled))"
  by code_simp+


theorem late_dividends_never_reopen_a_trade_witness:
  "cash (snd (catch_up_recent_closed lane_sessions demo_fetch 9 122 5 demo_settled)) = cash demo_settled"
  using late_dividends_never_reopen_a_trade [OF surjective_pairing demo_entitled_facts(2)] by blast

end
