(* ===== verification/V2_Service.thy ===== *)
theory V2_Service
  imports V2_Pipeline V2_Delivery V2_Dividends
begin

text \<open>
  \<open>V2Service\<close> of \<open>talonx_v2/service.py\<close>: one tick of the live lane as its phases over the ledger.  What
  the tick reads from outside (clock, calendar instants, bars, prices, evidence, router, transport, the
  dissemination lookups) is the record \<open>lane_env\<close>; the clock is read once per tick.  Status file, logging,
  marks and the operations outbox are not part of the model.
\<close>

section \<open>Environment and state of a tick\<close>

record lane_env =
  le_sha :: "string \<Rightarrow> string"
  le_sess :: "date list"
  le_open :: "date \<Rightarrow> stamp option"
  le_close :: "date \<Rightarrow> stamp"
  le_cfg :: v2_config
  le_gate :: bool
  le_strict :: bool
  le_allowlist :: "symbol set option"
  le_bars :: "symbol \<Rightarrow> daily_bar list"
  le_price :: "symbol \<Rightarrow> date \<Rightarrow> price_row option"
  le_guard :: "(symbol \<Rightarrow> date \<Rightarrow> date \<Rightarrow> bool \<Rightarrow> ca_source_result) option"
  le_dissem :: "(symbol \<times> date) \<rightharpoonup> stamp"
  le_receipt :: "(symbol \<times> date) \<rightharpoonup> stamp"
  le_refreshed :: bool
  le_card :: "alert_kind \<Rightarrow> string \<Rightarrow> string"
  le_router :: "(string \<Rightarrow> bool \<Rightarrow> route_decision) option"
  le_deliver :: bool
  le_send :: "outbox_row \<Rightarrow> send_result option"
  le_broad :: "symbol set"
  le_now :: stamp
  le_live :: bool

record tick_state =
  ts_ledger :: ledger
  ts_result :: process_result
  ts_no_prior :: nat
  ts_retry :: "(string \<times> date) list"
  ts_stale :: nat
  ts_intents :: nat
  ts_capacity :: nat
  ts_deadline :: nat
  ts_blocked :: nat

definition start_tick :: "ledger \<Rightarrow> tick_state" where
  "start_tick l = \<lparr> ts_ledger = l, ts_result = empty_result, ts_no_prior = 0, ts_retry = [], ts_stale = 0,
     ts_intents = 0, ts_capacity = 0, ts_deadline = 0, ts_blocked = 0 \<rparr>"

section \<open>The dissemination lookups\<close>

record insider_txn =
  it_symbol :: "symbol option"
  it_accepted :: "stamp option"
  it_filing_date :: "date option"
  it_accession :: string

text \<open>The UTC date of an instant.\<close>

definition date_of_stamp :: "stamp \<Rightarrow> date" where
  "date_of_stamp t = t div 86400000000 + 719163"

definition keep_latest :: "symbol \<times> date \<Rightarrow> stamp \<Rightarrow> (symbol \<times> date \<rightharpoonup> stamp) \<Rightarrow> (symbol \<times> date \<rightharpoonup> stamp)" where
  "keep_latest k t m = (case m k of None \<Rightarrow> m(k \<mapsto> t) | Some p \<Rightarrow> if p < t then m(k \<mapsto> t) else m)"

text \<open>The day a transaction counts for, \<open>None\<close> when it is passed over.\<close>

definition txn_key :: "bool \<Rightarrow> insider_txn \<Rightarrow> (symbol \<times> date) option" where
  "txn_key require_filing_date t =
     (case (it_symbol t, it_accepted t) of
        (Some sy, Some acc) \<Rightarrow>
          if sy = [] then None
          else (case it_filing_date t of
                  Some fd \<Rightarrow> Some (upper sy, fd)
                | None \<Rightarrow> if require_filing_date then None else Some (upper sy, date_of_stamp acc))
      | _ \<Rightarrow> None)"

text \<open>\<open>ingested\<close> is the receipt instant of a filing, \<open>None\<close> when the filing is unknown.\<close>

definition refresh_dissemination_lookup ::
    "bool \<Rightarrow> (string \<Rightarrow> stamp option) \<Rightarrow> insider_txn list \<Rightarrow> (symbol \<times> date \<rightharpoonup> stamp) \<times> (symbol \<times> date \<rightharpoonup> stamp)" where
  "refresh_dissemination_lookup require_filing_date ingested txns =
     fold (\<lambda>t (seen, received).
       case txn_key require_filing_date t of
         None \<Rightarrow> (seen, received)
       | Some k \<Rightarrow> (keep_latest k (the (it_accepted t)) seen,
                    case ingested (it_accession t) of None \<Rightarrow> received | Some r \<Rightarrow> keep_latest k r received))
       txns (Map.empty, Map.empty)"

definition apply_execution_allowlist :: "symbol set option \<Rightarrow> ('a \<Rightarrow> symbol) \<Rightarrow> 'a list \<Rightarrow> 'a list" where
  "apply_execution_allowlist allow symbol_of items =
     (case allow of None \<Rightarrow> items | Some syms \<Rightarrow> filter (\<lambda>it. upper (symbol_of it) \<in> syms) items)"

section \<open>The temporal boundary\<close>

text \<open>
  The activating filing was disseminated, and received when that is known, strictly before the open of the
  entry session; on a live tick so was the intent created, or the admission evaluated.
\<close>

definition verify_temporal_boundary :: "lane_env \<Rightarrow> cluster_episode \<Rightarrow> intent option \<Rightarrow> bool" where
  "verify_temporal_boundary env ep intent =
     (let key = (upper (ep_symbol ep), activation_filing_date ep)
      in case le_dissem env key of
           None \<Rightarrow> \<not> (le_live env \<or> le_refreshed env)
         | Some ts \<Rightarrow>
             (case le_open env (eligible_entry_session ep) of
                None \<Rightarrow> False
              | Some rth_open \<Rightarrow>
                  if rth_open \<le> ts then False
                  else if (case le_receipt env key of None \<Rightarrow> False | Some r \<Rightarrow> rth_open \<le> r) then False
                  else if le_live env
                  then (case intent of Some i \<Rightarrow> i_created_at i < rth_open | None \<Rightarrow> le_now env < rth_open)
                  else True))"

text \<open>The service's own copy of the recovery deadline.\<close>

definition service_deadline_passed :: "lane_env \<Rightarrow> date \<Rightarrow> date \<Rightarrow> bool result" where
  "service_deadline_passed env eligible ripe =
     bindR (recovery_deadline_session (le_sess env) eligible (max_entry_staleness_sessions (le_cfg env)))
       (\<lambda>deadline. Inr (if le_live env then le_close env deadline < le_now env else deadline < ripe))"

section \<open>Alerts\<close>

definition kind_name :: "alert_kind \<Rightarrow> string" where
  "kind_name k = (case k of ENTRY_INTENT \<Rightarrow> ''ENTRY_INTENT'' | ENTRY_FILL \<Rightarrow> ''ENTRY_FILL'' | EXIT_FILL \<Rightarrow> ''EXIT_FILL''
     | ENTRY_STALE_ALERT \<Rightarrow> ''ENTRY_STALE'' | ENTRY_FAILED_NO_DATA \<Rightarrow> ''ENTRY_FAILED_NO_DATA'')"

definition kind_action :: "alert_kind \<Rightarrow> alert_action" where
  "kind_action k = (case k of ENTRY_INTENT \<Rightarrow> ALERT_BUY | ENTRY_FILL \<Rightarrow> ALERT_BUY | EXIT_FILL \<Rightarrow> ALERT_SELL
     | ENTRY_STALE_ALERT \<Rightarrow> ALERT_INFO | ENTRY_FAILED_NO_DATA \<Rightarrow> ALERT_INFO)"

definition alert_action_name :: "alert_action \<Rightarrow> string" where
  "alert_action_name a = (case a of ALERT_BUY \<Rightarrow> ''BUY'' | ALERT_SELL \<Rightarrow> ''SELL'' | ALERT_INFO \<Rightarrow> ''INFO'')"

text \<open>\<open>_enqueue_alert\<close>: \<open>ref\<close> is the position id of a fill, otherwise the session the alert is about.\<close>

definition service_alert ::
    "lane_env \<Rightarrow> alert_kind \<Rightarrow> string \<Rightarrow> symbol \<Rightarrow> date \<Rightarrow> intent option \<Rightarrow> nat option \<Rightarrow> ledger \<Rightarrow> ledger" where
  "service_alert env kind eid sy session intent pid l =
     (let ref = (case pid of Some n \<Rightarrow> if n = 0 then isoformat session else str_int (int n) | None \<Rightarrow> isoformat session);
          evid = take 24 (le_sha env (eid @ ''|'' @ kind_name kind @ ''|'' @ ref));
          dedup = eid @ '':'' @ alert_action_name (kind_action kind) @ '':'' @ kind_name kind;
          deliver_by = (if kind = ENTRY_INTENT
                        then Some (case le_open env session of Some t \<Rightarrow> t | None \<Rightarrow> (session - 719163) * 86400000000)
                        else None)
      in snd (enqueue_alert (le_now env) evid eid kind (kind_action kind) (upper sy) dedup (le_card env kind eid)
                (hold_trading_days (le_cfg env)) (map_option intent_id intent) pid deliver_by l))"

definition on_entry_recorded :: "lane_env \<Rightarrow> cluster_episode \<Rightarrow> entry_record \<Rightarrow> intent option \<Rightarrow> ledger \<Rightarrow> ledger" where
  "on_entry_recorded env ep entry pre_intent l =
     (let pid = map_option position_id (position_for_episode l (episode_id ep));
          l1 = (case pre_intent of
                  Some i \<Rightarrow> if i_status i = PENDING
                            then mark_entry_intent (le_now env) (intent_id i) FILLED pid (finite_value (Some (er_price entry)))
                                   (Some (er_session entry)) l
                            else l
                | None \<Rightarrow> l)
      in service_alert env ENTRY_FILL (episode_id ep) (ep_symbol ep) (eligible_entry_session ep) pre_intent pid l1)"

definition on_exit_recorded :: "lane_env \<Rightarrow> exit_record \<Rightarrow> ledger \<Rightarrow> ledger" where
  "on_exit_recorded env x l = service_alert env EXIT_FILL (xr_ep x) (xr_sym x) (xr_session x) None None l"

section \<open>Phase open\<close>

definition dispose_episode :: "lane_env \<Rightarrow> cluster_episode \<Rightarrow> disposition \<Rightarrow> ledger \<Rightarrow> ledger" where
  "dispose_episode env ep disp l = record_disposition (le_now env) (episode_id ep) (ep_symbol ep) disp (ep_issuer_cik ep) None
     (Some (eligible_entry_session ep)) l"

definition release_intent :: "lane_env \<Rightarrow> intent option \<Rightarrow> intent_status \<Rightarrow> ledger \<Rightarrow> ledger" where
  "release_intent env intent st l =
     (case intent of None \<Rightarrow> l | Some i \<Rightarrow> mark_entry_intent (le_now env) (intent_id i) st None None None l)"

definition stale_alert :: "lane_env \<Rightarrow> cluster_episode \<Rightarrow> intent option \<Rightarrow> ledger \<Rightarrow> ledger" where
  "stale_alert env ep intent l = service_alert env ENTRY_STALE_ALERT (episode_id ep) (ep_symbol ep)
     (eligible_entry_session ep) intent None l"

text \<open>No entry bar yet: retry on the next tick, or release the reservation once the window is over.\<close>

definition missing_entry_bar ::
    "lane_env \<Rightarrow> date \<Rightarrow> cluster_episode \<Rightarrow> intent option \<Rightarrow> tick_state \<Rightarrow> py_error option \<times> tick_state" where
  "missing_entry_bar env ripe ep intent st =
     (case add_sessions (le_sess env) (eligible_entry_session ep) (max 0 (max_entry_staleness_sessions (le_cfg env) - 1)) of
        Inl err \<Rightarrow> (Some err, st)
      | Inr deadline \<Rightarrow>
          if ripe \<le> deadline then (None, st\<lparr> ts_retry := ts_retry st @ [(episode_id ep, deadline)] \<rparr>)
          else (None, st\<lparr> ts_ledger :=
                 service_alert env ENTRY_FAILED_NO_DATA (episode_id ep) (ep_symbol ep) (eligible_entry_session ep) intent None
                   (release_intent env intent FAILED_NO_DATA (dispose_episode env ep FAILED_NO_MARKET_DATA (ts_ledger st))) \<rparr>))"

text \<open>
  The entry attempt and the intent's FILLED mark are one transaction; an exception rolls the ledger back
  and keeps what the result object had collected.
\<close>

definition attempt_open ::
    "lane_env \<Rightarrow> date \<Rightarrow> cluster_episode \<Rightarrow> intent option \<Rightarrow> tick_state \<Rightarrow> py_error option \<times> tick_state" where
  "attempt_open env ripe ep intent st =
     (let res = ts_result st
      in case process_episode (le_sess env) (le_cfg env) (le_bars env) (le_price env) (le_strict env) (le_now env) ep res (ts_ledger st) of
           (res', Inl err) \<Rightarrow> (None, st\<lparr> ts_result := res' \<rparr>)
         | (res', Inr l') \<Rightarrow>
             if length (pr_entries res) < length (pr_entries res')
             then (None, st\<lparr> ts_result := res',
                             ts_ledger := on_entry_recorded env ep (last (pr_entries res')) intent l' \<rparr>)
             else let st' = st\<lparr> ts_result := res', ts_ledger := l' \<rparr>
                  in if list_ex (\<lambda>s. snd s = NO_ENTRY_BAR_REASON) (drop (length (pr_skipped res)) (pr_skipped res'))
                     then missing_entry_bar env ripe ep intent st' else (None, st'))"

definition open_episode ::
    "lane_env \<Rightarrow> date \<Rightarrow> date \<Rightarrow> cluster_episode \<Rightarrow> tick_state \<Rightarrow> py_error option \<times> tick_state" where
  "open_episode env today ripe ep st =
     (let l = ts_ledger st; intent = entry_intent l (episode_id ep)
      in if le_gate env \<and> (case intent of None \<Rightarrow> True | Some i \<Rightarrow> i_status i \<noteq> PENDING)
         then (None, st\<lparr> ts_no_prior := Suc (ts_no_prior st),
                         ts_ledger := (if eligible_entry_session ep < today \<and> \<not> episode_seen l (episode_id ep)
                                       then dispose_episode env ep (SKIPPED NO_PRIOR_INTENT) l else l) \<rparr>)
         else if \<not> verify_temporal_boundary env ep intent
         then (None, st\<lparr> ts_ledger := release_intent env intent REJECTED_TEMPORAL_BOUNDARY
                           (dispose_episode env ep (SKIPPED TEMPORAL_BOUNDARY_VIOLATION) l) \<rparr>)
         else case service_deadline_passed env (eligible_entry_session ep) ripe of
           Inl err \<Rightarrow> (Some err, st)
         | Inr True \<Rightarrow>
             let l1 = dispose_episode env ep (SKIPPED RECOVERY_DEADLINE_PASSED) l
             in (None, st\<lparr> ts_ledger := (case intent of None \<Rightarrow> l1
                   | Some i \<Rightarrow> stale_alert env ep intent (release_intent env intent EXPIRED_RECOVERY_DEADLINE l1)) \<rparr>)
         | Inr False \<Rightarrow> attempt_open env ripe ep intent st)"

text \<open>An exception outside the inner \<open>try\<close> ends the tick.\<close>

fun each_episode ::
    "('e \<Rightarrow> tick_state \<Rightarrow> py_error option \<times> tick_state) \<Rightarrow> 'e list \<Rightarrow> tick_state \<Rightarrow> py_error option \<times> tick_state" where
  "each_episode f [] st = (None, st)"
| "each_episode f (e # es) st =
     (case f e st of (Some err, st') \<Rightarrow> (Some err, st') | (None, st') \<Rightarrow> each_episode f es st')"

definition phase_open ::
    "lane_env \<Rightarrow> date \<Rightarrow> date \<Rightarrow> cluster_episode list \<Rightarrow> tick_state \<Rightarrow> py_error option \<times> tick_state" where
  "phase_open env today ripe eps st = each_episode (open_episode env today ripe) eps st"

section \<open>The phases between\<close>

definition phase_corporate_actions :: "lane_env \<Rightarrow> date \<Rightarrow> tick_state \<Rightarrow> tick_state" where
  "phase_corporate_actions env today st =
     (case le_guard env of None \<Rightarrow> st
      | Some fetch \<Rightarrow> st\<lparr> ts_ledger := snd (sweep_corporate_actions fetch (le_now env) today (ts_ledger st)) \<rparr>)"

text \<open>The exit alerts are only enqueued when the whole settlement pass returned.\<close>

definition phase_close :: "lane_env \<Rightarrow> date \<Rightarrow> tick_state \<Rightarrow> tick_state" where
  "phase_close env ripe st =
     (let res = ts_result st
      in case settle_due_exits (le_sha env) (le_sess env) (le_cfg env) (le_price env) (le_guard env) (le_now env) ripe res
                (ts_ledger st) of
           (Some err, res', l') \<Rightarrow> st\<lparr> ts_result := res', ts_ledger := l' \<rparr>
         | (None, res', l') \<Rightarrow>
             st\<lparr> ts_result := res',
                 ts_ledger := fold (on_exit_recorded env) (drop (length (pr_exits res)) (pr_exits res')) l' \<rparr>)"

definition phase_dividends :: "lane_env \<Rightarrow> date \<Rightarrow> tick_state \<Rightarrow> tick_state" where
  "phase_dividends env today st =
     (case le_guard env of None \<Rightarrow> st
      | Some fetch \<Rightarrow>
          let l1 = snd (catch_up_recent_closed (le_sess env) fetch (le_now env) today LATE_DIVIDEND_LOOKBACK_SESSIONS (ts_ledger st))
          in st\<lparr> ts_ledger := snd (settle_receivables fetch (le_now env) today l1) \<rparr>)"

section \<open>Phase post-close\<close>

text \<open>\<open>stale_cut\<close> and \<open>_is_stale\<close>; \<open>None\<close> is \<open>date.min\<close>, for a configuration without the guard.\<close>

definition stale_cut :: "lane_env \<Rightarrow> date \<Rightarrow> date option result" where
  "stale_cut env ripe =
     (let n = max_entry_staleness_sessions (le_cfg env)
      in if 0 < n then bindR (add_sessions (le_sess env) ripe (- (n - 1))) (\<lambda>d. Inr (Some d)) else Inr None)"

definition is_stale :: "date option \<Rightarrow> cluster_episode \<Rightarrow> bool" where
  "is_stale oldest ep = (case oldest of None \<Rightarrow> False | Some d \<Rightarrow> eligible_entry_session ep < d)"

definition sweep_stale :: "lane_env \<Rightarrow> cluster_episode \<Rightarrow> tick_state \<Rightarrow> tick_state" where
  "sweep_stale env ep st =
     (let l = ts_ledger st;
          l1 = (if episode_seen l (episode_id ep) then l else dispose_episode env ep (SKIPPED ENTRY_STALE) l);
          intent = entry_intent l1 (episode_id ep);
          l2 = (case intent of Some i \<Rightarrow>
                  if i_status i = PENDING then stale_alert env ep intent (release_intent env intent EXPIRED_STALE l1) else l1
                | None \<Rightarrow> l1)
      in st\<lparr> ts_ledger := l2, ts_stale := Suc (ts_stale st) \<rparr>)"

definition eval_causal_decision :: "lane_env \<Rightarrow> cluster_episode \<Rightarrow> (liquidity_result \<times> v2_decision) result" where
  "eval_causal_decision env ep =
     bindR (evaluate_liquidity_checked (le_sess env) (le_cfg env) (le_bars env (ep_symbol ep)) (eligible_entry_session ep) (le_strict env))
       (\<lambda>liq. Inr (liq, contextualize (build_signal (le_cfg env) ep liq)))"

text \<open>Cash and slots not reserved by a pending intent; \<open>True\<close> when there is no room for one more.\<close>

definition capacity_rejected :: "v2_config \<Rightarrow> ledger \<Rightarrow> bool" where
  "capacity_rejected cfg l =
     (let pending = length (pending_entry_intents l);
          available = fl (cash l - fl (per_position_allocation_usd cfg * of_nat pending));
          slots = int (max_concurrent_positions cfg) - int (n_open l) - int pending
      in available < per_position_allocation_usd cfg \<or> slots \<le> 0)"

text \<open>The admission transaction: account block, capacity, reservation and its alert.\<close>

definition admit_intent ::
    "lane_env \<Rightarrow> cluster_episode \<Rightarrow> liquidity_result \<Rightarrow> tick_state \<Rightarrow> py_error option \<times> tick_state" where
  "admit_intent env ep liq st =
     (let l = ts_ledger st; cfg = le_cfg env; key = (upper (ep_symbol ep), activation_filing_date ep);
          planned = (case add_sessions (le_sess env) (eligible_entry_session ep) (hold_trading_days cfg) of
                       Inr d \<Rightarrow> Some d | Inl _ \<Rightarrow> None)
      in if store_blocked_reason l \<noteq> None
         then (None, st\<lparr> ts_ledger := dispose_episode env ep (SKIPPED (ACCOUNT_BLOCKED_AT_ADMISSION)) l,
                         ts_blocked := Suc (ts_blocked st) \<rparr>)
         else if le_gate env \<and> capacity_rejected cfg l
         then (None, st\<lparr> ts_ledger := dispose_episode env ep REJECTED_CAPACITY_EXCEEDED l,
                         ts_capacity := Suc (ts_capacity st) \<rparr>)
         else case upsert_entry_intent (le_sha env) (le_now env) ep liq (hold_trading_days cfg) planned
                     (le_dissem env key) (le_receipt env key) l of
           Inl err \<Rightarrow> (Some err, st)
         | Inr (i, l1) \<Rightarrow>
             (None, st\<lparr> ts_ledger := service_alert env ENTRY_INTENT (episode_id ep) (ep_symbol ep)
                                       (eligible_entry_session ep) (Some i) None l1,
                        ts_intents := Suc (ts_intents st) \<rparr>))"

definition plan_episode ::
    "lane_env \<Rightarrow> date \<Rightarrow> date \<Rightarrow> cluster_episode \<Rightarrow> tick_state \<Rightarrow> py_error option \<times> tick_state" where
  "plan_episode env today next_sess ep st =
     (let l = ts_ledger st; eid = episode_id ep
      in if \<not> (today \<le> eligible_entry_session ep \<and> eligible_entry_session ep \<le> next_sess) then (None, st)
         else if episode_disposition l eid = Some ENTERED \<or> episode_disposition l eid = Some (SKIPPED ENTRY_STALE) then (None, st)
         else if entry_intent l eid \<noteq> None then (None, st)
         else case eval_causal_decision env ep of
           Inl err \<Rightarrow> (Some err, st)
         | Inr (liq, dec) \<Rightarrow>
             if d_action dec \<noteq> BUY then (None, st)
             else if \<not> verify_temporal_boundary env ep None
             then (None, st\<lparr> ts_ledger := dispose_episode env ep (SKIPPED ADMISSION_DEADLINE_PASSED) l,
                             ts_deadline := Suc (ts_deadline st) \<rparr>)
             else admit_intent env ep liq st)"

definition phase_post_close ::
    "lane_env \<Rightarrow> date \<Rightarrow> date \<Rightarrow> date option \<Rightarrow> cluster_episode list \<Rightarrow> tick_state \<Rightarrow> py_error option \<times> tick_state" where
  "phase_post_close env today ripe oldest eps st =
     (let ripe_eps = filter (\<lambda>e. eligible_entry_session e \<le> ripe) eps;
          st1 = fold (sweep_stale env) (filter (is_stale oldest) ripe_eps) st
      in case next_session_strictly_after (le_sess env) ripe of
           Inl err \<Rightarrow> (Some err, st1)
         | Inr next_sess \<Rightarrow> each_episode (plan_episode env today next_sess) eps st1)"

section \<open>One tick\<close>

text \<open>The delivery clock of a pinned tick is 20:00 UTC of its date.\<close>

definition delivery_clock :: "lane_env \<Rightarrow> date \<Rightarrow> stamp" where
  "delivery_clock env today = (if le_live env then le_now env else ((today - 719163) * 86400 + 72000) * 1000000)"

definition phase_deliver :: "lane_env \<Rightarrow> date \<Rightarrow> tick_state \<Rightarrow> tick_state" where
  "phase_deliver env today st =
     (case le_router env of
        None \<Rightarrow> st
      | Some decide \<Rightarrow>
          if le_deliver env
          then st\<lparr> ts_ledger := snd (deliver_outbox (le_now env) (delivery_clock env today) default_max_attempts decide
                     (le_send env) (le_broad env) (ts_ledger st)) \<rparr>
          else st)"

text \<open>\<open>records\<close> is \<open>None\<close> when the Form-4 source is degraded: then there are no episodes, and exits still run.\<close>

definition tick_episodes :: "lane_env \<Rightarrow> purchase_record list option \<Rightarrow> cluster_episode list result" where
  "tick_episodes env records =
     (case records of
        None \<Rightarrow> Inr []
      | Some rs \<Rightarrow>
          bindR (detect_episodes (le_sha env) (le_sess env) (le_cfg env) (apply_execution_allowlist (le_allowlist env) pr_symbol rs))
            (\<lambda>eps. Inr (apply_execution_allowlist (le_allowlist env) ep_symbol eps)))"

definition ripe_through :: "lane_env \<Rightarrow> date \<Rightarrow> date result" where
  "ripe_through env today =
     (if is_session (le_sess env) today then Inr today else next_session_on_or_after (le_sess env) today)"

definition run_phases ::
    "lane_env \<Rightarrow> date \<Rightarrow> date \<Rightarrow> date option \<Rightarrow> cluster_episode list \<Rightarrow> tick_state \<Rightarrow> py_error option \<times> tick_state" where
  "run_phases env today ripe oldest eps st =
     (let attemptable = filter (\<lambda>e. \<not> is_stale oldest e) (filter (\<lambda>e. eligible_entry_session e \<le> ripe) eps)
      in case phase_open env today ripe attemptable st of
           (Some err, st1) \<Rightarrow> (Some err, st1)
         | (None, st1) \<Rightarrow>
             let st2 = phase_dividends env today (phase_close env ripe (phase_corporate_actions env today st1))
             in case phase_post_close env today ripe oldest eps st2 of
                  (Some err, st3) \<Rightarrow> (Some err, st3)
                | (None, st3) \<Rightarrow> (None, phase_deliver env today st3))"

definition tick ::
    "lane_env \<Rightarrow> date \<Rightarrow> purchase_record list option \<Rightarrow> ledger \<Rightarrow> py_error option \<times> tick_state" where
  "tick env today records l =
     (case bindR (ripe_through env today) (\<lambda>ripe. bindR (tick_episodes env records) (\<lambda>eps.
             bindR (stale_cut env ripe) (\<lambda>oldest. Inr (ripe, eps, oldest)))) of
        Inl err \<Rightarrow> (Some err, start_tick l)
      | Inr (ripe, eps, oldest) \<Rightarrow> run_phases env today ripe oldest eps (start_tick l))"

section \<open>Every phase is a run of the ledger machine\<close>

definition env_ok :: "lane_env \<Rightarrow> bool" where
  "env_ok env \<longleftrightarrow> prices_ok (le_price env) \<and> guard_ok (le_guard env)"

abbreviation lane_steps :: "lane_env \<Rightarrow> ledger \<Rightarrow> ledger \<Rightarrow> bool" where
  "lane_steps env \<equiv> ledger_steps (le_sha env) (le_sess env)"

lemma alert_step: "ledger_step sha sess l (service_alert env kind eid sy session intent pid l)"
  unfolding service_alert_def Let_def by (rule ledger_step.enqueue)

lemma dispose_step: "ledger_step sha sess l (dispose_episode env ep disp l)"
  unfolding dispose_episode_def by (rule ledger_step.dispose)

lemma release_steps: "ledger_steps sha sess l (release_intent env intent st l)"
  by (auto simp: release_intent_def split: option.split intro: ledger_step.resolve)

lemma alert_steps: "ledger_steps sha sess l (service_alert env kind eid sy session intent pid l)"
  using alert_step by (rule r_into_rtranclp)

lemma dispose_steps: "ledger_steps sha sess l (dispose_episode env ep disp l)"
  using dispose_step by (rule r_into_rtranclp)

lemma steps_compose: "ledger_steps sha sess l m \<Longrightarrow> ledger_steps sha sess m r \<Longrightarrow> ledger_steps sha sess l r"
  by (rule rtranclp_trans)

lemma dispose_release_steps:
  "ledger_steps sha sess l (release_intent env intent st (dispose_episode env ep disp l))"
  by (rule steps_compose [OF dispose_steps release_steps])

lemma dispose_release_alert_steps:
  "ledger_steps sha sess l (service_alert env kind eid sy session i2 pid (release_intent env intent st (dispose_episode env ep disp l)))"
  by (rule steps_compose [OF dispose_release_steps alert_steps])

lemma on_entry_steps: "ledger_steps sha sess l (on_entry_recorded env ep entry intent l)"
proof -
  have "ledger_steps sha sess l (case intent of
      Some i \<Rightarrow> if i_status i = PENDING then mark_entry_intent (le_now env) (intent_id i) FILLED pid price session l else l
    | None \<Rightarrow> l)" for pid price session
    by (auto split: option.split intro: ledger_step.resolve)
  then show ?thesis unfolding on_entry_recorded_def Let_def
    by (rule steps_compose [OF _ alert_steps])
qed

lemma missing_entry_bar_steps:
  "lane_steps env (ts_ledger st) (ts_ledger (snd (missing_entry_bar env ripe ep intent st)))"
  by (auto simp: missing_entry_bar_def dispose_release_alert_steps split: sum.split)

lemma attempt_open_steps: "lane_steps env (ts_ledger st) (ts_ledger (snd (attempt_open env ripe ep intent st)))"
proof -
  obtain res' r where p: "process_episode (le_sess env) (le_cfg env) (le_bars env) (le_price env) (le_strict env) (le_now env) ep
      (ts_result st) (ts_ledger st) = (res', r)" by force
  show ?thesis
  proof (cases r)
    case (Inl err)
    with p show ?thesis by (simp add: attempt_open_def)
  next
    case (Inr l')
    have one: "lane_steps env (ts_ledger st) l'" by (rule process_episode_steps) (use p Inr in simp)
    then have "lane_steps env (ts_ledger st) (on_entry_recorded env ep (last (pr_entries res')) intent l')"
      by (rule steps_compose [OF _ on_entry_steps])
    moreover have "lane_steps env (ts_ledger st)
        (ts_ledger (snd (missing_entry_bar env ripe ep intent (st\<lparr> ts_result := res', ts_ledger := l' \<rparr>))))"
      using missing_entry_bar_steps [of env "st\<lparr> ts_result := res', ts_ledger := l' \<rparr>" ripe ep intent]
      by (intro steps_compose [OF one]) simp
    ultimately show ?thesis using one p Inr by (simp add: attempt_open_def Let_def)
  qed
qed

lemma open_episode_steps: "lane_steps env (ts_ledger st) (ts_ledger (snd (open_episode env today ripe ep st)))"
proof -
  have "lane_steps env l (stale_alert env ep i (release_intent env i st' (dispose_episode env ep d l)))" for i st' d l
    unfolding stale_alert_def by (rule dispose_release_alert_steps)
  then show ?thesis
    by (auto simp: open_episode_def Let_def dispose_release_steps attempt_open_steps dispose_steps
        split: option.split sum.split bool.split)
qed

lemma each_episode_steps:
  assumes "\<And>e st. ledger_steps sha sess (ts_ledger st) (ts_ledger (snd (f e st)))"
  shows "ledger_steps sha sess (ts_ledger st) (ts_ledger (snd (each_episode f es st)))"
proof (induction es arbitrary: st)
  case (Cons e es)
  obtain err st' where f: "f e st = (err, st')" by force
  have one: "ledger_steps sha sess (ts_ledger st) (ts_ledger st')" using assms [of st e] f by simp
  show ?case
  proof (cases err)
    case None
    show ?thesis using steps_compose [OF one Cons.IH] f None by simp
  qed (use f one in simp)
qed simp

lemma phase_open_steps: "lane_steps env (ts_ledger st) (ts_ledger (snd (phase_open env today ripe eps st)))"
  unfolding phase_open_def by (rule each_episode_steps) (rule open_episode_steps)

lemma phase_ca_steps: "env_ok env \<Longrightarrow> lane_steps env (ts_ledger st) (ts_ledger (phase_corporate_actions env today st))"
  by (auto simp: phase_corporate_actions_def env_ok_def guard_ok_def sweep_steps split: option.split)

lemma exit_alerts_steps: "ledger_steps sha sess l (fold (on_exit_recorded env) xs l)"
proof (induction xs arbitrary: l)
  case (Cons x xs)
  have "ledger_step sha sess l (on_exit_recorded env x l)" unfolding on_exit_recorded_def by (rule alert_step)
  with Cons.IH show ?case by (simp add: converse_rtranclp_into_rtranclp)
qed simp

lemma phase_close_steps:
  assumes "env_ok env"
  shows "lane_steps env (ts_ledger st) (ts_ledger (phase_close env ripe st))"
proof -
  obtain err res' l' where s: "settle_due_exits (le_sha env) (le_sess env) (le_cfg env) (le_price env) (le_guard env) (le_now env)
      ripe (ts_result st) (ts_ledger st) = (err, res', l')" by (metis surj_pair)
  have one: "lane_steps env (ts_ledger st) l'"
    using settle_due_exits_steps [OF _ _ s] assms by (simp add: env_ok_def)
  then have "lane_steps env (ts_ledger st) (fold (on_exit_recorded env) xs l')" for xs
    by (rule steps_compose [OF _ exit_alerts_steps])
  with one s show ?thesis by (simp add: phase_close_def Let_def split: option.split)
qed

lemma phase_dividends_steps:
  assumes "env_ok env" "ledger_ok (le_sha env) (ts_ledger st)"
  shows "lane_steps env (ts_ledger st) (ts_ledger (phase_dividends env today st))"
proof (cases "le_guard env")
  case (Some fetch)
  let ?l = "ts_ledger st"
  let ?l1 = "snd (catch_up_recent_closed (le_sess env) fetch (le_now env) today LATE_DIVIDEND_LOOKBACK_SESSIONS ?l)"
  have ev: "evidence_ok fetch" using assms(1) Some by (simp add: env_ok_def guard_ok_def)
  have "distinct (map position_id (positions ?l))" using assms(2) by (simp add: ledger_ok_def positions_ok_def)
  then have "\<forall>p \<in> set (all_positions ?l). position_by_id ?l (position_id p) = Some p"
    by (auto simp: all_positions_def position_by_id_def row_by_distinct)
  then have "lane_steps env ?l ?l1"
    unfolding catch_up_recent_closed_def by (intro catch_up_steps) (auto intro: evidence_okD [OF ev])
  moreover have "lane_steps env ?l1 (snd (settle_receivables fetch (le_now env) today ?l1))"
    unfolding settle_receivables_def by (rule settle_each_steps)
  ultimately show ?thesis using Some steps_compose by (simp add: phase_dividends_def Let_def)
qed (simp add: phase_dividends_def)

lemma sweep_stale_steps: "ledger_steps sha sess (ts_ledger st) (ts_ledger (sweep_stale env ep st))"
proof -
  let ?l = "ts_ledger st"
  let ?l1 = "if episode_seen ?l (episode_id ep) then ?l else dispose_episode env ep (SKIPPED ENTRY_STALE) ?l"
  have one: "ledger_steps sha sess ?l ?l1" using dispose_steps by auto
  have "ledger_steps sha sess l (stale_alert env ep i (release_intent env i s l))" for i s l
    unfolding stale_alert_def by (rule steps_compose [OF release_steps alert_steps])
  then show ?thesis using one by (auto simp: sweep_stale_def Let_def split: option.split intro: steps_compose [OF one])
qed

lemma admit_intent_steps: "lane_steps env (ts_ledger st) (ts_ledger (snd (admit_intent env ep liq st)))"
proof -
  have "lane_steps env l (service_alert env k e sy s i2 p l1)"
    if "upsert_entry_intent (le_sha env) (le_now env) ep liq h pl src rec l = Inr (i, l1)" for l l1 i h pl src rec k e sy s i2 p
    by (rule converse_rtranclp_into_rtranclp [OF ledger_step.intend [OF that] alert_steps])
  then show ?thesis
    by (auto simp: admit_intent_def Let_def dispose_steps split: sum.split)
qed

lemma plan_episode_steps: "lane_steps env (ts_ledger st) (ts_ledger (snd (plan_episode env today nxt ep st)))"
  by (auto simp: plan_episode_def Let_def dispose_steps admit_intent_steps split: sum.split)

lemma phase_post_close_steps:
  "lane_steps env (ts_ledger st) (ts_ledger (snd (phase_post_close env today ripe oldest eps st)))"
proof -
  have stale: "lane_steps env (ts_ledger st) (ts_ledger (fold (sweep_stale env) es st))" for es st
  proof (induction es arbitrary: st)
    case (Cons e es)
    show ?case using steps_compose [OF sweep_stale_steps Cons.IH] by simp
  qed simp
  let ?st = "fold (sweep_stale env) (filter (is_stale oldest) (filter (\<lambda>e. eligible_entry_session e \<le> ripe) eps)) st"
  have "lane_steps env (ts_ledger ?st) (ts_ledger (snd (each_episode (plan_episode env today nxt) eps ?st)))" for nxt
    by (rule each_episode_steps) (rule plan_episode_steps)
  then show ?thesis using stale [of st] by (auto simp: phase_post_close_def Let_def split: sum.split intro: steps_compose)
qed

lemma phase_deliver_steps: "ledger_steps sha sess (ts_ledger st) (ts_ledger (phase_deliver env today st))"
  by (simp add: phase_deliver_def deliver_outbox_steps split: option.split)

lemma run_phases_steps:
  assumes "env_ok env" "ledger_ok (le_sha env) (ts_ledger st)"
  shows "lane_steps env (ts_ledger st) (ts_ledger (snd (run_phases env today ripe oldest eps st)))"
proof -
  let ?att = "filter (\<lambda>e. \<not> is_stale oldest e) (filter (\<lambda>e. eligible_entry_session e \<le> ripe) eps)"
  obtain e1 st1 where o1: "phase_open env today ripe ?att st = (e1, st1)" by force
  have s1: "lane_steps env (ts_ledger st) (ts_ledger st1)"
    using phase_open_steps [of env st today ripe ?att] o1 by simp
  let ?st1 = "phase_close env ripe (phase_corporate_actions env today st1)"
  have s2: "lane_steps env (ts_ledger st) (ts_ledger ?st1)"
    by (rule steps_compose [OF s1 steps_compose [OF phase_ca_steps [OF assms(1)] phase_close_steps [OF assms(1)]]])
  then have ok: "ledger_ok (le_sha env) (ts_ledger ?st1)" using assms(2) by (rule v2_machine.inv_steps)
  have s3: "lane_steps env (ts_ledger st) (ts_ledger (phase_dividends env today ?st1))"
    by (rule steps_compose [OF s2 phase_dividends_steps [OF assms(1) ok]])
  obtain e3 st3 where o3: "phase_post_close env today ripe oldest eps (phase_dividends env today ?st1) = (e3, st3)" by force
  have "lane_steps env (ts_ledger (phase_dividends env today ?st1)) (ts_ledger st3)"
    using phase_post_close_steps [of env "phase_dividends env today ?st1" today ripe oldest eps] o3 by simp
  with s3 have s4: "lane_steps env (ts_ledger st) (ts_ledger st3)" by (rule steps_compose)
  then have "lane_steps env (ts_ledger st) (ts_ledger (phase_deliver env today st3))"
    by (rule steps_compose [OF _ phase_deliver_steps])
  with s1 s4 o1 o3 show ?thesis by (simp add: run_phases_def Let_def split: option.split)
qed

lemma tick_steps:
  assumes "tick env today records l = (err, st)" "env_ok env" "ledger_ok (le_sha env) l"
  shows "lane_steps env l (ts_ledger st)"
proof -
  have start: "ts_ledger (start_tick l) = l" by (simp add: start_tick_def)
  then have "lane_steps env l (ts_ledger (snd (run_phases env today ripe oldest eps (start_tick l))))" for ripe oldest eps
    using run_phases_steps [OF assms(2), of "start_tick l"] assms(3) by simp
  then show ?thesis using assms(1) start by (auto simp: tick_def split: sum.splits) (metis snd_conv)
qed

end
