(* ===== verification/V2_Admission.thy ===== *)
theory V2_Admission
  imports V2_Service
begin

text \<open>
  What one tick of \<open>V2Service\<close> admits: which positions and which reservations (pending intents) can be new
  after it.  Every phase is shown to leave the entry keys and the intents alone, except the opening phase,
  which adds positions, and the post-close phase, which adds reservations.
\<close>

section \<open>Keys of positions and intents\<close>

definition entry_keys :: "ledger \<Rightarrow> (string \<times> date) set" where
  "entry_keys l = (\<lambda>p. (p_episode p, entry_session p)) ` set (positions l)"

definition intent_keys :: "ledger \<Rightarrow> (string \<times> date \<times> stamp) set" where
  "intent_keys l = (\<lambda>i. (i_episode i, target_entry_session i, i_created_at i)) ` set (intents l)"

definition pending_set :: "ledger \<Rightarrow> intent set" where
  "pending_set l = {i \<in> set (intents l). i_status i = PENDING}"

text \<open>Ledgers that agree on what decides an admission.\<close>

definition same_admission :: "ledger \<Rightarrow> ledger \<Rightarrow> bool" where
  "same_admission l l' \<longleftrightarrow> entry_keys l' = entry_keys l \<and> intents l' = intents l"

lemma same_admission_refl [simp]: "same_admission l l"
  by (simp add: same_admission_def)

lemma same_admission_trans: "same_admission l m \<Longrightarrow> same_admission m r \<Longrightarrow> same_admission l r"
  by (simp add: same_admission_def)

lemma same_admission_rows: "positions l' = positions l \<Longrightarrow> intents l' = intents l \<Longrightarrow> same_admission l l'"
  by (simp add: same_admission_def entry_keys_def)

lemma same_admission_books: "same_books l l' \<Longrightarrow> same_admission l l'"
  by (simp add: same_books_def same_admission_rows)

lemma entry_keys_update:
  assumes "positions l' = update_rows P f (positions l)" "\<And>p. p_episode (f p) = p_episode p" "\<And>p. entry_session (f p) = entry_session p"
  shows "entry_keys l' = entry_keys l"
proof -
  have "map (\<lambda>p. (p_episode p, entry_session p)) (positions l') = map (\<lambda>p. (p_episode p, entry_session p)) (positions l)"
    unfolding assms(1) by (intro map_update_rows) (simp add: assms(2,3))
  then show ?thesis unfolding entry_keys_def by (metis list.set_map)
qed

section \<open>Frames\<close>

lemma alert_frame [simp]:
  "positions (service_alert env k e sy s i pid l) = positions l" "intents (service_alert env k e sy s i pid l) = intents l"
  "cash (service_alert env k e sy s i pid l) = cash l" "block_table (service_alert env k e sy s i pid l) = block_table l"
  "campaign_row (service_alert env k e sy s i pid l) = campaign_row l" "episodes (service_alert env k e sy s i pid l) = episodes l"
  by (simp_all add: service_alert_def Let_def store_simps cash_def)

lemma dispose_frame [simp]:
  "positions (dispose_episode env ep d l) = positions l" "intents (dispose_episode env ep d l) = intents l"
  "cash (dispose_episode env ep d l) = cash l" "block_table (dispose_episode env ep d l) = block_table l"
  "campaign_row (dispose_episode env ep d l) = campaign_row l"
  by (simp_all add: dispose_episode_def store_simps cash_def)

lemma mark_pending: "st \<noteq> PENDING \<Longrightarrow> pending_set (mark_entry_intent now iid st pid px s l) \<subseteq> pending_set l"
  by (auto simp: pending_set_def mark_entry_intent_def in_update_rows split: if_splits)

lemma mark_keys: "intent_keys (mark_entry_intent now iid st pid px s l) = intent_keys l"
proof -
  have "map (\<lambda>i. (i_episode i, target_entry_session i, i_created_at i)) (intents (mark_entry_intent now iid st pid px s l)) =
      map (\<lambda>i. (i_episode i, target_entry_session i, i_created_at i)) (intents l)"
    unfolding mark_entry_intent_def by (simp add: map_update_rows)
  then show ?thesis unfolding intent_keys_def by (simp only: flip: list.set_map)
qed

lemma release_frame [simp]:
  "positions (release_intent env i st l) = positions l" "cash (release_intent env i st l) = cash l"
  "block_table (release_intent env i st l) = block_table l" "campaign_row (release_intent env i st l) = campaign_row l"
  "intent_keys (release_intent env i st l) = intent_keys l"
  by (simp_all add: release_intent_def store_simps cash_def mark_keys split: option.split)

lemma release_pending: "st \<noteq> PENDING \<Longrightarrow> pending_set (release_intent env i st l) \<subseteq> pending_set l"
  by (simp add: release_intent_def mark_pending split: option.split)

lemma on_entry_frame [simp]:
  "positions (on_entry_recorded env ep x i l) = positions l"
  "block_table (on_entry_recorded env ep x i l) = block_table l" "campaign_row (on_entry_recorded env ep x i l) = campaign_row l"
  "intent_keys (on_entry_recorded env ep x i l) = intent_keys l"
  by (simp_all add: on_entry_recorded_def Let_def store_simps mark_keys intent_keys_def [of "service_alert _ _ _ _ _ _ _ _"]
      flip: intent_keys_def split: option.split)

lemma on_entry_pending: "pending_set (on_entry_recorded env ep x i l) \<subseteq> pending_set l"
proof -
  have "pending_set (service_alert env k e sy s j pid m) = pending_set m" for k e sy s j pid m
    by (simp add: pending_set_def)
  then show ?thesis by (simp add: on_entry_recorded_def Let_def mark_pending split: option.split)
qed

section \<open>Settlement admits nothing\<close>

lemma unresolve_admission:
  assumes "unresolve sha now p res l = Inr (res', l')"
  shows "same_admission l l'"
proof -
  have m: "mark_exit_unresolved sha now (position_id p) [] l = Inr l'"
    using assms by (auto simp: unresolve_def bindR_Inr_iff)
  then have pos: "positions l' = update_rows (\<lambda>q. position_id q = position_id p \<and> p_status q = OPEN) (unresolved_row now []) (positions l)"
    by (auto elim: mark_exit_unresolvedE)
  from m have "intents l' = intents l" by (auto elim: mark_exit_unresolvedE)
  with entry_keys_update [OF pos] show ?thesis by (simp add: same_admission_def)
qed

lemma close_admission:
  assumes "close_position sess cfg fee now p c session prov divs l = Inr (out, l')"
  shows "same_admission l l'"
proof (cases rule: close_positionE [OF assms])
  case (2 row held until)
  have "entry_keys l' = entry_keys l"
    by (rule entry_keys_update, simp add: 2(10) settled_ledger_tables(2), simp_all add: closed_row_def)
  then show ?thesis by (simp add: same_admission_def 2(10) settled_ledger_tables(6))
qed simp

lemma close_due_admission:
  assumes "close_due sha sess cfg now p price divs res l = Inr (res', l')"
  shows "same_admission l l'"
proof -
  obtain px c session where price: "price = (px, c, session)" by (cases price)
  obtain out m where m: "close_position sess cfg zero_fee now p c session (field_provenance px ''close'') divs l = Inr (out, m)"
    using assms by (auto simp: close_due_def price bindR_Inr_iff)
  have "l' = m \<or> unresolve sha now p res m = Inr (res', l')"
    using assms m by (auto simp: close_due_def price split: if_splits)
  with close_admission [OF m] show ?thesis using unresolve_admission same_admission_trans by blast
qed

lemma settle_due_position_admission:
  assumes "settle_due_position sha sess cfg lookup guard now as_of p res l = (l1, r)"
  shows "same_admission l l1 \<and> (\<forall>res' l'. r = Inr (res', l') \<longrightarrow> same_admission l l')"
proof (cases "exit_price sess cfg (lookup (p_symbol p)) (target_exit_session p) as_of")
  case (Inl err)
  with assms show ?thesis by (auto simp: settle_due_position_def)
next
  case (Inr found)
  show ?thesis
  proof (cases found)
    case None
    with Inr assms show ?thesis
      by (auto simp: settle_due_position_def bindR_Inr_iff split: if_splits dest: unresolve_admission)
  next
    case (Some f)
    obtain px c session where f: "f = (px, c, session)" by (cases f)
    note found = Inr [unfolded Some f]
    show ?thesis
    proof (cases guard)
      case None
      with found assms show ?thesis by (auto simp: settle_due_position_def dest: close_due_admission)
    next
      case (Some fetch)
      obtain v m where a: "assess_position fetch now (position_id p) as_of (basis_of px) (Some session)
        (parse_adjustment_state (px_provenance px)) True l = (v, m)" by force
      have m: "same_admission l m" using same_admission_books [OF same_books_assess] a by (metis snd_conv)
      have parts: "l1 = m" "r = (if settle_ok v then close_due sha sess cfg now p (px, c, session) (v_dividends v) res m
          else bindR (window_over sess cfg (target_exit_session p) as_of) (\<lambda>over.
                 if v_status v = V_BLOCK \<or> over then unresolve sha now p res m
                 else Inr (skip_result (p_episode p) EXIT_HOLD_CORPORATE_ACTION res, m)))"
        using found assms Some a by (auto simp: settle_due_position_def)
      have "same_admission m l'" if res': "r = Inr (res', l')" for res' l'
      proof -
        consider "close_due sha sess cfg now p (px, c, session) (v_dividends v) res m = Inr (res', l')"
          | "unresolve sha now p res m = Inr (res', l')" | "l' = m"
          using res' parts(2) by (auto simp: bindR_Inr_iff split: if_splits)
        then show ?thesis by cases (auto intro: close_due_admission unresolve_admission)
      qed
      with m parts(1) show ?thesis using same_admission_trans by blast
    qed
  qed
qed

lemma settle_due_exits_admission:
  assumes "settle_due_exits sha sess cfg lookup guard now as_of res l = (err, res', l')"
  shows "same_admission l l'"
proof -
  have "same_admission l l'"
    if "settle_due_list (settle_due_position sha sess cfg lookup guard now as_of) ps res l = (err, res', l')" for ps
    using that
  proof (induction ps arbitrary: res l)
    case (Cons p ps)
    obtain l1 r where r: "settle_due_position sha sess cfg lookup guard now as_of p res l = (l1, r)" by force
    note one = settle_due_position_admission [OF r]
    show ?case
    proof (cases r)
      case (Inl e)
      with r one Cons.prems show ?thesis by simp
    next
      case (Inr s)
      obtain res2 l2 where s: "s = (res2, l2)" by force
      have "same_admission l2 l'" by (rule Cons.IH [of res2]) (use r Inr s Cons.prems in simp)
      moreover have "same_admission l l2" using one Inr s by simp
      ultimately show ?thesis using same_admission_trans by blast
    qed
  qed simp
  then show ?thesis using assms by (simp add: settle_due_exits_def)
qed

section \<open>What an episode can add\<close>

lemma process_episode_new:
  assumes "process_episode sess cfg bars lookup strict now ep res l = (res', Inr l')"
  shows "intents l' = intents l \<and> block_table l' = block_table l \<and> campaign_row l' = campaign_row l
     \<and> (entry_keys l' = entry_keys l
        \<or> store_blocked_reason l = None \<and> entry_keys l' = insert (episode_id ep, eligible_entry_session ep) (entry_keys l)
          \<and> usable_open (lookup (ep_symbol ep) (eligible_entry_session ep)) \<noteq> None
          \<and> (\<exists>liq. evaluate_liquidity_checked sess cfg (bars (ep_symbol ep)) (eligible_entry_session ep) strict = Inr liq \<and> liq_ok liq))"
proof -
  consider "l' = l"
    | disp cik where "l' = record_disposition now (episode_id ep) (ep_symbol ep) disp cik None (Some (eligible_entry_session ep)) l"
    | liq p prov out where "enter_position sess cfg zero_fee now (contextualize (build_signal cfg ep liq)) p
        (eligible_entry_session ep) (ep_issuer_cik ep) prov l = Inr (out, l')"
        "usable_open (lookup (ep_symbol ep) (eligible_entry_session ep)) \<noteq> None"
        "evaluate_liquidity_checked sess cfg (bars (ep_symbol ep)) (eligible_entry_session ep) strict = Inr liq"
        "d_action (contextualize (build_signal cfg ep liq)) = BUY"
    using assms by (auto simp: process_episode_def Let_def split: if_splits sum.splits option.splits)
  then show ?thesis
  proof cases
    case 3
    then show ?thesis
    proof (cases rule: enter_positionE)
      case (entered target p)
      note tab = commit_entry_tables [OF entered(10)]
      have "entry_keys l' = insert (episode_id ep, eligible_entry_session ep) (entry_keys l)"
        by (simp add: entry_keys_def tab(3) new_position_def)
      then show ?thesis using tab entered(3) 3(2-4) by (auto simp: store_blocked_reason_def split: if_splits)
    qed (simp_all add: entry_keys_def store_simps)
  qed (simp_all add: entry_keys_def store_simps)
qed

text \<open>
  What justifies a new position for an episode, in the ledger the tick started from: the account is not
  blocked, a pending intent reserves the episode when the gate is on, the temporal boundary holds for
  the intent the episode has or for none, the entry session has a price and the liquidity gate passed.
\<close>

definition supplied :: "lane_env \<Rightarrow> cluster_episode \<Rightarrow> bool" where
  "supplied env ep \<longleftrightarrow> usable_open (le_price env (ep_symbol ep) (eligible_entry_session ep)) \<noteq> None
   \<and> (\<exists>liq. evaluate_liquidity_checked (le_sess env) (le_cfg env) (le_bars env (ep_symbol ep)) (eligible_entry_session ep)
         (le_strict env) = Inr liq \<and> liq_ok liq)"

definition admissible :: "lane_env \<Rightarrow> ledger \<Rightarrow> cluster_episode \<Rightarrow> bool" where
  "admissible env l0 ep \<longleftrightarrow> store_blocked_reason l0 = None \<and> supplied env ep
   \<and> (le_gate env \<longrightarrow> (\<exists>i \<in> pending_set l0. i_episode i = episode_id ep))
   \<and> (\<exists>intent. verify_temporal_boundary env ep intent \<and> (\<forall>i. intent = Some i \<longrightarrow>
        (i_episode i, target_entry_session i, i_created_at i) \<in> intent_keys l0 \<and> i_episode i = episode_id ep))"

definition opens_admissible :: "lane_env \<Rightarrow> cluster_episode set \<Rightarrow> ledger \<Rightarrow> ledger \<Rightarrow> bool" where
  "opens_admissible env eps l0 l \<longleftrightarrow> pending_set l \<subseteq> pending_set l0 \<and> intent_keys l = intent_keys l0
   \<and> block_table l = block_table l0 \<and> campaign_row l = campaign_row l0
   \<and> (\<forall>k \<in> entry_keys l - entry_keys l0. \<exists>ep \<in> eps. k = (episode_id ep, eligible_entry_session ep) \<and> admissible env l0 ep)"

lemma opens_refl: "opens_admissible env eps l l"
  by (simp add: opens_admissible_def)

text \<open>A step that only moves intents out of PENDING keeps it.\<close>

lemma opens_frame:
  assumes "opens_admissible env eps l0 l" "pending_set l' \<subseteq> pending_set l" "intent_keys l' = intent_keys l"
    "positions l' = positions l" "block_table l' = block_table l" "campaign_row l' = campaign_row l"
  shows "opens_admissible env eps l0 l'"
  using assms by (auto simp: opens_admissible_def entry_keys_def)

lemma pending_simps [simp]:
  "pending_set (service_alert env k e sy s i pid l) = pending_set l" "intent_keys (service_alert env k e sy s i pid l) = intent_keys l"
  "pending_set (dispose_episode env ep d l) = pending_set l" "intent_keys (dispose_episode env ep d l) = intent_keys l"
  by (simp_all add: pending_set_def intent_keys_def)

lemma opens_released:
  assumes "opens_admissible env eps l0 l" "st \<noteq> PENDING"
  shows "opens_admissible env eps l0 (release_intent env i st (dispose_episode env ep d l))"
  by (rule opens_frame [OF assms(1)]) (use release_pending [OF assms(2), of env i] in \<open>simp_all\<close>, metis pending_simps(3))

lemma opens_entered:
  assumes "opens_admissible env eps l0 l" "opens_admissible env eps l0 l'"
  shows "opens_admissible env eps l0 (on_entry_recorded env ep x i l')"
  by (rule opens_frame [OF assms(2)]) (simp_all add: on_entry_pending)

lemma opens_missing_bar:
  assumes "opens_admissible env eps l0 (ts_ledger st)"
  shows "opens_admissible env eps l0 (ts_ledger (snd (missing_entry_bar env ripe ep i st)))"
proof -
  have "opens_admissible env eps l0 (service_alert env k e sy s i pid (release_intent env i FAILED_NO_DATA
      (dispose_episode env ep d (ts_ledger st))))" for k e sy s pid d
    by (rule opens_frame [OF opens_released [OF assms, of FAILED_NO_DATA i ep d]]) simp_all
  with assms show ?thesis by (simp add: missing_entry_bar_def split: sum.split)
qed

lemma opens_attempt:
  assumes inv: "opens_admissible env eps l0 (ts_ledger st)" and "ep \<in> eps"
    and ok: "store_blocked_reason (ts_ledger st) = None \<Longrightarrow> supplied env ep \<Longrightarrow> admissible env l0 ep"
  shows "opens_admissible env eps l0 (ts_ledger (snd (attempt_open env ripe ep i st)))"
proof -
  obtain res' r where p: "process_episode (le_sess env) (le_cfg env) (le_bars env) (le_price env) (le_strict env) (le_now env) ep
      (ts_result st) (ts_ledger st) = (res', r)" by force
  show ?thesis
  proof (cases r)
    case (Inl err)
    with p inv show ?thesis by (simp add: attempt_open_def)
  next
    case (Inr l')
    note new = process_episode_new [OF p [unfolded Inr], folded supplied_def]
    have rows: "pending_set l' = pending_set (ts_ledger st)" "intent_keys l' = intent_keys (ts_ledger st)"
      using new by (simp_all add: pending_set_def intent_keys_def)
    have old: "\<exists>e \<in> eps. k = (episode_id e, eligible_entry_session e) \<and> admissible env l0 e"
      if "k \<in> entry_keys (ts_ledger st)" "k \<notin> entry_keys l0" for k
      using inv that unfolding opens_admissible_def by blast
    have "\<exists>e \<in> eps. k = (episode_id e, eligible_entry_session e) \<and> admissible env l0 e"
      if k: "k \<in> entry_keys l'" "k \<notin> entry_keys l0" for k
      using new k old ok \<open>ep \<in> eps\<close> by (elim conjE disjE) (simp, blast)
    then have l': "opens_admissible env eps l0 l'"
      using inv new by (simp add: opens_admissible_def rows)
    then have "opens_admissible env eps l0 (on_entry_recorded env ep x i l')" for x
      by (rule opens_entered [OF inv])
    moreover have "opens_admissible env eps l0
        (ts_ledger (snd (missing_entry_bar env ripe ep i (st\<lparr> ts_result := res', ts_ledger := l' \<rparr>))))"
      by (rule opens_missing_bar) (simp add: l')
    ultimately show ?thesis using l' p Inr by (simp add: attempt_open_def Let_def)
  qed
qed

lemma entry_intentD: "entry_intent l eid = Some i \<Longrightarrow> i \<in> set (intents l) \<and> i_episode i = eid"
  unfolding entry_intent_def by (drule row_by_Some) simp

lemma opens_episode:
  assumes inv: "opens_admissible env eps l0 (ts_ledger st)" and "ep \<in> eps"
  shows "opens_admissible env eps l0 (ts_ledger (snd (open_episode env today ripe ep st)))"
proof -
  let ?l = "ts_ledger st" and ?i = "entry_intent (ts_ledger st) (episode_id ep)"
  have "opens_admissible env eps l0 (dispose_episode env ep d ?l)" for d
    by (rule opens_frame [OF inv]) simp_all
  moreover have "opens_admissible env eps l0 (stale_alert env ep i (release_intent env i EXPIRED_RECOVERY_DEADLINE
      (dispose_episode env ep d ?l)))" for i d
    by (rule opens_frame [OF opens_released [OF inv, of EXPIRED_RECOVERY_DEADLINE i ep d]]) (simp_all add: stale_alert_def)
  moreover have "opens_admissible env eps l0 (release_intent env i REJECTED_TEMPORAL_BOUNDARY (dispose_episode env ep d ?l))" for i d
    by (rule opens_released [OF inv]) simp
  moreover have "opens_admissible env eps l0 (ts_ledger (snd (attempt_open env ripe ep ?i st)))"
    if gate: "le_gate env \<longrightarrow> (\<exists>i. ?i = Some i \<and> i_status i = PENDING)" and temporal: "verify_temporal_boundary env ep ?i"
  proof (rule opens_attempt [OF inv \<open>ep \<in> eps\<close>])
    assume free: "store_blocked_reason ?l = None" "supplied env ep"
    have "\<exists>i \<in> pending_set ?l. i_episode i = episode_id ep" if "le_gate env"
      using gate that entry_intentD by (fastforce simp: pending_set_def)
    moreover have "(i_episode i, target_entry_session i, i_created_at i) \<in> intent_keys ?l \<and> i_episode i = episode_id ep"
      if "?i = Some i" for i using entry_intentD [OF that] unfolding intent_keys_def by blast
    ultimately show "admissible env l0 ep"
      using inv free temporal unfolding opens_admissible_def admissible_def store_blocked_reason_def account_id_def
      by (metis subsetD)
  qed
  ultimately show ?thesis using inv
    by (auto simp: open_episode_def Let_def split: option.splits sum.split bool.split)
qed

lemma each_episode_inv:
  assumes "\<And>e st. e \<in> set es \<Longrightarrow> P st \<Longrightarrow> P (snd (f e st))" "P st"
  shows "P (snd (each_episode f es st))"
  using assms
proof (induction es arbitrary: st)
  case (Cons e es)
  obtain err st' where f: "f e st = (err, st')" by force
  have "P st'" using Cons.prems(1) [of e st] Cons.prems(2) f by simp
  with Cons f show ?case by (cases err) simp_all
qed simp

lemma phase_open_admissible:
  "opens_admissible env (set eps) (ts_ledger st) (ts_ledger (snd (phase_open env today ripe eps st)))"
  unfolding phase_open_def
  by (rule each_episode_inv [where P = "\<lambda>s. opens_admissible env (set eps) (ts_ledger st) (ts_ledger s)"])
    (simp_all add: opens_episode opens_refl)

section \<open>The phases between admit nothing\<close>

lemma sweep_admission: "same_admission l (snd (sweep_corporate_actions fetch now as_of l))"
proof -
  have "same_admission s (snd (fold (\<lambda>p (vs, s). let r = assess_position fetch now (position_id p) as_of None None None False s
          in (vs @ [fst r], snd r)) ps (vs, s)))" for ps vs s
  proof (induction ps arbitrary: vs s)
    case (Cons p ps)
    let ?s = "snd (assess_position fetch now (position_id p) as_of None None None False s)"
    have "same_admission s ?s" by (rule same_admission_books [OF same_books_assess])
    with Cons.IH [where s = ?s] show ?case using same_admission_trans [of s ?s] by (simp add: Let_def)
  qed simp
  then show ?thesis by (simp add: sweep_corporate_actions_def)
qed

lemma phase_ca_admission: "same_admission (ts_ledger st) (ts_ledger (phase_corporate_actions env today st))"
  by (simp add: phase_corporate_actions_def sweep_admission split: option.split)

lemma exit_alerts_admission: "same_admission l (fold (on_exit_recorded env) xs l)"
proof (induction xs arbitrary: l)
  case (Cons x xs)
  have "same_admission l (on_exit_recorded env x l)" by (rule same_admission_rows) (simp_all add: on_exit_recorded_def)
  with Cons.IH [of "on_exit_recorded env x l"] show ?case using same_admission_trans by simp
qed simp

lemma phase_close_admission: "same_admission (ts_ledger st) (ts_ledger (phase_close env ripe st))"
proof -
  obtain err res' l' where s: "settle_due_exits (le_sha env) (le_sess env) (le_cfg env) (le_price env) (le_guard env) (le_now env)
      ripe (ts_result st) (ts_ledger st) = (err, res', l')" by (metis surj_pair)
  have one: "same_admission (ts_ledger st) l'" by (rule settle_due_exits_admission [OF s])
  have "same_admission (ts_ledger st) (fold (on_exit_recorded env) xs l')" for xs
    by (rule same_admission_trans [OF one exit_alerts_admission])
  with one s show ?thesis by (simp add: phase_close_def Let_def split: option.split)
qed

lemma accrue_late_intents: "intents (snd (accrue_late now pid exit splits ds l)) = intents l"
  by (induction ds arbitrary: l) (simp_all add: Let_def store_simps)

lemma catch_up_intents: "intents (snd (catch_up_positions sess fetch now as_of k ps l)) = intents l"
  by (induction ps arbitrary: l) (simp_all add: Let_def catch_up_position_def accrue_late_intents split: option.split)

lemma credit_admission: "same_admission l (snd (credit_dividend now eid as_of l))"
  by (cases rule: credit_dividend_cases [of now eid as_of l]) (simp_all add: same_admission_rows store_simps)

lemma settle_each_admission: "same_admission l (snd (settle_each fetch now as_of es l))"
proof (induction es arbitrary: l)
  case (Cons e es)
  have "same_admission l (snd (settle_receivable fetch now as_of e l))"
    by (simp add: settle_receivable_def Let_def credit_admission split: option.split)
  then have "same_admission l (snd (settle_each fetch now as_of es (snd (settle_receivable fetch now as_of e l))))"
    by (rule same_admission_trans [OF _ Cons.IH])
  then show ?case by (simp add: Let_def)
qed simp

lemma phase_dividends_admission: "same_admission (ts_ledger st) (ts_ledger (phase_dividends env today st))"
proof (cases "le_guard env")
  case (Some fetch)
  let ?l = "ts_ledger st"
  let ?l1 = "snd (catch_up_recent_closed (le_sess env) fetch (le_now env) today LATE_DIVIDEND_LOOKBACK_SESSIONS ?l)"
  have "same_admission ?l ?l1"
    by (rule same_admission_rows) (simp_all add: catch_up_recent_closed_def catch_up_frame catch_up_intents)
  then have "same_admission ?l (snd (settle_receivables fetch (le_now env) today ?l1))"
    unfolding settle_receivables_def by (rule same_admission_trans [OF _ settle_each_admission])
  then show ?thesis using Some by (simp add: phase_dividends_def Let_def)
qed (simp add: phase_dividends_def)

lemma phase_deliver_frame:
  "positions (ts_ledger (phase_deliver env today st)) = positions (ts_ledger st)"
  "intents (ts_ledger (phase_deliver env today st)) = intents (ts_ledger st)"
  "cash (ts_ledger (phase_deliver env today st)) = cash (ts_ledger st)"
  "ts_intents (phase_deliver env today st) = ts_intents st"
  "block_table (ts_ledger (phase_deliver env today st)) = block_table (ts_ledger st)"
  "campaign_row (ts_ledger (phase_deliver env today st)) = campaign_row (ts_ledger st)"
proof -
  have "positions (fold (deliver_row w dv) rows l) = positions l \<and> intents (fold (deliver_row w dv) rows l) = intents l
      \<and> cash (fold (deliver_row w dv) rows l) = cash l \<and> block_table (fold (deliver_row w dv) rows l) = block_table l
      \<and> campaign_row (fold (deliver_row w dv) rows l) = campaign_row l" for w dv rows l
    by (induction rows arbitrary: l) (simp_all add: deliver_row_outbox cash_def)
  then show "positions (ts_ledger (phase_deliver env today st)) = positions (ts_ledger st)"
    "intents (ts_ledger (phase_deliver env today st)) = intents (ts_ledger st)"
    "cash (ts_ledger (phase_deliver env today st)) = cash (ts_ledger st)"
    "block_table (ts_ledger (phase_deliver env today st)) = block_table (ts_ledger st)"
    "campaign_row (ts_ledger (phase_deliver env today st)) = campaign_row (ts_ledger st)"
    by (simp_all add: phase_deliver_def deliver_outbox_def Let_def split: option.split)
  show "ts_intents (phase_deliver env today st) = ts_intents st"
    by (simp add: phase_deliver_def split: option.split)
qed

section \<open>Planning\<close>

text \<open>
  The effect of the post-close phase from \<open>m\<close>: positions, cash and the account's blocks stay, and every
  new reservation is for an episode whose temporal boundary holds now.
\<close>

definition plans_admissible :: "lane_env \<Rightarrow> cluster_episode set \<Rightarrow> date \<Rightarrow> ledger \<Rightarrow> ledger \<Rightarrow> bool" where
  "plans_admissible env eps today m l \<longleftrightarrow> positions l = positions m \<and> cash l = cash m \<and> block_table l = block_table m
   \<and> campaign_row l = campaign_row m \<and> intent_keys m \<subseteq> intent_keys l
   \<and> (\<forall>k \<in> intent_keys l - intent_keys m. \<exists>ep \<in> eps. k = (episode_id ep, eligible_entry_session ep, le_now env)
        \<and> today \<le> eligible_entry_session ep \<and> verify_temporal_boundary env ep None \<and> store_blocked_reason m = None)"

lemma plans_refl: "plans_admissible env eps today l l"
  by (simp add: plans_admissible_def)

lemma plans_frame:
  assumes "plans_admissible env eps today m l" "positions l' = positions l" "cash l' = cash l" "block_table l' = block_table l"
    "campaign_row l' = campaign_row l" "intent_keys l' = intent_keys l"
  shows "plans_admissible env eps today m l'"
  using assms by (simp add: plans_admissible_def)

lemma plans_stale:
  assumes "plans_admissible env eps today m (ts_ledger st)"
  shows "plans_admissible env eps today m (ts_ledger (sweep_stale env ep st))"
proof -
  let ?l = "ts_ledger st"
  let ?l1 = "if episode_seen ?l (episode_id ep) then ?l else dispose_episode env ep (SKIPPED ENTRY_STALE) ?l"
  have one: "plans_admissible env eps today m ?l1" by (rule plans_frame [OF assms]) simp_all
  then have "plans_admissible env eps today m (stale_alert env ep i (release_intent env i EXPIRED_STALE ?l1))" for i
    by (rule plans_frame) (simp_all add: stale_alert_def)
  moreover have "entry_intent (dispose_episode env ep d ?l) eid = entry_intent ?l eid" for d eid
    by (simp add: entry_intent_def)
  ultimately show ?thesis using one
    by (cases "episode_seen ?l (episode_id ep)") (simp_all add: sweep_stale_def Let_def split: option.split)
qed

lemma plans_intend:
  assumes "plans_admissible env eps today m l" "ep \<in> eps" "today \<le> eligible_entry_session ep"
    "verify_temporal_boundary env ep None" "store_blocked_reason l = None"
    "upsert_entry_intent sha (le_now env) ep liq h pl src rec l = Inr (i, l')"
  shows "plans_admissible env eps today m l'"
  using assms(6)
proof (cases rule: upsert_entry_intent_cases)
  case created
  have "intent_keys l' = insert (episode_id ep, eligible_entry_session ep, le_now env) (intent_keys l)"
    using created by (simp add: intent_keys_def)
  moreover have "store_blocked_reason m = None"
    using assms(1,5) by (simp add: plans_admissible_def store_blocked_reason_def account_id_def)
  moreover have "\<exists>e \<in> eps. k = (episode_id e, eligible_entry_session e, le_now env) \<and> today \<le> eligible_entry_session e
      \<and> verify_temporal_boundary env e None" if "k \<in> intent_keys l" "k \<notin> intent_keys m" for k
    using assms(1) that unfolding plans_admissible_def by blast
  ultimately show ?thesis using assms(1-4) unfolding plans_admissible_def cash_def
    by (simp add: created(9)) blast
qed (use assms(1) in simp)

lemma plans_episode:
  assumes inv: "plans_admissible env eps today m (ts_ledger st)" and "ep \<in> eps"
  shows "plans_admissible env eps today m (ts_ledger (snd (plan_episode env today nxt ep st)))"
proof -
  let ?l = "ts_ledger st"
  have disp: "plans_admissible env eps today m (dispose_episode env ep d ?l)" for d
    by (rule plans_frame [OF inv]) simp_all
  have "plans_admissible env eps today m (ts_ledger (snd (admit_intent env ep liq st)))"
    if b: "verify_temporal_boundary env ep None" "today \<le> eligible_entry_session ep" for liq
  proof -
    have "plans_admissible env eps today m (service_alert env k e sy s j pid l1)"
      if u: "upsert_entry_intent (le_sha env) (le_now env) ep liq h pl src rec ?l = Inr (i, l1)"
        and free: "store_blocked_reason ?l = None" for h pl src rec i l1 k e sy s j pid
      by (rule plans_frame [OF plans_intend [OF inv \<open>ep \<in> eps\<close> b(2,1) free u]]) simp_all
    with inv disp show ?thesis by (simp add: admit_intent_def Let_def split: sum.split)
  qed
  with inv disp show ?thesis by (simp add: plan_episode_def Let_def split: sum.split)
qed

lemma phase_post_close_plans:
  "plans_admissible env (set eps) today (ts_ledger st) (ts_ledger (snd (phase_post_close env today ripe oldest eps st)))"
proof -
  let ?P = "\<lambda>s. plans_admissible env (set eps) today (ts_ledger st) (ts_ledger s)"
  have stale: "?P (fold (sweep_stale env) es s)" if "?P s" for es s
    using that by (induction es arbitrary: s) (simp_all add: plans_stale)
  have "?P (snd (each_episode (plan_episode env today nxt) eps s))" if "?P s" for nxt s
    using that by (intro each_episode_inv [where P = ?P]) (simp_all add: plans_episode)
  with stale plans_refl show ?thesis by (simp add: phase_post_close_def Let_def split: sum.split)
qed

text \<open>Reservations of a tick fit the capacity left by the open positions.\<close>

definition reserved_ok :: "v2_config \<Rightarrow> ledger \<Rightarrow> bool" where
  "reserved_ok cfg l \<longleftrightarrow>
     (let pending = length (filter (\<lambda>i. i_status i = PENDING) (intents l))
      in int (n_open l) + int pending \<le> int (max_concurrent_positions cfg)
         \<and> per_position_allocation_usd cfg \<le> fl (cash l - fl (per_position_allocation_usd cfg * of_nat (pending - 1))))"

lemma reserved_frame:
  assumes "reserved_ok cfg l" "positions l' = positions l" "cash l' = cash l" "intents l' = intents l"
  shows "reserved_ok cfg l'"
  using assms by (simp add: reserved_ok_def n_open_def)

definition reserves :: "lane_env \<Rightarrow> tick_state \<Rightarrow> bool" where
  "reserves env st \<longleftrightarrow> 0 < ts_intents st \<longrightarrow> reserved_ok (le_cfg env) (ts_ledger st)"

lemma reserves_episode:
  assumes "le_gate env" "reserves env st"
  shows "reserves env (snd (plan_episode env today nxt ep st))"
proof -
  let ?l = "ts_ledger st" and ?cfg = "le_cfg env"
  have disp: "reserves env (st\<lparr> ts_ledger := dispose_episode env ep d ?l, ts_blocked := n \<rparr>)"
    "reserves env (st\<lparr> ts_ledger := dispose_episode env ep d ?l, ts_capacity := n \<rparr>)"
    "reserves env (st\<lparr> ts_ledger := dispose_episode env ep d ?l, ts_deadline := n \<rparr>)"
    for d n using assms(2) by (auto simp: reserves_def intro: reserved_frame)
  have admit: "reserves env (snd (admit_intent env ep liq st))" if none: "entry_intent ?l (episode_id ep) = None" for liq
  proof -
    have "reserved_ok ?cfg (service_alert env k e sy s j pid l1)"
      if u: "upsert_entry_intent (le_sha env) (le_now env) ep liq h pl src rec ?l = Inr (i, l1)"
        and room: "\<not> capacity_rejected ?cfg ?l" for h pl src rec i l1 k e sy s j pid
    proof -
      from u none have l1: "l1 = ?l\<lparr> intents := intents ?l @ [i] \<rparr> \<and> i_status i = PENDING"
        by (cases rule: upsert_entry_intent_cases) simp_all
      have "length (pending_entry_intents ?l) = length (filter (\<lambda>i. i_status i = PENDING) (intents ?l))"
        by (simp add: pending_entry_intents_def)
      with room l1 have "reserved_ok ?cfg l1"
        by (simp add: reserved_ok_def capacity_rejected_def Let_def n_open_def cash_def)
      then show ?thesis by (rule reserved_frame) simp_all
    qed
    then show ?thesis using assms disp(1,2) by (simp add: admit_intent_def Let_def reserves_def split: sum.split)
  qed
  show ?thesis using assms(2) admit disp(3) by (simp add: plan_episode_def Let_def split: sum.split)
qed

text \<open>Only the post-close phase reserves.\<close>

lemma ts_intents_open: "ts_intents (snd (phase_open env today ripe eps st)) = ts_intents st"
proof -
  have "ts_intents (snd (open_episode env today ripe ep s)) = ts_intents s" for ep s
    by (auto simp: open_episode_def attempt_open_def missing_entry_bar_def Let_def split: option.split sum.split bool.split prod.split)
  then show ?thesis unfolding phase_open_def
    by (intro each_episode_inv [where P = "\<lambda>s. ts_intents s = ts_intents st"]) simp_all
qed

lemma ts_intents_simps [simp]:
  "ts_intents (phase_corporate_actions env today st) = ts_intents st" "ts_intents (phase_dividends env today st) = ts_intents st"
  "ts_intents (phase_close env ripe st) = ts_intents st" "ts_intents (sweep_stale env ep st) = ts_intents st"
  by (simp_all add: phase_corporate_actions_def phase_dividends_def phase_close_def sweep_stale_def Let_def
      split: option.split prod.split)

lemma reserves_post_close:
  assumes "le_gate env" "ts_intents st = 0"
  shows "reserves env (snd (phase_post_close env today ripe oldest eps st))"
proof -
  have "ts_intents (fold (sweep_stale env) es s) = ts_intents s" for es s
    by (induction es arbitrary: s) simp_all
  then have start: "reserves env (fold (sweep_stale env) es st)" for es
    using assms(2) by (simp add: reserves_def)
  have "reserves env (snd (each_episode (plan_episode env today nxt) eps s))" if "reserves env s" for nxt s
    by (rule each_episode_inv [where P = "reserves env", OF reserves_episode [OF assms(1)] that])
  with start show ?thesis by (simp add: phase_post_close_def Let_def split: sum.split)
qed

section \<open>A whole tick\<close>

definition tick_eps :: "lane_env \<Rightarrow> purchase_record list option \<Rightarrow> cluster_episode set" where
  "tick_eps env records = (case tick_episodes env records of Inl _ \<Rightarrow> {} | Inr eps \<Rightarrow> set eps)"

lemma opens_mono: "opens_admissible env eps l0 l \<Longrightarrow> eps \<subseteq> eps' \<Longrightarrow> opens_admissible env eps' l0 l"
  unfolding opens_admissible_def by blast

lemma run_phases_admission:
  assumes "run_phases env today ripe oldest eps st0 = (err, st)"
  obtains m m' where "opens_admissible env (set eps) (ts_ledger st0) m" "same_admission m m'"
    "plans_admissible env (set eps) today m' (ts_ledger st)"
    "le_gate env \<Longrightarrow> ts_intents st0 = 0 \<Longrightarrow> reserves env st"
proof -
  let ?att = "filter (\<lambda>e. \<not> is_stale oldest e) (filter (\<lambda>e. eligible_entry_session e \<le> ripe) eps)"
  obtain e1 st1 where o1: "phase_open env today ripe ?att st0 = (e1, st1)" by force
  have "opens_admissible env (set ?att) (ts_ledger st0) (ts_ledger st1)"
    using phase_open_admissible [where eps = ?att and st = st0] o1 by (metis snd_conv)
  then have open1: "opens_admissible env (set eps) (ts_ledger st0) (ts_ledger st1)" by (rule opens_mono) auto
  have n1: "ts_intents st1 = ts_intents st0" using ts_intents_open [of env today ripe ?att st0] o1 by simp
  show thesis
  proof (cases e1)
    case (Some e)
    then have "st = st1" using assms o1 by (simp add: run_phases_def Let_def)
    then show thesis using that [OF open1 same_admission_refl] n1 by (simp add: plans_refl reserves_def)
  next
    case None
    let ?st2 = "phase_dividends env today (phase_close env ripe (phase_corporate_actions env today st1))"
    have same: "same_admission (ts_ledger st1) (ts_ledger ?st2)"
      by (rule same_admission_trans [OF phase_ca_admission same_admission_trans [OF phase_close_admission phase_dividends_admission]])
    obtain e3 st3 where o3: "phase_post_close env today ripe oldest eps ?st2 = (e3, st3)" by force
    have plan: "plans_admissible env (set eps) today (ts_ledger ?st2) (ts_ledger st3)"
      using phase_post_close_plans [where eps = eps and st = ?st2] o3 by (metis snd_conv)
    have res: "reserves env st3" if "le_gate env" "ts_intents st0 = 0"
      using reserves_post_close [OF that(1), of ?st2 today ripe oldest eps] o3 n1 that(2) by simp
    have st: "st = (case e3 of Some _ \<Rightarrow> st3 | None \<Rightarrow> phase_deliver env today st3)"
      using assms o1 o3 None by (auto simp: run_phases_def Let_def split: option.splits)
    have "plans_admissible env (set eps) today (ts_ledger ?st2) (ts_ledger (phase_deliver env today st3))"
      by (rule plans_frame [OF plan]) (simp_all add: phase_deliver_frame intent_keys_def)
    moreover have "reserves env (phase_deliver env today st3)" if "reserves env st3"
      using that by (auto simp: reserves_def phase_deliver_frame intro: reserved_frame)
    ultimately show thesis
      using that [OF open1 same] plan res st by (cases e3) simp_all
  qed
qed

lemma tick_admission:
  assumes "tick env today records l = (err, st)"
  obtains m m' where "opens_admissible env (tick_eps env records) l m" "same_admission m m'"
    "plans_admissible env (tick_eps env records) today m' (ts_ledger st)" "le_gate env \<Longrightarrow> reserves env st"
proof (cases "bindR (ripe_through env today) (\<lambda>ripe. bindR (tick_episodes env records) (\<lambda>eps.
             bindR (stale_cut env ripe) (\<lambda>oldest. Inr (ripe, eps, oldest))))")
  case (Inl e)
  with assms have "st = start_tick l" by (simp add: tick_def)
  then show thesis using that [OF opens_refl same_admission_refl]
    by (simp add: start_tick_def plans_refl reserves_def)
next
  case (Inr r)
  obtain ripe eps oldest where r: "r = (ripe, eps, oldest)" by (cases r)
  from Inr r have eps: "tick_eps env records = set eps" by (auto simp: bindR_Inr_iff tick_eps_def)
  from Inr r assms have "run_phases env today ripe oldest eps (start_tick l) = (err, st)" by (simp add: tick_def)
  from run_phases_admission [OF this] obtain m m' where "opens_admissible env (set eps) l m" "same_admission m m'"
    "plans_admissible env (set eps) today m' (ts_ledger st)" "le_gate env \<Longrightarrow> reserves env st"
    by (auto simp: start_tick_def)
  then show thesis using that eps by simp
qed

text \<open>New positions and new reservations of a tick.\<close>

lemma tick_new_position:
  assumes "tick env today records l = (err, st)" "p \<in> set (positions (ts_ledger st))" "p_episode p \<notin> p_episode ` set (positions l)"
  obtains ep where "ep \<in> tick_eps env records" "episode_id ep = p_episode p" "eligible_entry_session ep = entry_session p"
    "admissible env l ep"
proof -
  obtain m m' where run: "opens_admissible env (tick_eps env records) l m" "same_admission m m'"
    "plans_admissible env (tick_eps env records) today m' (ts_ledger st)" using tick_admission [OF assms(1)] by metis
  have "(p_episode p, entry_session p) \<in> entry_keys (ts_ledger st)" using assms(2) by (auto simp: entry_keys_def)
  also have "entry_keys (ts_ledger st) = entry_keys m"
    using run(2,3) by (simp add: same_admission_def plans_admissible_def entry_keys_def)
  finally have "(p_episode p, entry_session p) \<in> entry_keys m" .
  moreover have "(p_episode p, entry_session p) \<notin> entry_keys l" using assms(3) by (auto simp: entry_keys_def)
  ultimately show thesis using run(1) that unfolding opens_admissible_def
    by (metis DiffI prod.inject)
qed

lemma tick_new_intent:
  assumes "tick env today records l = (err, st)" "i \<in> set (intents (ts_ledger st))" "i_episode i \<notin> i_episode ` set (intents l)"
  obtains ep where "ep \<in> tick_eps env records" "episode_id ep = i_episode i" "eligible_entry_session ep = target_entry_session i"
    "today \<le> target_entry_session i" "i_created_at i = le_now env" "verify_temporal_boundary env ep None"
proof -
  obtain m m' where run: "opens_admissible env (tick_eps env records) l m" "same_admission m m'"
    "plans_admissible env (tick_eps env records) today m' (ts_ledger st)" using tick_admission [OF assms(1)] by metis
  let ?k = "(i_episode i, target_entry_session i, i_created_at i)"
  have "intent_keys m' = intent_keys l" using run(1,2) by (simp add: opens_admissible_def same_admission_def intent_keys_def)
  moreover have "?k \<notin> intent_keys l" using assms(3) by (auto simp: intent_keys_def)
  moreover have "?k \<in> intent_keys (ts_ledger st)" using assms(2) by (simp add: intent_keys_def)
  ultimately obtain ep where "ep \<in> tick_eps env records" "?k = (episode_id ep, eligible_entry_session ep, le_now env)"
    "today \<le> eligible_entry_session ep" "verify_temporal_boundary env ep None"
    using run(3) unfolding plans_admissible_def by (metis DiffI)
  then show thesis using that by auto
qed

text \<open>What the temporal boundary means on a live tick.\<close>

lemma live_boundary:
  assumes "verify_temporal_boundary env ep intent" "le_live env"
  obtains seen rth_open where "le_open env (eligible_entry_session ep) = Some rth_open"
    "le_dissem env (upper (ep_symbol ep), activation_filing_date ep) = Some seen" "seen < rth_open"
    "\<And>r. le_receipt env (upper (ep_symbol ep), activation_filing_date ep) = Some r \<Longrightarrow> r < rth_open"
    "case intent of Some i \<Rightarrow> i_created_at i < rth_open | None \<Rightarrow> le_now env < rth_open"
  using assms by (auto simp: verify_temporal_boundary_def Let_def split: option.splits if_splits)

section \<open>Properties\<close>

text \<open>
  C1. A tick refines the ledger machine: whatever the sources, the clock and the transports answer, and
  even when an exception ends it early, one tick of the live lane from a reachable ledger only takes ledger
  steps, so it ends with non-negative cash, at most twenty occupied positions, one BUY per position and one
  SELL per closed position in the trade log.
\<close>

theorem tick_refines_the_ledger:
  assumes "ledger_steps (le_sha env) (le_sess env) (fresh_ledger starting campaign mode alloc created) l"
    and "is_float starting" "0 \<le> starting" "env_ok env" "tick env today records l = (err, st)"
  defines "l' \<equiv> ts_ledger st"
  shows "ledger_steps (le_sha env) (le_sess env) (fresh_ledger starting campaign mode alloc created) l'
     \<and> 0 \<le> cash l' \<and> n_open l' \<le> 20 \<and> episodes_of BUY_TRADE (trades l') = map p_episode (positions l')
     \<and> set (episodes_of SELL_TRADE (trades l')) = p_episode ` {p \<in> set (positions l'). p_status p = CLOSED}"
proof -
  have "ledger_ok (le_sha env) l" by (rule reachable_ok [OF assms(1-3)])
  from steps_compose [OF assms(1) tick_steps [OF assms(5,4) this]]
  have steps: "ledger_steps (le_sha env) (le_sess env) (fresh_ledger starting campaign mode alloc created) l'"
    by (simp add: l'_def)
  have "ledger_ok (le_sha env) l'" by (rule reachable_ok [OF steps assms(2,3)])
  with steps show ?thesis by (simp add: ledger_ok_def book_ok_def positions_ok_def cash_def n_open_def)
qed

text \<open>
  C2. With the intent gate on, nothing is bought that was not reserved before: a position that is new after
  a tick belongs to an episode that had a PENDING intent in the ledger the tick started from, and the
  account was not blocked.
\<close>

theorem entries_need_a_prior_reservation:
  assumes "tick env today records l = (err, st)" "le_gate env"
    and "p \<in> set (positions (ts_ledger st))" "p_episode p \<notin> p_episode ` set (positions l)"
  shows "store_blocked_reason l = None \<and> (\<exists>i \<in> set (intents l). i_status i = PENDING \<and> i_episode i = p_episode p)"
  using tick_new_position [OF assms(1,3,4)] assms(2) by (auto simp: admissible_def pending_set_def)

text \<open>
  C5. No look-ahead on a live tick: the filing that activated an episode was disseminated, and received when
  that is known, strictly before the open of the entry session, both for a position and for a reservation
  that is new; the reservation is written before that open, and a position is entered on a reservation
  written before it or while the open is still ahead.
\<close>

theorem no_look_ahead:
  assumes "tick env today records l = (err, st)" "le_live env"
  shows "(\<forall>p \<in> set (positions (ts_ledger st)). p_episode p \<notin> p_episode ` set (positions l) \<longrightarrow>
        (\<exists>ep \<in> tick_eps env records. \<exists>seen rth_open. episode_id ep = p_episode p \<and> eligible_entry_session ep = entry_session p
           \<and> le_dissem env (upper (ep_symbol ep), activation_filing_date ep) = Some seen
           \<and> le_open env (entry_session p) = Some rth_open \<and> seen < rth_open
           \<and> (\<forall>r. le_receipt env (upper (ep_symbol ep), activation_filing_date ep) = Some r \<longrightarrow> r < rth_open)
           \<and> (le_now env < rth_open \<or> (\<exists>i \<in> set (intents l). i_episode i = p_episode p \<and> i_created_at i < rth_open))))
     \<and> (\<forall>i \<in> set (intents (ts_ledger st)). i_episode i \<notin> i_episode ` set (intents l) \<longrightarrow>
        (\<exists>ep \<in> tick_eps env records. \<exists>seen rth_open. episode_id ep = i_episode i \<and> eligible_entry_session ep = target_entry_session i
           \<and> le_dissem env (upper (ep_symbol ep), activation_filing_date ep) = Some seen
           \<and> le_open env (target_entry_session i) = Some rth_open \<and> seen < rth_open
           \<and> (\<forall>r. le_receipt env (upper (ep_symbol ep), activation_filing_date ep) = Some r \<longrightarrow> r < rth_open)
           \<and> i_created_at i < rth_open \<and> today \<le> target_entry_session i))"
proof (intro conjI ballI impI)
  fix p assume p: "p \<in> set (positions (ts_ledger st))" "p_episode p \<notin> p_episode ` set (positions l)"
  obtain ep where ep: "ep \<in> tick_eps env records" "episode_id ep = p_episode p" "eligible_entry_session ep = entry_session p"
    "admissible env l ep" by (rule tick_new_position [OF assms(1) p])
  obtain intent where intent: "verify_temporal_boundary env ep intent" "\<forall>i. intent = Some i \<longrightarrow>
      (i_episode i, target_entry_session i, i_created_at i) \<in> intent_keys l \<and> i_episode i = episode_id ep"
    using ep(4) by (auto simp: admissible_def)
  show "\<exists>ep \<in> tick_eps env records. \<exists>seen rth_open. episode_id ep = p_episode p \<and> eligible_entry_session ep = entry_session p
           \<and> le_dissem env (upper (ep_symbol ep), activation_filing_date ep) = Some seen
           \<and> le_open env (entry_session p) = Some rth_open \<and> seen < rth_open
           \<and> (\<forall>r. le_receipt env (upper (ep_symbol ep), activation_filing_date ep) = Some r \<longrightarrow> r < rth_open)
           \<and> (le_now env < rth_open \<or> (\<exists>i \<in> set (intents l). i_episode i = p_episode p \<and> i_created_at i < rth_open))"
  proof (rule live_boundary [OF intent(1) assms(2)])
    fix seen rth_open
    assume b: "le_open env (eligible_entry_session ep) = Some rth_open"
      "le_dissem env (upper (ep_symbol ep), activation_filing_date ep) = Some seen" "seen < rth_open"
      "\<And>r. le_receipt env (upper (ep_symbol ep), activation_filing_date ep) = Some r \<Longrightarrow> r < rth_open"
      "case intent of Some i \<Rightarrow> i_created_at i < rth_open | None \<Rightarrow> le_now env < rth_open"
    have "le_now env < rth_open \<or> (\<exists>i \<in> set (intents l). i_episode i = p_episode p \<and> i_created_at i < rth_open)"
      using b(5) intent(2) ep(2) by (cases intent) (auto simp: intent_keys_def)
    then show ?thesis using b(1-4) ep by (intro bexI [OF _ ep(1)] exI [of _ seen] exI [of _ rth_open]) simp
  qed
next
  fix i assume i: "i \<in> set (intents (ts_ledger st))" "i_episode i \<notin> i_episode ` set (intents l)"
  obtain ep where ep: "ep \<in> tick_eps env records" "episode_id ep = i_episode i" "eligible_entry_session ep = target_entry_session i"
    "today \<le> target_entry_session i" "i_created_at i = le_now env" "verify_temporal_boundary env ep None"
    by (rule tick_new_intent [OF assms(1) i])
  show "\<exists>ep \<in> tick_eps env records. \<exists>seen rth_open. episode_id ep = i_episode i \<and> eligible_entry_session ep = target_entry_session i
           \<and> le_dissem env (upper (ep_symbol ep), activation_filing_date ep) = Some seen
           \<and> le_open env (target_entry_session i) = Some rth_open \<and> seen < rth_open
           \<and> (\<forall>r. le_receipt env (upper (ep_symbol ep), activation_filing_date ep) = Some r \<longrightarrow> r < rth_open)
           \<and> i_created_at i < rth_open \<and> today \<le> target_entry_session i"
  proof (rule live_boundary [OF ep(6) assms(2)])
    fix seen rth_open
    assume "le_open env (eligible_entry_session ep) = Some rth_open"
      "le_dissem env (upper (ep_symbol ep), activation_filing_date ep) = Some seen" "seen < rth_open"
      "\<And>r. le_receipt env (upper (ep_symbol ep), activation_filing_date ep) = Some r \<Longrightarrow> r < rth_open"
      "case None :: intent option of Some i \<Rightarrow> i_created_at i < rth_open | None \<Rightarrow> le_now env < rth_open"
    then show ?thesis using ep by (intro bexI [OF _ ep(1)] exI [of _ seen] exI [of _ rth_open]) simp
  qed
qed


section \<open>Examples: reserve in the evening, enter at the next open\<close>

definition demo_env :: lane_env where
  "demo_env = \<lparr> le_sha = (\<lambda>x. ''E1''), le_sess = lane_sessions, le_open = (\<lambda>d. Some (d * 100 + 50)), le_close = (\<lambda>d. d * 100 + 90),
     le_cfg = default_config, le_gate = True, le_strict = False, le_allowlist = None,
     le_bars = (\<lambda>sy. map (\<lambda>d. demo_bar (int d)) [100..<136]), le_price = (\<lambda>sy d. Some \<lparr> px_open = Some (Finite 3000), px_close = Some 20, px_provenance = None \<rparr>),
     le_guard = None, le_dissem = (\<lambda>k. Some 12530), le_receipt = (\<lambda>k. Some 12540), le_refreshed = True, le_card = (\<lambda>k e. e),
     le_router = None, le_deliver = False, le_send = (\<lambda>r. None), le_broad = {}, le_now = 12595, le_live = True \<rparr>"
definition demo_filings where "demo_filings = [demo_purchase ''11'' 124 ''a1'', demo_purchase ''12'' 125 ''a2'']"

definition demo_ep :: cluster_episode where
  "demo_ep = \<lparr> episode_id = ''E1'', ep_symbol = ''ABC'', ep_issuer_cik = ''9'', distinct_owner_ciks = [''11'', ''12''],
     n_distinct_owners = 2, n_filings = 2, first_filing_date = 124, activation_filing_date = 125, last_filing_date = 125,
     aggregate_purchase_value = 100000, any_officer = False, any_director = True, any_ten_percent = False,
     causal_event_ts = - 62124796801000000, eligible_entry_session = 126 \<rparr>"
definition reserved_intent :: intent where
 "reserved_intent = \<lparr>intent_id = ''E1'',
     i_episode = ''E1'', i_symbol = ''ABC'',
     i_issuer = ''9'', i_activation = 125, target_entry_session = 126,
     planned_exit_session = Some 136, i_horizon = 10, i_liq_ok = True,
     i_liq_median = Some 8388608, i_liq_close = Some 16, i_status = PENDING,
     i_created_at = 12595, i_updated_at = 12595, i_position = None,
     i_fill_price = None, i_fill_session = None, i_reconciled_at = None,
     i_source_ts = Some 12530, i_receipt_ts = Some 12540\<rparr>"
definition "demo_planned = demo_ledger\<lparr> intents := [reserved_intent] \<rparr>"


lemma demo_liq: "evaluate_liquidity_checked lane_sessions default_config (le_bars demo_env ''ABC'') 126 False = Inr
  \<lparr>liq_ok = True, median_dollar_volume = Some 8388608, last_close = Some 16, n_sessions_used = 20, liq_reason = PASS\<rparr>" by code_simp
definition demo_fill :: ledger where
  "demo_fill = demo_planned\<lparr> portfolio_cash := 91000, position_seq := 1,
     positions := [new_position 1 12600 ''E1'' ''ABC'' ''9'' 126 136 3000 3 9000 0 None],
     episodes := [\<lparr> er_episode = ''E1'', er_symbol = ''ABC'', er_issuer = ''9'', er_activation = None,
        er_entry_session = Some 126, er_disposition = ENTERED, er_first_seen = 12600, er_updated = 12600 \<rparr>],
     trades := [\<lparr> trade_id = 1, t_episode = ''E1'', t_symbol = ''ABC'', t_action = BUY_TRADE, t_price = 3000,
        t_shares = 3, t_cost = 9000, t_entry_price = None, t_pnl_usd = None, t_pnl_pct = None,
        t_days_held = None, t_cash_after = 91000, t_executed_at = 12600, t_fee = 0, t_provenance = None \<rparr>] \<rparr>"
definition demo_bought :: entry_outcome where
  "demo_bought = \<lparr> eo_entered = True, eo_reason = ENTERED_OK, eo_position_id = Some 1, eo_shares = Some 3, eo_target_exit = Some 136 \<rparr>"
definition demo_buy :: v2_decision where
  "demo_buy = \<lparr> d_signal_id = ''v2sig-E1'', d_episode_id = ''E1'', d_symbol = ''ABC'', d_direction = BULLISH, d_action = BUY,
     d_official_eligible = True, d_entry_session = 126 \<rparr>"
lemma demo_buys: "enter_position lane_sessions default_config zero_fee 12600 demo_buy (Some (Finite 3000)) 126 ''9'' None demo_planned
   = Inr (demo_bought, demo_fill)" by code_simp

lemma demo_detected: "tick_episodes demo_env (Some demo_filings) = Inr [demo_ep]" by code_simp

abbreviation demo_open_env :: lane_env where "demo_open_env \<equiv> demo_env\<lparr> le_now := 12600 \<rparr>"

definition demo_entry_record :: entry_record where
  "demo_entry_record = \<lparr> er_ep = ''E1'', er_sym = ''ABC'', er_session = 126, er_price = Finite 3000, er_shares = Some 3, er_target = Some 136 \<rparr>"

definition demo_opened :: tick_state where
  "demo_opened = (start_tick demo_planned)\<lparr>
     ts_result := empty_result\<lparr> pr_signals := 1, pr_entries := [demo_entry_record], pr_alerts := [(BUY, ''ABC'')] \<rparr>,
     ts_ledger := on_entry_recorded demo_open_env demo_ep demo_entry_record (Some reserved_intent) demo_fill \<rparr>"

lemma demo_processed:
  "process_episode lane_sessions default_config (le_bars demo_env) (le_price demo_env) False 12600 demo_ep empty_result demo_planned
     = (ts_result demo_opened, Inr demo_fill)"
proof -
  have "contextualize (build_signal default_config demo_ep \<lparr>liq_ok = True, median_dollar_volume = Some 8388608,
      last_close = Some 16, n_sessions_used = 20, liq_reason = PASS\<rparr>) = demo_buy" by code_simp
  moreover have "\<not> already_processed demo_planned ''E1''" "usable_open (le_price demo_env ''ABC'' 126) = Some (Finite 3000)"
    "Option.bind (le_price demo_env ''ABC'' 126) (\<lambda>px. field_provenance px ''open'') = None" "d_action demo_buy = BUY"
    "ep_symbol demo_ep = ''ABC''" "eligible_entry_session demo_ep = 126" "ep_issuer_cik demo_ep = ''9''" "episode_id demo_ep = ''E1''" by code_simp+
  ultimately show ?thesis using demo_liq demo_buys
    by (simp add: process_episode_def Let_def demo_opened_def demo_bought_def demo_entry_record_def empty_result_def)
qed

lemma demo_opens: "phase_open demo_open_env 126 126 [demo_ep] (start_tick demo_planned) = (None, demo_opened)"
proof -
  have "entry_intent demo_planned (episode_id demo_ep) = Some reserved_intent" "i_status reserved_intent = PENDING"
    "verify_temporal_boundary demo_open_env demo_ep (Some reserved_intent)"
    "service_deadline_passed demo_open_env (eligible_entry_session demo_ep) 126 = Inr False" by code_simp+
  moreover have "le_gate demo_env" "le_sess demo_env = lane_sessions" "le_cfg demo_env = default_config" "\<not> le_strict demo_env"
    "pr_entries (ts_result demo_opened) = [demo_entry_record]" "pr_entries empty_result = []" by code_simp+
  ultimately show ?thesis using demo_processed
    by (simp add: phase_open_def open_episode_def attempt_open_def Let_def start_tick_def demo_opened_def)
qed

definition demo_tick :: "py_error option \<times> tick_state" where
  "demo_tick = tick demo_open_env 126 (Some demo_filings) demo_planned"

lemma demo_ticked:
  "positions (ts_ledger (snd demo_tick)) = [new_position 1 12600 ''E1'' ''ABC'' ''9'' 126 136 3000 3 9000 0 None]"
proof -
  have "tick_episodes demo_open_env (Some demo_filings) = Inr [demo_ep]" using demo_detected by (simp add: tick_episodes_def)
  moreover have "ripe_through demo_open_env 126 = Inr 126" "stale_cut demo_open_env 126 = Inr (Some 124)"
    "eligible_entry_session demo_ep = 126" "\<not> is_stale (Some 124) demo_ep" by code_simp+
  moreover have "positions (ts_ledger (snd (case phase_post_close demo_open_env 126 126 (Some 124) [demo_ep]
      (phase_dividends demo_open_env 126 (phase_close demo_open_env 126 (phase_corporate_actions demo_open_env 126 demo_opened))) of
          (Some err, st3) \<Rightarrow> (Some err, st3) | (None, st3) \<Rightarrow> (None, phase_deliver demo_open_env 126 st3))))
      = [new_position 1 12600 ''E1'' ''ABC'' ''9'' 126 136 3000 3 9000 0 None]" by code_simp
  ultimately show ?thesis using demo_opens by (simp add: demo_tick_def tick_def run_phases_def Let_def)
qed

text \<open>The evening before: the tick that reserves the episode.\<close>

definition demo_plan :: "py_error option \<times> tick_state" where
  "demo_plan = tick demo_env 125 (Some demo_filings) demo_ledger"

lemma demo_plan_facts: "ts_intents (snd demo_plan) = 1 \<and> intents (ts_ledger (snd demo_plan)) = [reserved_intent]"
  by code_simp

theorem tick_refines_the_ledger_witness: "0 \<le> cash (ts_ledger (snd demo_plan)) \<and> n_open (ts_ledger (snd demo_plan)) \<le> 20"
proof -
  have "is_float 20" by code_simp
  then have env: "env_ok demo_env" by (simp add: env_ok_def demo_env_def prices_ok_def guard_ok_def)
  have t: "tick demo_env 125 (Some demo_filings) demo_ledger = (fst demo_plan, snd demo_plan)" by (simp add: demo_plan_def)
  have "ledger_steps (le_sha demo_env) (le_sess demo_env) (fresh_ledger 100000 ''V2'' ''PAPER'' (Some 10000) 1) demo_ledger"
    by (simp add: demo_ledger_def)
  from tick_refines_the_ledger [OF this machine_run(2) _ env t] show ?thesis by simp
qed

lemma demo_new_position:
  assumes "p \<in> set (positions (ts_ledger (snd demo_tick)))"
  shows "p_episode p = ''E1''" "p_episode p \<notin> p_episode ` set (positions demo_planned)" "entry_session p = 126"
proof -
  have "positions demo_planned = []" by code_simp
  with assms show "p_episode p = ''E1''" "p_episode p \<notin> p_episode ` set (positions demo_planned)" "entry_session p = 126"
    by (simp_all add: demo_ticked new_position_def)
qed

theorem entries_need_a_prior_reservation_witness:
  "\<exists>i \<in> set (intents demo_planned). i_status i = PENDING \<and> i_episode i = ''E1''"
proof -
  have t: "tick demo_open_env 126 (Some demo_filings) demo_planned = (fst demo_tick, snd demo_tick)" by (simp add: demo_tick_def)
  obtain p where p: "p \<in> set (positions (ts_ledger (snd demo_tick)))" by (simp add: demo_ticked)
  have "le_gate demo_open_env" by code_simp
  from entries_need_a_prior_reservation [OF t this p demo_new_position(2) [OF p]] demo_new_position(1) [OF p]
  show ?thesis by simp
qed

theorem no_look_ahead_witness:
  "\<exists>ep \<in> tick_eps demo_open_env (Some demo_filings). \<exists>seen. episode_id ep = ''E1'' \<and> eligible_entry_session ep = 126
     \<and> le_dissem demo_open_env (upper (ep_symbol ep), activation_filing_date ep) = Some seen \<and> seen < 12650"
proof -
  have t: "tick demo_open_env 126 (Some demo_filings) demo_planned = (fst demo_tick, snd demo_tick)" by (simp add: demo_tick_def)
  obtain p where p: "p \<in> set (positions (ts_ledger (snd demo_tick)))" by (simp add: demo_ticked)
  have "le_live demo_open_env" "le_open demo_open_env 126 = Some 12650" by code_simp+
  with no_look_ahead [OF t] p demo_new_position [OF p] show ?thesis by fastforce
qed


end
