(* ===== verification/V2_Prices.thy ===== *)
theory V2_Prices
  imports V2_Pipeline
begin

text \<open>
  The price side of the lane: \<open>talonx_v2/provider_contract.py\<close> (finality, adapter semantics, readiness),
  \<open>talonx_v2/sip_adapter.py\<close> (the release adapter: paging, the row filter, the cache) and
  \<open>talonx_v2/pricing.py\<close> (row validation, the composite adapter, the resolver).

  The provider's answers are arguments (\<open>get\<close>, a function of the request and the page token), as is the
  New-York wall clock \<open>et\<close> of an instant (date and second of the day).  A number of a response is a
  \<open>pyfloat option\<close>: \<open>None\<close> where the key is missing or \<open>float()\<close> refuses it, otherwise the number as
  written, which \<open>float()\<close> rounds.  The receipt instants, the
  feed label and the contract fingerprint of a row's provenance, which nothing decides on, are left out.
\<close>

section \<open>Provider contract\<close>

definition SIP_QUERY_LAG_MINUTES :: int where
  "SIP_QUERY_LAG_MINUTES = 15"

definition SETTLE_MARGIN_MINUTES :: int where
  "SETTLE_MARGIN_MINUTES = 1"

definition minutes :: "int \<Rightarrow> int" where
  "minutes n = n * 60 * 1000000"

record provider_contract =
  c_timeframe :: string
  c_feed :: string
  c_adjustment :: string
  c_open_semantics :: string
  c_close_semantics :: string
  c_volume_semantics :: string
  c_session_tz :: string
  c_fallback_mode :: string
  c_max_pages :: nat
  c_cache_ttl_s :: int

definition RELEASE_CONTRACT :: provider_contract where
  "RELEASE_CONTRACT = \<lparr> c_timeframe = ''1Day'', c_feed = ''sip'', c_adjustment = ''split'',
     c_open_semantics = ''PROVIDER_DAILY_FIRST_ELIGIBLE_TRADE_OPEN_NOT_OFFICIAL_AUCTION_PRINT'',
     c_close_semantics = ''OFFICIAL_CLOSING_CROSS_PRINT'',
     c_volume_semantics = ''CONSOLIDATED_FULL_TAPE_DAY_INVERSE_SPLIT_ADJUSTED'',
     c_session_tz = ''America/New_York'', c_fallback_mode = ''NONE'', c_max_pages = 5, c_cache_ttl_s = 300 \<rparr>"

text \<open>\<open>FinalityPolicy\<close>; the exchange calendar refuses a date that is not a session.\<close>

definition usable_at :: "date list \<Rightarrow> (date \<Rightarrow> stamp) \<Rightarrow> date \<Rightarrow> stamp result" where
  "usable_at sess sclose d =
     (if is_session sess d
      then Inr (session_extended_end_utc sclose d + minutes (SIP_QUERY_LAG_MINUTES + SETTLE_MARGIN_MINUTES))
      else Inl ValueError)"

definition is_usable :: "(date \<Rightarrow> stamp result) \<Rightarrow> date \<Rightarrow> stamp \<Rightarrow> bool result" where
  "is_usable usable d now = bindR (usable d) (\<lambda>t. Inr (t \<le> now))"

subsection \<open>Adapter semantics\<close>

record adapter_semantics =
  as_name :: string
  as_feed_scope :: string
  as_adjustment :: string
  as_open :: string
  as_close :: string
  as_volume :: string
  as_tz :: string
  as_source_kind :: string
  as_qualified :: bool
  as_ca_accounting :: bool

definition sip_release :: adapter_semantics where
  "sip_release = \<lparr> as_name = ''alpaca:sip:1Day:split'', as_feed_scope = ''CONSOLIDATED_SIP'', as_adjustment = ''split'',
     as_open = c_open_semantics RELEASE_CONTRACT, as_close = c_close_semantics RELEASE_CONTRACT,
     as_volume = c_volume_semantics RELEASE_CONTRACT, as_tz = c_session_tz RELEASE_CONTRACT,
     as_source_kind = ''live'', as_qualified = True, as_ca_accounting = True \<rparr>"

definition iex_split :: adapter_semantics where
  "iex_split = \<lparr> as_name = ''alpaca:iex:1Day:split'', as_feed_scope = ''SINGLE_VENUE_IEX'', as_adjustment = ''split'',
     as_open = ''IEX_SINGLE_VENUE_FIRST_TRADE'', as_close = ''IEX_SINGLE_VENUE_LAST_TRADE'',
     as_volume = ''IEX_SINGLE_VENUE_VOLUME'', as_tz = c_session_tz RELEASE_CONTRACT,
     as_source_kind = ''live'', as_qualified = False, as_ca_accounting = True \<rparr>"

definition yfinance_split :: adapter_semantics where
  "yfinance_split = \<lparr> as_name = ''yfinance:1d:auto_adjust=False'', as_feed_scope = ''UNVERIFIED'', as_adjustment = ''split'',
     as_open = ''UNVERIFIED_YAHOO_DAILY_OPEN'', as_close = ''UNVERIFIED_YAHOO_DAILY_CLOSE'',
     as_volume = ''UNVERIFIED_YAHOO_VOLUME'', as_tz = c_session_tz RELEASE_CONTRACT,
     as_source_kind = ''live'', as_qualified = False, as_ca_accounting = True \<rparr>"

definition task107a_sip_snapshot :: adapter_semantics where
  "task107a_sip_snapshot = \<lparr> as_name = ''csv:task107a_sip_adjustment_all'', as_feed_scope = ''CONSOLIDATED_SIP'',
     as_adjustment = ''all'', as_open = c_open_semantics RELEASE_CONTRACT,
     as_close = c_close_semantics RELEASE_CONTRACT, as_volume = c_volume_semantics RELEASE_CONTRACT,
     as_tz = c_session_tz RELEASE_CONTRACT, as_source_kind = ''snapshot'', as_qualified = True,
     as_ca_accounting = False \<rparr>"

text \<open>\<open>_HARD_DIMS\<close>, and the difference on every one of them.\<close>

definition HARD_DIMS :: "(string \<times> (adapter_semantics \<Rightarrow> string)) list" where
  "HARD_DIMS = [(''feed_scope'', as_feed_scope), (''open_semantics'', as_open), (''close_semantics'', as_close),
     (''volume_semantics'', as_volume), (''session_tz'', as_tz)]"

datatype mismatch =
    DIM_DIFFERS string string string
  | NOT_A_LIVE_SOURCE
  | NOT_QUALIFIED
  | NO_CA_ACCOUNTING
  | FALLBACK_MODE_NONE

definition hard_mismatches :: "adapter_semantics \<Rightarrow> adapter_semantics \<Rightarrow> mismatch list" where
  "hard_mismatches a b =
     map (\<lambda>(n, f). DIM_DIFFERS n (f a) (f b)) (filter (\<lambda>(n, f). f a \<noteq> f b) HARD_DIMS)"

definition fallback_mismatches :: "adapter_semantics \<Rightarrow> adapter_semantics \<Rightarrow> mismatch list" where
  "fallback_mismatches primary candidate =
     hard_mismatches primary candidate
     @ (if as_adjustment primary \<noteq> as_adjustment candidate
        then [DIM_DIFFERS ''adjustment'' (as_adjustment primary) (as_adjustment candidate)] else [])
     @ (if as_source_kind candidate \<noteq> ''live'' then [NOT_A_LIVE_SOURCE] else [])
     @ (if \<not> as_qualified candidate then [NOT_QUALIFIED] else [])"

definition fallback_allowed :: "adapter_semantics \<Rightarrow> adapter_semantics \<Rightarrow> string \<Rightarrow> bool \<times> mismatch list" where
  "fallback_allowed primary candidate mode =
     (if mode = ''NONE'' then (False, [FALLBACK_MODE_NONE])
      else let mism = fallback_mismatches primary candidate in (mism = [], mism))"

datatype replay_class = COMPATIBLE | PARTIALLY_COMPATIBLE | INCOMPATIBLE

definition classify_replay :: "adapter_semantics \<Rightarrow> adapter_semantics \<Rightarrow> replay_class \<times> mismatch list" where
  "classify_replay replay release =
     (let hard = hard_mismatches replay release;
          soft = (if as_adjustment replay \<noteq> as_adjustment release
                  then [DIM_DIFFERS ''adjustment'' (as_adjustment replay) (as_adjustment release)] else [])
            @ (if as_source_kind replay \<noteq> as_source_kind release
               then [DIM_DIFFERS ''source_kind'' (as_source_kind replay) (as_source_kind release)] else [])
            @ (if \<not> as_ca_accounting replay then [NO_CA_ACCOUNTING] else [])
      in if hard \<noteq> [] then (INCOMPATIBLE, hard @ soft)
         else (if soft \<noteq> [] then PARTIALLY_COMPATIBLE else COMPATIBLE, soft))"

section \<open>The release adapter\<close>

datatype adapter_error =
    PROVIDER_ERROR
  | PROVIDER_TIMEOUT
  | PROVIDER_RATE_LIMITED
  | PROVIDER_ENTITLEMENT
  | PROVIDER_MALFORMED_RESPONSE
  | INCOMPATIBLE_BASIS
  | OTHER_FAULT

text \<open>What the network layer reports, and the typed error \<open>default_http_get\<close> makes of it.\<close>

datatype 'a http_outcome = ANSWER 'a | HTTP_STATUS int | TIMED_OUT | NETWORK_ERROR | INVALID_JSON

fun http_result :: "'a http_outcome \<Rightarrow> adapter_error + 'a" where
  "http_result (ANSWER x) = Inr x"
| "http_result (HTTP_STATUS code) =
     Inl (if code = 429 then PROVIDER_RATE_LIMITED
          else if code = 401 \<or> code = 403 then PROVIDER_ENTITLEMENT else PROVIDER_ERROR)"
| "http_result TIMED_OUT = Inl PROVIDER_TIMEOUT"
| "http_result NETWORK_ERROR = Inl PROVIDER_ERROR"
| "http_result INVALID_JSON = Inl PROVIDER_MALFORMED_RESPONSE"

text \<open>A bar timestamp: text that is no ISO instant, one without a zone, or an instant.\<close>

datatype iso_text = NOT_ISO | NAIVE | INSTANT stamp

record sip_bar =
  sb_t :: iso_text
  sb_open :: "pyfloat option"
  sb_high :: "pyfloat option"
  sb_low :: "pyfloat option"
  sb_close :: "pyfloat option"
  sb_volume :: "pyfloat option"

text \<open>The date text of a row: absent, an ISO date, or something else.\<close>

datatype day_text = NO_DAY | DAY date | BAD_DAY string

record raw_bar =
  rw_day :: day_text
  rw_open :: "pyfloat option"
  rw_close :: "pyfloat option"
  rw_volume :: "pyfloat option"
  rw_stamp :: "iso_text option"
  rw_state :: "string option"
  rw_basis :: "date option"
  rw_adapter :: "string option"

text \<open>\<open>float(x)\<close> of a number written in the response: the nearest binary64 value.\<close>

definition py_number :: "pyfloat option \<Rightarrow> money option" where
  "py_number x = map_option fl (finite_value x)"

definition finite_pos :: "pyfloat option \<Rightarrow> money option" where
  "finite_pos x = (case py_number x of Some f \<Rightarrow> if 0 < f then Some f else None | None \<Rightarrow> None)"

definition finite_nonneg :: "pyfloat option \<Rightarrow> money option" where
  "finite_nonneg x = (case py_number x of Some f \<Rightarrow> if 0 \<le> f then Some f else None | None \<Rightarrow> None)"

definition session_of :: "(stamp \<Rightarrow> date \<times> int) \<Rightarrow> iso_text \<Rightarrow> date option" where
  "session_of et t = (case t of
     INSTANT i \<Rightarrow> (case et i of (d, second_of_day) \<Rightarrow> if second_of_day = 0 then Some d else None)
   | _ \<Rightarrow> None)"

definition utc_day :: "stamp \<Rightarrow> date" where
  "utc_day t = t div 86400000000 + 719163"

datatype rejection = NOT_AN_OBJECT | MALFORMED_BAR iso_text | CONFLICTING_ROWS date

text \<open>One element of the response: a row of the session it belongs to, or the reason it is dropped.\<close>

definition sip_row :: "(stamp \<Rightarrow> date \<times> int) \<Rightarrow> date \<Rightarrow> sip_bar option \<Rightarrow> rejection + raw_bar" where
  "sip_row et basis x = (case x of None \<Rightarrow> Inl NOT_AN_OBJECT | Some b \<Rightarrow>
     (case (session_of et (sb_t b), finite_pos (sb_open b), finite_pos (sb_high b), finite_pos (sb_low b),
            finite_pos (sb_close b), finite_nonneg (sb_volume b)) of
        (Some d, Some op, Some hi, Some lo, Some cl, Some v) \<Rightarrow>
          if hi < lo then Inl (MALFORMED_BAR (sb_t b))
          else Inr \<lparr> rw_day = DAY d, rw_open = Some (Finite op), rw_close = Some (Finite cl),
                 rw_volume = Some (Finite v), rw_stamp = Some (sb_t b), rw_state = Some ''SPLIT_ADJUSTED'',
                 rw_basis = Some basis, rw_adapter = None \<rparr>
      | _ \<Rightarrow> Inl (MALFORMED_BAR (sb_t b))))"

fun row_date :: "raw_bar \<Rightarrow> date" where
  "row_date r = (case rw_day r of DAY d \<Rightarrow> d | _ \<Rightarrow> 0)"

definition row_values :: "raw_bar \<Rightarrow> pyfloat option \<times> pyfloat option \<times> pyfloat option" where
  "row_values r = (rw_open r, rw_close r, rw_volume r)"

text \<open>The rows of one session: the first one, unless another disagrees with it.\<close>

definition sip_day :: "raw_bar list \<Rightarrow> date \<Rightarrow> rejection + raw_bar" where
  "sip_day rows d =
     (let cands = filter (\<lambda>r. row_date r = d) rows; first = hd cands
      in if \<exists>x \<in> set (tl cands). row_values x \<noteq> row_values first then Inl (CONFLICTING_ROWS d) else Inr first)"

definition rights :: "('a + 'b) list \<Rightarrow> 'b list" where
  "rights xs = concat (map (\<lambda>x. case x of Inl _ \<Rightarrow> [] | Inr y \<Rightarrow> [y]) xs)"

definition lefts :: "('a + 'b) list \<Rightarrow> 'a list" where
  "lefts xs = concat (map (\<lambda>x. case x of Inl y \<Rightarrow> [y] | Inr _ \<Rightarrow> []) xs)"

text \<open>\<open>_rows\<close>: the accepted rows, one per session in date order, and what was rejected.\<close>

definition sip_rows :: "(stamp \<Rightarrow> date \<times> int) \<Rightarrow> stamp \<Rightarrow> sip_bar option list \<Rightarrow> raw_bar list \<times> rejection list" where
  "sip_rows et receipt raw =
     (let parsed = map (sip_row et (utc_day receipt)) raw; rows = rights parsed;
          days = map (sip_day rows) (sort (uniq (map row_date rows)))
      in (rights days, lefts parsed @ lefts days))"

record sip_request =
  rq_symbol :: symbol
  rq_timeframe :: string
  rq_feed :: string
  rq_adjustment :: string
  rq_start :: date
  rq_upto :: stamp

text \<open>A page: \<open>None\<close> for a body of the wrong shape, otherwise the symbol's bars and the next token.\<close>

type_synonym sip_page = "(sip_bar option list \<times> string option) option"
type_synonym sip_get = "sip_request \<Rightarrow> string option \<Rightarrow> adapter_error + sip_page"

fun sip_pages :: "sip_get \<Rightarrow> sip_request \<Rightarrow> nat \<Rightarrow> string option \<Rightarrow> sip_bar option list \<Rightarrow> adapter_error + sip_bar option list" where
  "sip_pages get rq 0 token raw = Inl PROVIDER_MALFORMED_RESPONSE"
| "sip_pages get rq (Suc n) token raw =
     (case get rq token of
        Inl e \<Rightarrow> Inl e
      | Inr None \<Rightarrow> Inl PROVIDER_MALFORMED_RESPONSE
      | Inr (Some (bars, next_token)) \<Rightarrow>
          if next_token = None \<or> next_token = Some [] then Inr (raw @ bars)
          else sip_pages get rq n next_token (raw @ bars))"

text \<open>\<open>int(lookback * 1.6) + 10\<close> calendar days back, and an end sixteen minutes old, in whole seconds.\<close>

definition sip_request_of :: "provider_contract \<Rightarrow> nat \<Rightarrow> symbol \<Rightarrow> stamp \<Rightarrow> sip_request" where
  "sip_request_of c lookback sy now =
     \<lparr> rq_symbol = sy, rq_timeframe = c_timeframe c, rq_feed = c_feed c, rq_adjustment = c_adjustment c,
       rq_start = utc_day now - (\<lfloor>fl (of_nat lookback * fl (16 / 10))\<rfloor> + 10),
       rq_upto = (now - minutes (SIP_QUERY_LAG_MINUTES + SETTLE_MARGIN_MINUTES)) div 1000000 * 1000000 \<rparr>"

record sip_state =
  sip_cache :: "symbol \<rightharpoonup> stamp \<times> raw_bar list"
  sip_rejected :: "(symbol \<times> rejection) list"

definition sip_fetch ::
    "(stamp \<Rightarrow> date \<times> int) \<Rightarrow> provider_contract \<Rightarrow> nat \<Rightarrow> sip_get \<Rightarrow> stamp \<Rightarrow> symbol \<Rightarrow> sip_state
       \<Rightarrow> (adapter_error + raw_bar list) \<times> sip_state" where
  "sip_fetch et c lookback get now symbol st =
     (let sy = upper symbol;
          fresh = (let rq = sip_request_of c lookback sy now
                   in case sip_pages get rq (c_max_pages c) None [] of
                        Inl e \<Rightarrow> (Inl e, st)
                      | Inr raw \<Rightarrow> (case sip_rows et now raw of (rows, rej) \<Rightarrow>
                          (Inr rows, st\<lparr> sip_cache := (sip_cache st)(sy \<mapsto> (now, rows)),
                                         sip_rejected := sip_rejected st @ map (\<lambda>r. (sy, r)) rej \<rparr>)))
      in case sip_cache st sy of
           Some (fetched, rows) \<Rightarrow> if now - fetched < c_cache_ttl_s c * 1000000 then (Inr rows, st) else fresh
         | None \<Rightarrow> fresh)"

definition sip_session ::
    "(stamp \<Rightarrow> date \<times> int) \<Rightarrow> provider_contract \<Rightarrow> nat \<Rightarrow> sip_get \<Rightarrow> stamp \<Rightarrow> symbol \<Rightarrow> date \<Rightarrow> sip_state
       \<Rightarrow> (adapter_error + raw_bar option) \<times> sip_state" where
  "sip_session et c lookback get now symbol d st =
     (case sip_fetch et c lookback get now symbol st of
        (Inl e, st') \<Rightarrow> (Inl e, st')
      | (Inr rows, st') \<Rightarrow> (Inr (find (\<lambda>r. rw_day r = DAY d) rows), st'))"

section \<open>Adapters and the composite\<close>

text \<open>An adapter over its own state \<open>'s\<close>: the history of a symbol, and the row of one session.\<close>

record 's adapter =
  ad_name :: string
  ad_history :: "symbol \<Rightarrow> 's \<Rightarrow> (adapter_error + raw_bar list) \<times> 's"
  ad_session :: "symbol \<Rightarrow> date \<Rightarrow> 's \<Rightarrow> (adapter_error + raw_bar option) \<times> 's"

definition sip_adapter ::
    "(stamp \<Rightarrow> date \<times> int) \<Rightarrow> provider_contract \<Rightarrow> nat \<Rightarrow> sip_get \<Rightarrow> stamp \<Rightarrow> sip_state adapter" where
  "sip_adapter et c lookback get now =
     \<lparr> ad_name = ''alpaca:'' @ c_feed c @ '':'' @ c_timeframe c @ '':adjustment='' @ c_adjustment c,
       ad_history = sip_fetch et c lookback get now,
       ad_session = sip_session et c lookback get now \<rparr>"

definition tag :: "string \<Rightarrow> raw_bar \<Rightarrow> raw_bar" where
  "tag name r = r\<lparr> rw_adapter := Some name \<rparr>"

text \<open>The earliest basis of the rows, unknown as soon as one row has none.\<close>

definition common_basis :: "raw_bar list \<Rightarrow> date option" where
  "common_basis rows =
     (if rows = [] \<or> (\<exists>r \<in> set rows. rw_basis r = None) then None
      else Some (Min ((\<lambda>r. the (rw_basis r)) ` set rows)))"

definition row_states :: "raw_bar list \<Rightarrow> string option set" where
  "row_states rows = rw_state ` set rows"

text \<open>An action that an unadjusted splice would cross.\<close>

definition crosses :: "date \<Rightarrow> date \<Rightarrow> ca_event \<Rightarrow> bool" where
  "crosses lo hi e \<longleftrightarrow> ev_kind e \<noteq> CASH_DIVIDEND \<and>
     (case ev_ex_date e of None \<Rightarrow> True | Some d \<Rightarrow> lo < d \<and> d \<le> hi)"

definition dated :: "raw_bar \<Rightarrow> bool" where
  "dated r \<longleftrightarrow> (case rw_day r of DAY d \<Rightarrow> True | _ \<Rightarrow> False)"

definition splice_bounds :: "date \<Rightarrow> raw_bar list \<Rightarrow> raw_bar list \<Rightarrow> date \<times> date" where
  "splice_bounds today hist live =
     (case common_basis hist of Some b \<Rightarrow> b | None \<Rightarrow> Max (row_date ` set hist),
      case common_basis live of Some b \<Rightarrow> b | None \<Rightarrow> today)"

definition require_compatible ::
    "(symbol \<Rightarrow> date \<Rightarrow> date \<Rightarrow> ca_source_result) option \<Rightarrow> date \<Rightarrow> symbol \<Rightarrow> raw_bar list \<Rightarrow> raw_bar list
       \<Rightarrow> adapter_error option" where
  "require_compatible evidence today symbol hist live =
     (if row_states hist \<noteq> row_states live then Some INCOMPATIBLE_BASIS
      else if common_basis hist \<noteq> None \<and> common_basis hist = common_basis live then None
      else case evidence of None \<Rightarrow> Some INCOMPATIBLE_BASIS | Some fetch \<Rightarrow>
        if \<exists>r \<in> set hist. \<not> dated r then Some OTHER_FAULT
        else (case splice_bounds today hist live of (lo, hi) \<Rightarrow>
          if hi \<le> lo then None
          else let res = fetch symbol (lo + 1) hi
               in if \<not> ca_ok res \<or> ca_conflicts res \<noteq> [] \<or> (\<exists>e \<in> set (ca_events res). crosses lo hi e)
                  then Some INCOMPATIBLE_BASIS else None))"

text \<open>\<open>merged.sort(key=lambda r: r["date"])\<close>: by the text of the date.\<close>

fun day_string :: "day_text \<Rightarrow> string" where
  "day_string NO_DAY = []"
| "day_string (DAY d) = isoformat d"
| "day_string (BAD_DAY s) = s"

definition composite_history ::
    "(symbol \<Rightarrow> date \<Rightarrow> date \<Rightarrow> ca_source_result) option \<Rightarrow> date \<Rightarrow> 's adapter \<Rightarrow> 't adapter \<Rightarrow> symbol \<Rightarrow> 's \<times> 't
       \<Rightarrow> (adapter_error + raw_bar list) \<times> 's \<times> 't" where
  "composite_history evidence today hist live symbol st =
     (case ad_history hist symbol (fst st) of
        (Inl e, s') \<Rightarrow> (Inl e, s', snd st)
      | (Inr h0, s') \<Rightarrow> (case ad_history live symbol (snd st) of
          (Inl e, t') \<Rightarrow> (Inl e, s', t')
        | (Inr l0, t') \<Rightarrow>
            (let h = map (tag (ad_name hist)) h0; seen = rw_day ` set h;
                 lr = map (tag (ad_name live)) (filter (\<lambda>r. rw_day r \<notin> seen) l0);
                 merged = sort_key (day_string \<circ> rw_day) (h @ lr)
             in (if h \<noteq> [] \<and> lr \<noteq> []
                 then (case require_compatible evidence today symbol h lr of
                         Some e \<Rightarrow> Inl e | None \<Rightarrow> Inr merged)
                 else Inr merged, s', t'))))"

definition composite_session ::
    "'s adapter \<Rightarrow> 't adapter \<Rightarrow> symbol \<Rightarrow> date \<Rightarrow> 's \<times> 't \<Rightarrow> (adapter_error + raw_bar option) \<times> 's \<times> 't" where
  "composite_session hist live symbol d st =
     (case ad_session hist symbol d (fst st) of
        (Inl e, s') \<Rightarrow> (Inl e, s', snd st)
      | (Inr (Some r), s') \<Rightarrow> (Inr (Some (tag (ad_name hist) r)), s', snd st)
      | (Inr None, s') \<Rightarrow> (case ad_session live symbol d (snd st) of
          (Inl e, t') \<Rightarrow> (Inl e, s', t')
        | (Inr r, t') \<Rightarrow> (Inr (map_option (tag (ad_name live)) r), s', t')))"

definition composite_adapter ::
    "(symbol \<Rightarrow> date \<Rightarrow> date \<Rightarrow> ca_source_result) option \<Rightarrow> date \<Rightarrow> 's adapter \<Rightarrow> 't adapter \<Rightarrow> ('s \<times> 't) adapter" where
  "composite_adapter evidence today hist live =
     \<lparr> ad_name = ''composite('' @ ad_name hist @ ''+'' @ ad_name live @ '')'',
       ad_history = composite_history evidence today hist live,
       ad_session = composite_session hist live \<rparr>"

section \<open>The resolver\<close>

datatype bar_status = FINAL | PROVISIONAL

record bar =
  b_date :: date
  b_open :: money
  b_close :: money
  b_volume :: money
  b_status :: bar_status
  b_source :: string
  b_source_stamp :: "iso_text option"
  b_adjustment :: string
  b_basis :: "date option"

datatype unavailable_reason =
    NO_BAR
  | PROVISIONAL_ONLY
  | REJECTED_NO_DATE
  | REJECTED_WRONG_SESSION day_text
  | REJECTED_PRICE
  | REJECTED_BAD_VOLUME
  | REJECTED_BAD_DATE
  | FUTURE_SESSION
  | PROVIDER_FAULT adapter_error
  | REJECTED_INCOMPATIBLE_ADJUSTMENT_BASIS

type_synonym resolved = "unavailable_reason + bar"

definition validate_bar :: "raw_bar \<Rightarrow> day_text \<Rightarrow> date \<Rightarrow> string \<Rightarrow> resolved" where
  "validate_bar raw want today source =
     (if rw_day raw = NO_DAY then Inl REJECTED_NO_DATE
      else if rw_day raw \<noteq> want then Inl (REJECTED_WRONG_SESSION (rw_day raw))
      else case (finite_pos (rw_open raw), finite_pos (rw_close raw)) of
        (Some op, Some cl) \<Rightarrow> (case finite_nonneg (rw_volume raw) of
            None \<Rightarrow> Inl REJECTED_BAD_VOLUME
          | Some v \<Rightarrow> (case rw_day raw of
              DAY d \<Rightarrow>
                if today < d then Inl FUTURE_SESSION
                else Inr \<lparr> b_date = d, b_open = op, b_close = cl, b_volume = v,
                       b_status = (if d = today then PROVISIONAL else FINAL),
                       b_source = (case rw_adapter raw of Some a \<Rightarrow> if a = [] then source else a | None \<Rightarrow> source),
                       b_source_stamp = rw_stamp raw,
                       b_adjustment = (case rw_state raw of Some s \<Rightarrow> if s = [] then ''UNKNOWN'' else s | None \<Rightarrow> ''UNKNOWN''),
                       b_basis = rw_basis raw \<rparr>
            | _ \<Rightarrow> Inl REJECTED_BAD_DATE))
      | _ \<Rightarrow> Inl REJECTED_PRICE)"

record witness_row =
  wr_open :: "pyfloat option"
  wr_close :: "pyfloat option"

record disagreement =
  dg_symbol :: symbol
  dg_session :: date
  dg_field :: string
  dg_primary :: money
  dg_witness :: pyfloat

record 's resolver =
  rv_adapter :: "'s adapter"
  rv_today :: date
  rv_now :: "stamp option"
  rv_finality :: "(date \<Rightarrow> stamp result) option"
  rv_witness :: "(symbol \<Rightarrow> date \<Rightarrow> witness_row option) option"
  rv_tolerance :: money

text \<open>\<open>last\<close> is keyed by the symbol and the session, or \<open>history\<close>.\<close>

record 's resolver_state =
  rs_adapter :: 's
  rs_last :: "symbol \<times> date option \<rightharpoonup> resolved"
  rs_disagreements :: "disagreement list"

text \<open>A clock, or the start of the pinned day.\<close>

definition now_utc :: "'s resolver \<Rightarrow> stamp" where
  "now_utc rv = (case rv_now rv of Some t \<Rightarrow> t | None \<Rightarrow> (rv_today rv - 719163) * 86400000000)"

definition with_finality :: "'s resolver \<Rightarrow> bar \<Rightarrow> bar result" where
  "with_finality rv b = (case rv_finality rv of None \<Rightarrow> Inr b | Some usable \<Rightarrow>
     bindR (is_usable usable (b_date b) (now_utc rv))
       (\<lambda>ok. Inr (b\<lparr> b_status := (if ok then FINAL else PROVISIONAL) \<rparr>)))"

text \<open>\<open>abs(t / mine - 1.0) > tolerance\<close> for a positive \<open>t\<close>; an infinite one always disagrees.\<close>

fun disagrees :: "money \<Rightarrow> money \<Rightarrow> pyfloat option \<Rightarrow> bool" where
  "disagrees tol mine (Some (Finite t)) \<longleftrightarrow> 0 < t \<and> tol < \<bar>fl (fl (t / mine) - 1)\<bar>"
| "disagrees tol mine (Some PosInf) \<longleftrightarrow> True"
| "disagrees tol mine _ \<longleftrightarrow> False"

definition check_witness :: "'s resolver \<Rightarrow> symbol \<Rightarrow> date \<Rightarrow> bar \<Rightarrow> disagreement list" where
  "check_witness rv symbol d b = (case Option.bind (rv_witness rv) (\<lambda>w. w symbol d) of
     None \<Rightarrow> []
   | Some w \<Rightarrow> map (\<lambda>(n, mine, theirs). \<lparr> dg_symbol = symbol, dg_session = d, dg_field = n, dg_primary = mine,
                                           dg_witness = the theirs \<rparr>)
       (filter (\<lambda>(n, mine, theirs). disagrees (rv_tolerance rv) mine theirs)
          [(''open'', b_open b, wr_open w), (''close'', b_close b, wr_close w)]))"

definition note_last :: "symbol \<Rightarrow> date option \<Rightarrow> resolved \<Rightarrow> 's resolver_state \<Rightarrow> 's resolver_state" where
  "note_last symbol d r st = st\<lparr> rs_last := (rs_last st)((symbol, d) \<mapsto> r) \<rparr>"

definition fault_reason :: "adapter_error \<Rightarrow> unavailable_reason" where
  "fault_reason e = PROVIDER_FAULT (if e = INCOMPATIBLE_BASIS \<or> e = OTHER_FAULT then PROVIDER_ERROR else e)"

definition checked_bar :: "'s resolver \<Rightarrow> raw_bar \<Rightarrow> day_text \<Rightarrow> resolved result" where
  "checked_bar rv raw want =
     (case validate_bar raw want (rv_today rv) (ad_name (rv_adapter rv)) of
        Inl why \<Rightarrow> Inr (Inl why)
      | Inr b \<Rightarrow> bindR (with_finality rv b) (\<lambda>b'. Inr (Inr b')))"

definition daily_row :: "bar \<Rightarrow> daily_bar" where
  "daily_row b = \<lparr> bar_date = b_date b, bar_close = b_close b, bar_volume = b_volume b \<rparr>"

definition bars_lookup ::
    "'s resolver \<Rightarrow> symbol \<Rightarrow> 's resolver_state \<Rightarrow> daily_bar list result \<times> 's resolver_state" where
  "bars_lookup rv symbol st =
     (case ad_history (rv_adapter rv) symbol (rs_adapter st) of
        (Inl e, s') \<Rightarrow>
          (Inr [], note_last symbol None
             (Inl (if e = INCOMPATIBLE_BASIS then REJECTED_INCOMPATIBLE_ADJUSTMENT_BASIS else fault_reason e))
             (st\<lparr> rs_adapter := s' \<rparr>))
      | (Inr hist, s') \<Rightarrow>
          (bindR (mapR (\<lambda>r. checked_bar rv r (rw_day r)) hist)
             (\<lambda>rs. Inr (map daily_row (filter (\<lambda>b. b_status b = FINAL) (rights rs)))), st\<lparr> rs_adapter := s' \<rparr>))"

definition resolve ::
    "'s resolver \<Rightarrow> symbol \<Rightarrow> date \<Rightarrow> 's resolver_state \<Rightarrow> resolved result \<times> 's resolver_state" where
  "resolve rv symbol d st =
     (if rv_today rv < d then (Inr (Inl FUTURE_SESSION), note_last symbol (Some d) (Inl FUTURE_SESSION) st)
      else case ad_session (rv_adapter rv) symbol d (rs_adapter st) of
        (Inl e, s') \<Rightarrow> (Inr (Inl (fault_reason e)), note_last symbol (Some d) (Inl (fault_reason e)) (st\<lparr> rs_adapter := s' \<rparr>))
      | (Inr None, s') \<Rightarrow> (Inr (Inl NO_BAR), note_last symbol (Some d) (Inl NO_BAR) (st\<lparr> rs_adapter := s' \<rparr>))
      | (Inr (Some raw), s') \<Rightarrow>
          (case checked_bar rv raw (DAY d) of
             Inl err \<Rightarrow> (Inl err, st\<lparr> rs_adapter := s' \<rparr>)
           | Inr (Inl why) \<Rightarrow> (Inr (Inl why), note_last symbol (Some d) (Inl why) (st\<lparr> rs_adapter := s' \<rparr>))
           | Inr (Inr b) \<Rightarrow>
               if b_status b = PROVISIONAL
               then (Inr (Inl PROVISIONAL_ONLY), note_last symbol (Some d) (Inl PROVISIONAL_ONLY) (st\<lparr> rs_adapter := s' \<rparr>))
               else (Inr (Inr b), note_last symbol (Some d) (Inr b)
                       (st\<lparr> rs_adapter := s', rs_disagreements := rs_disagreements st @ check_witness rv symbol d b \<rparr>))))"

definition price_lookup ::
    "'s resolver \<Rightarrow> symbol \<Rightarrow> date \<Rightarrow> 's resolver_state \<Rightarrow> price_row option result \<times> 's resolver_state" where
  "price_lookup rv symbol d st =
     (case resolve rv symbol d st of
        (Inl err, st') \<Rightarrow> (Inl err, st')
      | (Inr (Inl why), st') \<Rightarrow> (Inr None, st')
      | (Inr (Inr b), st') \<Rightarrow>
          (Inr (Some \<lparr> px_open = Some (Finite (b_open b)), px_close = Some (b_close b),
                 px_provenance = Some \<lparr> pp_field = [], basis_as_of = b_basis b, adjustment_state = Some (b_adjustment b) \<rparr> \<rparr>), st'))"

text \<open>\<open>make_resolver(mode="sip")\<close>: one provider for the whole window, the calendar finality, no fallback.\<close>

definition release_resolver ::
    "date list \<Rightarrow> (date \<Rightarrow> stamp) \<Rightarrow> (stamp \<Rightarrow> date \<times> int) \<Rightarrow> sip_get \<Rightarrow> date \<Rightarrow> stamp
       \<Rightarrow> (symbol \<Rightarrow> date \<Rightarrow> witness_row option) option \<Rightarrow> sip_state resolver" where
  "release_resolver sess sclose et get today now witness =
     \<lparr> rv_adapter = sip_adapter et RELEASE_CONTRACT 60 get now, rv_today = today, rv_now = Some now,
       rv_finality = Some (usable_at sess sclose), rv_witness = witness, rv_tolerance = fl (5 / 1000) \<rparr>"

section \<open>Readiness\<close>

definition REQUIRED_ENV :: "string list" where
  "REQUIRED_ENV = [''APCA_API_KEY_ID'', ''APCA_API_SECRET_KEY'']"

text \<open>The variables that are unset or blank: \<open>not str(env.get(k, "")).strip()\<close>.\<close>

definition missing_env :: "(string \<rightharpoonup> string) \<Rightarrow> string list" where
  "missing_env env = filter (\<lambda>k. case env k of None \<Rightarrow> True | Some s \<Rightarrow> list_all is_space s) REQUIRED_ENV"

datatype readiness_level = NOT_CONFIGURED | CONFIGURED | REACHABLE | ENTITLED | QUALIFIED

text \<open>The bar of a probe; \<open>None\<close> for a missing key.\<close>

record probe_bar =
  pb_o :: "pyfloat option"
  pb_c :: "pyfloat option"
  pb_v :: "pyfloat option"

fun py_float :: "pyfloat \<Rightarrow> pyfloat" where
  "py_float (Finite x) = Finite (fl x)"
| "py_float v = v"

fun above_zero :: "bool \<Rightarrow> pyfloat \<Rightarrow> bool" where
  "above_zero strict (Finite x) \<longleftrightarrow> (if strict then 0 < fl x else 0 \<le> fl x)"
| "above_zero strict v \<longleftrightarrow> v = PosInf"

text \<open>\<open>all(float(bar[k]) > 0 for k in ("o", "c")) and float(bar["v"]) >= 0\<close>: a missing key raises.\<close>

fun recent_bar_ok :: "probe_bar list \<Rightarrow> bool result" where
  "recent_bar_ok [] = Inr False"
| "recent_bar_ok (x # xs) =
     (let b = last (x # xs)
      in case pb_o b of None \<Rightarrow> Inl KeyError | Some op \<Rightarrow>
         if \<not> above_zero True op then Inr False
         else case pb_c b of None \<Rightarrow> Inl KeyError | Some cl \<Rightarrow>
         if \<not> above_zero True cl then Inr False
         else case pb_v b of None \<Rightarrow> Inl KeyError | Some v \<Rightarrow> Inr (above_zero False v))"

definition rel_diff :: "money \<Rightarrow> money \<Rightarrow> money option" where
  "rel_diff a b = (if b = 0 then None else Some \<bar>fl (fl (a / b) - 1)\<bar>)"

definition between :: "money \<Rightarrow> money \<Rightarrow> money \<Rightarrow> bool" where
  "between lo hi x \<longleftrightarrow> lo < x \<and> x < hi"

text \<open>
  The 10:1 split probe, raw against split-adjusted: the open and volume ratios are about ten and close
  times volume is unchanged.  A zero denominator raises; a number that is not finite fails the test.
\<close>

definition split_enforced :: "pyfloat \<times> pyfloat \<times> pyfloat \<Rightarrow> pyfloat \<times> pyfloat \<times> pyfloat \<Rightarrow> bool result" where
  "split_enforced raw adj =
     (case (raw, adj) of ((ro, rc, rv), (so, sc, sv)) \<Rightarrow>
        if so = Finite 0 \<or> rv = Finite 0 then Inl ZeroDivisionError
        else case (ro, rc, rv, so, sc, sv) of
          (Finite ro, Finite rc, Finite rv, Finite so, Finite sc, Finite sv) \<Rightarrow>
             Inr (between (19 / 2) (21 / 2) (fl (ro / so)) \<and> between (19 / 2) (21 / 2) (fl (sv / rv))
                  \<and> (case rel_diff (fl (sc * sv)) (fl (rc * rv)) of None \<Rightarrow> False | Some x \<Rightarrow> x < fl (1 / 100)))
        | _ \<Rightarrow> Inr False)"

datatype probe = RECENT_PROBE | SPLIT_PROBE string

text \<open>The body of a probe: \<open>None\<close> where the map of bars is \<open>null\<close>, and the bars of the symbol, \<open>None\<close> when it is absent.\<close>

type_synonym probe_body = "probe_bar list option option"

definition probe_numbers :: "probe_bar \<Rightarrow> (pyfloat \<times> pyfloat \<times> pyfloat) result" where
  "probe_numbers b = (case (pb_o b, pb_c b, pb_v b) of
     (Some x, Some y, Some z) \<Rightarrow> Inr (py_float x, py_float y, py_float z) | _ \<Rightarrow> Inl KeyError)"

text \<open>\<open>nv(adj)\<close>: the first bar; \<open>Inl (Inl e)\<close> is a provider error, \<open>Inl (Inr e)\<close> one of Python's.\<close>

definition nv :: "(probe \<Rightarrow> adapter_error + probe_body) \<Rightarrow> string
    \<Rightarrow> (adapter_error + py_error) + (pyfloat \<times> pyfloat \<times> pyfloat)" where
  "nv get adj = (case get (SPLIT_PROBE adj) of
     Inl e \<Rightarrow> Inl (Inl e)
   | Inr None \<Rightarrow> Inl (Inr TypeError)
   | Inr (Some None) \<Rightarrow> Inl (Inr KeyError)
   | Inr (Some (Some [])) \<Rightarrow> Inl (Inr IndexError)
   | Inr (Some (Some (b # bs))) \<Rightarrow> (case probe_numbers b of Inl e \<Rightarrow> Inl (Inr e) | Inr t \<Rightarrow> Inr t))"

text \<open>The errors the second part of the check turns into a problem: \<open>TypeError\<close> is not among them.\<close>

definition handled :: "py_error \<Rightarrow> bool" where
  "handled e \<longleftrightarrow> e \<in> {KeyError, IndexError, ValueError, ZeroDivisionError}"

definition qualify :: "(probe \<Rightarrow> adapter_error + probe_body) \<Rightarrow> string \<Rightarrow> readiness_level result" where
  "qualify get adjustment =
     (case nv get ''raw'' of
        Inl (Inl e) \<Rightarrow> Inr ENTITLED
      | Inl (Inr e) \<Rightarrow> if handled e then Inr ENTITLED else Inl e
      | Inr raw \<Rightarrow> (case nv get adjustment of
          Inl (Inl e) \<Rightarrow> Inr ENTITLED
        | Inl (Inr e) \<Rightarrow> if handled e then Inr ENTITLED else Inl e
        | Inr adj \<Rightarrow> (case split_enforced raw adj of
            Inl e \<Rightarrow> if handled e then Inr ENTITLED else Inl e
          | Inr ok \<Rightarrow> Inr (if ok then QUALIFIED else ENTITLED))))"

definition check_readiness ::
    "provider_contract \<Rightarrow> (string \<rightharpoonup> string) \<Rightarrow> (probe \<Rightarrow> adapter_error + probe_body) \<Rightarrow> readiness_level result" where
  "check_readiness c env get =
     (if missing_env env \<noteq> [] then Inr NOT_CONFIGURED
      else case get RECENT_PROBE of
        Inl PROVIDER_ENTITLEMENT \<Rightarrow> Inr REACHABLE
      | Inl e \<Rightarrow> Inr CONFIGURED
      | Inr body \<Rightarrow> bindR (recent_bar_ok (case body of Some (Some bars) \<Rightarrow> bars | _ \<Rightarrow> []))
          (\<lambda>ok. if ok then qualify get (c_adjustment c) else Inr REACHABLE))"

section \<open>Rows and bars\<close>

lemma finite_posD: "finite_pos x = Some f \<Longrightarrow> is_float f \<and> 0 < f \<and> py_number x = Some f"
  by (auto simp: finite_pos_def py_number_def split: option.splits if_splits)

lemma finite_nonnegD: "finite_nonneg x = Some f \<Longrightarrow> is_float f \<and> 0 \<le> f \<and> py_number x = Some f"
  by (auto simp: finite_nonneg_def py_number_def split: option.splits if_splits)

lemma set_rights: "y \<in> set (rights xs) \<longleftrightarrow> Inr y \<in> set xs"
  by (force simp: rights_def split: sum.splits)

lemma rights_append [simp]: "rights (xs @ ys) = rights xs @ rights ys"
  by (simp add: rights_def)

lemma rights_simps [simp]: "rights [] = []" "rights (Inl x # xs) = rights xs" "rights (Inr y # xs) = y # rights xs"
  by (simp_all add: rights_def)

lemma validate_barD:
  assumes "validate_bar raw want today source = Inr b"
  shows "want = DAY (b_date b)" "rw_day raw = DAY (b_date b)" "b_date b \<le> today"
    "finite_pos (rw_open raw) = Some (b_open b)" "finite_pos (rw_close raw) = Some (b_close b)"
    "finite_nonneg (rw_volume raw) = Some (b_volume b)" "b_basis b = rw_basis raw"
    "b_status b = FINAL \<longleftrightarrow> b_date b < today"
  using assms by (auto simp: validate_bar_def split: if_splits option.splits day_text.splits)

lemma checked_barD:
  assumes "checked_bar rv raw want = Inr (Inr b)"
  shows "want = DAY (b_date b)" "rw_day raw = DAY (b_date b)" "b_date b \<le> rv_today rv"
    "finite_pos (rw_open raw) = Some (b_open b)" "finite_pos (rw_close raw) = Some (b_close b)"
    "finite_nonneg (rw_volume raw) = Some (b_volume b)" "b_basis b = rw_basis raw"
proof -
  obtain b0 where b0: "validate_bar raw want (rv_today rv) (ad_name (rv_adapter rv)) = Inr b0"
      "with_finality rv b0 = Inr b"
    using assms by (auto simp: checked_bar_def bindR_Inr_iff split: sum.splits)
  have same: "b_date b = b_date b0" "b_open b = b_open b0" "b_close b = b_close b0" "b_volume b = b_volume b0"
      "b_basis b = b_basis b0"
    using b0(2) by (auto simp: with_finality_def bindR_Inr_iff split: option.splits)
  note v = validate_barD [OF b0(1), folded same]
  show "want = DAY (b_date b)" "rw_day raw = DAY (b_date b)" "b_date b \<le> rv_today rv"
    "finite_pos (rw_open raw) = Some (b_open b)" "finite_pos (rw_close raw) = Some (b_close b)"
    "finite_nonneg (rw_volume raw) = Some (b_volume b)" "b_basis b = rw_basis raw"
    by (rule v)+
qed

text \<open>With a finality policy, a FINAL bar is one whose session is usable at the resolver's clock.\<close>

lemma checked_bar_final:
  assumes "checked_bar rv raw want = Inr (Inr b)" "b_status b = FINAL" "rv_finality rv = Some usable"
  shows "is_usable usable (b_date b) (now_utc rv) = Inr True"
  using assms by (auto simp: checked_bar_def with_finality_def bindR_Inr_iff split: sum.splits if_splits)

lemma resolve_bar:
  assumes "fst (resolve rv sy d st) = Inr (Inr b)"
  obtains raw where "fst (ad_session (rv_adapter rv) sy d (rs_adapter st)) = Inr (Some raw)"
    "checked_bar rv raw (DAY d) = Inr (Inr b)" "b_status b = FINAL" "d \<le> rv_today rv"
proof -
  obtain s' a where s: "ad_session (rv_adapter rv) sy d (rs_adapter st) = (a, s')" by force
  have d: "d \<le> rv_today rv" using assms by (auto simp: resolve_def split: if_splits)
  with assms s obtain raw where raw: "a = Inr (Some raw)"
    by (cases a) (auto simp: resolve_def split: option.splits)
  with assms s d have c: "checked_bar rv raw (DAY d) = Inr (Inr b)" "b_status b \<noteq> PROVISIONAL"
    by (auto simp: resolve_def split: sum.splits if_splits)
  then have "b_status b = FINAL" by (cases "b_status b") auto
  with that raw s c d show thesis by simp
qed

text \<open>The two lookups the lane is given; a lookup that raises delivers nothing.\<close>

definition priced :: "'s resolver \<Rightarrow> 's resolver_state \<Rightarrow> symbol \<Rightarrow> date \<Rightarrow> price_row option" where
  "priced rv st sy d = (case fst (price_lookup rv sy d st) of Inr p \<Rightarrow> p | Inl e \<Rightarrow> None)"

definition window_bars :: "'s resolver \<Rightarrow> 's resolver_state \<Rightarrow> symbol \<Rightarrow> daily_bar list" where
  "window_bars rv st sy = (case fst (bars_lookup rv sy st) of Inr bs \<Rightarrow> bs | Inl e \<Rightarrow> [])"

lemma priced_Some:
  assumes "priced rv st sy d = Some px"
  obtains b where "fst (resolve rv sy d st) = Inr (Inr b)" "px_open px = Some (Finite (b_open b))"
    "px_close px = Some (b_close b)"
    "px_provenance px = Some \<lparr> pp_field = [], basis_as_of = b_basis b, adjustment_state = Some (b_adjustment b) \<rparr>"
  using assms
  by (cases "resolve rv sy d st") (auto simp: priced_def price_lookup_def split: sum.splits)

lemma window_bars_row:
  assumes "x \<in> set (window_bars rv st sy)"
  obtains hist raw b where "fst (ad_history (rv_adapter rv) sy (rs_adapter st)) = Inr hist" "raw \<in> set hist"
    "checked_bar rv raw (rw_day raw) = Inr (Inr b)" "b_status b = FINAL" "x = daily_row b"
proof -
  obtain a s' where a: "ad_history (rv_adapter rv) sy (rs_adapter st) = (a, s')" by force
  then obtain hist where hist: "a = Inr hist"
    using assms by (cases a) (auto simp: window_bars_def bars_lookup_def)
  obtain rs where rs: "mapR (\<lambda>r. checked_bar rv r (rw_day r)) hist = Inr rs"
      "x \<in> set (map daily_row (filter (\<lambda>b. b_status b = FINAL) (rights rs)))"
    using assms a hist by (auto simp: window_bars_def bars_lookup_def bindR_def split: sum.splits)
  then obtain b where b: "Inr b \<in> set rs" "b_status b = FINAL" "x = daily_row b" by (auto simp: set_rights)
  from mapR_Inr_mem [OF rs(1) b(1)] that a hist b show thesis by auto
qed

section \<open>What the lane relies on\<close>

text \<open>
  The contract of a price source: what it delivers is of sessions that are \<open>final\<close>, and its numbers are
  positive binary64 numbers.
\<close>

locale final_prices =
  fixes final :: "date \<Rightarrow> bool"
    and bars :: "symbol \<Rightarrow> daily_bar list"
    and price :: "symbol \<Rightarrow> date \<Rightarrow> price_row option"
  assumes bar_final: "x \<in> set (bars sy) \<Longrightarrow> final (bar_date x)"
    and bar_positive: "x \<in> set (bars sy) \<Longrightarrow> 0 < bar_close x \<and> 0 \<le> bar_volume x"
    and price_final: "price sy d = Some px \<Longrightarrow> final d"
    and close_positive: "price sy d = Some px \<Longrightarrow> px_close px = Some c \<Longrightarrow> is_float c \<and> 0 < c"
begin

lemma prices_fit: "prices_ok price"
  using close_positive by (fastforce simp: prices_ok_def)

lemma gate_window_final: "\<forall>x \<in> set (lookback_window n (prior_bars (bars sy) es)). final (bar_date x) \<and> 0 < bar_close x"
proof -
  have "set (lookback_window n (prior_bars (bars sy) es)) \<subseteq> set (bars sy)"
    using set_py_last [of n "prior_bars (bars sy) es"] by (auto simp: lookback_window_def prior_bars_def)
  then show ?thesis using bar_final bar_positive by blast
qed

lemma open_final: "usable_open (price sy d) = Some p \<Longrightarrow> final d"
  by (cases "price sy d") (auto simp: usable_open_def intro: price_final)

lemma close_final: "usable_close (price sy d) = Some c \<Longrightarrow> final d \<and> is_float c \<and> 0 < c"
  using price_final close_positive by (auto dest!: usable_closeD)

lemma entry_final:
  assumes "process_episode sess cfg bars price strict now ep res l = (res', Inr l')"
    and "x \<in> set (pr_entries res')" "x \<notin> set (pr_entries res)"
  shows "final (er_session x)"
  using assms open_final
  by (auto simp: process_episode_def Let_def skip_result_def split: if_splits sum.splits option.splits)

lemma exit_final:
  assumes "settle_due_exits sha sess cfg price guard now as_of res l = (err, res', l')"
    and "x \<in> set (pr_exits res')" "x \<notin> set (pr_exits res)"
  shows "final (xr_session x) \<and> is_float (xr_price x) \<and> 0 < xr_price x"
proof -
  obtain p :: position and px where "exit_price sess cfg (price (p_symbol p)) (target_exit_session p) as_of
      = Inr (Some (px, xr_price x, xr_session x))"
    using settle_due_list_exits [OF assms(1) [unfolded settle_due_exits_def] assms(2,3)] by blast
  from exit_price_Some [OF this] show ?thesis using close_final by metis
qed

end

text \<open>
  The release resolver keeps the contract whatever its cache holds and whatever the provider answers:
  \<open>session_final\<close> is the finality rule, read at the resolver's clock.
\<close>

definition session_final :: "date list \<Rightarrow> (date \<Rightarrow> stamp) \<Rightarrow> stamp \<Rightarrow> date \<Rightarrow> bool" where
  "session_final sess sclose now d \<longleftrightarrow>
     is_session sess d \<and> sclose d + minutes (4 * 60 + SIP_QUERY_LAG_MINUTES + SETTLE_MARGIN_MINUTES) \<le> now"

lemma is_usable_final: "is_usable (usable_at sess sclose) d now = Inr True \<longleftrightarrow> session_final sess sclose now d"
  by (auto simp: is_usable_def usable_at_def session_final_def session_extended_end_utc_def minutes_def
      SIP_QUERY_LAG_MINUTES_def SETTLE_MARGIN_MINUTES_def)

lemma release_bar_final:
  assumes "checked_bar (release_resolver sess sclose et get today now w) raw want = Inr (Inr b)" "b_status b = FINAL"
  shows "session_final sess sclose now (b_date b)"
  using checked_bar_final [OF assms, of "usable_at sess sclose"]
  by (simp add: release_resolver_def now_utc_def is_usable_final)

interpretation release: final_prices "session_final sess sclose now"
  "window_bars (release_resolver sess sclose et get today now w) st" "priced (release_resolver sess sclose et get today now w) st"
  for sess sclose et get today now w st
proof
  let ?rv = "release_resolver sess sclose et get today now w"
  fix sy d px c and x :: daily_bar
  show "session_final sess sclose now (bar_date x)" "0 < bar_close x \<and> 0 \<le> bar_volume x"
    if "x \<in> set (window_bars ?rv st sy)"
  proof -
    from that obtain raw b where b: "checked_bar ?rv raw (rw_day raw) = Inr (Inr b)" "b_status b = FINAL" "x = daily_row b"
      by (rule window_bars_row)
    show "session_final sess sclose now (bar_date x)" using release_bar_final [OF b(1,2)] b(3) by (simp add: daily_row_def)
    show "0 < bar_close x \<and> 0 \<le> bar_volume x"
      using checked_barD(5,6) [OF b(1)] b(3) by (auto simp: daily_row_def dest: finite_posD finite_nonnegD)
  qed
  assume "priced ?rv st sy d = Some px"
  then obtain b where b: "fst (resolve ?rv sy d st) = Inr (Inr b)" "px_close px = Some (b_close b)" by (rule priced_Some)
  from b(1) obtain raw where c: "checked_bar ?rv raw (DAY d) = Inr (Inr b)" "b_status b = FINAL" by (rule resolve_bar)
  show "session_final sess sclose now d" using release_bar_final [OF c] checked_barD(1) [OF c(1)] by simp
  show "is_float c \<and> 0 < c" if "px_close px = Some c"
    using that b(2) checked_barD(5) [OF c(1)] by (auto dest: finite_posD)
qed

section \<open>The rows of the release adapter\<close>

lemma sip_row_dated: "sip_row et basis x = Inr r \<Longrightarrow> rw_day r = DAY (row_date r)"
  by (auto simp: sip_row_def split: option.splits if_splits)

lemma accepted_dated: "r \<in> set (rights (map (sip_row et basis) raw)) \<Longrightarrow> rw_day r = DAY (row_date r)"
  by (auto simp: set_rights sip_row_dated simp del: row_date.simps)

lemma sip_dayD:
  assumes "sip_day rows d = Inr r" "d \<in> row_date ` set rows"
  shows "r \<in> set rows \<and> row_date r = d"
proof -
  have "filter (\<lambda>r. row_date r = d) rows \<noteq> []" using assms(2) by (auto simp: filter_empty_conv simp del: row_date.simps)
  then have "hd (filter (\<lambda>r. row_date r = d) rows) \<in> set (filter (\<lambda>r. row_date r = d) rows)" by (rule hd_in_set)
  then show ?thesis using assms(1) by (auto simp: sip_day_def Let_def simp del: row_date.simps split: if_splits)
qed

lemma find_rights:
  assumes "distinct ds" "\<And>d r. d \<in> set ds \<Longrightarrow> f d = Inr r \<Longrightarrow> key r = d"
  shows "find (\<lambda>r. key r = d) (rights (map f ds)) = (if d \<in> set ds then (case f d of Inl _ \<Rightarrow> None | Inr r \<Rightarrow> Some r) else None)"
  using assms
proof (induction ds)
  case (Cons e ds)
  then show ?case by (cases "f e") auto
qed simp

lemma sorted_rights:
  assumes "sorted ds" "distinct ds" "\<And>d r. d \<in> set ds \<Longrightarrow> f d = Inr r \<Longrightarrow> key r = d"
  shows "sorted_wrt (<) (map key (rights (map f ds)))"
  using assms
proof (induction ds)
  case (Cons e ds)
  have "key r \<in> set ds" if "r \<in> set (rights (map f ds))" for r
  proof -
    from that obtain x where "x \<in> set ds" "f x = Inr r" by (auto simp: set_rights)
    with Cons.prems(3) show ?thesis by auto
  qed
  then have "\<forall>r \<in> set (rights (map f ds)). e < key r" using Cons.prems(1,2) by (metis distinct.simps(2) le_neq_trans sorted_simps(2))
  then show ?case using Cons by (cases "f e") auto
qed simp

text \<open>The accepted rows of a response, and those of one session among them.\<close>

definition accepted :: "(stamp \<Rightarrow> date \<times> int) \<Rightarrow> stamp \<Rightarrow> sip_bar option list \<Rightarrow> date \<Rightarrow> raw_bar list" where
  "accepted et receipt raw d = filter (\<lambda>r. row_date r = d) (rights (map (sip_row et (utc_day receipt)) raw))"

text \<open>
  C8. The release adapter reports a session exactly when its accepted rows agree: the response has at least
  one well-formed row stamped New-York midnight of that date and all of them have the same open, close and
  volume; it reports the first of them, one row per session, in strictly increasing date order.
\<close>

theorem reported_sessions_are_unambiguous:
  "(find (\<lambda>r. rw_day r = DAY d) (fst (sip_rows et receipt raw)) = Some r
     \<longleftrightarrow> (\<exists>rest. accepted et receipt raw d = r # rest \<and> list_all (\<lambda>x. row_values x = row_values r) rest))
   \<and> sorted_wrt (<) (map row_date (fst (sip_rows et receipt raw)))"
proof (rule conjI)
  let ?rows = "rights (map (sip_row et (utc_day receipt)) raw)"
  let ?ds = "sort (uniq (map row_date ?rows))"
  have key: "row_date r = e" if "e \<in> set ?ds" "sip_day ?rows e = Inr r" for e r
    using sip_dayD [OF that(2)] that(1) by (simp del: row_date.simps)
  have out: "fst (sip_rows et receipt raw) = rights (map (sip_day ?rows) ?ds)"
    by (simp add: sip_rows_def Let_def del: row_date.simps)
  have "rw_day x = DAY (row_date x)" if "x \<in> set (fst (sip_rows et receipt raw))" for x
  proof -
    from that obtain e where "sip_day ?rows e = Inr x" "e \<in> row_date ` set ?rows"
      unfolding out by (auto simp: set_rights simp del: row_date.simps)
    from sip_dayD [OF this] show ?thesis using accepted_dated by blast
  qed
  then have "find (\<lambda>r. rw_day r = DAY d) (fst (sip_rows et receipt raw)) = find (\<lambda>r. row_date r = d) (fst (sip_rows et receipt raw))"
    by (intro find_cong) (auto simp del: row_date.simps)
  also have "\<dots> = (if d \<in> set ?ds then (case sip_day ?rows d of Inl _ \<Rightarrow> None | Inr r \<Rightarrow> Some r) else None)"
    unfolding out by (rule find_rights) (simp_all add: key del: row_date.simps set_sort)
  also have "\<dots> = Some r \<longleftrightarrow> (\<exists>rest. accepted et receipt raw d = r # rest \<and> list_all (\<lambda>x. row_values x = row_values r) rest)"
  proof (cases "accepted et receipt raw d")
    case Nil
    then have "d \<notin> row_date ` set ?rows" by (auto simp: accepted_def filter_empty_conv simp del: row_date.simps)
    with Nil show ?thesis by (simp del: row_date.simps)
  next
    case (Cons x xs)
    then have "x \<in> set ?rows" "row_date x = d"
      by (auto simp: accepted_def simp del: row_date.simps dest: filter_eq_ConsD)
    then have "d \<in> row_date ` set ?rows" by blast
    with Cons show ?thesis
      by (auto simp: sip_day_def Let_def accepted_def list_all_iff simp del: row_date.simps)
  qed
  finally show "find (\<lambda>r. rw_day r = DAY d) (fst (sip_rows et receipt raw)) = Some r
     \<longleftrightarrow> (\<exists>rest. accepted et receipt raw d = r # rest \<and> list_all (\<lambda>x. row_values x = row_values r) rest)" .
  show "sorted_wrt (<) (map row_date (fst (sip_rows et receipt raw)))"
    unfolding out by (rule sorted_rights) (simp_all add: key del: row_date.simps set_sort)
qed

section \<open>The cache and the pages\<close>

lemma sip_fetch_fresh:
  assumes "sip_fetch et c k get now sy st = (Inr rows, st')"
  shows "\<exists>t. sip_cache st' (upper sy) = Some (t, rows) \<and> (t = now \<or> now - t < c_cache_ttl_s c * 1000000 \<and> st' = st)"
  using assms by (auto simp: sip_fetch_def Let_def split: option.splits if_splits sum.splits prod.splits)

lemma sip_fetch_failed: "sip_fetch et c k get now sy st = (Inl e, st') \<Longrightarrow> st' = st"
  by (auto simp: sip_fetch_def Let_def split: option.splits if_splits sum.splits prod.splits)

lemma sip_fetch_cached:
  assumes "sip_cache st (upper sy) = Some (t, rows)" "now - t < c_cache_ttl_s c * 1000000"
  shows "sip_fetch et c k get now sy st = (Inr rows, st)"
  using assms by (simp add: sip_fetch_def Let_def)

text \<open>
  One basis per tick: once the history of a symbol was fetched, every later fetch of it until the cache
  expires returns the same rows and leaves the adapter as it is, whatever the provider answers by then.
\<close>

theorem fetches_agree_within_the_cache_lifetime:
  assumes "sip_fetch et RELEASE_CONTRACT k get now sy st = (Inr rows, st')" "sip_cache st (upper sy) = None"
    and "upper sy' = upper sy" "later - now < 300 * 1000000"
  shows "sip_fetch et' RELEASE_CONTRACT k' get' later sy' st' = (Inr rows, st')"
proof -
  obtain t where t: "sip_cache st' (upper sy) = Some (t, rows)" "t = now \<or> st' = st"
    using sip_fetch_fresh [OF assms(1)] by blast
  with assms(2) have "t = now" by auto
  then show ?thesis using sip_fetch_cached [of st' sy' t rows later RELEASE_CONTRACT] t(1) assms(3,4)
    by (simp add: RELEASE_CONTRACT_def)
qed

section \<open>The composite never mixes bases across a split\<close>

lemma require_compatibleD:
  assumes "require_compatible ev today sy hist live = None"
  shows "row_states hist = row_states live
     \<and> (common_basis hist \<noteq> None \<and> common_basis hist = common_basis live
        \<or> (case splice_bounds today hist live of (lo, hi) \<Rightarrow> hi \<le> lo
            \<or> (\<exists>fetch. ev = Some fetch \<and> ca_ok (fetch sy (lo + 1) hi) \<and> ca_conflicts (fetch sy (lo + 1) hi) = []
                 \<and> filter (crosses lo hi) (ca_events (fetch sy (lo + 1) hi)) = [])))"
  using assms by (auto simp: require_compatible_def Let_def filter_empty_conv split: if_splits option.splits prod.splits)

text \<open>
  A composite history is spliced only on proof: when both sources contribute rows, their adjustment states
  are equal and either their bases are the same day or complete, unconflicted corporate-action evidence shows
  no split or unsupported action between the two bases; no row of the second source replaces one of the first.
\<close>

theorem composite_never_splices_across_a_split:
  assumes "composite_history ev today hist live sy st = (Inr rows, st')"
    and "fst (ad_history hist sy (fst st)) = Inr h0" "fst (ad_history live sy (snd st)) = Inr l0"
  defines "h \<equiv> map (tag (ad_name hist)) h0"
  defines "l \<equiv> map (tag (ad_name live)) (filter (\<lambda>r. rw_day r \<notin> rw_day ` set h) l0)"
  shows "mset rows = mset h + mset l \<and> (h = [] \<or> l = [] \<or> row_states h = row_states l
     \<and> (common_basis h \<noteq> None \<and> common_basis h = common_basis l
        \<or> (case splice_bounds today h l of (lo, hi) \<Rightarrow> hi \<le> lo
            \<or> (\<exists>fetch. ev = Some fetch \<and> ca_ok (fetch sy (lo + 1) hi) \<and> ca_conflicts (fetch sy (lo + 1) hi) = []
                 \<and> filter (crosses lo hi) (ca_events (fetch sy (lo + 1) hi)) = []))))"
proof -
  obtain s' t' where st: "ad_history hist sy (fst st) = (Inr h0, s')" "ad_history live sy (snd st) = (Inr l0, t')"
    using assms(2,3) by (metis prod.collapse)
  have r: "(if h \<noteq> [] \<and> l \<noteq> [] then (case require_compatible ev today sy h l of
       Some e \<Rightarrow> Inl e | None \<Rightarrow> Inr (sort_key (day_string \<circ> rw_day) (h @ l)))
     else Inr (sort_key (day_string \<circ> rw_day) (h @ l))) = Inr rows"
    using assms(1) by (simp only: composite_history_def st prod.case sum.case Let_def prod.inject flip: h_def l_def)
  then have rows: "rows = sort_key (day_string \<circ> rw_day) (h @ l)" by (auto split: if_splits option.splits)
  have "h = [] \<or> l = [] \<or> require_compatible ev today sy h l = None"
    using r by (auto split: option.splits if_splits)
  then show ?thesis
    using require_compatibleD [of ev today sy h l] by (elim disjE) (simp_all only: rows mset_sort mset_append simp_thms)
qed

section \<open>A released price\<close>

text \<open>
  A price the release resolver hands out is final and genuine: its session is over by four hours and
  sixteen minutes at the resolver's clock and not after today, and open and close are the positive finite
  numbers of the row the provider reported for exactly that session.
\<close>

theorem released_price_is_final:
  assumes "price_lookup (release_resolver sess sclose et get today now w) sy d st = (Inr (Some px), st')"
  shows "session_final sess sclose now d \<and> d \<le> today
     \<and> (\<exists>rows raw op cl. fst (sip_fetch et RELEASE_CONTRACT 60 get now sy (rs_adapter st)) = Inr rows
          \<and> find (\<lambda>r. rw_day r = DAY d) rows = Some raw
          \<and> finite_pos (rw_open raw) = Some op \<and> finite_pos (rw_close raw) = Some cl
          \<and> px_open px = Some (Finite op) \<and> px_close px = Some cl)"
proof -
  let ?rv = "release_resolver sess sclose et get today now w"
  have "priced ?rv st sy d = Some px" using assms by (simp add: priced_def)
  then obtain b where b: "fst (resolve ?rv sy d st) = Inr (Inr b)" "px_open px = Some (Finite (b_open b))"
    "px_close px = Some (b_close b)" by (rule priced_Some)
  from b(1) obtain raw where raw: "fst (ad_session (rv_adapter ?rv) sy d (rs_adapter st)) = Inr (Some raw)"
    "checked_bar ?rv raw (DAY d) = Inr (Inr b)" "b_status b = FINAL" "d \<le> rv_today ?rv" by (rule resolve_bar)
  have d: "b_date b = d" using checked_barD(1) [OF raw(2)] by simp
  obtain rows where "fst (sip_fetch et RELEASE_CONTRACT 60 get now sy (rs_adapter st)) = Inr rows"
    "find (\<lambda>r. rw_day r = DAY d) rows = Some raw"
    using raw(1) by (auto simp: release_resolver_def sip_adapter_def sip_session_def split: prod.splits sum.splits)
  moreover have "session_final sess sclose now d" using release_bar_final [OF raw(2,3)] d by simp
  moreover have "d \<le> today" using raw(4) by (simp add: release_resolver_def)
  ultimately show ?thesis using checked_barD(4,5) [OF raw(2)] b(2,3) by blast
qed

text \<open>
  A \<open>null\<close> map of bars in the split probe is not an answer the check expects: the subscript raises
  \<open>TypeError\<close>, which is not among the errors it turns into a problem.
\<close>

lemma null_probe_body_escapes:
  assumes "missing_env env = []" "get RECENT_PROBE = Inr (Some (Some bars))" "recent_bar_ok bars = Inr True"
    and "get (SPLIT_PROBE ''raw'') = Inr None"
  shows "check_readiness c env get = Inl TypeError"
  using assms by (simp add: check_readiness_def qualify_def nv_def handled_def)

section \<open>Examples\<close>

text \<open>Sessions 100 to 129, closing at microsecond \<open>100 d\<close>; a New-York midnight is a multiple of 100.\<close>

definition demo_sip_bar :: "int \<Rightarrow> sip_bar option" where
  "demo_sip_bar d = Some \<lparr> sb_t = INSTANT (d * 100), sb_open = Some (Finite 16), sb_high = Some (Finite 32),
     sb_low = Some (Finite 8), sb_close = Some (Finite 20), sb_volume = Some (Finite 524288) \<rparr>"

definition demo_get :: sip_get where
  "demo_get rq token = Inr (Some (if token = None then (map demo_sip_bar [119, 120], Some ''next'')
     else (map demo_sip_bar [121, 121, 122], None)))"

definition demo_et :: "stamp \<Rightarrow> date \<times> int" where
  "demo_et t = (t div 100, t mod 100)"

definition demo_sip_state :: sip_state where
  "demo_sip_state = \<lparr> sip_cache = Map.empty, sip_rejected = [] \<rparr>"

definition demo_resolver :: "sip_state resolver" where
  "demo_resolver = release_resolver (map int [100..<130]) (\<lambda>d. d * 100) demo_et demo_get 125 15360012100 None"

definition demo_resolver_state :: "sip_state resolver_state" where
  "demo_resolver_state = \<lparr> rs_adapter = demo_sip_state, rs_last = Map.empty, rs_disagreements = [] \<rparr>"

lemma demo_price: "\<exists>px st'. price_lookup demo_resolver ''abc'' 121 demo_resolver_state = (Inr (Some px), st') \<and> px_close px = Some 20"
proof -
  have "map_option px_close (case fst (price_lookup demo_resolver ''abc'' 121 demo_resolver_state) of Inr p \<Rightarrow> p | Inl _ \<Rightarrow> None)
      = Some (Some 20)" by code_simp
  then show ?thesis by (cases "price_lookup demo_resolver ''abc'' 121 demo_resolver_state") (auto split: sum.splits)
qed

theorem released_price_is_final_witness: "session_final (map int [100..<130]) (\<lambda>d. d * 100) 15360012100 121"
proof -
  obtain px st' where "price_lookup demo_resolver ''abc'' 121 demo_resolver_state = (Inr (Some px), st')" using demo_price by blast
  from released_price_is_final [OF this [unfolded demo_resolver_def]] show ?thesis by simp
qed

definition demo_fetched :: "(adapter_error + raw_bar list) \<times> sip_state" where
  "demo_fetched = sip_fetch demo_et RELEASE_CONTRACT 60 demo_get 1000 ''abc'' demo_sip_state"

theorem fetches_agree_within_the_cache_lifetime_witness:
  "\<exists>rows. length rows = 4 \<and> fst (sip_fetch demo_et RELEASE_CONTRACT 60 (\<lambda>rq t. Inl PROVIDER_TIMEOUT) 299999999 ''ABC'' (snd demo_fetched)) = Inr rows"
proof -
  have "case fst demo_fetched of Inr rows \<Rightarrow> length rows = 4 | Inl _ \<Rightarrow> False" by code_simp
  then obtain rows where rows: "demo_fetched = (Inr rows, snd demo_fetched)" "length rows = 4"
    by (cases "fst demo_fetched") (auto simp: prod_eq_iff)
  have "sip_cache demo_sip_state (upper ''abc'') = None" "upper ''ABC'' = upper ''abc''" by code_simp+
  from fetches_agree_within_the_cache_lifetime [OF rows(1) [unfolded demo_fetched_def] this, of 299999999 demo_et 60 "\<lambda>rq t. Inl PROVIDER_TIMEOUT"]
  show ?thesis using rows(2) by (simp add: demo_fetched_def)
qed

definition demo_row :: "date \<Rightarrow> date \<Rightarrow> raw_bar" where
  "demo_row d basis = \<lparr> rw_day = DAY d, rw_open = Some (Finite 16), rw_close = Some (Finite 20), rw_volume = Some (Finite 8),
     rw_stamp = None, rw_state = Some ''SPLIT_ADJUSTED'', rw_basis = Some basis, rw_adapter = None \<rparr>"

definition demo_source :: "string \<Rightarrow> raw_bar list \<Rightarrow> unit adapter" where
  "demo_source name rows = \<lparr> ad_name = name, ad_history = (\<lambda>sy s. (Inr rows, s)),
     ad_session = (\<lambda>sy d s. (Inr (find (\<lambda>r. rw_day r = DAY d) rows), s)) \<rparr>"

definition demo_evidence :: "symbol \<Rightarrow> date \<Rightarrow> date \<Rightarrow> ca_source_result" where
  "demo_evidence sy a b = \<lparr> ca_source = ''s'', ca_ok = True, ca_events = [], ca_conflicts = [] \<rparr>"

theorem composite_never_splices_across_a_split_witness:
  "\<exists>rows. fst (composite_history (Some demo_evidence) 110 (demo_source ''h'' [demo_row 101 105]) (demo_source ''l'' [demo_row 101 110, demo_row 106 110])
       ''ABC'' ((), ())) = Inr rows \<and> size (mset rows) = 2"
proof -
  let ?r = "composite_history (Some demo_evidence) 110 (demo_source ''h'' [demo_row 101 105]) (demo_source ''l'' [demo_row 101 110, demo_row 106 110])
    ''ABC'' ((), ())"
  have "case fst ?r of Inr rows \<Rightarrow> True | Inl _ \<Rightarrow> False" by code_simp
  then obtain rows where rows: "?r = (Inr rows, snd ?r)" by (cases "fst ?r") (auto simp: prod_eq_iff)
  have h: "fst (ad_history (demo_source ''h'' [demo_row 101 105]) ''ABC'' (fst ((), ()))) = Inr [demo_row 101 105]"
    and l: "fst (ad_history (demo_source ''l'' [demo_row 101 110, demo_row 106 110]) ''ABC'' (snd ((), ()))) = Inr [demo_row 101 110, demo_row 106 110]"
    by (simp_all add: demo_source_def)
  have "size (mset rows) = 2"
    using composite_never_splices_across_a_split [OF rows h l, THEN conjunct1] by (simp add: demo_row_def tag_def)
  with rows show ?thesis by (metis fst_conv)
qed

end
