(* ===== verification/V2_Release.thy ===== *)
theory V2_Release
  imports V2_Admission V2_Prices
begin

text \<open>
  The live lane on a price source that keeps the contract \<open>final_prices\<close>: what one tick buys and sells is
  priced at sessions that are over, and the liquidity gate saw only such sessions.  The interpretation
  \<open>release\<close> of \<open>V2_Prices\<close> gives the contract for the release resolver.
\<close>

section \<open>The exits a tick records\<close>

abbreviation tick_exits :: "tick_state \<Rightarrow> exit_record list" where
  "tick_exits st \<equiv> pr_exits (ts_result st)"

lemma process_episode_exits:
  "pr_exits (fst (process_episode sess cfg bars lookup strict now ep res l)) = pr_exits res"
  by (auto simp: process_episode_def Let_def skip_result_def split: sum.split option.split)

lemma missing_entry_bar_exits: "tick_exits (snd (missing_entry_bar env ripe ep i st)) = tick_exits st"
  by (simp add: missing_entry_bar_def split: sum.split)

lemma open_episode_exits: "tick_exits (snd (open_episode env today ripe ep st)) = tick_exits st"
proof -
  have "tick_exits (snd (attempt_open env ripe ep i st)) = tick_exits st" for i
    using process_episode_exits [of "le_sess env" "le_cfg env" "le_bars env" "le_price env" "le_strict env" "le_now env" ep
        "ts_result st" "ts_ledger st"]
    by (auto simp: attempt_open_def Let_def missing_entry_bar_exits split: prod.split sum.split)
  then show ?thesis by (simp add: open_episode_def Let_def split: sum.split bool.split)
qed

lemma phase_open_exits: "tick_exits (snd (phase_open env today ripe eps st)) = tick_exits st"
  unfolding phase_open_def
  by (rule each_episode_inv [where P = "\<lambda>s. tick_exits s = tick_exits st"]) (simp_all add: open_episode_exits)

lemma plan_episode_result: "ts_result (snd (plan_episode env today nxt ep st)) = ts_result st"
  by (simp add: plan_episode_def admit_intent_def Let_def split: sum.split prod.split)

lemma post_close_result: "ts_result (snd (phase_post_close env today ripe oldest eps st)) = ts_result st"
proof -
  have "ts_result (fold (sweep_stale env) xs s) = ts_result s" for xs s
    by (induction xs arbitrary: s) (simp_all add: sweep_stale_def Let_def)
  moreover have "ts_result (snd (each_episode (plan_episode env today nxt) eps s)) = ts_result s" for nxt s
    by (rule each_episode_inv [where P = "\<lambda>u. ts_result u = ts_result s"]) (simp_all add: plan_episode_result)
  ultimately show ?thesis by (simp add: phase_post_close_def Let_def split: sum.split)
qed

lemma other_phases_result:
  "ts_result (phase_corporate_actions env today st) = ts_result st"
  "ts_result (phase_dividends env today st) = ts_result st"
  "ts_result (phase_deliver env today st) = ts_result st"
  by (simp_all add: phase_corporate_actions_def phase_dividends_def phase_deliver_def Let_def split: option.split)

lemma phase_close_exits:
  "\<exists>err l'. settle_due_exits (le_sha env) (le_sess env) (le_cfg env) (le_price env) (le_guard env) (le_now env) ripe
     (ts_result st) (ts_ledger st) = (err, ts_result (phase_close env ripe st), l')"
  by (auto simp: phase_close_def Let_def split: prod.split option.split)

section \<open>The contract at work\<close>

context final_prices
begin

lemma run_phases_exits:
  assumes "run_phases env today ripe oldest eps st0 = (err, st)" "le_price env = price" "tick_exits st0 = []"
    and "x \<in> set (tick_exits st)"
  shows "final (xr_session x) \<and> is_float (xr_price x) \<and> 0 < xr_price x"
proof -
  obtain e1 st1 where o1: "phase_open env today ripe
      (filter (\<lambda>e. \<not> is_stale oldest e) (filter (\<lambda>e. eligible_entry_session e \<le> ripe) eps)) st0 = (e1, st1)" by force
  have none: "tick_exits st1 = []" using phase_open_exits o1 assms(3) by (metis snd_conv)
  show ?thesis
  proof (cases e1)
    case (Some e)
    then have "st = st1" using assms(1) o1 by (simp add: run_phases_def Let_def)
    with none assms(4) show ?thesis by simp
  next
    case None
    let ?c = "phase_close env ripe (phase_corporate_actions env today st1)"
    obtain e3 st3 where o3: "phase_post_close env today ripe oldest eps (phase_dividends env today ?c) = (e3, st3)" by force
    have "ts_result st3 = ts_result ?c"
      using post_close_result [of env today ripe oldest eps "phase_dividends env today ?c"] o3 other_phases_result by simp
    moreover have "ts_result st = ts_result st3"
      using assms(1) o1 o3 None by (auto simp: run_phases_def Let_def other_phases_result split: option.splits)
    ultimately have "x \<in> set (pr_exits (ts_result ?c))" using assms(4) by simp
    moreover obtain err' l' where "settle_due_exits (le_sha env) (le_sess env) (le_cfg env) price (le_guard env) (le_now env) ripe
        (ts_result (phase_corporate_actions env today st1)) (ts_ledger (phase_corporate_actions env today st1)) = (err', ts_result ?c, l')"
      using phase_close_exits assms(2) by metis
    ultimately show ?thesis using exit_final none by (simp add: other_phases_result)
  qed
qed

lemma tick_exits_final:
  assumes "tick env today records l = (err, st)" "le_price env = price" "x \<in> set (tick_exits st)"
  shows "final (xr_session x) \<and> is_float (xr_price x) \<and> 0 < xr_price x"
proof (cases "bindR (ripe_through env today) (\<lambda>ripe. bindR (tick_episodes env records) (\<lambda>eps.
             bindR (stale_cut env ripe) (\<lambda>oldest. Inr (ripe, eps, oldest))))")
  case (Inl e)
  with assms(1) have "st = start_tick l" by (simp add: tick_def)
  with assms(3) show ?thesis by (simp add: start_tick_def empty_result_def)
next
  case (Inr r)
  obtain ripe eps oldest where r: "r = (ripe, eps, oldest)" by (cases r)
  from Inr r assms(1) have "run_phases env today ripe oldest eps (start_tick l) = (err, st)" by (simp add: tick_def)
  from run_phases_exits [OF this assms(2) _ assms(3)] show ?thesis by (simp add: start_tick_def empty_result_def)
qed

lemma tick_entry_final:
  assumes "tick env today records l = (err, st)" "le_price env = price" "le_bars env = bars"
    and "p \<in> set (positions (ts_ledger st))" "p_episode p \<notin> p_episode ` set (positions l)"
  shows "final (entry_session p) \<and> (\<exists>sy liq. evaluate_liquidity_checked (le_sess env) (le_cfg env) (bars sy) (entry_session p)
       (le_strict env) = Inr liq \<and> liq_ok liq
     \<and> list_all (\<lambda>b. final (bar_date b)) (lookback_window (liquidity_lookback_sessions (le_cfg env)) (prior_bars (bars sy) (entry_session p))))"
proof -
  obtain ep where ep: "eligible_entry_session ep = entry_session p" "admissible env l ep"
    by (rule tick_new_position [OF assms(1,4,5)])
  then have s: "supplied env ep" by (simp add: admissible_def)
  then have "final (entry_session p)" using open_final ep(1) assms(2) by (fastforce simp: supplied_def)
  moreover have "list_all (\<lambda>b. final (bar_date b)) (lookback_window n (prior_bars (bars sy) es))" for n sy es
    using gate_window_final by (auto simp: list_all_iff)
  ultimately show ?thesis using s ep(1) assms(3) by (auto simp: supplied_def)
qed

end

section \<open>Properties\<close>

text \<open>
  C7. On the release resolver: every live tick buys at a session whose close is four hours and sixteen minutes
  past and on such a liquidity window, and sells at the close of such a session, whatever the provider answers.
\<close>

theorem release_lane_trades_only_finished_sessions:
  assumes "tick env today records l = (err, st)"
    and "le_price env = priced (release_resolver sess sclose et get day now w) rs"
    and "le_bars env = window_bars (release_resolver sess sclose et get day now w) rs"
  shows "list_all (\<lambda>p. p_episode p \<in> p_episode ` set (positions l) \<or> session_final sess sclose now (entry_session p)) (positions (ts_ledger st))
    \<and> list_all (\<lambda>x. session_final sess sclose now (xr_session x) \<and> 0 < xr_price x) (pr_exits (ts_result st))"
  using release.tick_exits_final [OF assms(1,2)] release.tick_entry_final [OF assms(1,2,3)]
  unfolding list_all_iff by blast

section \<open>Example: an entry on the release resolver\<close>

definition demo_raw :: "date \<Rightarrow> raw_bar" where
  "demo_raw d = \<lparr> rw_day = DAY d, rw_open = Some (Finite 3000), rw_close = Some (Finite 16), rw_volume = Some (Finite 524288),
     rw_stamp = None, rw_state = Some ''SPLIT_ADJUSTED'', rw_basis = Some 130, rw_adapter = None \<rparr>"

definition release_demo :: "sip_state resolver" where
  "release_demo = release_resolver lane_sessions (\<lambda>d. d) (\<lambda>t. (0, 1)) (\<lambda>rq t. Inl PROVIDER_TIMEOUT) 130 15360000126 None"

definition release_state :: "sip_state resolver_state" where
  "release_state = \<lparr> rs_adapter = \<lparr> sip_cache = [''ABC'' \<mapsto> (15360000000, map (\<lambda>d. demo_raw (int d)) [100..<128])], sip_rejected = [] \<rparr>,
     rs_last = Map.empty, rs_disagreements = [] \<rparr>"

definition demo_provenance :: price_provenance where
  "demo_provenance = \<lparr> pp_field = [], basis_as_of = Some 130, adjustment_state = Some ''SPLIT_ADJUSTED'' \<rparr>"

lemma release_quote: "priced release_demo release_state ''ABC'' 126
    = Some \<lparr> px_open = Some (Finite 3000), px_close = Some 16, px_provenance = Some demo_provenance \<rparr>"
  "priced release_demo release_state ''ABC'' 127 = None"
  by code_simp+

lemma release_window: "window_bars release_demo release_state ''ABC'' = map (\<lambda>d. demo_bar (int d)) [100..<127]"
  by code_simp

definition release_env :: lane_env where
  "release_env = demo_open_env\<lparr> le_bars := window_bars release_demo release_state, le_price := priced release_demo release_state \<rparr>"

abbreviation "open_provenance \<equiv> Some (demo_provenance\<lparr> pp_field := ''open'' \<rparr>)"

definition release_fill :: ledger where
  "release_fill = demo_planned\<lparr> portfolio_cash := 91000, position_seq := 1,
     positions := [new_position 1 12600 ''E1'' ''ABC'' ''9'' 126 136 3000 3 9000 0 open_provenance],
     episodes := [\<lparr> er_episode = ''E1'', er_symbol = ''ABC'', er_issuer = ''9'', er_activation = None,
        er_entry_session = Some 126, er_disposition = ENTERED, er_first_seen = 12600, er_updated = 12600 \<rparr>],
     trades := [\<lparr> trade_id = 1, t_episode = ''E1'', t_symbol = ''ABC'', t_action = BUY_TRADE, t_price = 3000,
        t_shares = 3, t_cost = 9000, t_entry_price = None, t_pnl_usd = None, t_pnl_pct = None,
        t_days_held = None, t_cash_after = 91000, t_executed_at = 12600, t_fee = 0, t_provenance = open_provenance \<rparr>] \<rparr>"

lemma release_buys: "enter_position lane_sessions default_config zero_fee 12600 demo_buy (Some (Finite 3000)) 126 ''9'' open_provenance demo_planned
   = Inr (demo_bought, release_fill)" by code_simp

lemma release_liq: "evaluate_liquidity_checked lane_sessions default_config (map (\<lambda>d. demo_bar (int d)) [100..<127]) 126 False = Inr
  \<lparr>liq_ok = True, median_dollar_volume = Some 8388608, last_close = Some 16, n_sessions_used = 20, liq_reason = PASS\<rparr>" by code_simp

definition release_opened :: tick_state where
  "release_opened = (start_tick demo_planned)\<lparr>
     ts_result := empty_result\<lparr> pr_signals := 1, pr_entries := [demo_entry_record], pr_alerts := [(BUY, ''ABC'')] \<rparr>,
     ts_ledger := on_entry_recorded release_env demo_ep demo_entry_record (Some reserved_intent) release_fill \<rparr>"

lemma release_processed:
  "process_episode lane_sessions default_config (le_bars release_env) (le_price release_env) False 12600 demo_ep empty_result demo_planned
     = (ts_result release_opened, Inr release_fill)"
proof -
  have "contextualize (build_signal default_config demo_ep \<lparr>liq_ok = True, median_dollar_volume = Some 8388608,
      last_close = Some 16, n_sessions_used = 20, liq_reason = PASS\<rparr>) = demo_buy" by code_simp
  moreover have "\<not> already_processed demo_planned ''E1''" "d_action demo_buy = BUY"
    "ep_symbol demo_ep = ''ABC''" "eligible_entry_session demo_ep = 126" "ep_issuer_cik demo_ep = ''9''" "episode_id demo_ep = ''E1''" by code_simp+
  ultimately show ?thesis using release_liq release_buys release_quote(1) release_window
    by (simp add: process_episode_def Let_def release_opened_def demo_bought_def demo_entry_record_def empty_result_def
        release_env_def usable_open_def field_provenance_def)
qed

lemma release_opens: "phase_open release_env 126 126 [demo_ep] (start_tick demo_planned) = (None, release_opened)"
proof -
  have "entry_intent demo_planned (episode_id demo_ep) = Some reserved_intent" "i_status reserved_intent = PENDING"
    "verify_temporal_boundary release_env demo_ep (Some reserved_intent)"
    "service_deadline_passed release_env (eligible_entry_session demo_ep) 126 = Inr False" by code_simp+
  moreover have "le_gate release_env" "le_sess release_env = lane_sessions" "le_cfg release_env = default_config" "\<not> le_strict release_env"
    "pr_entries (ts_result release_opened) = [demo_entry_record]" "pr_entries empty_result = []" "le_now release_env = 12600" by code_simp+
  ultimately show ?thesis using release_processed
    by (simp add: phase_open_def open_episode_def attempt_open_def Let_def start_tick_def release_opened_def)
qed

definition release_tick :: "py_error option \<times> tick_state" where
  "release_tick = tick release_env 126 (Some demo_filings) demo_planned"

lemma release_ticked:
  "positions (ts_ledger (snd release_tick)) = [new_position 1 12600 ''E1'' ''ABC'' ''9'' 126 136 3000 3 9000 0 open_provenance]"
proof -
  have "tick_episodes release_env (Some demo_filings) = Inr [demo_ep]"
    using demo_detected by (simp add: tick_episodes_def release_env_def)
  moreover have "ripe_through release_env 126 = Inr 126" "stale_cut release_env 126 = Inr (Some 124)"
    "eligible_entry_session demo_ep = 126" "\<not> is_stale (Some 124) demo_ep" by code_simp+
  moreover have "positions (ts_ledger (snd (case phase_post_close release_env 126 126 (Some 124) [demo_ep]
      (phase_dividends release_env 126 (phase_close release_env 126 (phase_corporate_actions release_env 126 release_opened))) of
          (Some err, st3) \<Rightarrow> (Some err, st3) | (None, st3) \<Rightarrow> (None, phase_deliver release_env 126 st3))))
      = [new_position 1 12600 ''E1'' ''ABC'' ''9'' 126 136 3000 3 9000 0 open_provenance]" by code_simp
  ultimately show ?thesis using release_opens by (simp add: release_tick_def tick_def run_phases_def Let_def)
qed

theorem release_lane_trades_only_finished_sessions_witness:
  "session_final lane_sessions (\<lambda>d. d) 15360000126 126 \<and> map entry_session (positions (ts_ledger (snd release_tick))) = [126]"
proof -
  have t: "tick release_env 126 (Some demo_filings) demo_planned = (fst release_tick, snd release_tick)" by (simp add: release_tick_def)
  have "le_price release_env = priced release_demo release_state" "le_bars release_env = window_bars release_demo release_state"
    by (simp_all add: release_env_def)
  from release_lane_trades_only_finished_sessions [OF t this [unfolded release_demo_def]]
  have "list_all (\<lambda>p. p_episode p \<in> p_episode ` set (positions demo_planned) \<or> session_final lane_sessions (\<lambda>d. d) 15360000126 (entry_session p))
    (positions (ts_ledger (snd release_tick)))" ..
  moreover have "positions demo_planned = []" by code_simp
  ultimately show ?thesis by (simp add: release_ticked new_position_def)
qed

end
