(* ===== verification/V2_Cutover.thy ===== *)
theory V2_Cutover
  imports V2_Machine
begin

text \<open>
  \<open>talonx_v2/cutover.py\<close>: the classification of the pending entry intents when a campaign is replaced.
  The function is not one transaction: every mark commits on its own, so an error keeps the marks made
  before it.
\<close>

section \<open>Definitions\<close>

record cutover_result =
  cr_cancelled :: "string list"
  cr_retained :: "string list"
  cr_expired :: "string list"

text \<open>The terminal status a pending intent gets, \<open>None\<close> when it is retained.\<close>

definition cutover_status ::
    "date list \<Rightarrow> (date \<Rightarrow> stamp) \<Rightarrow> stamp \<Rightarrow> int \<Rightarrow> bool \<Rightarrow> date \<Rightarrow> intent \<Rightarrow> intent_status option result" where
  "cutover_status sess sclose now max_stale live as_of i =
     (if as_of < target_entry_session i then Inr (Some CANCELLED_CUTOVER)
      else bindR (recovery_deadline_passed sess sclose now (target_entry_session i) max_stale as_of live)
             (\<lambda>passed. Inr (if passed then Some EXPIRED_RECOVERY_DEADLINE else None)))"

fun classify_intents ::
    "(intent \<Rightarrow> intent_status option result) \<Rightarrow> stamp \<Rightarrow> intent list \<Rightarrow> cutover_result \<Rightarrow> ledger
       \<Rightarrow> cutover_result result \<times> ledger" where
  "classify_intents status now [] r l = (Inr r, l)"
| "classify_intents status now (i # is) r l =
     (case status i of
        Inl e \<Rightarrow> (Inl e, l)
      | Inr None \<Rightarrow> classify_intents status now is (r\<lparr> cr_retained := cr_retained r @ [intent_id i] \<rparr>) l
      | Inr (Some st) \<Rightarrow>
          classify_intents status now is
            (if st = CANCELLED_CUTOVER then r\<lparr> cr_cancelled := cr_cancelled r @ [intent_id i] \<rparr>
             else r\<lparr> cr_expired := cr_expired r @ [intent_id i] \<rparr>)
            (mark_entry_intent now (intent_id i) st None None None l))"

definition classify_and_cancel_pending_at_cutover ::
    "date list \<Rightarrow> (date \<Rightarrow> stamp) \<Rightarrow> stamp \<Rightarrow> date \<Rightarrow> int \<Rightarrow> string \<Rightarrow> bool \<Rightarrow> ledger
       \<Rightarrow> cutover_result result \<times> ledger" where
  "classify_and_cancel_pending_at_cutover sess sclose now as_of max_stale cid live l =
     (case classify_intents (cutover_status sess sclose now max_stale live as_of) now (pending_entry_intents l)
             \<lparr> cr_cancelled = [], cr_retained = [], cr_expired = [] \<rparr> l of
        (Inl e, l') \<Rightarrow> (Inl e, l')
      | (Inr r, l') \<Rightarrow> (Inr r, record_cutover now cid as_of (cr_cancelled r) (cr_retained r) (cr_expired r) l'))"

section \<open>The loop as a per-row function\<close>

definition marked_intent :: "stamp \<Rightarrow> intent_status \<Rightarrow> intent \<Rightarrow> intent" where
  "marked_intent now st i = i\<lparr> i_status := st, i_position := None, i_fill_price := None, i_fill_session := None,
     i_reconciled_at := Some now, i_updated_at := now \<rparr>"

lemma marked_intent_simps [simp]:
  "intent_id (marked_intent now st i) = intent_id i" "i_status (marked_intent now st i) = st"
  "i_episode (marked_intent now st i) = i_episode i" "target_entry_session (marked_intent now st i) = target_entry_session i"
  by (simp_all add: marked_intent_def)

lemma mark_none_eq: "mark_entry_intent now iid st None None None l =
    l\<lparr> intents := update_rows (\<lambda>i. intent_id i = iid \<and> i_status i = PENDING) (marked_intent now st) (intents l) \<rparr>"
  by (simp add: mark_entry_intent_def marked_intent_def [abs_def])

definition classified :: "(intent \<Rightarrow> intent_status option result) \<Rightarrow> stamp \<Rightarrow> intent \<Rightarrow> intent" where
  "classified status now i = (case status i of Inr (Some st) \<Rightarrow> marked_intent now st i | _ \<Rightarrow> i)"

lemma classify_intents_effect:
  assumes "classify_intents status now is r l = (Inr r', l')" "distinct (map intent_id (intents l))" "distinct is"
    and "set is \<subseteq> {i \<in> set (intents l). i_status i = PENDING}" "\<And>i. status i \<noteq> Inr (Some PENDING)"
  shows "l' = l\<lparr> intents := map (\<lambda>i. if i \<in> set is then classified status now i else i) (intents l) \<rparr>
    \<and> cr_cancelled r' = cr_cancelled r @ map intent_id (filter (\<lambda>i. status i = Inr (Some CANCELLED_CUTOVER)) is)
    \<and> cr_retained r' = cr_retained r @ map intent_id (filter (\<lambda>i. status i = Inr None) is)
    \<and> cr_expired r' = cr_expired r @ map intent_id
       (filter (\<lambda>i. \<exists>st. status i = Inr (Some st) \<and> st \<noteq> CANCELLED_CUTOVER) is)
    \<and> (\<forall>i \<in> set is. \<not> isl (status i))"
  using assms(1-4)
proof (induction "is" arbitrary: r l)
  case (Cons i "is")
  have i: "i \<in> set (intents l)" "i_status i = PENDING" "i \<notin> set is" using Cons.prems by auto
  have same: "j = i" if "j \<in> set (intents l)" "intent_id j = intent_id i" for j
    using distinct_key [OF Cons.prems(2) that(1) i(1) that(2)] .
  show ?case
  proof (cases "status i")
    case (Inl e)
    with Cons.prems(1) show ?thesis by simp
  next
    case (Inr w)
    show ?thesis
    proof (cases w)
      case None
      have run: "classify_intents status now is (r\<lparr> cr_retained := cr_retained r @ [intent_id i] \<rparr>) l = (Inr r', l')"
        using Cons.prems(1) Inr None by simp
      have "map (\<lambda>j. if j \<in> set (i # is) then classified status now j else j) (intents l) =
          map (\<lambda>j. if j \<in> set is then classified status now j else j) (intents l)"
        using Inr None by (intro map_cong) (auto simp: classified_def)
      with Cons.IH [OF run Cons.prems(2)] Cons.prems(3,4) Inr None show ?thesis by simp
    next
      case (Some st)
      let ?l = "mark_entry_intent now (intent_id i) st None None None l"
      let ?r = "if st = CANCELLED_CUTOVER then r\<lparr> cr_cancelled := cr_cancelled r @ [intent_id i] \<rparr>
             else r\<lparr> cr_expired := cr_expired r @ [intent_id i] \<rparr>"
      have upd: "intents ?l = map (\<lambda>j. if j = i then marked_intent now st i else j) (intents l)"
        using same i(2) by (auto simp: mark_none_eq update_rows_def)
      have ids: "map intent_id (intents ?l) = map intent_id (intents l)" unfolding upd by auto
      have sub: "set is \<subseteq> {i \<in> set (intents ?l). i_status i = PENDING}"
        using Cons.prems(4) i(3) unfolding upd by (auto intro: rev_image_eqI)
      have run: "classify_intents status now is ?r ?l = (Inr r', l')" using Cons.prems(1) Inr Some by simp
      have "st \<noteq> PENDING" using assms(5) [of i] Inr Some by auto
      then have new: "marked_intent now st i \<notin> set is" using Cons.prems(4) by fastforce
      have "map (\<lambda>j. if j \<in> set is then classified status now j else j) (intents ?l) =
          map (\<lambda>j. if j \<in> set (i # is) then classified status now j else j) (intents l)"
        unfolding upd using Inr Some i(3) new by (auto simp: classified_def)
      moreover have "?l\<lparr> intents := js \<rparr> = l\<lparr> intents := js \<rparr>" for js by (simp add: mark_none_eq)
      ultimately show ?thesis
        using Cons.IH [OF run _ _ sub] ids Cons.prems(2,3) Inr Some by simp
    qed
  qed
qed simp

lemma cutover_status_cases:
  "cutover_status sess sclose now mx live as_of i = Inr w \<Longrightarrow>
     w = (if as_of < target_entry_session i then Some CANCELLED_CUTOVER
          else if recovery_deadline_passed sess sclose now (target_entry_session i) mx as_of live = Inr True
          then Some EXPIRED_RECOVERY_DEADLINE else None)"
  by (auto simp: cutover_status_def bindR_Inr_iff split: if_splits)

lemma cutover_run:
  fixes sess sclose now mx live as_of
  assumes "classify_and_cancel_pending_at_cutover sess sclose now as_of mx cid live l = (Inr r, l')"
    and "distinct (map intent_id (intents l))"
  defines "st \<equiv> cutover_status sess sclose now mx live as_of"
  shows "intents l' = map (\<lambda>i. if i_status i = PENDING then classified st now i else i) (intents l)"
    "l' = record_cutover now cid as_of (cr_cancelled r) (cr_retained r) (cr_expired r) (l\<lparr> intents := intents l' \<rparr>)"
    "cr_cancelled r = map intent_id (filter (\<lambda>i. st i = Inr (Some CANCELLED_CUTOVER)) (pending_entry_intents l))"
    "cr_retained r = map intent_id (filter (\<lambda>i. st i = Inr None) (pending_entry_intents l))"
    "cr_expired r = map intent_id (filter (\<lambda>i. st i = Inr (Some EXPIRED_RECOVERY_DEADLINE)) (pending_entry_intents l))"
    "\<forall>i \<in> set (intents l). i_status i = PENDING \<longrightarrow> \<not> isl (st i)"
proof -
  let ?r0 = "\<lparr> cr_cancelled = [], cr_retained = [], cr_expired = [] \<rparr>" and ?P = "pending_entry_intents l"
  obtain l1 where run: "classify_intents st now ?P ?r0 l = (Inr r, l1)"
    and l': "l' = record_cutover now cid as_of (cr_cancelled r) (cr_retained r) (cr_expired r) l1"
    using assms(1) by (auto simp: classify_and_cancel_pending_at_cutover_def st_def split: prod.splits sum.splits)
  have set: "set ?P = {i \<in> set (intents l). i_status i = PENDING}" by (simp add: pending_entry_intents_def)
  have d: "distinct ?P" using assms(2) by (auto simp: pending_entry_intents_def distinct_map)
  have np: "st i \<noteq> Inr (Some PENDING)" for i
    using cutover_status_cases [of sess sclose now mx live as_of i] by (auto simp: st_def split: if_splits)
  note E = classify_intents_effect [OF run assms(2) d _ np]
  have exp: "(\<exists>s. st i = Inr (Some s) \<and> s \<noteq> CANCELLED_CUTOVER) \<longleftrightarrow> st i = Inr (Some EXPIRED_RECOVERY_DEADLINE)" for i
    using cutover_status_cases [of sess sclose now mx live as_of i] by (auto simp: st_def split: if_splits)
  show "intents l' = map (\<lambda>i. if i_status i = PENDING then classified st now i else i) (intents l)"
    using E set by (auto simp: l' record_cutover_def)
  show "l' = record_cutover now cid as_of (cr_cancelled r) (cr_retained r) (cr_expired r) (l\<lparr> intents := intents l' \<rparr>)"
    using E set by (simp add: l' record_cutover_def)
  show "cr_cancelled r = map intent_id (filter (\<lambda>i. st i = Inr (Some CANCELLED_CUTOVER)) ?P)"
    "cr_retained r = map intent_id (filter (\<lambda>i. st i = Inr None) ?P)"
    "cr_expired r = map intent_id (filter (\<lambda>i. st i = Inr (Some EXPIRED_RECOVERY_DEADLINE)) ?P)"
    "\<forall>i \<in> set (intents l). i_status i = PENDING \<longrightarrow> \<not> isl (st i)"
    using E set by (simp_all add: exp)
qed

lemma classify_intents_steps: "ledger_steps sha sess l (snd (classify_intents status now is r l))"
proof (induction "is" arbitrary: r l)
  case (Cons i "is")
  have "ledger_step sha sess l (mark_entry_intent now (intent_id i) st None None None l)" for st
    by (rule ledger_step.resolve)
  with Cons.IH show ?case by (auto split: sum.split option.split intro: converse_rtranclp_into_rtranclp)
qed simp

lemma cutover_steps:
  "ledger_steps sha sess l (snd (classify_and_cancel_pending_at_cutover sess' sclose now as_of mx cid live l))"
proof -
  let ?r0 = "\<lparr> cr_cancelled = [], cr_retained = [], cr_expired = [] \<rparr>"
    and ?st = "cutover_status sess' sclose now mx live as_of"
  obtain w l1 where run: "classify_intents ?st now (pending_entry_intents l) ?r0 l = (w, l1)" by force
  have "ledger_steps sha sess l l1" using classify_intents_steps [of sha sess l ?st now _ ?r0] run by (metis snd_conv)
  moreover have "ledger_step sha sess l1 (record_cutover now cid as_of cs rs xs l1)" for cs rs xs
    by (rule ledger_step.cutover)
  ultimately show ?thesis
    by (auto simp: classify_and_cancel_pending_at_cutover_def run split: sum.split intro: rtranclp.rtrancl_into_rtrancl)
qed

section \<open>Properties\<close>

text \<open>
  A cutover disposes of every pending intent by its class and touches nothing else: an intent whose
  entry session is after the cutover session is cancelled, one whose recovery deadline has passed is
  expired, any other stays pending for the old campaign; terminal intents, positions, trades and cash are
  as before; one audit row is appended; and running the cutover again changes no intent and retains the
  same ones.
\<close>

theorem cutover_is_complete_and_idempotent:
  assumes "classify_and_cancel_pending_at_cutover sess sclose now as_of mx cid live l = (Inr r, l')"
    and "distinct (map intent_id (intents l))"
    and "classify_and_cancel_pending_at_cutover sess sclose now as_of mx cid live l' = (Inr r2, l2)"
  shows "intents l' = map (\<lambda>i. if i_status i \<noteq> PENDING then i
        else if as_of < target_entry_session i then marked_intent now CANCELLED_CUTOVER i
        else if recovery_deadline_passed sess sclose now (target_entry_session i) mx as_of live = Inr True
        then marked_intent now EXPIRED_RECOVERY_DEADLINE i else i) (intents l)
     \<and> positions l' = positions l \<and> trades l' = trades l \<and> cash l' = cash l
     \<and> length (cutovers l') = Suc (length (cutovers l))
     \<and> intents l2 = intents l' \<and> cr_cancelled r2 = [] \<and> cr_expired r2 = [] \<and> cr_retained r2 = cr_retained r"
proof -
  let ?st = "cutover_status sess sclose now mx live as_of"
  note A = cutover_run [OF assms(1,2)]
  have c: "classified ?st now i = (if as_of < target_entry_session i then marked_intent now CANCELLED_CUTOVER i
        else if recovery_deadline_passed sess sclose now (target_entry_session i) mx as_of live = Inr True
        then marked_intent now EXPIRED_RECOVERY_DEADLINE i else i)"
    if "i \<in> set (intents l)" "i_status i = PENDING" for i
  proof -
    from A(6) that obtain w where w: "?st i = Inr w" by (cases "?st i") auto
    from cutover_status_cases [OF w] show ?thesis using w by (auto simp: classified_def)
  qed
  have ids: "map intent_id (intents l') = map intent_id (intents l)"
    unfolding A(1) by (auto simp: classified_def split: sum.split option.split)
  then have d': "distinct (map intent_id (intents l'))" using assms(2) by simp
  note B = cutover_run [OF assms(3) d']
  have "filter (\<lambda>i. i_status i = PENDING) (intents l') = filter (\<lambda>i. i_status i = PENDING \<and> ?st i = Inr None) (intents l)"
  proof -
    have "i_status (classified ?st now i) = PENDING \<longleftrightarrow> ?st i = Inr None"
      "?st i = Inr None \<Longrightarrow> classified ?st now i = i" if "i \<in> set (intents l)" "i_status i = PENDING" for i
    proof -
      from A(6) that obtain w where w: "?st i = Inr w" by (cases "?st i") auto
      then show "i_status (classified ?st now i) = PENDING \<longleftrightarrow> ?st i = Inr None"
        using that(2) cutover_status_cases [OF w] by (cases w) (auto simp: classified_def split: if_splits)
    qed (simp add: classified_def)
    then have "i \<in> set (intents l) \<Longrightarrow> i_status (if i_status i = PENDING then classified ?st now i else i) = PENDING
        \<longleftrightarrow> i_status i = PENDING \<and> ?st i = Inr None" for i by auto
    moreover have "map (\<lambda>i. if i_status i = PENDING then classified ?st now i else i)
          (filter (\<lambda>i. i_status i = PENDING \<and> ?st i = Inr None) (intents l)) =
        filter (\<lambda>i. i_status i = PENDING \<and> ?st i = Inr None) (intents l)"
      by (intro map_idI) (auto simp: classified_def)
    ultimately show ?thesis unfolding A(1) filter_map comp_def by (simp cong: filter_cong)
  qed
  then have pend: "pending_entry_intents l' = filter (\<lambda>i. ?st i = Inr None) (pending_entry_intents l)"
    by (simp add: pending_entry_intents_def filter_sort conj_commute)
  then have "cr_cancelled r2 = []" "cr_expired r2 = []" "cr_retained r2 = cr_retained r"
    unfolding B(3-5) A(4) by (simp_all add: filter_empty_conv)
  moreover have "intents l2 = intents l'"
  proof -
    have "?st i = Inr None" if "i \<in> set (intents l')" "i_status i = PENDING" for i
    proof -
      have "i \<in> set (pending_entry_intents l')" using that by (simp add: pending_entry_intents_def)
      then show ?thesis unfolding pend by simp
    qed
    then show ?thesis unfolding B(1) by (intro map_idI) (simp add: classified_def)
  qed
  moreover have "intents l' = map (\<lambda>i. if i_status i \<noteq> PENDING then i
        else if as_of < target_entry_session i then marked_intent now CANCELLED_CUTOVER i
        else if recovery_deadline_passed sess sclose now (target_entry_session i) mx as_of live = Inr True
        then marked_intent now EXPIRED_RECOVERY_DEADLINE i else i) (intents l)"
    unfolding A(1) using c by (intro map_cong) simp_all
  moreover have "positions l' = positions l" "trades l' = trades l" "cash l' = cash l"
    "length (cutovers l') = Suc (length (cutovers l))"
    by (subst A(2), simp add: record_cutover_def cash_def)+
  ultimately show ?thesis by simp
qed

section \<open>Example\<close>

definition demo_intent :: "string \<Rightarrow> date \<Rightarrow> intent_status \<Rightarrow> intent" where
  "demo_intent eid target st = \<lparr> intent_id = eid, i_episode = eid, i_symbol = ''ACME'', i_issuer = ''C1'', i_activation = 105,
     target_entry_session = target, planned_exit_session = None, i_horizon = 10, i_liq_ok = True, i_liq_median = None,
     i_liq_close = None, i_status = st, i_created_at = 1, i_updated_at = 1, i_position = None, i_fill_price = None,
     i_fill_session = None, i_reconciled_at = None, i_source_ts = None, i_receipt_ts = None \<rparr>"

definition demo_pending :: ledger where
  "demo_pending = demo_ledger\<lparr> intents := [demo_intent ''A'' 125 PENDING, demo_intent ''B'' 119 PENDING,
     demo_intent ''C'' 112 PENDING, demo_intent ''D'' 130 FILLED] \<rparr>"

definition demo_cutover :: "ledger \<Rightarrow> cutover_result result \<times> ledger" where
  "demo_cutover = classify_and_cancel_pending_at_cutover lane_sessions (\<lambda>d. d) 9 120 3 ''CUT1'' False"

definition demo_cut :: cutover_result where
  "demo_cut = \<lparr> cr_cancelled = [''A''], cr_retained = [''B''], cr_expired = [''C''] \<rparr>"

lemma demo_cutover_results:
  "fst (demo_cutover demo_pending) = Inr demo_cut"
  "fst (demo_cutover (snd (demo_cutover demo_pending))) = Inr (projr (fst (demo_cutover (snd (demo_cutover demo_pending)))))"
  "distinct (map intent_id (intents demo_pending))"
  by code_simp+

theorem cutover_is_complete_and_idempotent_witness:
  "map i_status (intents (snd (demo_cutover demo_pending))) =
     [CANCELLED_CUTOVER, PENDING, EXPIRED_RECOVERY_DEADLINE, FILLED]
   \<and> intents (snd (demo_cutover (snd (demo_cutover demo_pending)))) = intents (snd (demo_cutover demo_pending))"
proof -
  let ?l' = "snd (demo_cutover demo_pending)"
  have "classify_and_cancel_pending_at_cutover lane_sessions (\<lambda>d. d) 9 120 3 ''CUT1'' False demo_pending = (Inr demo_cut, ?l')"
    "classify_and_cancel_pending_at_cutover lane_sessions (\<lambda>d. d) 9 120 3 ''CUT1'' False ?l' =
      (Inr (projr (fst (demo_cutover ?l'))), snd (demo_cutover ?l'))"
    using demo_cutover_results(1,2) by (simp_all add: demo_cutover_def prod_eq_iff)
  from cutover_is_complete_and_idempotent [OF this(1) demo_cutover_results(3) this(2)]
  have "intents (snd (demo_cutover ?l')) = intents ?l'" by blast
  moreover have "map i_status (intents ?l') = [CANCELLED_CUTOVER, PENDING, EXPIRED_RECOVERY_DEADLINE, FILLED]" by code_simp
  ultimately show ?thesis by blast
qed

end
