(* ===== verification/Paper_Engine.thy ===== *)
theory Paper_Engine
  imports Py_Num
begin

text \<open>
  \<open>talonx_paper/engine.py\<close> and the enumerations of \<open>talonx_paper/schemas.py\<close>: the pure decisions and the
  arithmetic of the V1 paper-trading engine, intraday and long-term.  Prices and amounts are finite binary64
  numbers; \<open>fl\<close> rounds after each operation.
\<close>

section \<open>Enumerations and messages\<close>

datatype v1_action =
    CONFIRMED_BULLISH
  | CONFIRMED_BEARISH
  | CONTRADICTED
  | DEGRADED_QUANT_ALERT
  | STOP_LOSS_EXIT
  | TAKE_PROFIT_EXIT
  | EOD_FLAT_LIQUIDATION
  | HIGH_CONVICTION_BUY
  | HOLD_QUALITY
  | TAKE_PROFIT_REBALANCE
  | UNDER_PERFORM_REBALANCE
  | DCA_CONTRIBUTION

datatype v1_severity = INFO | WARNING | CRITICAL

fun severity_rank :: "v1_severity \<Rightarrow> nat" where
  "severity_rank INFO = 0"
| "severity_rank WARNING = 1"
| "severity_rank CRITICAL = 2"

record v1_alert =
  va_ticker :: symbol
  va_action :: v1_action
  va_severity :: v1_severity
  va_price :: money
  va_stop :: "money option"
  va_target :: "money option"
  va_at :: stamp

record lt_alert =
  la_ticker :: symbol
  la_action :: v1_action
  la_price :: money
  la_at :: stamp

datatype tick_type = TRADE_TICK | QUOTE_TICK | BAR_TICK

record market_tick =
  mt_type :: tick_type
  mt_symbol :: symbol
  mt_close :: "money option"

section \<open>Intraday decisions\<close>

datatype ignore_reason =
    IG_POSITION_ALREADY_OPEN
  | IG_NO_ACTIVE_POSITION
  | IG_BELOW_MIN_SEVERITY
  | IG_DEGRADED_NOT_TRADABLE
  | IG_FILL_GEOMETRY_INVALID
  | IG_INSUFFICIENT_CASH
  | IG_ACCOUNT_BLOCKED string
  | IG_CASH_AT_EXECUTION money money

datatype trade_decision =
    BUY_DECISION
  | SELL_DECISION
  | IGNORED_DECISION ignore_reason

definition sell_action :: "v1_action \<Rightarrow> bool" where
  "sell_action a \<longleftrightarrow> a = CONFIRMED_BEARISH \<or> a = CONTRADICTED"

text \<open>\<open>None\<close> for an action that is no trading trigger.\<close>

definition decide_trade :: "v1_alert \<Rightarrow> bool \<Rightarrow> trade_decision option" where
  "decide_trade alert holding =
     (if va_action alert = CONFIRMED_BULLISH
      then Some (if holding then IGNORED_DECISION IG_POSITION_ALREADY_OPEN else BUY_DECISION)
      else if sell_action (va_action alert)
      then Some (if holding then SELL_DECISION else IGNORED_DECISION IG_NO_ACTIVE_POSITION)
      else None)"

definition calculate_buy :: "money \<Rightarrow> money \<Rightarrow> money \<Rightarrow> (money \<times> money) option" where
  "calculate_buy cash allocation price =
     (if price \<le> 0 then None
      else let spend = min allocation cash
           in if spend \<le> 0 then None else Some (fl (spend / price), spend))"

definition calculate_sell_pnl :: "money \<Rightarrow> money \<Rightarrow> money \<Rightarrow> money \<times> money" where
  "calculate_sell_pnl shares entry exit =
     (let proceeds = fl (shares * exit); basis = fl (shares * entry)
      in (fl (proceeds - basis), if entry = 0 then 0 else fl (fl (fl (exit - entry) / entry) * 100)))"

datatype exit_trigger = STOP_LOSS | TAKE_PROFIT

definition check_stop_take ::
    "money \<Rightarrow> money \<Rightarrow> money \<Rightarrow> money \<Rightarrow> money option \<Rightarrow> money option \<Rightarrow> exit_trigger option" where
  "check_stop_take entry current stop_loss_pct take_profit_pct stop_price target_price =
     (if entry \<le> 0 then None
      else case (stop_price, target_price) of
        (Some stop, Some target) \<Rightarrow>
          if entry < target
          then (if current \<le> stop then Some STOP_LOSS else if target \<le> current then Some TAKE_PROFIT else None)
          else (if stop \<le> current then Some STOP_LOSS else if current \<le> target then Some TAKE_PROFIT else None)
      | _ \<Rightarrow>
          (let change = fl (fl (current - entry) / entry)
           in if change \<le> - stop_loss_pct then Some STOP_LOSS
              else if take_profit_pct \<le> change then Some TAKE_PROFIT else None))"

datatype side = BUY_SIDE | SELL_SIDE

definition apply_spread :: "money \<Rightarrow> money \<Rightarrow> side \<Rightarrow> money" where
  "apply_spread price spread_bps s =
     (let half = fl (price * fl (fl (spread_bps / 2) / 10000))
      in case s of BUY_SIDE \<Rightarrow> fl (price + half) | SELL_SIDE \<Rightarrow> fl (price - half))"

definition fill_geometry_is_valid :: "money \<Rightarrow> money option \<Rightarrow> money option \<Rightarrow> bool" where
  "fill_geometry_is_valid fill stop_price target_price =
     (case (stop_price, target_price) of
        (Some stop, Some target) \<Rightarrow> stop < fill \<and> fill < target
      | _ \<Rightarrow> True)"

text \<open>
  \<open>wall t\<close> is the New-York wall clock of an instant, in microseconds.  Both operands of the code's final
  subtraction carry the same zone object, so Python subtracts their wall-clock readings.
\<close>

definition day_us :: int where
  "day_us = 86400000000"

definition eod_target_wall :: "(stamp \<Rightarrow> int) \<Rightarrow> stamp \<Rightarrow> int \<Rightarrow> int \<Rightarrow> int" where
  "eod_target_wall wall now hour minute =
     (let w = wall now; target = w div day_us * day_us + (hour * 60 + minute) * 60000000
      in if target \<le> w then target + day_us else target)"

definition us_until_next_eod_flatten :: "(stamp \<Rightarrow> int) \<Rightarrow> stamp \<Rightarrow> int \<Rightarrow> int \<Rightarrow> int" where
  "us_until_next_eod_flatten wall now hour minute = eod_target_wall wall now hour minute - wall now"

section \<open>Long-term decisions\<close>

datatype lt_decision =
    LT_BUY
  | LT_SELL_PARTIAL money
  | LT_SELL_FULL
  | LT_IGNORED ignore_reason

definition decide_long_term_trade :: "lt_alert \<Rightarrow> bool \<Rightarrow> money \<Rightarrow> lt_decision option" where
  "decide_long_term_trade alert holding trim =
     (case la_action alert of
        HIGH_CONVICTION_BUY \<Rightarrow> Some (if holding then LT_IGNORED IG_POSITION_ALREADY_OPEN else LT_BUY)
      | TAKE_PROFIT_REBALANCE \<Rightarrow> Some (if holding then LT_SELL_PARTIAL trim else LT_IGNORED IG_NO_ACTIVE_POSITION)
      | UNDER_PERFORM_REBALANCE \<Rightarrow> Some (if holding then LT_SELL_FULL else LT_IGNORED IG_NO_ACTIVE_POSITION)
      | _ \<Rightarrow> None)"

definition calculate_average_cost_basis :: "money \<Rightarrow> money \<Rightarrow> money \<Rightarrow> money \<Rightarrow> money" where
  "calculate_average_cost_basis shares avg new_shares new_price =
     (let total = fl (shares + new_shares)
      in if total \<le> 0 then new_price
         else fl (fl (fl (shares * avg) + fl (new_shares * new_price)) / total))"

definition calculate_partial_sell_pnl :: "money \<Rightarrow> money \<Rightarrow> money \<Rightarrow> money \<times> money" where
  "calculate_partial_sell_pnl shares avg exit =
     (let proceeds = fl (shares * exit); basis = fl (shares * avg)
      in (fl (proceeds - basis), if avg = 0 then 0 else fl (fl (fl (exit - avg) / avg) * 100)))"

section \<open>Facts\<close>

lemma fl_nonneg: "0 \<le> x \<Longrightarrow> 0 \<le> fl x"
  using f64.rnd_mono [of 0 x] is_float_0 by (simp add: is_float_def)

lemma fl_nonpos: "x \<le> 0 \<Longrightarrow> fl x \<le> 0"
  using f64.rnd_mono [of x 0] is_float_0 by (simp add: is_float_def)

lemma calculate_buyD:
  assumes "calculate_buy cash allocation price = Some (shares, cost)"
  shows "0 < price" "0 < cost" "cost \<le> cash" "cost \<le> allocation" "0 \<le> shares" "shares = fl (cost / price)"
  using assms by (auto simp: calculate_buy_def Let_def not_le split: if_splits intro!: fl_nonneg divide_nonneg_pos)

text \<open>A SELL fill of a non-negative price stays non-negative for a spread of at most 200 percent.\<close>

lemma sell_fill_nonneg:
  assumes "0 \<le> price" "is_float price" "0 \<le> bps" "bps \<le> 20000"
  shows "0 \<le> apply_spread price bps SELL_SIDE"
proof -
  have "fl (bps / 2) \<le> fl 10000" using assms(4) by (intro f64.rnd_mono) simp
  moreover have "fl 10000 = 10000" by code_simp
  ultimately have "fl (fl (bps / 2) / 10000) \<le> fl 1" by (intro f64.rnd_mono) simp
  moreover have "fl 1 = 1" by code_simp
  ultimately have "price * fl (fl (bps / 2) / 10000) \<le> price" using assms(1) mult_left_le by simp
  then have "fl (price * fl (fl (bps / 2) / 10000)) \<le> fl price" by (rule f64.rnd_mono)
  then show ?thesis using assms(2) by (simp add: apply_spread_def Let_def is_float_def fl_nonneg)
qed

text \<open>The sweep is at most a day away, at the configured time of the wall clock.\<close>

lemma eod_wait_bounds:
  assumes "0 \<le> hour" "hour < 24" "0 \<le> minute" "minute < 60"
  shows "0 < us_until_next_eod_flatten wall now hour minute" "us_until_next_eod_flatten wall now hour minute \<le> day_us"
    "eod_target_wall wall now hour minute mod day_us = (hour * 60 + minute) * 60000000"
proof -
  let ?t = "(hour * 60 + minute) * 60000000"
  have t: "0 \<le> ?t" "?t < day_us" using assms by (simp_all add: day_us_def)
  have w: "wall now div day_us * day_us \<le> wall now" "wall now < wall now div day_us * day_us + day_us"
    using pos_mod_bound [of day_us "wall now"] pos_mod_sign [of day_us "wall now"] div_mult_mod_eq [of "wall now" day_us]
    by (simp_all add: day_us_def)
  show "0 < us_until_next_eod_flatten wall now hour minute" "us_until_next_eod_flatten wall now hour minute \<le> day_us"
    unfolding us_until_next_eod_flatten_def eod_target_wall_def Let_def using t w by (simp_all split: if_split)
  show "eod_target_wall wall now hour minute mod day_us = ?t"
    using t by (simp add: eod_target_wall_def Let_def mod_pos_pos_trivial)
qed

end
