(* ===== verification/Core_Decision.thy ===== *)
theory Core_Decision
  imports Paper_Engine
begin

text \<open>
  \<open>talonx_core/decision.py\<close> on the states of \<open>state.py\<close> and the messages of \<open>schemas.py\<close>: the decision matrices
  that turn a ticker's freshest signal and report into an alert.  The actions and severities travel as strings and are those of
  \<open>Paper_Engine\<close>.  Instants and windows are microseconds; \<open>now\<close> is read once and is also the alert's
  \<open>correlated_at\<close>.  Rationales, summaries and findings are left out.
\<close>

section \<open>Messages and states\<close>

datatype signal_direction = DIR_BULLISH | DIR_BEARISH

datatype research_verdict = VERDICT_BULLISH | VERDICT_BEARISH | VERDICT_NEUTRAL | VERDICT_INSUFFICIENT_CONTEXT

record quant_signal =
  qs_ticker :: symbol
  qs_direction :: signal_direction
  qs_price :: money
  qs_stop :: "money option"
  qs_target :: "money option"

record research_report =
  rr_ticker :: symbol
  rr_verdict :: research_verdict
  rr_confidence :: money
  rr_degraded :: bool

record ticker_state =
  tk_signal :: "quant_signal option"
  tk_signal_at :: "stamp option"
  tk_report :: "research_report option"
  tk_report_at :: "stamp option"
  tk_last_at :: "stamp option"
  tk_last_action :: "v1_action option"
  tk_last_price :: "money option"

datatype moat_rating = MOAT_NONE | MOAT_NARROW | MOAT_WIDE

record fundamental_signal =
  fs_ticker :: symbol
  fs_year :: int
  fs_roic :: "money option"
  fs_debt_to_ebitda :: "money option"
  fs_price :: money
  fs_earnings :: bool

record lt_report =
  lr_ticker :: symbol
  lr_moat :: moat_rating
  lr_fair_value :: money
  lr_quality :: int
  lr_earnings :: bool
  lr_degraded :: bool

record lt_state =
  ls_signal :: "fundamental_signal option"
  ls_signal_at :: "stamp option"
  ls_report :: "lt_report option"
  ls_report_at :: "stamp option"
  ls_last_at :: "stamp option"
  ls_last_action :: "v1_action option"
  ls_last_price :: "money option"
  ls_streak :: nat
  ls_streak_year :: "int option"
  ls_previous_moat :: "moat_rating option"
  ls_previous_fair :: "money option"

record core_config =
  cc_min_confidence :: money
  cc_window :: int
  cc_cooldown :: int
  cc_retrigger :: money
  cc_quality_min :: int
  cc_margin_of_safety :: money
  cc_premium :: money
  cc_wacc :: money
  cc_max_debt :: money
  cc_lt_window :: int
  cc_lt_cooldown :: int
  cc_lt_retrigger :: money

record core_alert =
  ac_ticker :: symbol
  ac_action :: v1_action
  ac_severity :: v1_severity
  ac_signal :: quant_signal
  ac_verdict :: research_verdict
  ac_confidence :: money
  ac_degraded :: bool
  ac_at :: stamp

record lt_core_alert =
  al_ticker :: symbol
  al_action :: v1_action
  al_severity :: v1_severity
  al_quality :: int
  al_moat :: moat_rating
  al_price :: money
  al_fair_value :: money
  al_margin :: money
  al_previous_fair :: "money option"
  al_previous_margin :: "money option"
  al_earnings :: bool
  al_at :: stamp

datatype suppression =
    MISSING_PAIR
  | STALE_SIGNAL
  | STALE_REPORT
  | COOLDOWN
  | LOW_CONFIDENCE
  | NEUTRAL_VERDICT
  | NO_STATE_CHANGE
  | DEGRADED_REPORT
  | INVALID_PRICE
  | NO_FAIR_VALUE_ESTIMATE
  | LOW_QUALITY_OR_FAIR_VALUE

section \<open>The intraday matrix\<close>

definition is_fresh :: "stamp option \<Rightarrow> stamp \<Rightarrow> int \<Rightarrow> bool" where
  "is_fresh received now window = (case received of None \<Rightarrow> False | Some t \<Rightarrow> now - t \<le> window)"

definition severity_for :: "v1_action \<Rightarrow> money \<Rightarrow> v1_severity" where
  "severity_for action confidence =
     (if action = DEGRADED_QUANT_ALERT then WARNING
      else if fl (4 / 5) \<le> confidence then CRITICAL
      else if fl (13 / 20) \<le> confidence then WARNING
      else if action = CONTRADICTED then WARNING else INFO)"

definition cooling :: "stamp option \<Rightarrow> stamp \<Rightarrow> int \<Rightarrow> bool" where
  "cooling last_at now cooldown = (case last_at of None \<Rightarrow> False | Some t \<Rightarrow> now - t < cooldown)"

text \<open>The same action as last time at nearly the same price.  The quotient raises for a last price of zero.\<close>

definition unchanged :: "v1_action \<Rightarrow> money \<Rightarrow> v1_action option \<Rightarrow> money option \<Rightarrow> money \<Rightarrow> bool result" where
  "unchanged action price last_action last_price retrigger =
     (case (last_action, last_price) of
        (Some a, Some p) \<Rightarrow>
          if action \<noteq> a then Inr False
          else if p = 0 then Inl ZeroDivisionError
          else Inr (fl (\<bar>fl (price - p)\<bar> / p) < retrigger)
      | _ \<Rightarrow> Inr False)"

definition matrix_action :: "core_config \<Rightarrow> quant_signal \<Rightarrow> research_report \<Rightarrow> suppression + v1_action" where
  "matrix_action cfg signal report =
     (if rr_degraded report then Inr DEGRADED_QUANT_ALERT
      else if rr_confidence report < cc_min_confidence cfg then Inl LOW_CONFIDENCE
      else if rr_verdict report \<noteq> VERDICT_BULLISH \<and> rr_verdict report \<noteq> VERDICT_BEARISH then Inl NEUTRAL_VERDICT
      else if (qs_direction signal = DIR_BULLISH \<and> rr_verdict report = VERDICT_BULLISH)
              \<or> (qs_direction signal = DIR_BEARISH \<and> rr_verdict report = VERDICT_BEARISH)
      then Inr (if qs_direction signal = DIR_BULLISH then CONFIRMED_BULLISH else CONFIRMED_BEARISH)
      else Inr CONTRADICTED)"

definition build_alert :: "quant_signal \<Rightarrow> research_report \<Rightarrow> v1_action \<Rightarrow> stamp \<Rightarrow> core_alert" where
  "build_alert signal report action now =
     \<lparr> ac_ticker = qs_ticker signal, ac_action = action, ac_severity = severity_for action (rr_confidence report),
       ac_signal = signal, ac_verdict = rr_verdict report, ac_confidence = rr_confidence report,
       ac_degraded = rr_degraded report, ac_at = now \<rparr>"

definition evaluate :: "ticker_state \<Rightarrow> core_config \<Rightarrow> stamp \<Rightarrow> (suppression + core_alert) result" where
  "evaluate st cfg now =
     (case (tk_signal st, tk_report st) of
        (Some signal, Some report) \<Rightarrow>
          if \<not> is_fresh (tk_signal_at st) now (cc_window cfg) then Inr (Inl STALE_SIGNAL)
          else if \<not> is_fresh (tk_report_at st) now (cc_window cfg) then Inr (Inl STALE_REPORT)
          else if cooling (tk_last_at st) now (cc_cooldown cfg) then Inr (Inl COOLDOWN)
          else (case matrix_action cfg signal report of
              Inl why \<Rightarrow> Inr (Inl why)
            | Inr action \<Rightarrow>
                bindR (unchanged action (qs_price signal) (tk_last_action st) (tk_last_price st) (cc_retrigger cfg)) (\<lambda>same.
                Inr (if same then Inl NO_STATE_CHANGE else Inr (build_alert signal report action now))))
      | _ \<Rightarrow> Inr (Inl MISSING_PAIR))"

section \<open>The long-term matrix\<close>

fun moat_rank :: "moat_rating \<Rightarrow> nat" where
  "moat_rank MOAT_NONE = 0"
| "moat_rank MOAT_NARROW = 1"
| "moat_rank MOAT_WIDE = 2"

definition severity_for_long_term :: "v1_action \<Rightarrow> v1_severity" where
  "severity_for_long_term action =
     (if action = HIGH_CONVICTION_BUY \<or> action = UNDER_PERFORM_REBALANCE then CRITICAL
      else if action = TAKE_PROFIT_REBALANCE then WARNING else INFO)"

definition fundamental_stop :: "core_config \<Rightarrow> fundamental_signal \<Rightarrow> lt_report \<Rightarrow> lt_state \<Rightarrow> bool" where
  "fundamental_stop cfg signal report st \<longleftrightarrow>
     2 \<le> ls_streak st
     \<or> (case fs_debt_to_ebitda signal of None \<Rightarrow> False | Some d \<Rightarrow> cc_max_debt cfg < d)
     \<or> (case ls_previous_moat st of None \<Rightarrow> False | Some m \<Rightarrow> moat_rank (lr_moat report) < moat_rank m)"

definition lt_matrix_action :: "core_config \<Rightarrow> fundamental_signal \<Rightarrow> lt_report \<Rightarrow> lt_state \<Rightarrow> suppression + v1_action" where
  "lt_matrix_action cfg signal report st =
     (let fair = lr_fair_value report; price = fs_price signal;
          rich = fl (fl (1 + cc_premium cfg) * fair); cheap = fl (fl (1 - cc_margin_of_safety cfg) * fair);
          good = cc_quality_min cfg \<le> lr_quality report
      in if fundamental_stop cfg signal report st then Inr UNDER_PERFORM_REBALANCE
         else if fair \<le> 0 then Inl NO_FAIR_VALUE_ESTIMATE
         else if rich < price then Inr TAKE_PROFIT_REBALANCE
         else if good \<and> (lr_moat report = MOAT_WIDE \<or> lr_moat report = MOAT_NARROW) \<and> price \<le> cheap then Inr HIGH_CONVICTION_BUY
         else if good \<and> cheap < price then Inr HOLD_QUALITY
         else Inl LOW_QUALITY_OR_FAIR_VALUE)"

definition margin_of_safety :: "money \<Rightarrow> money \<Rightarrow> money" where
  "margin_of_safety fair price = (if 0 < fair then fl (fl (fair - price) / fair) else 0)"

definition build_lt_alert :: "fundamental_signal \<Rightarrow> lt_report \<Rightarrow> lt_state \<Rightarrow> v1_action \<Rightarrow> stamp \<Rightarrow> lt_core_alert" where
  "build_lt_alert signal report st action now =
     \<lparr> al_ticker = fs_ticker signal, al_action = action, al_severity = severity_for_long_term action,
       al_quality = lr_quality report, al_moat = lr_moat report, al_price = fs_price signal,
       al_fair_value = lr_fair_value report, al_margin = margin_of_safety (lr_fair_value report) (fs_price signal),
       al_previous_fair = ls_previous_fair st,
       al_previous_margin = (case (ls_previous_fair st, ls_last_price st) of
           (Some f, Some p) \<Rightarrow> if 0 < f then Some (fl (fl (f - p) / f)) else None
         | _ \<Rightarrow> None),
       al_earnings = (fs_earnings signal \<or> lr_earnings report), al_at = now \<rparr>"

definition evaluate_long_term :: "lt_state \<Rightarrow> core_config \<Rightarrow> stamp \<Rightarrow> (suppression + lt_core_alert) result" where
  "evaluate_long_term st cfg now =
     (case (ls_signal st, ls_report st) of
        (Some signal, Some report) \<Rightarrow>
          let earnings = fs_earnings signal \<or> lr_earnings report
          in if \<not> is_fresh (ls_signal_at st) now (cc_lt_window cfg) then Inr (Inl STALE_SIGNAL)
             else if \<not> is_fresh (ls_report_at st) now (cc_lt_window cfg) then Inr (Inl STALE_REPORT)
             else if \<not> earnings \<and> cooling (ls_last_at st) now (cc_lt_cooldown cfg) then Inr (Inl COOLDOWN)
             else if lr_degraded report then Inr (Inl DEGRADED_REPORT)
             else if fs_price signal \<le> 0 then Inr (Inl INVALID_PRICE)
             else (case lt_matrix_action cfg signal report st of
                 Inl why \<Rightarrow> Inr (Inl why)
               | Inr action \<Rightarrow>
                   bindR (if earnings then Inr False
                          else unchanged action (fs_price signal) (ls_last_action st) (ls_last_price st) (cc_lt_retrigger cfg)) (\<lambda>same.
                   Inr (if same then Inl NO_STATE_CHANGE else Inr (build_lt_alert signal report st action now))))
      | _ \<Rightarrow> Inr (Inl MISSING_PAIR))"

section \<open>What an alert means\<close>

lemma evaluate_alert:
  assumes "evaluate st cfg now = Inr (Inr a)"
  obtains signal report action where "tk_signal st = Some signal" "tk_report st = Some report"
    "is_fresh (tk_signal_at st) now (cc_window cfg)" "is_fresh (tk_report_at st) now (cc_window cfg)"
    "\<not> cooling (tk_last_at st) now (cc_cooldown cfg)" "matrix_action cfg signal report = Inr action"
    "unchanged action (qs_price signal) (tk_last_action st) (tk_last_price st) (cc_retrigger cfg) = Inr False"
    "a = build_alert signal report action now"
  using assms by (auto simp: evaluate_def bindR_Inr_iff split: option.splits if_splits sum.splits)

lemma evaluate_long_term_alert:
  assumes "evaluate_long_term st cfg now = Inr (Inr a)"
  obtains signal report action where "ls_signal st = Some signal" "ls_report st = Some report"
    "is_fresh (ls_signal_at st) now (cc_lt_window cfg)" "is_fresh (ls_report_at st) now (cc_lt_window cfg)"
    "\<not> lr_degraded report" "0 < fs_price signal" "lt_matrix_action cfg signal report st = Inr action"
    "fs_earnings signal \<or> lr_earnings report \<or> (\<not> cooling (ls_last_at st) now (cc_lt_cooldown cfg)
       \<and> unchanged action (fs_price signal) (ls_last_action st) (ls_last_price st) (cc_lt_retrigger cfg) = Inr False)"
    "a = build_lt_alert signal report st action now"
  using assms
  by (auto simp: evaluate_long_term_def Let_def bindR_Inr_iff not_le split: option.splits if_splits sum.splits)

text \<open>Only a last price of zero makes an evaluation raise.\<close>

lemma bindR_Inl_iff: "bindR r f = Inl e \<longleftrightarrow> r = Inl e \<or> (\<exists>x. r = Inr x \<and> f x = Inl e)"
  by (cases r) auto

lemma unchanged_Inl: "unchanged action price last_action last_price retrigger = Inl e \<Longrightarrow> last_price = Some 0 \<and> e = ZeroDivisionError"
  by (auto simp: unchanged_def split: option.splits if_splits)

lemma evaluate_Inl: "evaluate st cfg now = Inl e \<Longrightarrow> tk_last_price st = Some 0 \<and> e = ZeroDivisionError"
  by (auto simp: evaluate_def bindR_Inl_iff dest: unchanged_Inl split: option.splits if_splits sum.splits)

lemma evaluate_long_term_Inl: "evaluate_long_term st cfg now = Inl e \<Longrightarrow> ls_last_price st = Some 0"
  by (auto simp: evaluate_long_term_def Let_def bindR_Inl_iff dest: unchanged_Inl split: option.splits if_splits sum.splits)

text \<open>The matrix, read backwards.\<close>

lemma matrix_action_iff:
  "matrix_action cfg signal report = Inr action \<longleftrightarrow>
     (if rr_degraded report then action = DEGRADED_QUANT_ALERT
      else cc_min_confidence cfg \<le> rr_confidence report \<and>
        (case (qs_direction signal, rr_verdict report) of
           (DIR_BULLISH, VERDICT_BULLISH) \<Rightarrow> action = CONFIRMED_BULLISH
         | (DIR_BEARISH, VERDICT_BEARISH) \<Rightarrow> action = CONFIRMED_BEARISH
         | (DIR_BULLISH, VERDICT_BEARISH) \<Rightarrow> action = CONTRADICTED
         | (DIR_BEARISH, VERDICT_BULLISH) \<Rightarrow> action = CONTRADICTED
         | _ \<Rightarrow> False))"
  by (cases "qs_direction signal"; cases "rr_verdict report") (auto simp: matrix_action_def)

end
