(* ===== verification/Paper_Ledger.thy ===== *)
theory Paper_Ledger
  imports Paper_Engine Account_Blocks
begin

text \<open>
  \<open>talonx_paper/store.py\<close>: the SQLite ledger of the V1 paper engine, intraday and long-term.  Each table is
  a list of rows, each singleton row a record.  A method runs on one connection: a statement that raises
  leaves the statements before it in the open transaction, which the next \<open>commit\<close> makes durable, so a
  method returns its result beside the ledger its connection sees afterwards.  The execution messages carry
  what the row inserted last holds; file handling, migrations and WAL checkpoints are left out.
\<close>

section \<open>Tables\<close>

record portfolio =
  pf_initial :: money
  pf_cash :: money
  pf_allocation :: money
  pf_pnl :: money
  pf_wins :: nat
  pf_losses :: nat

record v1_position =
  vp_ticker :: symbol
  vp_shares :: money
  vp_entry :: money
  vp_at :: stamp
  vp_cost :: money
  vp_stop :: "money option"
  vp_target :: "money option"

datatype order_type = BUY_ORDER | SELL_ORDER

record v1_trade =
  vt_id :: nat
  vt_ticker :: symbol
  vt_order :: order_type
  vt_price :: money
  vt_shares :: money
  vt_cost :: money
  vt_entry :: "money option"
  vt_pnl_usd :: "money option"
  vt_pnl_pct :: "money option"
  vt_exit_reason :: "v1_action option"
  vt_holding :: "int option"
  vt_cash_after :: money
  vt_at :: stamp

datatype horizon = INTRADAY | LONG_TERM

record ignored_row =
  ig_ticker :: symbol
  ig_reason :: ignore_reason
  ig_action :: v1_action
  ig_price :: money
  ig_horizon :: horizon
  ig_at :: stamp

record price_tag =
  lp_ticker :: symbol
  lp_price :: money
  lp_at :: stamp

record lt_portfolio =
  lf_initial :: money
  lf_cash :: money
  lf_dca :: money
  lf_pnl :: money
  lf_wins :: nat
  lf_losses :: nat
  lf_last_dca :: "stamp option"

record lt_position =
  lpos_ticker :: symbol
  lpos_shares :: money
  lpos_avg :: money
  lpos_first :: stamp
  lpos_contributed :: money

datatype lt_order = LT_BUY_ORDER | LT_SELL_ORDER | LT_DCA_ORDER

record lt_trade =
  lt_id :: nat
  lt_ticker :: symbol
  lt_order :: lt_order
  lt_price :: money
  lt_shares :: money
  lt_amount :: money
  lt_avg_after :: "money option"
  lt_shares_after :: "money option"
  lt_pnl_usd :: "money option"
  lt_pnl_pct :: "money option"
  lt_holding_days :: "int option"
  lt_cash_after :: money
  lt_action :: v1_action
  lt_at :: stamp

record paper_ledger =
  v_portfolio :: portfolio
  v_positions :: "v1_position list"
  v_trades :: "v1_trade list"
  v_seq :: nat
  v_ignored :: "ignored_row list"
  v_prices :: "price_tag list"
  l_portfolio :: lt_portfolio
  l_positions :: "lt_position list"
  l_trades :: "lt_trade list"
  l_seq :: nat
  v_blocks :: block_tables

definition ORIGINAL_INTRADAY :: string where
  "ORIGINAL_INTRADAY = ''ORIGINAL_INTRADAY''"

definition ORIGINAL_LONGTERM :: string where
  "ORIGINAL_LONGTERM = ''ORIGINAL_LONGTERM''"

text \<open>A new database file: \<open>_ensure_portfolio_row\<close> and \<open>_ensure_long_term_portfolio_row\<close>.\<close>

definition fresh_paper :: "money \<Rightarrow> money \<Rightarrow> money \<Rightarrow> money \<Rightarrow> paper_ledger" where
  "fresh_paper balance allocation lt_balance dca =
     \<lparr> v_portfolio = \<lparr> pf_initial = balance, pf_cash = balance, pf_allocation = allocation, pf_pnl = 0, pf_wins = 0, pf_losses = 0 \<rparr>,
       v_positions = [], v_trades = [], v_seq = 0, v_ignored = [], v_prices = [],
       l_portfolio = \<lparr> lf_initial = lt_balance, lf_cash = lt_balance, lf_dca = dca, lf_pnl = 0, lf_wins = 0, lf_losses = 0,
                        lf_last_dca = None \<rparr>,
       l_positions = [], l_trades = [], l_seq = 0,
       v_blocks = \<lparr> account_blocks = [], block_clearances = [] \<rparr> \<rparr>"

section \<open>Reading\<close>

definition get_position :: "paper_ledger \<Rightarrow> symbol \<Rightarrow> v1_position option" where
  "get_position l ticker = row_by vp_ticker (upper ticker) (v_positions l)"

definition get_open_positions :: "paper_ledger \<Rightarrow> v1_position list" where
  "get_open_positions l = sort_key vp_ticker (v_positions l)"

definition latest_price :: "paper_ledger \<Rightarrow> symbol \<Rightarrow> money option" where
  "latest_price l ticker = map_option lp_price (row_by lp_ticker ticker (v_prices l))"

definition get_long_term_position :: "paper_ledger \<Rightarrow> symbol \<Rightarrow> lt_position option" where
  "get_long_term_position l ticker = row_by lpos_ticker (upper ticker) (l_positions l)"

definition get_open_long_term_positions :: "paper_ledger \<Rightarrow> lt_position list" where
  "get_open_long_term_positions l = sort_key lpos_ticker (l_positions l)"

text \<open>The derived percentages of \<open>get_portfolio_summary\<close> and its long-term twin.\<close>

definition pnl_pct :: "money \<Rightarrow> money \<Rightarrow> money" where
  "pnl_pct pnl initial = (if initial = 0 then 0 else fl (fl (pnl / initial) * 100))"

definition win_rate_pct :: "nat \<Rightarrow> nat \<Rightarrow> money" where
  "win_rate_pct wins losses =
     (if wins + losses = 0 then 0 else fl (fl (of_nat wins / of_nat (wins + losses)) * 100))"

section \<open>Writing\<close>

definition record_ignored ::
    "symbol \<Rightarrow> ignore_reason \<Rightarrow> v1_action \<Rightarrow> money \<Rightarrow> stamp \<Rightarrow> horizon \<Rightarrow> paper_ledger \<Rightarrow> paper_ledger" where
  "record_ignored ticker reason action price at_ts h l =
     l\<lparr> v_ignored := v_ignored l @ [\<lparr> ig_ticker = upper ticker, ig_reason = reason, ig_action = action, ig_price = price,
                                       ig_horizon = h, ig_at = at_ts \<rparr>] \<rparr>"

definition update_latest_price :: "symbol \<Rightarrow> money \<Rightarrow> stamp \<Rightarrow> paper_ledger \<Rightarrow> paper_ledger" where
  "update_latest_price ticker price at_ts l =
     l\<lparr> v_prices := upsert_row lp_ticker \<lparr> lp_ticker = upper ticker, lp_price = price, lp_at = at_ts \<rparr>
          (\<lambda>r. r\<lparr> lp_price := price, lp_at := at_ts \<rparr>) (v_prices l) \<rparr>"

definition update_trade_allocation :: "money \<Rightarrow> paper_ledger \<Rightarrow> paper_ledger" where
  "update_trade_allocation amount l = l\<lparr> v_portfolio := (v_portfolio l)\<lparr> pf_allocation := amount \<rparr> \<rparr>"

definition reset_portfolio :: "money \<Rightarrow> money \<Rightarrow> paper_ledger \<Rightarrow> paper_ledger" where
  "reset_portfolio balance allocation l =
     l\<lparr> v_positions := [], v_trades := [],
        v_portfolio := \<lparr> pf_initial = balance, pf_cash = balance, pf_allocation = allocation, pf_pnl = 0,
                          pf_wins = 0, pf_losses = 0 \<rparr> \<rparr>"

definition update_dca_contribution_amount :: "money \<Rightarrow> paper_ledger \<Rightarrow> paper_ledger" where
  "update_dca_contribution_amount amount l = l\<lparr> l_portfolio := (l_portfolio l)\<lparr> lf_dca := amount \<rparr> \<rparr>"

definition set_last_dca_at :: "stamp \<Rightarrow> paper_ledger \<Rightarrow> paper_ledger" where
  "set_last_dca_at at_ts l = l\<lparr> l_portfolio := (l_portfolio l)\<lparr> lf_last_dca := Some at_ts \<rparr> \<rparr>"

definition reset_long_term_portfolio :: "money \<Rightarrow> money \<Rightarrow> paper_ledger \<Rightarrow> paper_ledger" where
  "reset_long_term_portfolio balance dca l =
     l\<lparr> l_positions := [], l_trades := [],
        l_portfolio := \<lparr> lf_initial = balance, lf_cash = balance, lf_dca = dca, lf_pnl = 0, lf_wins = 0, lf_losses = 0,
                          lf_last_dca = None \<rparr> \<rparr>"

definition paper_blocked :: "paper_ledger \<Rightarrow> string \<Rightarrow> string option" where
  "paper_blocked l account = blocked_reason (v_blocks l) account"

definition paper_record_block ::
    "(string \<Rightarrow> string) \<Rightarrow> stamp \<Rightarrow> string \<Rightarrow> string \<Rightarrow> string \<Rightarrow> string \<Rightarrow> paper_ledger \<Rightarrow> (string \<times> paper_ledger) result" where
  "paper_record_block sha now account reason ref detail l =
     bindR (record_block sha now account reason ref detail (v_blocks l)) (\<lambda>(bid, t). Inr (bid, l\<lparr> v_blocks := t \<rparr>))"

definition paper_clear_block ::
    "(string \<Rightarrow> string) \<Rightarrow> stamp \<Rightarrow> string \<Rightarrow> string \<Rightarrow> string \<Rightarrow> string \<Rightarrow> bool \<Rightarrow> string \<Rightarrow> paper_ledger
       \<Rightarrow> (clearance \<times> paper_ledger) result" where
  "paper_clear_block sha now bid operator reason evidence allow detail l =
     bindR (attempt_clearance sha now bid operator reason evidence allow detail (v_blocks l)) (\<lambda>(c, t). Inr (c, l\<lparr> v_blocks := t \<rparr>))"

text \<open>\<open>cost > current_cash + 1e-6\<close>\<close>

definition beyond_cash :: "money \<Rightarrow> money \<Rightarrow> bool" where
  "beyond_cash cost cash \<longleftrightarrow> fl (cash + fl (1 / 1000000)) < cost"

text \<open>
  \<open>execute_buy\<close>.  The UPDATE of the cash precedes the INSERT of the position: for a ticker that is already
  open the INSERT violates the primary key, and the debit stays in the open transaction.
\<close>

definition execute_buy ::
    "symbol \<Rightarrow> money \<Rightarrow> money \<Rightarrow> money \<Rightarrow> stamp \<Rightarrow> money option \<Rightarrow> money option \<Rightarrow> paper_ledger
       \<Rightarrow> v1_trade option result \<times> paper_ledger" where
  "execute_buy ticker0 shares price cost at_ts stop target l =
     (let ticker = upper ticker0; cash = pf_cash (v_portfolio l)
      in case paper_blocked l ORIGINAL_INTRADAY of
        Some br \<Rightarrow> (Inr None, record_ignored ticker (IG_ACCOUNT_BLOCKED br) CONFIRMED_BULLISH price at_ts INTRADAY l)
      | None \<Rightarrow>
          if beyond_cash cost cash
          then (Inr None, record_ignored ticker (IG_CASH_AT_EXECUTION cost cash) CONFIRMED_BULLISH price at_ts INTRADAY l)
          else
            let new_cash = fl (cash - cost); l1 = l\<lparr> v_portfolio := (v_portfolio l)\<lparr> pf_cash := new_cash \<rparr> \<rparr>
            in if ticker \<in> vp_ticker ` set (v_positions l1) then (Inl IntegrityError, l1)
               else
                 let trade = \<lparr> vt_id = Suc (v_seq l1), vt_ticker = ticker, vt_order = BUY_ORDER, vt_price = price, vt_shares = shares,
                         vt_cost = cost, vt_entry = None, vt_pnl_usd = None, vt_pnl_pct = None, vt_exit_reason = None,
                         vt_holding = None, vt_cash_after = new_cash, vt_at = at_ts \<rparr>
                 in (Inr (Some trade),
                     l1\<lparr> v_positions := v_positions l1 @ [\<lparr> vp_ticker = ticker, vp_shares = shares, vp_entry = price, vp_at = at_ts,
                                                            vp_cost = cost, vp_stop = stop, vp_target = target \<rparr>],
                         v_trades := v_trades l1 @ [trade], v_seq := Suc (v_seq l1) \<rparr>))"

definition execute_sell ::
    "symbol \<Rightarrow> money \<Rightarrow> stamp \<Rightarrow> v1_action \<Rightarrow> paper_ledger \<Rightarrow> v1_trade option \<times> paper_ledger" where
  "execute_sell ticker0 exit_price at_ts action l =
     (let ticker = upper ticker0; pf = v_portfolio l
      in case row_by vp_ticker ticker (v_positions l) of
        None \<Rightarrow> (None, l)
      | Some p \<Rightarrow>
          let proceeds = fl (vp_shares p * exit_price); (usd, pct) = calculate_sell_pnl (vp_shares p) (vp_entry p) exit_price;
              win = 0 < usd; new_cash = fl (pf_cash pf + proceeds);
              trade = \<lparr> vt_id = Suc (v_seq l), vt_ticker = ticker, vt_order = SELL_ORDER, vt_price = exit_price, vt_shares = vp_shares p,
                        vt_cost = vp_cost p, vt_entry = Some (vp_entry p), vt_pnl_usd = Some usd, vt_pnl_pct = Some pct,
                        vt_exit_reason = Some action, vt_holding = Some (at_ts - vp_at p), vt_cash_after = new_cash, vt_at = at_ts \<rparr>
          in (Some trade,
              l\<lparr> v_portfolio := pf\<lparr> pf_cash := new_cash, pf_pnl := fl (pf_pnl pf + usd),
                                    pf_wins := pf_wins pf + (if win then 1 else 0), pf_losses := pf_losses pf + (if win then 0 else 1) \<rparr>,
                 v_positions := filter (\<lambda>q. vp_ticker q \<noteq> ticker) (v_positions l),
                 v_trades := v_trades l @ [trade], v_seq := Suc (v_seq l) \<rparr>))"

section \<open>Long-term executions\<close>

definition lt_append :: "lt_trade \<Rightarrow> paper_ledger \<Rightarrow> paper_ledger" where
  "lt_append t l = l\<lparr> l_trades := l_trades l @ [t], l_seq := lt_id t \<rparr>"

definition execute_long_term_buy ::
    "symbol \<Rightarrow> money \<Rightarrow> money \<Rightarrow> money \<Rightarrow> stamp \<Rightarrow> paper_ledger \<Rightarrow> lt_trade option result \<times> paper_ledger" where
  "execute_long_term_buy ticker0 shares price cost at_ts l =
     (let ticker = upper ticker0; cash = lf_cash (l_portfolio l)
      in case paper_blocked l ORIGINAL_LONGTERM of
        Some br \<Rightarrow> (Inr None, record_ignored ticker (IG_ACCOUNT_BLOCKED br) HIGH_CONVICTION_BUY price at_ts LONG_TERM l)
      | None \<Rightarrow>
          if beyond_cash cost cash
          then (Inr None, record_ignored ticker (IG_CASH_AT_EXECUTION cost cash) HIGH_CONVICTION_BUY price at_ts LONG_TERM l)
          else
            let new_cash = fl (cash - cost); l1 = l\<lparr> l_portfolio := (l_portfolio l)\<lparr> lf_cash := new_cash \<rparr> \<rparr>
            in if ticker \<in> lpos_ticker ` set (l_positions l1) then (Inl IntegrityError, l1)
               else
                 let trade = \<lparr> lt_id = Suc (l_seq l1), lt_ticker = ticker, lt_order = LT_BUY_ORDER, lt_price = price, lt_shares = shares,
                         lt_amount = cost, lt_avg_after = Some price, lt_shares_after = Some shares, lt_pnl_usd = None,
                         lt_pnl_pct = None, lt_holding_days = None, lt_cash_after = new_cash, lt_action = HIGH_CONVICTION_BUY,
                         lt_at = at_ts \<rparr>
                 in (Inr (Some trade),
                     lt_append trade (l1\<lparr> l_positions := l_positions l1 @ [\<lparr> lpos_ticker = ticker, lpos_shares = shares, lpos_avg = price,
                                                                       lpos_first = at_ts, lpos_contributed = cost \<rparr>] \<rparr>)))"

definition execute_dca_contribution ::
    "symbol \<Rightarrow> money \<Rightarrow> money \<Rightarrow> stamp \<Rightarrow> paper_ledger \<Rightarrow> lt_trade option \<times> paper_ledger" where
  "execute_dca_contribution ticker0 contribution price at_ts l =
     (let ticker = upper ticker0; cash = lf_cash (l_portfolio l)
      in case paper_blocked l ORIGINAL_LONGTERM of
        Some br \<Rightarrow> (None, record_ignored ticker (IG_ACCOUNT_BLOCKED br) DCA_CONTRIBUTION price at_ts LONG_TERM l)
      | None \<Rightarrow> (case row_by lpos_ticker ticker (l_positions l) of
          None \<Rightarrow> (None, l)
        | Some p \<Rightarrow>
            if price \<le> 0 \<or> contribution \<le> 0 then (None, l)
            else if beyond_cash contribution cash
            then (None, record_ignored ticker (IG_CASH_AT_EXECUTION contribution cash) DCA_CONTRIBUTION price at_ts LONG_TERM l)
            else
              let new_shares = fl (contribution / price); total = fl (lpos_shares p + new_shares);
                  avg = calculate_average_cost_basis (lpos_shares p) (lpos_avg p) new_shares price;
                  new_cash = fl (cash - contribution);
                  trade = \<lparr> lt_id = Suc (l_seq l), lt_ticker = ticker, lt_order = LT_DCA_ORDER, lt_price = price, lt_shares = new_shares,
                         lt_amount = contribution, lt_avg_after = Some avg, lt_shares_after = Some total, lt_pnl_usd = None,
                         lt_pnl_pct = None, lt_holding_days = None, lt_cash_after = new_cash, lt_action = DCA_CONTRIBUTION, lt_at = at_ts \<rparr>
              in (Some trade,
                  lt_append trade (l\<lparr> l_portfolio := (l_portfolio l)\<lparr> lf_cash := new_cash \<rparr>,
                    l_positions := update_rows (\<lambda>q. lpos_ticker q = ticker)
                      (\<lambda>q. q\<lparr> lpos_shares := total, lpos_avg := avg, lpos_contributed := fl (lpos_contributed p + contribution) \<rparr>)
                      (l_positions l) \<rparr>))))"

text \<open>The fraction is clamped to \<open>[0, 1]\<close>; a rest of at most \<open>1e-9\<close> shares is a full exit.\<close>

definition clamp_fraction :: "money \<Rightarrow> money" where
  "clamp_fraction t = min (max t 0) 1"

definition execute_long_term_sell ::
    "symbol \<Rightarrow> money \<Rightarrow> money \<Rightarrow> stamp \<Rightarrow> v1_action \<Rightarrow> paper_ledger \<Rightarrow> lt_trade option \<times> paper_ledger" where
  "execute_long_term_sell ticker0 trim exit_price at_ts action l =
     (let ticker = upper ticker0; pf = l_portfolio l
      in case row_by lpos_ticker ticker (l_positions l) of
        None \<Rightarrow> (None, l)
      | Some p \<Rightarrow>
          let sold = fl (lpos_shares p * clamp_fraction trim); remaining = fl (lpos_shares p - sold);
              full = remaining \<le> fl (1 / 1000000000); proceeds = fl (sold * exit_price);
              (usd, pct) = calculate_partial_sell_pnl sold (lpos_avg p) exit_price;
              win = 0 < usd; new_cash = fl (lf_cash pf + proceeds);
              trade = \<lparr> lt_id = Suc (l_seq l), lt_ticker = ticker, lt_order = LT_SELL_ORDER, lt_price = exit_price, lt_shares = sold,
                        lt_amount = proceeds, lt_avg_after = (if full then None else Some (lpos_avg p)),
                        lt_shares_after = (if full then None else Some remaining), lt_pnl_usd = Some usd, lt_pnl_pct = Some pct,
                        lt_holding_days = Some ((at_ts - lpos_first p) div day_us), lt_cash_after = new_cash, lt_action = action,
                        lt_at = at_ts \<rparr>
          in (Some trade,
              lt_append trade (l\<lparr> l_portfolio := pf\<lparr> lf_cash := new_cash, lf_pnl := fl (lf_pnl pf + usd),
                     lf_wins := lf_wins pf + (if win then 1 else 0), lf_losses := lf_losses pf + (if win then 0 else 1) \<rparr>,
                   l_positions := (if full then filter (\<lambda>q. lpos_ticker q \<noteq> ticker) (l_positions l)
                      else update_rows (\<lambda>q. lpos_ticker q = ticker) (\<lambda>q. q\<lparr> lpos_shares := remaining \<rparr>) (l_positions l)) \<rparr>)))"

section \<open>The history determines the book\<close>

text \<open>Replaying the intraday trade log: each BUY opens its ticker, each SELL closes it.\<close>

definition opened_by :: "v1_trade \<Rightarrow> symbol \<times> money \<times> money \<times> money \<times> stamp" where
  "opened_by t = (vt_ticker t, vt_shares t, vt_price t, vt_cost t, vt_at t)"

definition holding_of :: "v1_position \<Rightarrow> symbol \<times> money \<times> money \<times> money \<times> stamp" where
  "holding_of p = (vp_ticker p, vp_shares p, vp_entry p, vp_cost p, vp_at p)"

definition replay_trade :: "v1_trade \<Rightarrow> (symbol \<times> money \<times> money \<times> money \<times> stamp) list \<Rightarrow> (symbol \<times> money \<times> money \<times> money \<times> stamp) list" where
  "replay_trade t hs = (case vt_order t of
     BUY_ORDER \<Rightarrow> hs @ [opened_by t]
   | SELL_ORDER \<Rightarrow> filter (\<lambda>h. fst h \<noteq> vt_ticker t) hs)"

definition replayed :: "v1_trade list \<Rightarrow> (symbol \<times> money \<times> money \<times> money \<times> stamp) list" where
  "replayed ts = fold replay_trade ts []"

text \<open>Cash, realized profit and the win and loss counts as running totals of the log.\<close>

definition cash_of :: "money \<Rightarrow> v1_trade list \<Rightarrow> money" where
  "cash_of initial ts = fold (\<lambda>t c. fl (case vt_order t of BUY_ORDER \<Rightarrow> c - vt_cost t | SELL_ORDER \<Rightarrow> c + fl (vt_shares t * vt_price t)))
     ts initial"

definition pnl_of :: "v1_trade list \<Rightarrow> money" where
  "pnl_of ts = fold (\<lambda>t c. case vt_pnl_usd t of None \<Rightarrow> c | Some u \<Rightarrow> fl (c + u)) ts 0"

definition closes :: "v1_trade list \<Rightarrow> v1_trade list" where
  "closes ts = filter (\<lambda>t. vt_order t = SELL_ORDER) ts"

definition winning :: "v1_trade \<Rightarrow> bool" where
  "winning t \<longleftrightarrow> (case vt_pnl_usd t of None \<Rightarrow> False | Some u \<Rightarrow> 0 < u)"

text \<open>The invariant of the intraday book.\<close>

definition book_follows :: "paper_ledger \<Rightarrow> bool" where
  "book_follows l \<longleftrightarrow> (let pf = v_portfolio l; ts = v_trades l in
     map holding_of (v_positions l) = replayed ts \<and> pf_cash pf = cash_of (pf_initial pf) ts \<and> pf_pnl pf = pnl_of ts
     \<and> pf_wins pf = length (filter winning (closes ts)) \<and> pf_losses pf = length (filter (\<lambda>t. \<not> winning t) (closes ts))
     \<and> sorted_wrt (<) (map vt_id ts) \<and> (\<forall>t \<in> set ts. vt_id t \<le> v_seq l))"

definition brackets_hold :: "paper_ledger \<Rightarrow> bool" where
  "brackets_hold l \<longleftrightarrow> (\<forall>p \<in> set (v_positions l). fill_geometry_is_valid (vp_entry p) (vp_stop p) (vp_target p))"

definition book_well_formed :: "paper_ledger \<Rightarrow> bool" where
  "book_well_formed l \<longleftrightarrow> distinct (map vp_ticker (v_positions l)) \<and> (\<forall>p \<in> set (v_positions l). upper (vp_ticker p) = vp_ticker p
     \<and> 0 < vp_entry p \<and> 0 \<le> vp_shares p)"

lemma fresh_paper_ok: "book_follows (fresh_paper b a lb d) \<and> brackets_hold (fresh_paper b a lb d) \<and> book_well_formed (fresh_paper b a lb d)"
  by (simp add: fresh_paper_def book_follows_def brackets_hold_def book_well_formed_def replayed_def cash_of_def pnl_of_def closes_def)

lemma reset_portfolio_ok: "book_follows (reset_portfolio b a l) \<and> brackets_hold (reset_portfolio b a l) \<and> book_well_formed (reset_portfolio b a l)"
  by (simp add: reset_portfolio_def book_follows_def brackets_hold_def book_well_formed_def replayed_def cash_of_def pnl_of_def closes_def)

text \<open>The ledger a BUY or a SELL that executed leaves.\<close>

lemma execute_buyE:
  assumes "execute_buy ticker shares price cost at_ts stop target l = (r, l')"
  obtains (refused) why where "r = Inr None" "l' = record_ignored (upper ticker) why CONFIRMED_BULLISH price at_ts INTRADAY l"
  | (duplicate) "r = Inl IntegrityError" "upper ticker \<in> vp_ticker ` set (v_positions l)"
      "l' = l\<lparr> v_portfolio := (v_portfolio l)\<lparr> pf_cash := fl (pf_cash (v_portfolio l) - cost) \<rparr> \<rparr>"
  | (bought) t where "r = Inr (Some t)" "paper_blocked l ORIGINAL_INTRADAY = None" "\<not> beyond_cash cost (pf_cash (v_portfolio l))"
      "upper ticker \<notin> vp_ticker ` set (v_positions l)"
      "t = \<lparr> vt_id = Suc (v_seq l), vt_ticker = upper ticker, vt_order = BUY_ORDER, vt_price = price, vt_shares = shares,
           vt_cost = cost, vt_entry = None, vt_pnl_usd = None, vt_pnl_pct = None, vt_exit_reason = None,
           vt_holding = None, vt_cash_after = fl (pf_cash (v_portfolio l) - cost), vt_at = at_ts \<rparr>"
      "l' = l\<lparr> v_portfolio := (v_portfolio l)\<lparr> pf_cash := fl (pf_cash (v_portfolio l) - cost) \<rparr>,
               v_positions := v_positions l @ [\<lparr> vp_ticker = upper ticker, vp_shares = shares, vp_entry = price, vp_at = at_ts,
                                                vp_cost = cost, vp_stop = stop, vp_target = target \<rparr>],
               v_trades := v_trades l @ [t], v_seq := Suc (v_seq l) \<rparr>"
  using assms by (auto simp: execute_buy_def Let_def split: option.splits if_splits)

lemma execute_sellE:
  assumes "execute_sell ticker price at_ts action l = (r, l')"
  obtains (flat) "r = None" "l' = l" "upper ticker \<notin> vp_ticker ` set (v_positions l)"
  | (sold) p t usd pct where "r = Some t" "p \<in> set (v_positions l)" "vp_ticker p = upper ticker"
      "calculate_sell_pnl (vp_shares p) (vp_entry p) price = (usd, pct)"
      "vt_id t = Suc (v_seq l)" "vt_ticker t = upper ticker" "vt_order t = SELL_ORDER" "vt_price t = price"
      "vt_shares t = vp_shares p" "vt_pnl_usd t = Some usd" "vt_exit_reason t = Some action"
      "vt_cash_after t = fl (pf_cash (v_portfolio l) + fl (vp_shares p * price))"
      "l' = l\<lparr> v_portfolio := (v_portfolio l)\<lparr> pf_cash := fl (pf_cash (v_portfolio l) + fl (vp_shares p * price)),
                  pf_pnl := fl (pf_pnl (v_portfolio l) + usd),
                  pf_wins := pf_wins (v_portfolio l) + (if 0 < usd then 1 else 0),
                  pf_losses := pf_losses (v_portfolio l) + (if 0 < usd then 0 else 1) \<rparr>,
               v_positions := filter (\<lambda>q. vp_ticker q \<noteq> upper ticker) (v_positions l),
               v_trades := v_trades l @ [t], v_seq := Suc (v_seq l) \<rparr>"
proof (cases "row_by vp_ticker (upper ticker) (v_positions l)")
  case None
  with assms flat show thesis by (simp add: execute_sell_def Let_def row_by_None)
next
  case (Some p)
  obtain usd pct where pnl: "calculate_sell_pnl (vp_shares p) (vp_entry p) price = (usd, pct)" by force
  let ?t = "\<lparr> vt_id = Suc (v_seq l), vt_ticker = upper ticker, vt_order = SELL_ORDER, vt_price = price, vt_shares = vp_shares p,
    vt_cost = vp_cost p, vt_entry = Some (vp_entry p), vt_pnl_usd = Some usd, vt_pnl_pct = Some pct, vt_exit_reason = Some action,
    vt_holding = Some (at_ts - vp_at p), vt_cash_after = fl (pf_cash (v_portfolio l) + fl (vp_shares p * price)), vt_at = at_ts \<rparr>"
  have pos: "p \<in> set (v_positions l)" "vp_ticker p = upper ticker" using row_by_Some [OF Some] by simp_all
  show thesis
    by (rule sold [where t = ?t, OF _ pos pnl]) (use assms Some pnl in \<open>auto simp: execute_sell_def Let_def\<close>)
qed

end
