(* ===== verification/Core_State.thy ===== *)
theory Core_State
  imports Core_Decision Paper_Ledger
begin

text \<open>
  \<open>talonx_core/state.py\<close> and \<open>store.py\<close>: the correlators, one state per ticker in memory, and the tables that
  persist them, one row per ticker whose columns are NULL until they are written.  The locale \<open>write_through\<close>
  is what makes a table a faithful copy of a correlator; both pairs interpret it.  A message or report survives its
  own JSON unchanged.
\<close>

section \<open>Correlators\<close>

definition fresh_ticker :: ticker_state where
  "fresh_ticker = \<lparr> tk_signal = None, tk_signal_at = None, tk_report = None, tk_report_at = None, tk_last_at = None,
     tk_last_action = None, tk_last_price = None \<rparr>"

definition fresh_lt_ticker :: lt_state where
  "fresh_lt_ticker = \<lparr> ls_signal = None, ls_signal_at = None, ls_report = None, ls_report_at = None, ls_last_at = None,
     ls_last_action = None, ls_last_price = None, ls_streak = 0, ls_streak_year = None, ls_previous_moat = None, ls_previous_fair = None \<rparr>"

text \<open>\<open>get_or_create\<close> on either correlator; the states are mutable objects, so an update writes back.\<close>

definition tracked :: "'s \<Rightarrow> (symbol \<rightharpoonup> 's) \<Rightarrow> symbol \<Rightarrow> 's" where
  "tracked blank c ticker = (case c (upper ticker) of None \<Rightarrow> blank | Some st \<Rightarrow> st)"

definition track :: "'s \<Rightarrow> symbol \<Rightarrow> ('s \<Rightarrow> 's) \<Rightarrow> (symbol \<rightharpoonup> 's) \<Rightarrow> (symbol \<rightharpoonup> 's)" where
  "track blank ticker f c = c(upper ticker \<mapsto> f (tracked blank c ticker))"

definition update_signal :: "stamp \<Rightarrow> quant_signal \<Rightarrow> ticker_state \<Rightarrow> ticker_state" where
  "update_signal now s st = st\<lparr> tk_signal := Some s, tk_signal_at := Some now \<rparr>"

definition update_report :: "stamp \<Rightarrow> research_report \<Rightarrow> ticker_state \<Rightarrow> ticker_state" where
  "update_report now r st = st\<lparr> tk_report := Some r, tk_report_at := Some now \<rparr>"

definition mark_alerted :: "v1_action \<Rightarrow> money \<Rightarrow> stamp \<Rightarrow> ticker_state \<Rightarrow> ticker_state" where
  "mark_alerted action price at_ts st = st\<lparr> tk_last_at := Some at_ts, tk_last_action := Some action, tk_last_price := Some price \<rparr>"

definition update_fundamental :: "money \<Rightarrow> stamp \<Rightarrow> fundamental_signal \<Rightarrow> lt_state \<Rightarrow> lt_state" where
  "update_fundamental wacc now s st =
     (let st1 = st\<lparr> ls_signal := Some s, ls_signal_at := Some now \<rparr>
      in if ls_streak_year st1 = Some (fs_year s) then st1
         else st1\<lparr> ls_streak_year := Some (fs_year s),
                   ls_streak := (case fs_roic s of None \<Rightarrow> 0 | Some r \<Rightarrow> if r < wacc then Suc (ls_streak st1) else 0) \<rparr>)"

definition update_lt_report :: "stamp \<Rightarrow> lt_report \<Rightarrow> lt_state \<Rightarrow> lt_state" where
  "update_lt_report now r st =
     (let st1 = (case ls_report st of None \<Rightarrow> st
                 | Some old \<Rightarrow> st\<lparr> ls_previous_moat := Some (lr_moat old), ls_previous_fair := Some (lr_fair_value old) \<rparr>)
      in st1\<lparr> ls_report := Some r, ls_report_at := Some now \<rparr>)"

definition mark_lt_alerted :: "v1_action \<Rightarrow> money \<Rightarrow> stamp \<Rightarrow> lt_state \<Rightarrow> lt_state" where
  "mark_lt_alerted action price at_ts st = st\<lparr> ls_last_at := Some at_ts, ls_last_action := Some action, ls_last_price := Some price \<rparr>"

section \<open>Tables\<close>

record state_row =
  sr_ticker :: symbol
  sr_signal :: "quant_signal option"
  sr_signal_at :: "stamp option"
  sr_report :: "research_report option"
  sr_report_at :: "stamp option"
  sr_last_at :: "stamp option"
  sr_last_action :: "v1_action option"
  sr_last_price :: "money option"

record lt_state_row =
  lw_ticker :: symbol
  lw_signal :: "fundamental_signal option"
  lw_signal_at :: "stamp option"
  lw_report :: "lt_report option"
  lw_report_at :: "stamp option"
  lw_last_at :: "stamp option"
  lw_last_action :: "v1_action option"
  lw_last_price :: "money option"
  lw_streak :: nat
  lw_previous_moat :: "moat_rating option"
  lw_streak_year :: "int option"
  lw_previous_fair :: "money option"

record suppression_row =
  sup_date :: date
  sup_ticker :: symbol
  sup_reason :: suppression
  sup_horizon :: horizon
  sup_count :: nat
  sup_last_seen :: stamp

record core_store =
  cs_states :: "state_row list"
  cs_lt_states :: "lt_state_row list"
  cs_suppressed :: "suppression_row list"

text \<open>The row an INSERT of the ticker alone would write; a save sets its columns on it or on the row it finds.\<close>

definition blank_row :: "symbol \<Rightarrow> state_row" where
  "blank_row ticker = \<lparr> sr_ticker = ticker, sr_signal = None, sr_signal_at = None, sr_report = None, sr_report_at = None,
     sr_last_at = None, sr_last_action = None, sr_last_price = None \<rparr>"

definition blank_lt_row :: "symbol \<Rightarrow> lt_state_row" where
  "blank_lt_row ticker = \<lparr> lw_ticker = ticker, lw_signal = None, lw_signal_at = None, lw_report = None, lw_report_at = None,
     lw_last_at = None, lw_last_action = None, lw_last_price = None, lw_streak = 0, lw_previous_moat = None,
     lw_streak_year = None, lw_previous_fair = None \<rparr>"

definition save_row :: "('r \<Rightarrow> symbol) \<Rightarrow> (symbol \<Rightarrow> 'r) \<Rightarrow> symbol \<Rightarrow> ('r \<Rightarrow> 'r) \<Rightarrow> 'r list \<Rightarrow> 'r list" where
  "save_row key blank ticker set_columns rows = upsert_row key (set_columns (blank (upper ticker))) set_columns rows"

definition save_signal :: "symbol \<Rightarrow> quant_signal \<Rightarrow> stamp \<Rightarrow> core_store \<Rightarrow> core_store" where
  "save_signal ticker s at_ts db =
     db\<lparr> cs_states := save_row sr_ticker blank_row ticker (\<lambda>r. r\<lparr> sr_signal := Some s, sr_signal_at := Some at_ts \<rparr>) (cs_states db) \<rparr>"

definition save_report :: "symbol \<Rightarrow> research_report \<Rightarrow> stamp \<Rightarrow> core_store \<Rightarrow> core_store" where
  "save_report ticker rep at_ts db =
     db\<lparr> cs_states := save_row sr_ticker blank_row ticker (\<lambda>r. r\<lparr> sr_report := Some rep, sr_report_at := Some at_ts \<rparr>) (cs_states db) \<rparr>"

definition save_alert :: "symbol \<Rightarrow> stamp \<Rightarrow> v1_action \<Rightarrow> money \<Rightarrow> core_store \<Rightarrow> core_store" where
  "save_alert ticker at_ts action price db =
     db\<lparr> cs_states := save_row sr_ticker blank_row ticker
          (\<lambda>r. r\<lparr> sr_last_at := Some at_ts, sr_last_action := Some action, sr_last_price := Some price \<rparr>) (cs_states db) \<rparr>"

definition record_suppressed :: "symbol \<Rightarrow> suppression \<Rightarrow> stamp \<Rightarrow> horizon \<Rightarrow> core_store \<Rightarrow> core_store" where
  "record_suppressed ticker reason at_ts h db =
     db\<lparr> cs_suppressed := upsert_row (\<lambda>r. (sup_date r, sup_ticker r, sup_reason r, sup_horizon r))
          \<lparr> sup_date = at_ts div day_us + 719163, sup_ticker = upper ticker, sup_reason = reason, sup_horizon = h, sup_count = 1, sup_last_seen = at_ts \<rparr>
          (\<lambda>r. r\<lparr> sup_count := Suc (sup_count r), sup_last_seen := at_ts \<rparr>) (cs_suppressed db) \<rparr>"

definition save_fundamental_signal :: "symbol \<Rightarrow> fundamental_signal \<Rightarrow> stamp \<Rightarrow> core_store \<Rightarrow> core_store" where
  "save_fundamental_signal ticker s at_ts db =
     db\<lparr> cs_lt_states := save_row lw_ticker blank_lt_row ticker (\<lambda>r. r\<lparr> lw_signal := Some s, lw_signal_at := Some at_ts \<rparr>) (cs_lt_states db) \<rparr>"

definition save_long_term_report :: "symbol \<Rightarrow> lt_report \<Rightarrow> stamp \<Rightarrow> core_store \<Rightarrow> core_store" where
  "save_long_term_report ticker rep at_ts db =
     db\<lparr> cs_lt_states := save_row lw_ticker blank_lt_row ticker (\<lambda>r. r\<lparr> lw_report := Some rep, lw_report_at := Some at_ts \<rparr>) (cs_lt_states db) \<rparr>"

definition save_long_term_alert :: "symbol \<Rightarrow> stamp \<Rightarrow> v1_action \<Rightarrow> money \<Rightarrow> core_store \<Rightarrow> core_store" where
  "save_long_term_alert ticker at_ts action price db =
     db\<lparr> cs_lt_states := save_row lw_ticker blank_lt_row ticker
          (\<lambda>r. r\<lparr> lw_last_at := Some at_ts, lw_last_action := Some action, lw_last_price := Some price \<rparr>) (cs_lt_states db) \<rparr>"

definition save_stop_state :: "symbol \<Rightarrow> lt_state \<Rightarrow> core_store \<Rightarrow> core_store" where
  "save_stop_state ticker st db =
     db\<lparr> cs_lt_states := save_row lw_ticker blank_lt_row ticker
          (\<lambda>r. r\<lparr> lw_streak := ls_streak st, lw_previous_moat := ls_previous_moat st, lw_streak_year := ls_streak_year st,
                  lw_previous_fair := ls_previous_fair st \<rparr>) (cs_lt_states db) \<rparr>"

section \<open>Rehydration\<close>

definition load_state :: "state_row \<Rightarrow> ticker_state \<Rightarrow> ticker_state" where
  "load_state r st0 =
     (let st1 = (if sr_signal r \<noteq> None then st0\<lparr> tk_signal := sr_signal r, tk_signal_at := sr_signal_at r \<rparr> else st0);
          st2 = (if sr_report r \<noteq> None then st1\<lparr> tk_report := sr_report r, tk_report_at := sr_report_at r \<rparr> else st1);
          st3 = (if sr_last_at r \<noteq> None then st2\<lparr> tk_last_at := sr_last_at r \<rparr> else st2);
          st4 = (if sr_last_action r \<noteq> None then st3\<lparr> tk_last_action := sr_last_action r \<rparr> else st3)
      in if sr_last_price r \<noteq> None then st4\<lparr> tk_last_price := sr_last_price r \<rparr> else st4)"

definition load_lt_state :: "lt_state_row \<Rightarrow> lt_state \<Rightarrow> lt_state" where
  "load_lt_state r st0 =
     (let st1 = (if lw_signal r \<noteq> None then st0\<lparr> ls_signal := lw_signal r, ls_signal_at := lw_signal_at r \<rparr> else st0);
          st2 = (if lw_report r \<noteq> None then st1\<lparr> ls_report := lw_report r, ls_report_at := lw_report_at r \<rparr> else st1);
          st3 = (if lw_last_at r \<noteq> None then st2\<lparr> ls_last_at := lw_last_at r \<rparr> else st2);
          st4 = (if lw_last_action r \<noteq> None then st3\<lparr> ls_last_action := lw_last_action r \<rparr> else st3);
          st5 = (if lw_last_price r \<noteq> None then st4\<lparr> ls_last_price := lw_last_price r \<rparr> else st4);
          st6 = st5\<lparr> ls_streak := lw_streak r \<rparr>;
          st7 = (if lw_previous_moat r \<noteq> None then st6\<lparr> ls_previous_moat := lw_previous_moat r \<rparr> else st6);
          st8 = st7\<lparr> ls_streak_year := lw_streak_year r \<rparr>
      in if lw_previous_fair r \<noteq> None then st8\<lparr> ls_previous_fair := lw_previous_fair r \<rparr> else st8)"

definition load_into :: "state_row list \<Rightarrow> (symbol \<rightharpoonup> ticker_state) \<Rightarrow> (symbol \<rightharpoonup> ticker_state)" where
  "load_into rows c = fold (\<lambda>r. track fresh_ticker (sr_ticker r) (load_state r)) rows c"

definition load_into_long_term :: "lt_state_row list \<Rightarrow> (symbol \<rightharpoonup> lt_state) \<Rightarrow> (symbol \<rightharpoonup> lt_state)" where
  "load_into_long_term rows c = fold (\<lambda>r. track fresh_lt_ticker (lw_ticker r) (load_lt_state r)) rows c"

section \<open>A table that mirrors a correlator\<close>

locale write_through =
  fixes key :: "'r \<Rightarrow> symbol" and blank :: "symbol \<Rightarrow> 'r" and start :: 's and load :: "'r \<Rightarrow> 's \<Rightarrow> 's"
  assumes key_blank: "key (blank ticker) = ticker"
    and load_blank: "load (blank ticker) start = start"
begin

definition mirrors :: "'r list \<Rightarrow> (symbol \<rightharpoonup> 's) \<Rightarrow> bool" where
  "mirrors rows c \<longleftrightarrow> distinct (map key rows) \<and> (\<forall>r \<in> set rows. upper (key r) = key r)
     \<and> (\<forall>ticker. c ticker = map_option (\<lambda>r. load r start) (row_by key ticker rows))"

lemma mirrors_empty: "mirrors [] Map.empty"
  by (simp add: mirrors_def row_by_def)

text \<open>One save and one update that agree on every row keep the mirror.\<close>

lemma mirrors_save:
  assumes m: "mirrors rows c" and keys: "\<And>r. key (g r) = key r"
    and agree: "\<And>r. load r start = tracked start c ticker \<Longrightarrow> load (g r) start = f (tracked start c ticker)"
  shows "mirrors (save_row key blank ticker g rows) (track start ticker f c)"
proof -
  let ?k = "upper ticker" let ?new = "g (blank ?k)"
  have k: "key ?new = ?k" by (simp add: keys key_blank)
  have c: "c t = map_option (\<lambda>r. load r start) (row_by key t rows)" for t using m by (simp add: mirrors_def)
  have "row_by key t (upsert_row key ?new g rows) = (if t = ?k
      then Some (case row_by key ?k rows of Some r \<Rightarrow> g r | None \<Rightarrow> ?new) else row_by key t rows)" for t
    using row_by_upsert_same [of key g ?new rows] row_by_upsert_other [of key g t ?new rows] keys by (simp add: key_blank)
  moreover have "load (case row_by key ?k rows of Some r \<Rightarrow> g r | None \<Rightarrow> ?new) start = f (tracked start c ticker)"
    using agree load_blank c [of ?k] by (auto simp: tracked_def split: option.split)
  moreover have "distinct (map key (upsert_row key ?new g rows))" using m keys by (intro upsert_distinct) (simp_all add: mirrors_def)
  moreover have "upper (key r) = key r" if r: "r \<in> set (upsert_row key ?new g rows)" for r
    using upsert_row_mem [OF r] m by (auto simp: mirrors_def keys k key_blank split: if_splits)
  ultimately show ?thesis using c by (auto simp: mirrors_def save_row_def track_def)
qed

text \<open>Loading the table into an empty correlator gives the correlator back.\<close>

lemma rehydrate:
  assumes "mirrors rows c"
  shows "fold (\<lambda>r. track start (key r) (load r)) rows Map.empty = c"
proof -
  have gen: "fold (\<lambda>r. track start (key r) (load r)) rs d = (\<lambda>t. case row_by key t rs of None \<Rightarrow> d t | Some r \<Rightarrow> Some (load r start))"
    if "distinct (map key rs)" "\<forall>r \<in> set rs. upper (key r) = key r" "\<forall>r \<in> set rs. d (key r) = None" for rs d
    using that
  proof (induction rs arbitrary: d)
    case (Cons r rs)
    let ?d = "track start (key r) (load r) d"
    have d: "?d = d(key r \<mapsto> load r start)" using Cons.prems by (simp add: track_def tracked_def)
    have "\<forall>q \<in> set rs. ?d (key q) = None"
    proof
      fix q assume "q \<in> set rs"
      with Cons.prems have "key q \<noteq> key r" "d (key q) = None" by (auto, metis image_eqI)
      then show "?d (key q) = None" by (simp add: d)
    qed
    with Cons.IH [of ?d] Cons.prems have "fold (\<lambda>r. track start (key r) (load r)) rs ?d
        = (\<lambda>t. case row_by key t rs of None \<Rightarrow> ?d t | Some r \<Rightarrow> Some (load r start))" by simp
    moreover have "row_by key (key r) rs = None" using Cons.prems(1) by (simp add: row_by_None)
    ultimately show ?case by (auto simp: fun_eq_iff d row_by_def split: option.split)
  qed (simp add: row_by_def)
  show ?thesis using gen [of rows Map.empty] assms by (auto simp: mirrors_def fun_eq_iff split: option.split)
qed

end

interpretation day_state: write_through sr_ticker blank_row fresh_ticker load_state
  by unfold_locales (simp_all add: blank_row_def load_state_def)

interpretation long_state: write_through lw_ticker blank_lt_row fresh_lt_ticker load_lt_state
  by unfold_locales (simp_all add: blank_lt_row_def load_lt_state_def fresh_lt_ticker_def)

text \<open>Two saves of one message are one save of both.\<close>

lemma save_row_twice:
  assumes "\<And>r. key (f r) = key r" "\<And>r. key (g r) = key r" "\<And>t. key (blank t) = t"
  shows "save_row key blank ticker g (save_row key blank ticker f rows) = save_row key blank ticker (\<lambda>r. g (f r)) rows"
proof (cases "upper ticker \<in> key ` set rows")
  case True
  then have "upper ticker \<in> key ` set (update_rows (\<lambda>r. key r = upper ticker) f rows)"
    using map_update_rows [of "\<lambda>r. key r = upper ticker" key f rows] assms(1) by (metis list.set_map)
  with True show ?thesis using assms by (simp add: save_row_def upsert_row_def) (simp add: update_rows_def)
next
  case False
  then have "\<not> key r = upper ticker" if "r \<in> set rows" for r using that by (metis image_eqI)
  with False show ?thesis using assms by (simp add: save_row_def upsert_row_def) (simp add: update_rows_def map_idI)
qed

lemma row_keys [simp]:
  "sr_ticker (blank_row t) = t" "lw_ticker (blank_lt_row t) = t"
  by (simp_all add: blank_row_def blank_lt_row_def)

lemma save_tables:
  "cs_states (save_signal ticker s at_ts db) = save_row sr_ticker blank_row ticker (\<lambda>r. r\<lparr> sr_signal := Some s, sr_signal_at := Some at_ts \<rparr>) (cs_states db)"
  "cs_states (save_report ticker rep at_ts db) = save_row sr_ticker blank_row ticker (\<lambda>r. r\<lparr> sr_report := Some rep, sr_report_at := Some at_ts \<rparr>) (cs_states db)"
  "cs_states (save_alert ticker at_ts action price db) = save_row sr_ticker blank_row ticker
     (\<lambda>r. r\<lparr> sr_last_at := Some at_ts, sr_last_action := Some action, sr_last_price := Some price \<rparr>) (cs_states db)"
  "cs_lt_states (save_long_term_alert ticker at_ts action price db) = save_row lw_ticker blank_lt_row ticker
     (\<lambda>r. r\<lparr> lw_last_at := Some at_ts, lw_last_action := Some action, lw_last_price := Some price \<rparr>) (cs_lt_states db)"
  "cs_lt_states (save_stop_state ticker st (save_fundamental_signal ticker fs at_ts db)) = save_row lw_ticker blank_lt_row ticker
     (\<lambda>r. r\<lparr> lw_signal := Some fs, lw_signal_at := Some at_ts, lw_streak := ls_streak st, lw_previous_moat := ls_previous_moat st,
             lw_streak_year := ls_streak_year st, lw_previous_fair := ls_previous_fair st \<rparr>) (cs_lt_states db)"
  "cs_lt_states (save_stop_state ticker st (save_long_term_report ticker lrep at_ts db)) = save_row lw_ticker blank_lt_row ticker
     (\<lambda>r. r\<lparr> lw_report := Some lrep, lw_report_at := Some at_ts, lw_streak := ls_streak st, lw_previous_moat := ls_previous_moat st,
             lw_streak_year := ls_streak_year st, lw_previous_fair := ls_previous_fair st \<rparr>) (cs_lt_states db)"
  by (simp_all add: save_signal_def save_report_def save_alert_def save_long_term_alert_def save_stop_state_def
      save_fundamental_signal_def save_long_term_report_def save_row_twice)

text \<open>What a row loads into a new state.\<close>

lemma load_fresh:
  "load_state r fresh_ticker =
     \<lparr> tk_signal = sr_signal r, tk_signal_at = (if sr_signal r = None then None else sr_signal_at r), tk_report = sr_report r,
       tk_report_at = (if sr_report r = None then None else sr_report_at r), tk_last_at = sr_last_at r,
       tk_last_action = sr_last_action r, tk_last_price = sr_last_price r \<rparr>"
  "load_lt_state w fresh_lt_ticker =
     \<lparr> ls_signal = lw_signal w, ls_signal_at = (if lw_signal w = None then None else lw_signal_at w), ls_report = lw_report w,
       ls_report_at = (if lw_report w = None then None else lw_report_at w), ls_last_at = lw_last_at w,
       ls_last_action = lw_last_action w, ls_last_price = lw_last_price w, ls_streak = lw_streak w,
       ls_streak_year = lw_streak_year w, ls_previous_moat = lw_previous_moat w, ls_previous_fair = lw_previous_fair w \<rparr>"
  by (simp_all add: load_state_def load_lt_state_def fresh_ticker_def fresh_lt_ticker_def Let_def)

lemma save_day_mirrors:
  assumes "day_state.mirrors (cs_states db) c"
  shows "day_state.mirrors (cs_states (save_signal ticker s at_ts db)) (track fresh_ticker ticker (update_signal at_ts s) c)"
    "day_state.mirrors (cs_states (save_report ticker rep at_ts db)) (track fresh_ticker ticker (update_report at_ts rep) c)"
    "day_state.mirrors (cs_states (save_alert ticker at_ts action price db)) (track fresh_ticker ticker (mark_alerted action price at_ts) c)"
  unfolding save_tables
  by (rule day_state.mirrors_save [OF assms];
      (drule sym)?, simp add: load_fresh update_signal_def update_report_def mark_alerted_def)+

lemma save_long_mirrors:
  assumes "long_state.mirrors (cs_lt_states db) c"
  shows "long_state.mirrors (cs_lt_states (save_long_term_alert ticker at_ts action price db))
      (track fresh_lt_ticker ticker (mark_lt_alerted action price at_ts) c)"
    "st = update_fundamental wacc at_ts s (tracked fresh_lt_ticker c ticker) \<Longrightarrow>
      long_state.mirrors (cs_lt_states (save_stop_state ticker st (save_fundamental_signal ticker s at_ts db)))
        (track fresh_lt_ticker ticker (update_fundamental wacc at_ts s) c)"
    "st = update_lt_report at_ts rep (tracked fresh_lt_ticker c ticker) \<Longrightarrow>
      long_state.mirrors (cs_lt_states (save_stop_state ticker st (save_long_term_report ticker rep at_ts db)))
        (track fresh_lt_ticker ticker (update_lt_report at_ts rep) c)"
  unfolding save_tables
  subgoal by (rule long_state.mirrors_save [OF assms]; (drule sym)?, simp add: load_fresh mark_lt_alerted_def)
  subgoal by (rule long_state.mirrors_save [OF assms]; (drule sym)?, simp add: load_fresh update_fundamental_def Let_def)
  subgoal by (rule long_state.mirrors_save [OF assms]; (drule sym)?, simp add: load_fresh update_lt_report_def Let_def split: option.split)
  done

end
