(* ===== verification/Core_Outbox.thy ===== *)
theory Core_Outbox
  imports Core_Decision Paper_Ledger
begin

text \<open>
  \<open>talonx_core/alert_outbox.py\<close>: the outbox that owes every decided alert to its Redis channel.  A record's
  channel is that of its kind.  The digest of an alert's identity, the result of each publish call and the jitter
  of a wait are arguments; the state file is the record list itself.
\<close>

section \<open>Definitions\<close>

datatype alert_payload = INTRADAY_ALERT core_alert | LONG_TERM_ALERT lt_core_alert

datatype publication = PUB_PENDING | PUB_RETRY | PUB_UNCERTAIN | PUB_SENT | PUB_FAILED

definition terminal :: "publication \<Rightarrow> bool" where
  "terminal s \<longleftrightarrow> s = PUB_SENT \<or> s = PUB_FAILED"

record alert_record =
  ar_id :: string
  ar_payload :: alert_payload
  ar_kind :: horizon
  ar_ticker :: symbol
  ar_action :: v1_action
  ar_status :: publication
  ar_attempts :: nat
  ar_max :: nat
  ar_created :: stamp
  ar_last :: "stamp option"
  ar_next :: "stamp option"
  ar_sent :: "stamp option"

record alert_outbox =
  ao_records :: "alert_record list"
  ao_enqueued :: nat
  ao_delivered :: nat
  ao_retried :: nat
  ao_failed :: nat
  ao_duplicates :: nat

text \<open>\<open>jittered_backoff_seconds\<close> of \<open>talonx_ingest/common/backoff.py\<close>; \<open>r\<close> is what \<open>random\<close> returned.\<close>

definition jittered_backoff_seconds :: "nat \<Rightarrow> money \<Rightarrow> money \<Rightarrow> money \<Rightarrow> money" where
  "jittered_backoff_seconds attempt base cap r = fl (min (fl (base * 2 ^ (attempt - 1))) cap * fl (1 / 2 + r))"

definition pending_depth :: "alert_outbox \<Rightarrow> nat" where
  "pending_depth ob = length (filter (\<lambda>r. \<not> terminal (ar_status r)) (ao_records ob))"

definition new_record :: "string \<Rightarrow> alert_payload \<Rightarrow> horizon \<Rightarrow> symbol \<Rightarrow> v1_action \<Rightarrow> stamp \<Rightarrow> alert_record" where
  "new_record oid payload kind ticker action now =
     \<lparr> ar_id = oid, ar_payload = payload, ar_kind = kind, ar_ticker = ticker, ar_action = action, ar_status = PUB_PENDING,
       ar_attempts = 0, ar_max = 6, ar_created = now, ar_last = None, ar_next = Some now, ar_sent = None \<rparr>"

definition enqueue :: "string \<Rightarrow> alert_payload \<Rightarrow> horizon \<Rightarrow> symbol \<Rightarrow> v1_action \<Rightarrow> stamp \<Rightarrow> alert_outbox \<Rightarrow> alert_outbox" where
  "enqueue oid payload kind ticker action now ob =
     (case row_by ar_id oid (ao_records ob) of
        Some r \<Rightarrow>
          if \<not> terminal (ar_status r)
          then ob\<lparr> ao_records := update_rows (\<lambda>r. ar_id r = oid) (\<lambda>r. r\<lparr> ar_payload := payload \<rparr>) (ao_records ob) \<rparr>
          else ob\<lparr> ao_duplicates := Suc (ao_duplicates ob) \<rparr>
      | None \<Rightarrow> ob\<lparr> ao_records := ao_records ob @ [new_record oid payload kind ticker action now], ao_enqueued := Suc (ao_enqueued ob) \<rparr>)"

definition published_row :: "stamp \<Rightarrow> alert_record \<Rightarrow> alert_record" where
  "published_row now r = r\<lparr> ar_status := PUB_SENT, ar_sent := Some now \<rparr>"

definition mark_published :: "stamp \<Rightarrow> string \<Rightarrow> alert_outbox \<Rightarrow> alert_outbox" where
  "mark_published now oid ob =
     (case row_by ar_id oid (ao_records ob) of
        None \<Rightarrow> ob
      | Some r \<Rightarrow>
          if terminal (ar_status r) then ob
          else ob\<lparr> ao_records := update_rows (\<lambda>r. ar_id r = oid) (published_row now) (ao_records ob),
                   ao_delivered := Suc (ao_delivered ob) \<rparr>)"

text \<open>\<open>_schedule_retry\<close> and the handler of a publish that raised differ in the status they leave.\<close>

definition schedule_again :: "publication \<Rightarrow> stamp \<Rightarrow> (alert_record \<Rightarrow> int) \<Rightarrow> alert_record \<Rightarrow> alert_record" where
  "schedule_again status now wait r =
     (let n = Suc (ar_attempts r); r1 = r\<lparr> ar_attempts := n, ar_last := Some now \<rparr>
      in if ar_max r \<le> n
         then r1\<lparr> ar_status := PUB_FAILED, ar_next := (if status = PUB_UNCERTAIN then Some (now + wait r1) else ar_next r) \<rparr>
         else r1\<lparr> ar_status := status, ar_next := Some (now + wait r1) \<rparr>)"

datatype publish_outcome = ACCEPTED | REFUSED | RAISED

text \<open>One record in a flush: \<open>publish\<close> is \<open>None\<close> when no callable is configured.\<close>

definition due_record :: "stamp \<Rightarrow> alert_record \<Rightarrow> bool" where
  "due_record now r \<longleftrightarrow> \<not> terminal (ar_status r) \<and> (case ar_next r of None \<Rightarrow> True | Some t \<Rightarrow> t \<le> now)"

definition flush_record :: "stamp \<Rightarrow> (alert_record \<Rightarrow> publish_outcome) option \<Rightarrow> (alert_record \<Rightarrow> int) \<Rightarrow> alert_record \<Rightarrow> alert_record" where
  "flush_record now publish wait r =
     (if \<not> due_record now r then r
      else case publish of
        None \<Rightarrow> schedule_again PUB_RETRY now wait r
      | Some call \<Rightarrow> (case call r of
            ACCEPTED \<Rightarrow> published_row now r
          | REFUSED \<Rightarrow> schedule_again PUB_RETRY now wait r
          | RAISED \<Rightarrow> schedule_again PUB_UNCERTAIN now wait r))"

text \<open>The payloads Redis accepted during a flush.\<close>

definition flushed :: "stamp \<Rightarrow> (alert_record \<Rightarrow> publish_outcome) option \<Rightarrow> alert_outbox \<Rightarrow> alert_record list" where
  "flushed now publish ob = filter (\<lambda>r. due_record now r \<and> (case publish of None \<Rightarrow> False | Some call \<Rightarrow> call r = ACCEPTED)) (ao_records ob)"

definition count_becoming :: "publication \<Rightarrow> (alert_record \<Rightarrow> alert_record) \<Rightarrow> alert_record list \<Rightarrow> nat" where
  "count_becoming status f rs = length (filter (\<lambda>r. ar_status (f r) = status \<and> f r \<noteq> r) rs)"

definition flush :: "stamp \<Rightarrow> (alert_record \<Rightarrow> publish_outcome) option \<Rightarrow> (alert_record \<Rightarrow> int) \<Rightarrow> alert_outbox \<Rightarrow> alert_outbox" where
  "flush now publish wait ob =
     (let f = flush_record now publish wait; rs = filter (due_record now) (ao_records ob)
      in ob\<lparr> ao_records := map f (ao_records ob),
             ao_delivered := ao_delivered ob + count_becoming PUB_SENT f rs,
             ao_retried := ao_retried ob + count_becoming PUB_RETRY f rs,
             ao_failed := ao_failed ob + count_becoming PUB_FAILED f rs \<rparr>)"

section \<open>Laws\<close>

lemma record_simps [simp]:
  "ar_id (published_row now r) = ar_id r" "ar_id (schedule_again s now wait r) = ar_id r" "ar_id (flush_record now publish wait r) = ar_id r"
  "ar_max (published_row now r) = ar_max r" "ar_max (schedule_again s now wait r) = ar_max r" "ar_max (flush_record now publish wait r) = ar_max r"
  "ar_kind (flush_record now publish wait r) = ar_kind r" "ar_ticker (flush_record now publish wait r) = ar_ticker r"
  "ar_action (flush_record now publish wait r) = ar_action r" "ar_payload (flush_record now publish wait r) = ar_payload r"
  "ar_kind (published_row now r) = ar_kind r" "ar_ticker (published_row now r) = ar_ticker r"
  "ar_action (published_row now r) = ar_action r" "ar_payload (published_row now r) = ar_payload r"
  "ar_status (published_row now r) = PUB_SENT"
  by (simp_all add: published_row_def schedule_again_def flush_record_def Let_def split: option.split publish_outcome.split)

text \<open>A record is in order: it counts its attempts, and gives up exactly at its limit.\<close>

definition record_ok :: "alert_record \<Rightarrow> bool" where
  "record_ok r \<longleftrightarrow> ar_attempts r \<le> ar_max r \<and> (ar_status r = PUB_FAILED \<longrightarrow> ar_attempts r = ar_max r)
     \<and> (\<not> terminal (ar_status r) \<longrightarrow> ar_attempts r < ar_max r)"

definition outbox_ok :: "alert_outbox \<Rightarrow> bool" where
  "outbox_ok ob \<longleftrightarrow> distinct (map ar_id (ao_records ob)) \<and> (\<forall>r \<in> set (ao_records ob). record_ok r)"

lemma flush_record_ok: "record_ok r \<Longrightarrow> record_ok (flush_record now publish wait r)"
  by (auto simp: record_ok_def flush_record_def published_row_def schedule_again_def Let_def due_record_def terminal_def
      split: option.split publish_outcome.split)

lemma flush_ok: "outbox_ok ob \<Longrightarrow> outbox_ok (flush now publish wait ob)"
  by (auto simp: outbox_ok_def flush_def Let_def comp_def flush_record_ok)

lemma outbox_ok_update:
  assumes "outbox_ok ob" "\<And>r. ar_id (f r) = ar_id r" "\<And>r. record_ok r \<Longrightarrow> record_ok (f r)"
  shows "outbox_ok (ob\<lparr> ao_records := update_rows P f (ao_records ob) \<rparr>)"
proof -
  have "map ar_id (update_rows P f (ao_records ob)) = map ar_id (ao_records ob)" by (rule map_update_rows) (rule assms(2))
  with assms(1,3) show ?thesis by (auto simp: outbox_ok_def in_update_rows)
qed

lemma outbox_ok_counters [simp]:
  "outbox_ok (ob\<lparr> ao_delivered := n \<rparr>) = outbox_ok ob" "outbox_ok (ob\<lparr> ao_duplicates := n \<rparr>) = outbox_ok ob"
  "outbox_ok (ob\<lparr> ao_enqueued := n \<rparr>) = outbox_ok ob"
  by (simp_all add: outbox_ok_def)

lemma enqueue_outbox_ok:
  assumes "outbox_ok ob"
  shows "outbox_ok (enqueue oid payload kind ticker action now ob)"
proof (cases "row_by ar_id oid (ao_records ob)")
  case None
  then have "oid \<notin> ar_id ` set (ao_records ob)" by (simp add: row_by_None)
  with None assms show ?thesis by (auto simp: enqueue_def outbox_ok_def new_record_def record_ok_def)
next
  case (Some r)
  have "outbox_ok (ob\<lparr> ao_records := update_rows (\<lambda>r. ar_id r = oid) (\<lambda>r. r\<lparr> ar_payload := payload \<rparr>) (ao_records ob) \<rparr>)"
    by (rule outbox_ok_update [OF assms]) (simp_all add: record_ok_def)
  with Some assms show ?thesis by (simp add: enqueue_def)
qed

lemma mark_published_ok:
  assumes "outbox_ok ob"
  shows "outbox_ok (mark_published now oid ob)"
proof -
  have "outbox_ok (ob\<lparr> ao_records := update_rows (\<lambda>r. ar_id r = oid) (published_row now) (ao_records ob) \<rparr>)"
    by (rule outbox_ok_update [OF assms]) (simp_all add: record_ok_def published_row_def terminal_def)
  from this [unfolded outbox_ok_def] assms show ?thesis by (simp add: mark_published_def outbox_ok_def split: option.split)
qed

text \<open>A terminal record never changes again.\<close>

lemma terminal_stays:
  assumes "outbox_ok ob" "r \<in> set (ao_records ob)" "terminal (ar_status r)"
  shows "r \<in> set (ao_records (flush now publish wait ob))" "r \<in> set (ao_records (mark_published now oid ob))"
    "r \<in> set (ao_records (enqueue oid payload kind ticker action now ob))"
proof -
  have other: "ar_id r \<noteq> oid" if "row_by ar_id oid (ao_records ob) = Some q" "\<not> terminal (ar_status q)" for q
  proof
    assume "ar_id r = oid"
    then have "r = q" using assms(1,2) row_by_Some [OF that(1)] distinct_key [of ar_id "ao_records ob" r q] by (simp add: outbox_ok_def)
    with assms(3) that(2) show False by simp
  qed
  have keep: "r \<in> set (update_rows (\<lambda>r. ar_id r = oid) f (ao_records ob))" if "ar_id r \<noteq> oid" for f
    using that assms(2) by (auto simp: in_update_rows)
  have "flush_record now publish wait r = r" using assms(3) by (simp add: flush_record_def due_record_def)
  with assms(2) have "r \<in> flush_record now publish wait ` set (ao_records ob)" by (metis image_eqI)
  then show "r \<in> set (ao_records (flush now publish wait ob))" by (simp add: flush_def Let_def)
  show "r \<in> set (ao_records (mark_published now oid ob))"
  proof (cases "row_by ar_id oid (ao_records ob)")
    case (Some q)
    then show ?thesis using assms(2) keep other [OF Some] by (simp add: mark_published_def)
  qed (use assms(2) in \<open>simp add: mark_published_def\<close>)
  show "r \<in> set (ao_records (enqueue oid payload kind ticker action now ob))"
  proof (cases "row_by ar_id oid (ao_records ob)")
    case (Some q)
    then show ?thesis using assms(2) keep other [OF Some] by (simp add: enqueue_def)
  qed (use assms(2) in \<open>simp add: enqueue_def\<close>)
qed

section \<open>Retrying ends\<close>

text \<open>A sequence of flushes, each with the instant, the publisher and the waits it had.\<close>

type_synonym flush_pass = "stamp \<times> (alert_record \<Rightarrow> publish_outcome) option \<times> (alert_record \<Rightarrow> int)"

definition record_passes :: "flush_pass list \<Rightarrow> alert_record \<Rightarrow> alert_record" where
  "record_passes ps r = fold (\<lambda>(now, publish, wait). flush_record now publish wait) ps r"

definition flush_passes :: "flush_pass list \<Rightarrow> alert_outbox \<Rightarrow> alert_outbox" where
  "flush_passes ps ob = fold (\<lambda>(now, publish, wait). flush now publish wait) ps ob"

text \<open>Passes at least \<open>gap\<close> apart, none of which waits longer.\<close>

fun spaced :: "int \<Rightarrow> stamp \<Rightarrow> flush_pass list \<Rightarrow> bool" where
  "spaced gap t [] \<longleftrightarrow> True"
| "spaced gap t ((now, publish, wait) # ps) \<longleftrightarrow> t + gap \<le> now \<and> (\<forall>r. wait r \<le> gap) \<and> spaced gap now ps"

lemma record_passes_simps [simp]:
  "record_passes [] r = r"
  "record_passes ((now, publish, wait) # ps) r = record_passes ps (flush_record now publish wait r)"
  by (simp_all add: record_passes_def)

lemma flush_passes_rows: "ao_records (flush_passes ps ob) = map (record_passes ps) (ao_records ob)"
proof (induction ps arbitrary: ob)
  case (Cons p ps)
  then show ?case by (cases p) (simp add: flush_passes_def flush_def Let_def comp_def)
qed (simp add: flush_passes_def map_idI)

lemma record_passes_terminal: "terminal (ar_status r) \<Longrightarrow> record_passes ps r = r"
  by (induction ps) (auto simp: record_passes_def flush_record_def due_record_def)

definition due_by :: "stamp \<Rightarrow> alert_record \<Rightarrow> bool" where
  "due_by t r \<longleftrightarrow> (case ar_next r of None \<Rightarrow> True | Some n \<Rightarrow> n \<le> t)"

lemma flush_record_progress:
  assumes "record_ok r" "\<not> terminal (ar_status r)" "due_by now r" "\<And>q. wait q \<le> gap"
  shows "terminal (ar_status (flush_record now publish wait r))
    \<or> (ar_attempts (flush_record now publish wait r) = Suc (ar_attempts r) \<and> due_by (now + gap) (flush_record now publish wait r))"
  using assms
  by (auto simp: flush_record_def due_record_def due_by_def schedule_again_def published_row_def Let_def terminal_def
      split: option.split publish_outcome.split)

lemma record_passes_end:
  assumes "record_ok r" "terminal (ar_status r) \<or> due_by (t + gap) r" "spaced gap t ps" "ar_max r - ar_attempts r \<le> length ps"
  shows "terminal (ar_status (record_passes ps r))"
  using assms
proof (induction ps arbitrary: r t)
  case Nil
  then show ?case by (auto simp: record_ok_def)
next
  case (Cons p ps)
  obtain now publish wait where p: "p = (now, publish, wait)" by (cases p)
  let ?r = "flush_record now publish wait r"
  show ?case
  proof (cases "terminal (ar_status r)")
    case True
    then show ?thesis using record_passes_terminal [of r "p # ps"] by simp
  next
    case False
    have "due_by now r" "\<And>q. wait q \<le> gap" using Cons.prems(2,3) False by (auto simp: due_by_def p split: option.splits)
    from flush_record_progress [OF Cons.prems(1) False this, of publish] show ?thesis
    proof
      assume "terminal (ar_status ?r)"
      then show ?thesis using record_passes_terminal [of ?r ps] by (simp add: p)
    next
      assume "ar_attempts ?r = Suc (ar_attempts r) \<and> due_by (now + gap) ?r"
      then show ?thesis using Cons.IH [of ?r now] Cons.prems by (simp add: p flush_record_ok)
    qed
  qed
qed

lemma record_passes_ok: "record_ok r \<Longrightarrow> record_ok (record_passes ps r)"
  by (induction ps arbitrary: r) (auto simp: record_passes_def flush_record_ok)

text \<open>Every wait the code draws is at most one and a half times its cap.\<close>

lemma jittered_backoff_bounds:
  assumes "0 \<le> base" "0 \<le> cap" "0 \<le> r" "r \<le> 1"
  shows "0 \<le> jittered_backoff_seconds n base cap r" "jittered_backoff_seconds n base cap r \<le> fl (cap * fl (3 / 2))"
proof -
  have nn: "0 \<le> min (fl (base * 2 ^ (n - 1))) cap" using assms(1,2) by (simp add: fl_nonneg)
  have half: "0 \<le> fl (1 / 2 + r)" "fl (1 / 2 + r) \<le> fl (3 / 2)" using assms(3,4) by (auto intro: fl_nonneg f64.rnd_mono)
  show "0 \<le> jittered_backoff_seconds n base cap r" using nn half(1) by (simp add: jittered_backoff_seconds_def fl_nonneg)
  have "min (fl (base * 2 ^ (n - 1))) cap * fl (1 / 2 + r) \<le> cap * fl (3 / 2)"
    using nn half assms(2) by (intro mult_mono) simp_all
  then show "jittered_backoff_seconds n base cap r \<le> fl (cap * fl (3 / 2))"
    unfolding jittered_backoff_seconds_def by (rule f64.rnd_mono)
qed

end
