(* ===== verification/Core_Engine.thy ===== *)
theory Core_Engine
  imports Core_State Core_Outbox
begin

text \<open>
  \<open>talonx_core/consumer.py\<close>: the decision engine.  A message updates its ticker's state and row, is evaluated, and
  an alert is owed to the outbox before it is published.  Whether Redis accepts a publication is an argument;
  \<open>en_wire\<close> is what it accepted so far.  A message that fails validation is \<open>None\<close>; the metric counters in Redis
  and the log lines are left out.
\<close>

section \<open>Definitions\<close>

record core_engine =
  en_states :: "symbol \<rightharpoonup> ticker_state"
  en_lt_states :: "symbol \<rightharpoonup> lt_state"
  en_store :: "core_store option"
  en_outbox :: alert_outbox
  en_signals :: nat
  en_reports :: nat
  en_alerts :: nat
  en_fundamentals :: nat
  en_lt_reports :: nat
  en_lt_alerts :: nat
  en_wire :: "alert_payload list"

datatype core_message =
    QUANT_SIGNAL quant_signal
  | BRAIN_REPORT research_report
  | FUNDAMENTAL_SIGNAL fundamental_signal
  | LONG_TERM_REPORT lt_report

type_synonym alert_digest = "symbol \<Rightarrow> horizon \<Rightarrow> v1_action \<Rightarrow> stamp \<Rightarrow> string"

definition with_store :: "(core_store \<Rightarrow> core_store) \<Rightarrow> core_engine \<Rightarrow> core_engine" where
  "with_store f e = e\<lparr> en_store := map_option f (en_store e) \<rparr>"

definition deliver_alert ::
    "alert_digest \<Rightarrow> stamp \<Rightarrow> bool \<Rightarrow> horizon \<Rightarrow> alert_payload \<Rightarrow> symbol \<Rightarrow> v1_action \<Rightarrow> stamp \<Rightarrow> core_engine \<Rightarrow> core_engine" where
  "deliver_alert digest now accepted kind payload ticker action at_ts e =
     (let oid = digest ticker kind action at_ts; ob = enqueue oid payload kind ticker action now (en_outbox e)
      in if accepted then e\<lparr> en_outbox := mark_published now oid ob, en_wire := en_wire e @ [payload] \<rparr>
         else e\<lparr> en_outbox := ob \<rparr>)"

definition publish_alert :: "alert_digest \<Rightarrow> stamp \<Rightarrow> bool \<Rightarrow> core_alert \<Rightarrow> core_engine \<Rightarrow> core_engine" where
  "publish_alert digest now accepted a e =
     (let e1 = deliver_alert digest now accepted INTRADAY (INTRADAY_ALERT a) (ac_ticker a) (ac_action a) (ac_at a) e
      in if accepted then e1\<lparr> en_alerts := Suc (en_alerts e1) \<rparr> else e1)"

definition publish_long_term_alert :: "alert_digest \<Rightarrow> stamp \<Rightarrow> bool \<Rightarrow> lt_core_alert \<Rightarrow> core_engine \<Rightarrow> core_engine" where
  "publish_long_term_alert digest now accepted a e =
     (let e1 = deliver_alert digest now accepted LONG_TERM (LONG_TERM_ALERT a) (al_ticker a) (al_action a) (al_at a) e
      in if accepted then e1\<lparr> en_lt_alerts := Suc (en_lt_alerts e1) \<rparr> else e1)"

text \<open>What follows the update of a ticker's state.\<close>

definition decide_day :: "alert_digest \<Rightarrow> core_config \<Rightarrow> stamp \<Rightarrow> bool \<Rightarrow> symbol \<Rightarrow> core_engine \<Rightarrow> py_error option \<times> core_engine" where
  "decide_day digest cfg now accepted ticker e =
     (case evaluate (tracked fresh_ticker (en_states e) ticker) cfg now of
        Inl err \<Rightarrow> (Some err, e)
      | Inr (Inl why) \<Rightarrow> (None, with_store (record_suppressed ticker why now INTRADAY) e)
      | Inr (Inr a) \<Rightarrow>
          let e1 = publish_alert digest now accepted a e; price = qs_price (ac_signal a);
              e2 = e1\<lparr> en_states := track fresh_ticker ticker (mark_alerted (ac_action a) price (ac_at a)) (en_states e1) \<rparr>
          in (None, with_store (save_alert ticker (ac_at a) (ac_action a) price) e2))"

definition decide_long :: "alert_digest \<Rightarrow> core_config \<Rightarrow> stamp \<Rightarrow> bool \<Rightarrow> symbol \<Rightarrow> core_engine \<Rightarrow> py_error option \<times> core_engine" where
  "decide_long digest cfg now accepted ticker e =
     (case evaluate_long_term (tracked fresh_lt_ticker (en_lt_states e) ticker) cfg now of
        Inl err \<Rightarrow> (Some err, e)
      | Inr (Inl why) \<Rightarrow> (None, with_store (record_suppressed ticker why now LONG_TERM) e)
      | Inr (Inr a) \<Rightarrow>
          let e1 = publish_long_term_alert digest now accepted a e;
              e2 = e1\<lparr> en_lt_states := track fresh_lt_ticker ticker (mark_lt_alerted (al_action a) (al_price a) (al_at a)) (en_lt_states e1) \<rparr>
          in (None, with_store (save_long_term_alert ticker (al_at a) (al_action a) (al_price a)) e2))"

definition receive_signal :: "stamp \<Rightarrow> quant_signal \<Rightarrow> core_engine \<Rightarrow> core_engine" where
  "receive_signal now s e = with_store (save_signal (qs_ticker s) s now)
     (e\<lparr> en_states := track fresh_ticker (qs_ticker s) (update_signal now s) (en_states e), en_signals := Suc (en_signals e) \<rparr>)"

definition receive_report :: "stamp \<Rightarrow> research_report \<Rightarrow> core_engine \<Rightarrow> core_engine" where
  "receive_report now r e = with_store (save_report (rr_ticker r) r now)
     (e\<lparr> en_states := track fresh_ticker (rr_ticker r) (update_report now r) (en_states e), en_reports := Suc (en_reports e) \<rparr>)"

definition receive_fundamental :: "core_config \<Rightarrow> stamp \<Rightarrow> fundamental_signal \<Rightarrow> core_engine \<Rightarrow> core_engine" where
  "receive_fundamental cfg now s e =
     (let c = track fresh_lt_ticker (fs_ticker s) (update_fundamental (cc_wacc cfg) now s) (en_lt_states e)
      in with_store (\<lambda>db. save_stop_state (fs_ticker s) (tracked fresh_lt_ticker c (fs_ticker s)) (save_fundamental_signal (fs_ticker s) s now db))
           (e\<lparr> en_lt_states := c, en_fundamentals := Suc (en_fundamentals e) \<rparr>))"

definition receive_lt_report :: "stamp \<Rightarrow> lt_report \<Rightarrow> core_engine \<Rightarrow> core_engine" where
  "receive_lt_report now r e =
     (let c = track fresh_lt_ticker (lr_ticker r) (update_lt_report now r) (en_lt_states e)
      in with_store (\<lambda>db. save_stop_state (lr_ticker r) (tracked fresh_lt_ticker c (lr_ticker r)) (save_long_term_report (lr_ticker r) r now db))
           (e\<lparr> en_lt_states := c, en_lt_reports := Suc (en_lt_reports e) \<rparr>))"

definition handle_core_message ::
    "alert_digest \<Rightarrow> core_config \<Rightarrow> stamp \<Rightarrow> bool \<Rightarrow> core_message option \<Rightarrow> core_engine \<Rightarrow> py_error option \<times> core_engine" where
  "handle_core_message digest cfg now accepted message e =
     (case message of
        None \<Rightarrow> (None, e)
      | Some (QUANT_SIGNAL s) \<Rightarrow> decide_day digest cfg now accepted (qs_ticker s) (receive_signal now s e)
      | Some (BRAIN_REPORT r) \<Rightarrow> decide_day digest cfg now accepted (rr_ticker r) (receive_report now r e)
      | Some (FUNDAMENTAL_SIGNAL s) \<Rightarrow> decide_long digest cfg now accepted (fs_ticker s) (receive_fundamental cfg now s e)
      | Some (LONG_TERM_REPORT r) \<Rightarrow> decide_long digest cfg now accepted (lr_ticker r) (receive_lt_report now r e))"

definition flush_core :: "stamp \<Rightarrow> (alert_record \<Rightarrow> publish_outcome) option \<Rightarrow> (alert_record \<Rightarrow> int) \<Rightarrow> core_engine \<Rightarrow> core_engine" where
  "flush_core now publish wait e =
     e\<lparr> en_outbox := flush now publish wait (en_outbox e), en_wire := en_wire e @ map ar_payload (flushed now publish (en_outbox e)) \<rparr>"

text \<open>A new process: the counters start again, the correlators come from the store and the outbox from its state file.\<close>

definition restart_core :: "core_engine \<Rightarrow> core_engine" where
  "restart_core e =
     \<lparr> en_states = (case en_store e of None \<Rightarrow> Map.empty | Some db \<Rightarrow> load_into (cs_states db) Map.empty),
       en_lt_states = (case en_store e of None \<Rightarrow> Map.empty | Some db \<Rightarrow> load_into_long_term (cs_lt_states db) Map.empty),
       en_store = en_store e,
       en_outbox = \<lparr> ao_records = ao_records (en_outbox e), ao_enqueued = 0, ao_delivered = 0, ao_retried = 0, ao_failed = 0, ao_duplicates = 0 \<rparr>,
       en_signals = 0, en_reports = 0, en_alerts = 0, en_fundamentals = 0, en_lt_reports = 0, en_lt_alerts = 0, en_wire = en_wire e \<rparr>"

definition first_start :: core_engine where
  "first_start =
     \<lparr> en_states = Map.empty, en_lt_states = Map.empty,
       en_store = Some \<lparr> cs_states = [], cs_lt_states = [], cs_suppressed = [] \<rparr>,
       en_outbox = \<lparr> ao_records = [], ao_enqueued = 0, ao_delivered = 0, ao_retried = 0, ao_failed = 0, ao_duplicates = 0 \<rparr>,
       en_signals = 0, en_reports = 0, en_alerts = 0, en_fundamentals = 0, en_lt_reports = 0, en_lt_alerts = 0, en_wire = [] \<rparr>"

text \<open>The runs of an engine with persistence, its clock never running backwards and no retry waiting longer than \<open>gap\<close>.  An exception that leaves a message is caught by
  \<open>run\<close>, which reconnects.\<close>

inductive core_step :: "alert_digest \<Rightarrow> core_config \<Rightarrow> int \<Rightarrow> stamp \<times> core_engine \<Rightarrow> stamp \<times> core_engine \<Rightarrow> bool" for digest cfg gap where
  core_message: "t \<le> now \<Longrightarrow> core_step digest cfg gap (t, e) (now, snd (handle_core_message digest cfg now accepted message e))"
| core_flush: "t \<le> now \<Longrightarrow> (\<And>r. wait r \<le> gap) \<Longrightarrow> core_step digest cfg gap (t, e) (now, flush_core now publish wait e)"
| core_restart: "t \<le> now \<Longrightarrow> core_step digest cfg gap (t, e) (now, restart_core e)"

inductive core_reachable :: "alert_digest \<Rightarrow> core_config \<Rightarrow> int \<Rightarrow> stamp \<times> core_engine \<Rightarrow> bool" for digest cfg gap where
  core_start: "core_reachable digest cfg gap (t, first_start)"
| core_next: "core_reachable digest cfg gap s \<Longrightarrow> core_step digest cfg gap s s' \<Longrightarrow> core_reachable digest cfg gap s'"

inductive_cases core_stepE: "core_step digest cfg gap (t, e) s'"

section \<open>The store mirrors the correlators\<close>

definition mirrored :: "core_engine \<Rightarrow> bool" where
  "mirrored e \<longleftrightarrow> (case en_store e of None \<Rightarrow> False
     | Some db \<Rightarrow> day_state.mirrors (cs_states db) (en_states e) \<and> long_state.mirrors (cs_lt_states db) (en_lt_states e))"

lemma save_other_table [simp]:
  "cs_lt_states (save_signal ticker s at_ts db) = cs_lt_states db" "cs_lt_states (save_report ticker r at_ts db) = cs_lt_states db"
  "cs_lt_states (save_alert ticker at_ts action price db) = cs_lt_states db"
  "cs_states (save_long_term_alert ticker at_ts action price db) = cs_states db"
  "cs_states (save_stop_state ticker st db) = cs_states db" "cs_states (save_fundamental_signal ticker fs at_ts db) = cs_states db"
  "cs_states (save_long_term_report ticker lr at_ts db) = cs_states db"
  "cs_states (record_suppressed ticker why at_ts h db) = cs_states db" "cs_lt_states (record_suppressed ticker why at_ts h db) = cs_lt_states db"
  by (simp_all add: save_signal_def save_report_def save_alert_def save_long_term_alert_def save_stop_state_def
      save_fundamental_signal_def save_long_term_report_def record_suppressed_def)

lemma deliver_simps [simp]:
  "en_states (publish_alert digest now accepted a e) = en_states e" "en_lt_states (publish_alert digest now accepted a e) = en_lt_states e"
  "en_store (publish_alert digest now accepted a e) = en_store e"
  "en_states (publish_long_term_alert digest now accepted b e) = en_states e"
  "en_lt_states (publish_long_term_alert digest now accepted b e) = en_lt_states e"
  "en_store (publish_long_term_alert digest now accepted b e) = en_store e"
  by (simp_all add: publish_alert_def publish_long_term_alert_def deliver_alert_def Let_def)

lemma tracked_track: "tracked b (track b ticker f c) ticker = f (tracked b c ticker)"
  by (simp add: tracked_def track_def)

lemma receive_mirrored:
  assumes "mirrored e"
  shows "mirrored (receive_signal now s e)" "mirrored (receive_report now r e)" "mirrored (receive_fundamental cfg now fs e)"
    "mirrored (receive_lt_report now lr e)"
  using assms save_day_mirrors save_long_mirrors
  by (auto simp: mirrored_def with_store_def receive_signal_def receive_report_def receive_fundamental_def receive_lt_report_def
      Let_def tracked_track split: option.splits)

lemma decide_mirrored:
  assumes "mirrored e"
  shows "mirrored (snd (decide_day digest cfg now accepted ticker e))" "mirrored (snd (decide_long digest cfg now accepted ticker e))"
  using assms save_day_mirrors(3) save_long_mirrors(1)
  by (auto simp: mirrored_def with_store_def decide_day_def decide_long_def Let_def split: option.splits sum.splits)

lemma handle_mirrored: "mirrored e \<Longrightarrow> mirrored (snd (handle_core_message digest cfg now accepted message e))"
  by (auto simp: handle_core_message_def decide_mirrored receive_mirrored split: option.split core_message.split)

lemma restart_same:
  assumes "mirrored e"
  shows "en_states (restart_core e) = en_states e" "en_lt_states (restart_core e) = en_lt_states e" "en_store (restart_core e) = en_store e"
  using assms day_state.rehydrate long_state.rehydrate
  by (auto simp: restart_core_def mirrored_def load_into_def load_into_long_term_def split: option.splits)

lemma mirrored_frame:
  assumes "en_states e' = en_states e" "en_lt_states e' = en_lt_states e" "en_store e' = en_store e"
  shows "mirrored e' = mirrored e"
  using assms by (cases "en_store e") (simp_all add: mirrored_def)

lemma restart_mirrored: "mirrored e \<Longrightarrow> mirrored (restart_core e)"
  using mirrored_frame [OF restart_same] by blast

lemma flush_mirrored [simp]: "mirrored (flush_core now publish wait e) = mirrored e"
  by (rule mirrored_frame) (simp_all add: flush_core_def)

lemma reachable_mirrored: "core_reachable digest cfg gap s \<Longrightarrow> mirrored (snd s)"
proof (induction rule: core_reachable.induct)
  case (core_start t)
  then show ?case by (simp add: mirrored_def first_start_def day_state.mirrors_empty long_state.mirrors_empty)
next
  case (core_next s s')
  from core_next(2,3) show ?case
    by cases (simp_all add: handle_mirrored restart_mirrored)
qed

section \<open>What the outbox remembers of an alert\<close>

definition skeleton :: "alert_record \<Rightarrow> string \<times> horizon \<times> symbol \<times> v1_action \<times> stamp" where
  "skeleton r = (ar_id r, ar_kind r, ar_ticker r, ar_action r, ar_created r)"

lemma skeleton_flush: "map skeleton (ao_records (flush now publish wait ob)) = map skeleton (ao_records ob)"
  by (simp add: flush_def Let_def skeleton_def flush_record_def schedule_again_def published_row_def
      split: option.split publish_outcome.split)

lemma skeleton_mark_published: "map skeleton (ao_records (mark_published now oid ob)) = map skeleton (ao_records ob)"
proof -
  have "map skeleton (update_rows P (published_row now) rs) = map skeleton rs" for P rs
    by (rule map_update_rows) (simp add: skeleton_def published_row_def)
  then show ?thesis by (simp add: mark_published_def split: option.split)
qed

lemma skeleton_enqueue:
  "map skeleton (ao_records (enqueue oid payload kind ticker action now ob))
     = map skeleton (ao_records ob) @ (if oid \<in> ar_id ` set (ao_records ob) then [] else [(oid, kind, ticker, action, now)])"
proof (cases "row_by ar_id oid (ao_records ob)")
  case None
  then have "oid \<notin> ar_id ` set (ao_records ob)" by (simp add: row_by_None)
  with None show ?thesis by (simp add: enqueue_def new_record_def skeleton_def)
next
  case (Some r)
  have "oid \<in> ar_id ` set (ao_records ob)" using row_by_Some [OF Some] by (metis image_eqI)
  moreover have "map skeleton (update_rows P (\<lambda>r. r\<lparr> ar_payload := payload \<rparr>) rs) = map skeleton rs" for P rs
    by (rule map_update_rows) (simp add: skeleton_def)
  ultimately show ?thesis by (simp add: enqueue_def Some)
qed

lemma skeleton_deliver:
  "map skeleton (ao_records (en_outbox (deliver_alert digest now accepted kind payload ticker action at_ts e)))
     = map skeleton (ao_records (en_outbox e))
       @ (if digest ticker kind action at_ts \<in> ar_id ` set (ao_records (en_outbox e)) then []
          else [(digest ticker kind action at_ts, kind, ticker, action, now)])"
  by (simp add: deliver_alert_def Let_def skeleton_mark_published skeleton_enqueue)

text \<open>The alerts as a set of what they were about; the identifiers are the digests.\<close>

definition alerts_of :: "core_engine \<Rightarrow> (string \<times> horizon \<times> symbol \<times> v1_action \<times> stamp) set" where
  "alerts_of e = set (map skeleton (ao_records (en_outbox e)))"

definition digested :: "alert_digest \<Rightarrow> (string \<times> horizon \<times> symbol \<times> v1_action \<times> stamp) set \<Rightarrow> bool" where
  "digested digest A \<longleftrightarrow> (\<forall>(oid, kind, ticker, action, at_ts) \<in> A. oid = digest ticker kind action at_ts)"

lemma alerts_of_deliver:
  "alerts_of (deliver_alert digest at_ts accepted kind payload ticker action at_ts e)
     = alerts_of e \<union> (if digest ticker kind action at_ts \<in> fst ` alerts_of e then {} else {(digest ticker kind action at_ts, kind, ticker, action, at_ts)})"
proof -
  have "fst ` alerts_of e = ar_id ` set (ao_records (en_outbox e))" by (simp add: alerts_of_def image_image skeleton_def)
  then show ?thesis by (simp add: alerts_of_def skeleton_deliver del: set_map)
qed

end
