(* ===== verification/Core_Safety.thy ===== *)
theory Core_Safety
  imports Core_Engine
begin

text \<open>
  What holds in every run of the decision engine: its store loses nothing, its alerts respect their cooldown, an alert
  once decided stays owed until it is sent or given up, and only a price of zero makes an evaluation raise.
\<close>

section \<open>Induction over a run\<close>

text \<open>The outbox after an alert's delivery.\<close>

definition delivered :: "alert_digest \<Rightarrow> stamp \<Rightarrow> bool \<Rightarrow> horizon \<Rightarrow> alert_payload \<Rightarrow> symbol \<Rightarrow> v1_action \<Rightarrow> alert_outbox \<Rightarrow> alert_outbox" where
  "delivered digest now accepted kind payload ticker action ob =
     (let oid = digest ticker kind action now; ob1 = enqueue oid payload kind ticker action now ob
      in if accepted then mark_published now oid ob1 else ob1)"

lemma publish_effects:
  "ac_at a = now \<Longrightarrow> en_outbox (publish_alert digest now accepted a e) =
     delivered digest now accepted INTRADAY (INTRADAY_ALERT a) (ac_ticker a) (ac_action a) (en_outbox e)"
  "en_wire (publish_alert digest now accepted a e) = en_wire e @ (if accepted then [INTRADAY_ALERT a] else [])"
  "al_at b = now \<Longrightarrow> en_outbox (publish_long_term_alert digest now accepted b e) =
     delivered digest now accepted LONG_TERM (LONG_TERM_ALERT b) (al_ticker b) (al_action b) (en_outbox e)"
  "en_wire (publish_long_term_alert digest now accepted b e) = en_wire e @ (if accepted then [LONG_TERM_ALERT b] else [])"
  by (simp_all add: publish_alert_def publish_long_term_alert_def deliver_alert_def delivered_def Let_def)

lemma alert_stamps:
  "evaluate st cfg now = Inr (Inr a) \<Longrightarrow> ac_at a = now"
  "evaluate_long_term lst cfg now = Inr (Inr b) \<Longrightarrow> al_at b = now"
  by (auto elim!: evaluate_alert evaluate_long_term_alert simp: build_alert_def build_lt_alert_def)

lemma with_store_view [simp]:
  "en_states (with_store f e) = en_states e" "en_lt_states (with_store f e) = en_lt_states e"
  "en_outbox (with_store f e) = en_outbox e" "en_wire (with_store f e) = en_wire e"
  by (simp_all add: with_store_def)

lemma core_run_induct:
  assumes run: "core_reachable digest cfg gap s"
    and start: "\<And>t. P t Map.empty Map.empty (en_outbox first_start) []"
    and later: "\<And>t t' c l ob ob' w. P t c l ob w \<Longrightarrow> t \<le> t' \<Longrightarrow> ao_records ob' = ao_records ob \<Longrightarrow> P t' c l ob' w"
    and signal: "\<And>t c l ob w x. P t c l ob w \<Longrightarrow> P t (track fresh_ticker (qs_ticker x) (update_signal t x) c) l ob w"
    and report: "\<And>t c l ob w x. P t c l ob w \<Longrightarrow> P t (track fresh_ticker (rr_ticker x) (update_report t x) c) l ob w"
    and fundamental: "\<And>t c l ob w x. P t c l ob w \<Longrightarrow> P t c (track fresh_lt_ticker (fs_ticker x) (update_fundamental (cc_wacc cfg) t x) l) ob w"
    and lt_report: "\<And>t c l ob w x. P t c l ob w \<Longrightarrow> P t c (track fresh_lt_ticker (lr_ticker x) (update_lt_report t x) l) ob w"
    and alert: "\<And>t c l ob w ticker accepted a. P t c l ob w \<Longrightarrow> evaluate (tracked fresh_ticker c ticker) cfg t = Inr (Inr a) \<Longrightarrow>
      P t (track fresh_ticker ticker (mark_alerted (ac_action a) (qs_price (ac_signal a)) t) c) l
        (delivered digest t accepted INTRADAY (INTRADAY_ALERT a) (ac_ticker a) (ac_action a) ob) (w @ (if accepted then [INTRADAY_ALERT a] else []))"
    and lt_alert: "\<And>t c l ob w ticker accepted a. P t c l ob w \<Longrightarrow> evaluate_long_term (tracked fresh_lt_ticker l ticker) cfg t = Inr (Inr a) \<Longrightarrow>
      P t c (track fresh_lt_ticker ticker (mark_lt_alerted (al_action a) (al_price a) t) l)
        (delivered digest t accepted LONG_TERM (LONG_TERM_ALERT a) (al_ticker a) (al_action a) ob) (w @ (if accepted then [LONG_TERM_ALERT a] else []))"
    and flush: "\<And>t c l ob w publish wait. P t c l ob w \<Longrightarrow> (\<And>r. wait r \<le> gap) \<Longrightarrow> P t c l (flush t publish wait ob) (w @ map ar_payload (flushed t publish ob))"
  shows "P (fst s) (en_states (snd s)) (en_lt_states (snd s)) (en_outbox (snd s)) (en_wire (snd s))"
proof -
  let ?P = "\<lambda>t e. P t (en_states e) (en_lt_states e) (en_outbox e) (en_wire e)"
  have day: "?P t (snd (decide_day digest cfg t accepted ticker e))" if p: "?P t e" for t accepted ticker and e :: core_engine
  proof (cases "evaluate (tracked fresh_ticker (en_states e) ticker) cfg t")
    case (Inr d)
    then show ?thesis
    proof (cases d)
      case (Inr a)
      from \<open>evaluate _ cfg t = Inr d\<close> Inr have ev: "evaluate (tracked fresh_ticker (en_states e) ticker) cfg t = Inr (Inr a)" by simp
      from alert [OF p ev, of accepted] show ?thesis
        by (simp add: decide_day_def ev Let_def publish_effects alert_stamps(1) [OF ev])
    qed (use p in \<open>simp add: decide_day_def\<close>)
  qed (use p in \<open>simp add: decide_day_def\<close>)
  have long: "?P t (snd (decide_long digest cfg t accepted ticker e))" if p: "?P t e" for t accepted ticker and e :: core_engine
  proof (cases "evaluate_long_term (tracked fresh_lt_ticker (en_lt_states e) ticker) cfg t")
    case (Inr d)
    then show ?thesis
    proof (cases d)
      case (Inr a)
      from \<open>evaluate_long_term _ cfg t = Inr d\<close> Inr have ev: "evaluate_long_term (tracked fresh_lt_ticker (en_lt_states e) ticker) cfg t = Inr (Inr a)" by simp
      from lt_alert [OF p ev, of accepted] show ?thesis
        by (simp add: decide_long_def ev Let_def publish_effects alert_stamps(2) [OF ev])
    qed (use p in \<open>simp add: decide_long_def\<close>)
  qed (use p in \<open>simp add: decide_long_def\<close>)
  have receive: "?P t (receive_signal t x e)" "?P t (receive_report t y e)" "?P t (receive_fundamental cfg t z e)" "?P t (receive_lt_report t v e)"
    if "?P t e" for t x y z v and e :: core_engine
    using signal [OF that] report [OF that] fundamental [OF that] lt_report [OF that]
    by (simp_all add: receive_signal_def receive_report_def receive_fundamental_def receive_lt_report_def Let_def)
  from run show ?thesis
  proof (induction rule: core_reachable.induct)
    case (core_start t)
    from start show ?case by (simp add: first_start_def)
  next
    case (core_next s s')
    have m: "mirrored (snd s)" by (rule reachable_mirrored [OF core_next(1)])
    from core_next(2) show ?case
    proof cases
      case (core_message t now e accepted message)
      have "?P now e" using later [OF core_next(3)] core_message by simp
      then show ?thesis unfolding core_message
        by (auto simp: handle_core_message_def intro!: day long receive split: option.split core_message.split)
    next
      case (core_flush t now wait e publish)
      have "?P now e" using later [OF core_next(3)] core_flush by simp
      from flush [OF this core_flush(4)] show ?thesis unfolding core_flush by (simp add: flush_core_def)
    next
      case (core_restart t now e)
      have "?P now e" using later [OF core_next(3)] core_restart by simp
      then have "P now (en_states e) (en_lt_states e) (en_outbox (restart_core e)) (en_wire e)"
        by (rule later) (simp_all add: restart_core_def)
      moreover have "en_wire (restart_core e) = en_wire e" by (simp add: restart_core_def)
      ultimately show ?thesis unfolding core_restart using restart_same [of e] m by (simp add: core_restart)
    qed
  qed
qed

section \<open>The outbox of a run\<close>

definition on_wire :: "alert_outbox \<Rightarrow> alert_payload list \<Rightarrow> bool" where
  "on_wire ob w \<longleftrightarrow> (\<forall>r \<in> set (ao_records ob). ar_status r = PUB_SENT \<longrightarrow> ar_payload r \<in> set w)"

lemma enqueue_mem:
  assumes ok: "outbox_ok ob" and r: "r \<in> set (ao_records (enqueue oid payload kind ticker action now ob))"
  shows "r \<in> set (ao_records ob) \<or> (ar_id r = oid \<and> ar_payload r = payload \<and> ar_status r \<noteq> PUB_SENT)"
proof (cases "row_by ar_id oid (ao_records ob)")
  case None
  then show ?thesis using r by (auto simp: enqueue_def new_record_def)
next
  case (Some q)
  have "x = q" if "x \<in> set (ao_records ob)" "ar_id x = oid" for x
    using ok that row_by_Some [OF Some] distinct_key [of ar_id "ao_records ob" x q] by (simp add: outbox_ok_def)
  then show ?thesis using r Some by (auto simp: enqueue_def in_update_rows terminal_def split: if_splits)
qed

text \<open>What \<open>mark_published\<close> publishes carries the payload that was just enqueued.\<close>

lemma delivered_mem:
  assumes ok: "outbox_ok ob" and r: "r \<in> set (ao_records (delivered digest now accepted kind payload ticker action ob))"
    and sent: "ar_status r = PUB_SENT"
  shows "r \<in> set (ao_records ob) \<or> (accepted \<and> ar_payload r = payload)"
proof -
  let ?oid = "digest ticker kind action now"
  let ?ob = "enqueue ?oid payload kind ticker action now ob"
  have ok1: "outbox_ok ?ob" by (rule enqueue_outbox_ok [OF ok])
  show ?thesis
  proof (cases "accepted \<and> r \<notin> set (ao_records ?ob)")
    case False
    then have "r \<in> set (ao_records ?ob)" using r by (auto simp: delivered_def Let_def split: if_splits)
    then show ?thesis using enqueue_mem [OF ok] sent by blast
  next
    case True
    then obtain q where q: "row_by ar_id ?oid (ao_records ?ob) = Some q" "\<not> terminal (ar_status q)"
        and "r \<in> set (update_rows (\<lambda>r. ar_id r = ?oid) (published_row now) (ao_records ?ob))"
      using r by (auto simp: delivered_def Let_def mark_published_def split: option.splits if_splits)
    with True obtain p where p: "p \<in> set (ao_records ?ob)" "ar_id p = ?oid" "r = published_row now p"
      by (auto simp: in_update_rows split: if_splits)
    have "p = q" using ok1 p row_by_Some [OF q(1)] distinct_key [of ar_id "ao_records ?ob" p q] by (simp add: outbox_ok_def)
    have "ar_payload p = payload"
    proof (cases "row_by ar_id ?oid (ao_records ob)")
      case None
      then have "?oid \<notin> ar_id ` set (ao_records ob)" by (simp add: row_by_None)
      with enqueue_mem [OF ok p(1)] p(2) show ?thesis by (metis image_eqI)
    next
      case (Some r0)
      have "ar_payload p = payload \<or> (terminal (ar_status r0) \<and> p \<in> set (ao_records ob))"
      proof (cases "terminal (ar_status r0)")
        case True
        with Some p(1) show ?thesis by (simp add: enqueue_def)
      next
        case False
        with Some p(1) obtain x where "p = (if ar_id x = ?oid then x\<lparr> ar_payload := payload \<rparr> else x)"
          by (auto simp: enqueue_def in_update_rows)
        with p(2) show ?thesis by (simp split: if_splits)
      qed
      moreover have "p = r0" if "p \<in> set (ao_records ob)"
        using ok that p(2) row_by_Some [OF Some] distinct_key [of ar_id "ao_records ob" p r0] by (simp add: outbox_ok_def)
      ultimately show ?thesis using q(2) \<open>p = q\<close> by auto
    qed
    with True p(3) show ?thesis by simp
  qed
qed

lemma on_wire_delivered:
  assumes "outbox_ok ob" "on_wire ob w"
  shows "on_wire (delivered digest now accepted kind payload ticker action ob) (w @ (if accepted then [payload] else []))"
  unfolding on_wire_def
proof (intro ballI impI)
  fix r assume "r \<in> set (ao_records (delivered digest now accepted kind payload ticker action ob))" "ar_status r = PUB_SENT"
  from delivered_mem [OF assms(1) this] assms(2) \<open>ar_status r = PUB_SENT\<close>
  show "ar_payload r \<in> set (w @ (if accepted then [payload] else []))" by (auto simp: on_wire_def)
qed

lemma delivered_ok: "outbox_ok ob \<Longrightarrow> outbox_ok (delivered digest now accepted kind payload ticker action ob)"
  by (simp add: delivered_def Let_def enqueue_outbox_ok mark_published_ok)

lemma on_wire_flush:
  assumes "on_wire ob w"
  shows "on_wire (flush now publish wait ob) (w @ map ar_payload (flushed now publish ob))"
  unfolding on_wire_def
proof (intro ballI impI)
  fix q assume "q \<in> set (ao_records (flush now publish wait ob))" and sent: "ar_status q = PUB_SENT"
  then obtain r where r: "r \<in> set (ao_records ob)" and q: "q = flush_record now publish wait r" by (auto simp: flush_def Let_def)
  show "ar_payload q \<in> set (w @ map ar_payload (flushed now publish ob))"
  proof (cases "ar_status r = PUB_SENT")
    case True
    with assms r q show ?thesis by (simp add: on_wire_def)
  next
    case False
    then have "r \<in> set (flushed now publish ob)" using r sent unfolding q
      by (auto simp: flushed_def flush_record_def schedule_again_def Let_def split: if_splits option.splits publish_outcome.splits)
    then show ?thesis unfolding q by simp
  qed
qed

lemma reachable_outbox:
  assumes "core_reachable digest cfg gap s"
  shows "outbox_ok (en_outbox (snd s)) \<and> on_wire (en_outbox (snd s)) (en_wire (snd s))"
proof (rule core_run_induct [OF assms, where P = "\<lambda>t c l ob w. outbox_ok ob \<and> on_wire ob w"])
  show "outbox_ok (en_outbox first_start) \<and> on_wire (en_outbox first_start) []"
    by (simp add: first_start_def outbox_ok_def on_wire_def)
next
  show "outbox_ok ob' \<and> on_wire ob' w" if "outbox_ok ob \<and> on_wire ob w" "ao_records ob' = ao_records ob" for ob ob' w
    using that by (simp add: outbox_ok_def on_wire_def)
qed (simp_all add: on_wire_flush flush_ok on_wire_delivered delivered_ok)

section \<open>The correlators of a run\<close>

definition own_states :: "(symbol \<rightharpoonup> ticker_state) \<Rightarrow> stamp \<Rightarrow> bool" where
  "own_states c t \<longleftrightarrow> (\<forall>k st. c k = Some st \<longrightarrow>
     (\<forall>s. tk_signal st = Some s \<longrightarrow> upper (qs_ticker s) = k) \<and> (\<forall>a. tk_last_at st = Some a \<longrightarrow> a \<le> t))"

definition own_lt_states :: "(symbol \<rightharpoonup> lt_state) \<Rightarrow> bool" where
  "own_lt_states l \<longleftrightarrow> (\<forall>k st. l k = Some st \<longrightarrow>
     (\<forall>s. ls_signal st = Some s \<longrightarrow> upper (fs_ticker s) = k) \<and> ls_last_price st \<noteq> Some 0)"

definition outbox_alerts :: "alert_outbox \<Rightarrow> (string \<times> horizon \<times> symbol \<times> v1_action \<times> stamp) set" where
  "outbox_alerts ob = set (map skeleton (ao_records ob))"

lemma outbox_alerts_delivered:
  "outbox_alerts (delivered digest now accepted kind payload ticker action ob)
     = outbox_alerts ob \<union> (if digest ticker kind action now \<in> fst ` outbox_alerts ob then {} else {(digest ticker kind action now, kind, ticker, action, now)})"
proof -
  have "fst ` outbox_alerts ob = ar_id ` set (ao_records ob)" by (simp add: outbox_alerts_def image_image skeleton_def)
  then show ?thesis
    by (simp add: outbox_alerts_def delivered_def Let_def skeleton_mark_published skeleton_enqueue del: set_map)
qed

lemma outbox_alerts_flush [simp]: "outbox_alerts (flush now publish wait ob) = outbox_alerts ob"
  by (simp only: outbox_alerts_def skeleton_flush)

text \<open>An alert of a ticker lies behind the ticker's last one, and the cooldown apart from any other.\<close>

definition behind :: "(symbol \<rightharpoonup> ticker_state) \<Rightarrow> (string \<times> horizon \<times> symbol \<times> v1_action \<times> stamp) set \<Rightarrow> bool" where
  "behind c A \<longleftrightarrow> (\<forall>oid ticker action at_ts. (oid, INTRADAY, ticker, action, at_ts) \<in> A \<longrightarrow>
     (\<exists>st a. c (upper ticker) = Some st \<and> tk_last_at st = Some a \<and> at_ts \<le> a))"

definition apart :: "int \<Rightarrow> (string \<times> horizon \<times> symbol \<times> v1_action \<times> stamp) set \<Rightarrow> bool" where
  "apart gap A \<longleftrightarrow> (\<forall>oid ticker action at_ts oid' ticker' action' at_ts'.
     (oid, INTRADAY, ticker, action, at_ts) \<in> A \<longrightarrow> (oid', INTRADAY, ticker', action', at_ts') \<in> A \<longrightarrow> upper ticker = upper ticker' \<longrightarrow>
     oid \<noteq> oid' \<longrightarrow> gap \<le> \<bar>at_ts - at_ts'\<bar>)"

lemma apart_insert:
  assumes "apart gap A" "\<And>oid' ticker' action' at_ts'. (oid', INTRADAY, ticker', action', at_ts') \<in> A \<Longrightarrow> upper ticker' = upper ticker \<Longrightarrow> gap \<le> at_ts - at_ts'"
  shows "apart gap (insert (oid, INTRADAY, ticker, action, at_ts) A)"
  using assms(1) assms(2) unfolding apart_def by (auto simp: abs_if) (smt (verit))+

lemma apart_insert_long: "h \<noteq> INTRADAY \<Longrightarrow> apart gap (insert (oid, h, ticker, action, at_ts) A) = apart gap A"
  by (auto simp: apart_def)

lemma own_tracked:
  assumes "own_states c t"
  shows "tk_signal (tracked fresh_ticker c ticker) = Some s \<Longrightarrow> upper (qs_ticker s) = upper ticker"
    "tk_last_at (tracked fresh_ticker c ticker) = Some a \<Longrightarrow> a \<le> t"
  using assms by (simp_all add: own_states_def tracked_def fresh_ticker_def split: option.splits)

lemma own_lt_tracked:
  assumes "own_lt_states l"
  shows "ls_signal (tracked fresh_lt_ticker l ticker) = Some s \<Longrightarrow> upper (fs_ticker s) = upper ticker"
    "ls_last_price (tracked fresh_lt_ticker l ticker) \<noteq> Some 0"
  using assms by (simp_all add: own_lt_states_def tracked_def fresh_lt_ticker_def split: option.splits)

lemma own_states_track:
  assumes "own_states c t"
    "\<And>s. tk_signal (f (tracked fresh_ticker c ticker)) = Some s \<Longrightarrow> upper (qs_ticker s) = upper ticker"
    "\<And>a. tk_last_at (f (tracked fresh_ticker c ticker)) = Some a \<Longrightarrow> a \<le> t"
  shows "own_states (track fresh_ticker ticker f c) t"
  using assms by (simp add: own_states_def track_def)

lemma own_lt_states_track:
  assumes "own_lt_states l"
    "\<And>s. ls_signal (f (tracked fresh_lt_ticker l ticker)) = Some s \<Longrightarrow> upper (fs_ticker s) = upper ticker"
    "ls_last_price (f (tracked fresh_lt_ticker l ticker)) \<noteq> Some 0"
  shows "own_lt_states (track fresh_lt_ticker ticker f l)"
  using assms by (simp add: own_lt_states_def track_def)

lemma day_alert_of:
  assumes "own_states c t" "evaluate (tracked fresh_ticker c ticker) cfg now = Inr (Inr a)"
  shows "upper (ac_ticker a) = upper ticker" "\<not> cooling (tk_last_at (tracked fresh_ticker c ticker)) now (cc_cooldown cfg)"
  using assms(2) own_tracked(1) [OF assms(1), of ticker] by (auto elim!: evaluate_alert simp: build_alert_def)

lemma long_alert_of:
  assumes "own_lt_states l" "evaluate_long_term (tracked fresh_lt_ticker l ticker) cfg now = Inr (Inr a)"
  shows "upper (al_ticker a) = upper ticker" "0 < al_price a"
  using assms(2) own_lt_tracked(1) [OF assms(1), of ticker] by (auto elim!: evaluate_long_term_alert simp: build_lt_alert_def)

lemma mark_simps [simp]:
  "tk_signal (mark_alerted action price at_ts st) = tk_signal st" "tk_last_at (mark_alerted action price at_ts st) = Some at_ts"
  "tk_last_action (mark_alerted action price at_ts st) = Some action"
  "ls_signal (mark_lt_alerted action price at_ts lst) = ls_signal lst" "ls_last_at (mark_lt_alerted action price at_ts lst) = Some at_ts"
  "ls_last_action (mark_lt_alerted action price at_ts lst) = Some action" "ls_last_price (mark_lt_alerted action price at_ts lst) = Some price"
  by (simp_all add: mark_alerted_def mark_lt_alerted_def)

lemma update_simps [simp]:
  "tk_signal (update_signal now s st) = Some s" "tk_last_at (update_signal now s st) = tk_last_at st"
  "tk_last_action (update_signal now s st) = tk_last_action st"
  "tk_signal (update_report now r st) = tk_signal st" "tk_last_at (update_report now r st) = tk_last_at st"
  "tk_last_action (update_report now r st) = tk_last_action st"
  "ls_signal (update_fundamental wacc now f lst) = Some f" "ls_last_at (update_fundamental wacc now f lst) = ls_last_at lst"
  "ls_last_action (update_fundamental wacc now f lst) = ls_last_action lst" "ls_last_price (update_fundamental wacc now f lst) = ls_last_price lst"
  "ls_signal (update_lt_report now g lst) = ls_signal lst" "ls_last_at (update_lt_report now g lst) = ls_last_at lst"
  "ls_last_action (update_lt_report now g lst) = ls_last_action lst" "ls_last_price (update_lt_report now g lst) = ls_last_price lst"
  by (simp_all add: update_signal_def update_report_def update_fundamental_def update_lt_report_def Let_def split: option.split)

text \<open>Induction with the facts about tickers at hand.\<close>

lemma core_own_induct:
  assumes run: "core_reachable digest cfg gap s"
    and start: "\<And>t. P t Map.empty Map.empty (en_outbox first_start)"
    and later: "\<And>t t' c l ob ob'. P t c l ob \<Longrightarrow> t \<le> t' \<Longrightarrow> ao_records ob' = ao_records ob \<Longrightarrow> P t' c l ob'"
    and day: "\<And>t c l ob ticker f. P t c l ob \<Longrightarrow>
      (\<And>st. tk_last_at (f st) = tk_last_at st) \<Longrightarrow> (\<And>st. tk_last_action (f st) = tk_last_action st) \<Longrightarrow>
      P t (track fresh_ticker ticker f c) l ob"
    and long: "\<And>t c l ob ticker f. P t c l ob \<Longrightarrow>
      (\<And>st. ls_last_at (f st) = ls_last_at st) \<Longrightarrow> (\<And>st. ls_last_action (f st) = ls_last_action st) \<Longrightarrow>
      P t c (track fresh_lt_ticker ticker f l) ob"
    and alert: "\<And>t c l ob ticker accepted payload price action name. P t c l ob \<Longrightarrow> own_states c t \<Longrightarrow> upper name = upper ticker \<Longrightarrow>
      \<not> cooling (tk_last_at (tracked fresh_ticker c ticker)) t (cc_cooldown cfg) \<Longrightarrow>
      P t (track fresh_ticker ticker (mark_alerted action price t) c) l (delivered digest t accepted INTRADAY payload name action ob)"
    and lt_alert: "\<And>t c l ob ticker accepted payload price action name. P t c l ob \<Longrightarrow> upper name = upper ticker \<Longrightarrow>
      P t c (track fresh_lt_ticker ticker (mark_lt_alerted action price t) l) (delivered digest t accepted LONG_TERM payload name action ob)"
    and flush: "\<And>t c l ob publish wait. P t c l ob \<Longrightarrow> (\<And>r. wait r \<le> gap) \<Longrightarrow> P t c l (flush t publish wait ob)"
  shows "own_states (en_states (snd s)) (fst s) \<and> own_lt_states (en_lt_states (snd s))
    \<and> P (fst s) (en_states (snd s)) (en_lt_states (snd s)) (en_outbox (snd s))"
proof (rule core_run_induct [OF run, where P = "\<lambda>t c l ob w. own_states c t \<and> own_lt_states l \<and> P t c l ob"], goal_cases)
  case (2 t t' c l ob ob' w)
  then have "own_states c t'" by (fastforce simp: own_states_def)
  with 2 later show ?case by blast
next
  case (3 t c l ob w x)
  then show ?case using day [of t c l ob "update_signal t x"] by (auto intro!: own_states_track dest: own_tracked)
next
  case (4 t c l ob w x)
  then show ?case using day [of t c l ob "update_report t x"] by (auto intro!: own_states_track dest: own_tracked)
next
  case (5 t c l ob w x)
  then show ?case using long [of t c l ob "update_fundamental (cc_wacc cfg) t x"] by (auto intro!: own_lt_states_track dest: own_lt_tracked)
next
  case (6 t c l ob w x)
  then show ?case using long [of t c l ob "update_lt_report t x"] by (auto intro!: own_lt_states_track dest: own_lt_tracked)
next
  case (7 t c l ob w ticker accepted a)
  then have "own_states c t" "P t c l ob" by simp_all
  from alert [OF this(2,1) day_alert_of [OF this(1) 7(2)]] 7 show ?case by (auto intro!: own_states_track dest: own_tracked)
next
  case (8 t c l ob w ticker accepted a)
  then have "own_lt_states l" "P t c l ob" by simp_all
  note a = long_alert_of [OF this(1) 8(2)]
  from lt_alert [OF \<open>P t c l ob\<close> a(1)] a(2) 8 show ?case by (auto intro!: own_lt_states_track dest: own_lt_tracked)
qed (simp_all add: start flush own_states_def own_lt_states_def)

lemma behind_track:
  assumes "behind c A" "\<And>st. tk_last_at (f st) = tk_last_at st"
  shows "behind (track fresh_ticker ticker f c) A"
  using assms by (fastforce simp: behind_def track_def tracked_def)

lemma behind_alert:
  assumes "behind c A" "own_states c now" "upper name = upper ticker"
  shows "behind (track fresh_ticker ticker (mark_alerted action price now) c) (A \<union> (if known then {} else {(oid, INTRADAY, name, action, now)}))"
  unfolding behind_def
proof (intro allI impI)
  fix i k act at_ts
  assume "(i, INTRADAY, k, act, at_ts) \<in> A \<union> (if known then {} else {(oid, INTRADAY, name, action, now)})"
  then consider "(i, INTRADAY, k, act, at_ts) \<in> A" | "k = name" "at_ts = now" by (auto split: if_splits)
  then show "\<exists>st a. track fresh_ticker ticker (mark_alerted action price now) c (upper k) = Some st \<and> tk_last_at st = Some a \<and> at_ts \<le> a"
  proof cases
    case 1
    with assms(1) obtain st a where "c (upper k) = Some st" "tk_last_at st = Some a" "at_ts \<le> a" unfolding behind_def by blast
    moreover from this assms(2) have "a \<le> now" unfolding own_states_def by blast
    ultimately show ?thesis by (simp add: track_def)
  qed (simp add: track_def assms(3))
qed

lemma apart_alert:
  assumes "behind c A" "apart gap A" "upper name = upper ticker" "\<not> cooling (tk_last_at (tracked fresh_ticker c ticker)) now gap"
  shows "apart gap (A \<union> (if known then {} else {(oid, INTRADAY, name, action, now)}))"
proof -
  have "gap \<le> now - at_ts'" if "(oid', INTRADAY, k, act, at_ts') \<in> A" "upper k = upper name" for oid' k act at_ts'
  proof -
    from assms(1) that(1) obtain st a where "c (upper k) = Some st" "tk_last_at st = Some a" "at_ts' \<le> a" unfolding behind_def by blast
    with assms(3,4) that(2) show ?thesis by (simp add: tracked_def cooling_def)
  qed
  then have "apart gap (insert (oid, INTRADAY, name, action, now) A)" by (intro apart_insert [OF assms(2)])
  with assms(2) show ?thesis by simp
qed

lemma reachable_own:
  assumes "core_reachable digest cfg gap s"
  shows "own_states (en_states (snd s)) (fst s)" "own_lt_states (en_lt_states (snd s))"
  using core_own_induct [OF assms, of "\<lambda>_ _ _ _. True"] by simp_all

lemma reachable_spaced:
  assumes "core_reachable digest cfg gap s"
  shows "apart (cc_cooldown cfg) (outbox_alerts (en_outbox (snd s)))"
proof -
  have "own_states (en_states (snd s)) (fst s) \<and> own_lt_states (en_lt_states (snd s))
    \<and> behind (en_states (snd s)) (outbox_alerts (en_outbox (snd s))) \<and> apart (cc_cooldown cfg) (outbox_alerts (en_outbox (snd s)))"
  proof (rule core_own_induct [OF assms, where P = "\<lambda>t c l ob. behind c (outbox_alerts ob) \<and> apart (cc_cooldown cfg) (outbox_alerts ob)"], goal_cases)
    case 1
    show ?case by (simp add: first_start_def outbox_alerts_def behind_def apart_def)
  next
    case (2 t t' c l ob ob')
    then show ?case by (simp add: outbox_alerts_def)
  next
    case (5 t c l ob ticker accepted payload price action name)
    then show ?case unfolding outbox_alerts_delivered by (intro conjI behind_alert apart_alert) simp_all
  next
    case (6 t c l ob ticker accepted payload price action name)
    then show ?case unfolding outbox_alerts_delivered by (auto simp: behind_def apart_insert_long)
  qed (simp_all add: behind_track)
  then show ?thesis by simp
qed

section \<open>The last alert of a ticker\<close>

definition last_alert :: "core_engine \<Rightarrow> horizon \<Rightarrow> symbol \<Rightarrow> (v1_action \<times> stamp) option" where
  "last_alert e h ticker =
     (let pair = (case h of INTRADAY \<Rightarrow> (let st = tracked fresh_ticker (en_states e) ticker in (tk_last_action st, tk_last_at st))
                  | LONG_TERM \<Rightarrow> (let st = tracked fresh_lt_ticker (en_lt_states e) ticker in (ls_last_action st, ls_last_at st)))
      in case pair of (Some action, Some at_ts) \<Rightarrow> Some (action, at_ts) | _ \<Rightarrow> None)"

text \<open>An identifier is the digest of its own record, and the last alert of every ticker has one.\<close>

definition owed_ids :: "alert_digest \<Rightarrow> (symbol \<rightharpoonup> ticker_state) \<Rightarrow> (symbol \<rightharpoonup> lt_state) \<Rightarrow> (string \<times> horizon \<times> symbol \<times> v1_action \<times> stamp) set \<Rightarrow> bool" where
  "owed_ids digest c l A \<longleftrightarrow> digested digest A
     \<and> (\<forall>k st action at_ts. c k = Some st \<longrightarrow> tk_last_at st = Some at_ts \<longrightarrow> tk_last_action st = Some action \<longrightarrow>
         (\<exists>ticker. upper ticker = k \<and> digest ticker INTRADAY action at_ts \<in> fst ` A))
     \<and> (\<forall>k st action at_ts. l k = Some st \<longrightarrow> ls_last_at st = Some at_ts \<longrightarrow> ls_last_action st = Some action \<longrightarrow>
         (\<exists>ticker. upper ticker = k \<and> digest ticker LONG_TERM action at_ts \<in> fst ` A))"

lemma digested_insert: "digested digest A \<Longrightarrow> digested digest (A \<union> (if known then {} else {(digest ticker kind action now, kind, ticker, action, now)}))"
  by (auto simp: digested_def)

lemma owed_ids_grow:
  assumes "owed_ids digest c l A" "digested digest (A \<union> B)"
  shows "owed_ids digest c l (A \<union> B)"
  using assms unfolding owed_ids_def image_Un Un_iff by blast

lemma owed_ids_track:
  assumes "owed_ids digest c l A"
  shows "(\<And>st. tk_last_at (f st) = tk_last_at st) \<Longrightarrow> (\<And>st. tk_last_action (f st) = tk_last_action st) \<Longrightarrow>
      owed_ids digest (track fresh_ticker ticker f c) l A"
    "(\<And>st. ls_last_at (g st) = ls_last_at st) \<Longrightarrow> (\<And>st. ls_last_action (g st) = ls_last_action st) \<Longrightarrow>
      owed_ids digest c (track fresh_lt_ticker ticker g l) A"
  using assms by (auto simp: owed_ids_def track_def tracked_def fresh_ticker_def fresh_lt_ticker_def split: option.splits)

lemma owed_ids_mark:
  assumes "owed_ids digest c l A" "upper name = upper ticker"
  shows "digest name INTRADAY action now \<in> fst ` A \<Longrightarrow>
      owed_ids digest (track fresh_ticker ticker (mark_alerted action price now) c) l A"
    "digest name LONG_TERM action now \<in> fst ` A \<Longrightarrow>
      owed_ids digest c (track fresh_lt_ticker ticker (mark_lt_alerted action price now) l) A"
  using assms by (auto simp: owed_ids_def track_def simp del: image_iff)

lemma reachable_owed:
  assumes "core_reachable digest cfg gap s"
  shows "owed_ids digest (en_states (snd s)) (en_lt_states (snd s)) (outbox_alerts (en_outbox (snd s)))"
proof -
  have "own_states (en_states (snd s)) (fst s) \<and> own_lt_states (en_lt_states (snd s))
    \<and> owed_ids digest (en_states (snd s)) (en_lt_states (snd s)) (outbox_alerts (en_outbox (snd s)))"
  proof (rule core_own_induct [OF assms, where P = "\<lambda>t c l ob. owed_ids digest c l (outbox_alerts ob)"], goal_cases)
    case 1
    show ?case by (simp add: first_start_def outbox_alerts_def owed_ids_def digested_def)
  next
    case (2 t t' c l ob ob')
    then show ?case by (simp add: outbox_alerts_def)
  next
    case (5 t c l ob ticker accepted payload price action name)
    let ?A = "outbox_alerts (delivered digest t accepted INTRADAY payload name action ob)"
    have "owed_ids digest c l ?A" using 5(1) unfolding outbox_alerts_delivered
      by (intro owed_ids_grow digested_insert) (simp_all add: owed_ids_def)
    then show ?case by (rule owed_ids_mark(1) [OF _ 5(3)]) (auto simp: outbox_alerts_delivered)
  next
    case (6 t c l ob ticker accepted payload price action name)
    let ?A = "outbox_alerts (delivered digest t accepted LONG_TERM payload name action ob)"
    have "owed_ids digest c l ?A" using 6(1) unfolding outbox_alerts_delivered
      by (intro owed_ids_grow digested_insert) (simp_all add: owed_ids_def)
    then show ?case by (rule owed_ids_mark(2) [OF _ 6(2)]) (auto simp: outbox_alerts_delivered)
  qed (simp_all add: owed_ids_track)
  then show ?thesis by simp
qed

text \<open>An outbox only grows.\<close>

lemma decide_keeps:
  "outbox_alerts (en_outbox e) \<subseteq> outbox_alerts (en_outbox (snd (decide_day digest cfg now accepted ticker e)))"
  "outbox_alerts (en_outbox e) \<subseteq> outbox_alerts (en_outbox (snd (decide_long digest cfg now accepted ticker e)))"
proof -
  have k: "outbox_alerts (en_outbox e) \<subseteq> outbox_alerts (en_outbox (deliver_alert digest now accepted kind payload k action at_ts e))"
    for accepted kind payload k action at_ts
    by (simp add: outbox_alerts_def skeleton_deliver del: set_map)
  show "outbox_alerts (en_outbox e) \<subseteq> outbox_alerts (en_outbox (snd (decide_day digest cfg now accepted ticker e)))"
    "outbox_alerts (en_outbox e) \<subseteq> outbox_alerts (en_outbox (snd (decide_long digest cfg now accepted ticker e)))"
    by (simp_all add: decide_day_def decide_long_def publish_alert_def publish_long_term_alert_def Let_def k split: sum.split)
qed

lemma receive_outbox [simp]:
  "en_outbox (receive_signal now s e) = en_outbox e" "en_outbox (receive_report now r e) = en_outbox e"
  "en_outbox (receive_fundamental cfg now f e) = en_outbox e" "en_outbox (receive_lt_report now g e) = en_outbox e"
  by (simp_all add: receive_signal_def receive_report_def receive_fundamental_def receive_lt_report_def Let_def)

lemma core_step_keeps: "core_step digest cfg gap s s' \<Longrightarrow> outbox_alerts (en_outbox (snd s)) \<subseteq> outbox_alerts (en_outbox (snd s'))"
proof (induction rule: core_step.induct)
  case (core_message t now e accepted message)
  have "outbox_alerts (en_outbox e) \<subseteq> outbox_alerts (en_outbox (snd (handle_core_message digest cfg now accepted message e)))"
  proof (cases message)
    case (Some m)
    then show ?thesis
      using decide_keeps [of "receive_signal now _ e"] decide_keeps [of "receive_report now _ e"]
        decide_keeps [of "receive_fundamental cfg now _ e"] decide_keeps [of "receive_lt_report now _ e"]
      by (cases m) (auto simp: handle_core_message_def)
  qed (simp add: handle_core_message_def)
  then show ?case by simp
qed (simp_all add: flush_core_def restart_core_def, simp add: outbox_alerts_def)

lemma core_steps_keep:
  assumes "(core_step digest cfg gap)\<^sup>*\<^sup>* s s'" "core_reachable digest cfg gap s"
  shows "core_reachable digest cfg gap s' \<and> outbox_alerts (en_outbox (snd s)) \<subseteq> outbox_alerts (en_outbox (snd s'))"
  using assms(1)
proof (induction rule: rtranclp_induct)
  case (step y z)
  then show ?case using core_next core_step_keeps [of digest cfg gap y z] by blast
qed (simp add: assms(2))

section \<open>Retries\<close>

definition timely :: "stamp \<Rightarrow> int \<Rightarrow> alert_record \<Rightarrow> bool" where
  "timely t gap r \<longleftrightarrow> ar_max r = 6 \<and> (terminal (ar_status r) \<or> due_by (t + gap) r)"

definition timed :: "stamp \<Rightarrow> int \<Rightarrow> alert_outbox \<Rightarrow> bool" where
  "timed t gap ob \<longleftrightarrow> (\<forall>r \<in> set (ao_records ob). timely t gap r)"

lemma timely_simps [simp]:
  "timely t gap (r\<lparr> ar_payload := payload \<rparr>) = timely t gap r" "timely t gap r \<Longrightarrow> timely t gap (published_row now r)"
  "0 \<le> gap \<Longrightarrow> timely now gap (new_record oid payload kind ticker action now)"
  by (auto simp: timely_def due_by_def terminal_def new_record_def)

lemma timed_delivered:
  assumes "0 \<le> gap" "timed now gap ob"
  shows "timed now gap (delivered digest now accepted kind payload ticker action ob)"
proof -
  have "timed now gap (enqueue oid payload kind ticker action now ob)" for oid
    using assms by (auto simp: timed_def enqueue_def in_update_rows split: option.split)
  moreover have "timed now gap (mark_published now oid ob)" if "timed now gap ob" for oid ob
    using that by (auto simp: timed_def mark_published_def in_update_rows split: option.split)
  ultimately show ?thesis by (simp add: delivered_def Let_def)
qed

lemma timely_flush: "timely now gap r \<Longrightarrow> (\<And>q. wait q \<le> gap) \<Longrightarrow> timely now gap (flush_record now publish wait r)"
  by (auto simp: timely_def flush_record_def schedule_again_def published_row_def terminal_def due_by_def due_record_def Let_def
      split: option.split publish_outcome.split)

lemma timed_flush: "timed now gap ob \<Longrightarrow> (\<And>q. wait q \<le> gap) \<Longrightarrow> timed now gap (flush now publish wait ob)"
  by (auto simp: timed_def flush_def Let_def timely_flush)

lemma reachable_timed:
  assumes "core_reachable digest cfg gap s" "0 \<le> gap"
  shows "timed (fst s) gap (en_outbox (snd s))"
proof (rule core_run_induct [OF assms(1), where P = "\<lambda>t c l ob w. timed t gap ob"], goal_cases)
  case (2 t t' c l ob ob' w)
  then show ?case by (fastforce simp: timed_def timely_def due_by_def split: option.splits)
qed (simp_all add: timed_delivered timed_flush assms(2), simp add: first_start_def timed_def)

section \<open>Properties\<close>

text \<open>
  C16. A restart loses nothing: in every run of the decision engine the correlators rehydrated from the store are the ones in
  memory, for both horizons, and the outbox still holds every record.
\<close>

theorem core_restart_loses_nothing:
  assumes "core_reachable digest cfg gap (t, e)"
  shows "en_states (restart_core e) = en_states e \<and> en_lt_states (restart_core e) = en_lt_states e
    \<and> ao_records (en_outbox (restart_core e)) = ao_records (en_outbox e)"
  using restart_same [of e] reachable_mirrored [OF assms] by (simp add: restart_core_def)

text \<open>
  C15. The cooldown holds across every message, retry and restart of a run: two intraday alerts of one ticker were decided at
  least the configured cooldown apart.
\<close>

theorem core_alerts_respect_the_cooldown:
  assumes "core_reachable digest cfg gap (t, e)" "r \<in> set (ao_records (en_outbox e))" "q \<in> set (ao_records (en_outbox e))" "r \<noteq> q"
    and "ar_kind r = INTRADAY" "ar_kind q = INTRADAY" "upper (ar_ticker r) = upper (ar_ticker q)"
  shows "cc_cooldown cfg \<le> \<bar>ar_created r - ar_created q\<bar>"
proof -
  have "ar_id r \<noteq> ar_id q"
    using reachable_outbox [OF assms(1)] assms(2,3,4) distinct_key [of ar_id "ao_records (en_outbox e)" r q] by (auto simp: outbox_ok_def)
  moreover have "skeleton x \<in> outbox_alerts (en_outbox e)" if "x \<in> set (ao_records (en_outbox e))" for x
    using that by (simp add: outbox_alerts_def)
  then have "(ar_id x, INTRADAY, ar_ticker x, ar_action x, ar_created x) \<in> outbox_alerts (en_outbox e)"
    if "x \<in> set (ao_records (en_outbox e))" "ar_kind x = INTRADAY" for x using that by (metis skeleton_def)
  ultimately show ?thesis using reachable_spaced [OF assms(1)] assms(2,3,5,6,7) unfolding apart_def snd_conv by blast
qed

text \<open>
  C14. No decided alert is lost: the last alert of a ticker, on either horizon, has a record under its identifier in the outbox of
  every later moment, restarts included, which is still being retried, or was given up after its last attempt, or is marked sent and then
  its payload reached Redis.
\<close>

theorem no_alert_is_lost:
  assumes "core_reachable digest cfg gap (t, e)" "last_alert e h ticker = Some (action, at_ts)"
    and "(core_step digest cfg gap)\<^sup>*\<^sup>* (t, e) (t', e')"
  shows "\<exists>r name. r \<in> set (ao_records (en_outbox e')) \<and> upper name = upper ticker \<and> ar_id r = digest name h action at_ts
    \<and> ar_id r = digest (ar_ticker r) (ar_kind r) (ar_action r) (ar_created r)
    \<and> (if \<not> terminal (ar_status r) then ar_attempts r < ar_max r
       else if ar_status r = PUB_SENT then ar_payload r \<in> set (en_wire e') else ar_attempts r = ar_max r)"
proof -
  note later = core_steps_keep [OF assms(3,1), unfolded snd_conv]
  have owed: "owed_ids digest (en_states e) (en_lt_states e) (outbox_alerts (en_outbox e))" using reachable_owed [OF assms(1)] by simp
  have "\<exists>name. upper name = upper ticker \<and> digest name h action at_ts \<in> fst ` outbox_alerts (en_outbox e)"
  proof (cases h)
    case INTRADAY
    with assms(2) owed show ?thesis
      by (auto simp: owed_ids_def last_alert_def Let_def tracked_def fresh_ticker_def simp del: image_iff split: option.splits)
  next
    case LONG_TERM
    with assms(2) owed show ?thesis
      by (auto simp: owed_ids_def last_alert_def Let_def tracked_def fresh_lt_ticker_def simp del: image_iff split: option.splits)
  qed
  then obtain name where name: "upper name = upper ticker" "digest name h action at_ts \<in> fst ` outbox_alerts (en_outbox e')"
    using later by blast
  then obtain r where r: "r \<in> set (ao_records (en_outbox e'))" "ar_id r = digest name h action at_ts"
    by (auto simp: outbox_alerts_def skeleton_def)
  have "digested digest (outbox_alerts (en_outbox e'))" using reachable_owed [OF conjunct1 [OF later]] by (simp add: owed_ids_def)
  with r(1) have "ar_id r = digest (ar_ticker r) (ar_kind r) (ar_action r) (ar_created r)"
    by (auto simp: digested_def outbox_alerts_def skeleton_def)
  moreover have "record_ok r" "ar_status r = PUB_SENT \<Longrightarrow> ar_payload r \<in> set (en_wire e')"
    using reachable_outbox [OF conjunct1 [OF later]] r(1) by (simp_all add: outbox_ok_def on_wire_def)
  ultimately show ?thesis using r name(1) by (intro exI [of _ r] exI [of _ name]) (auto simp: record_ok_def terminal_def)
qed

text \<open>
  C17. Retrying ends: whatever Redis answers, six flushes spaced by the longest wait leave no alert of any run pending, and
  each is then sent or was given up after exactly its maximum of attempts.
\<close>

theorem alert_retries_always_end:
  assumes "core_reachable digest cfg gap (t, e)" "0 \<le> gap" "spaced gap t ps" "6 \<le> length ps"
  shows "pending_depth (flush_passes ps (en_outbox e)) = 0
    \<and> list_all (\<lambda>r. ar_status r = PUB_SENT \<or> (ar_status r = PUB_FAILED \<and> ar_attempts r = ar_max r)) (ao_records (flush_passes ps (en_outbox e)))"
proof -
  have "terminal (ar_status (record_passes ps r)) \<and> record_ok (record_passes ps r)" if "r \<in> set (ao_records (en_outbox e))" for r
    using that assms(3,4) reachable_outbox [OF assms(1)] reachable_timed [OF assms(1,2)] record_passes_end [of r t gap ps] record_passes_ok [of r ps]
    by (auto simp: outbox_ok_def timed_def timely_def)
  then show ?thesis
    by (auto simp: pending_depth_def flush_passes_rows list_all_iff filter_empty_conv terminal_def record_ok_def)
qed

text \<open>
  C18. Only a price of zero makes the engine raise: when a message's handling ends in an error, the error is a division by zero,
  an intraday message caused it, and its ticker's last alert carried the price zero.  The long-term lane never raises.
\<close>

theorem core_raises_only_after_a_zero_price:
  assumes "core_reachable digest cfg gap (t, e)" "fst (handle_core_message digest cfg now accepted (Some m) e) = Some err"
  shows "err = ZeroDivisionError \<and> (case m of
      QUANT_SIGNAL s \<Rightarrow> tk_last_price (tracked fresh_ticker (en_states e) (qs_ticker s)) = Some 0
    | BRAIN_REPORT r \<Rightarrow> tk_last_price (tracked fresh_ticker (en_states e) (rr_ticker r)) = Some 0
    | _ \<Rightarrow> False)"
proof -
  have own: "own_lt_states (en_lt_states e)" using reachable_own [OF assms(1)] by simp
  have day: "err = ZeroDivisionError \<and> tk_last_price (tracked fresh_ticker (en_states e') k) = Some 0"
    if "fst (decide_day digest cfg now accepted k e') = Some err" for e' k
    using that by (auto simp: decide_day_def Let_def dest: evaluate_Inl split: sum.splits)
  have long: "\<not> own_lt_states (en_lt_states e')" if "fst (decide_long digest cfg now accepted k e') = Some err" for e' k
  proof
    assume "own_lt_states (en_lt_states e')"
    from own_lt_tracked(2) [OF this, of k] that show False
      by (auto simp: decide_long_def Let_def dest: evaluate_long_term_Inl split: sum.splits)
  qed
  show ?thesis
  proof (cases m)
    case (QUANT_SIGNAL s)
    then show ?thesis using assms(2) day [of "qs_ticker s" "receive_signal now s e"]
      by (simp add: handle_core_message_def receive_signal_def tracked_track update_signal_def)
  next
    case (BRAIN_REPORT r)
    then show ?thesis using assms(2) day [of "rr_ticker r" "receive_report now r e"]
      by (simp add: handle_core_message_def receive_report_def tracked_track update_report_def)
  next
    case (FUNDAMENTAL_SIGNAL s)
    moreover have "own_lt_states (en_lt_states (receive_fundamental cfg now s e))"
      using own own_lt_tracked [OF own] by (auto simp: receive_fundamental_def Let_def intro!: own_lt_states_track)
    ultimately show ?thesis using assms(2) long by (auto simp: handle_core_message_def)
  next
    case (LONG_TERM_REPORT r)
    moreover have "own_lt_states (en_lt_states (receive_lt_report now r e))"
      using own own_lt_tracked [OF own] by (auto simp: receive_lt_report_def Let_def intro!: own_lt_states_track)
    ultimately show ?thesis using assms(2) long by (auto simp: handle_core_message_def)
  qed
qed

section \<open>The theorems on a concrete day\<close>

text \<open>The default configuration, and a digest that only joins its parts.\<close>

definition demo_core_config :: core_config where
  "demo_core_config = \<lparr> cc_min_confidence = fl (1 / 2), cc_window = 1800000000, cc_cooldown = 300000000, cc_retrigger = fl (1 / 100),
     cc_quality_min = 7, cc_margin_of_safety = fl (1 / 5), cc_premium = fl (1 / 5), cc_wacc = fl (9 / 100), cc_max_debt = 4,
     cc_lt_window = 604800000000, cc_lt_cooldown = 86400000000, cc_lt_retrigger = fl (1 / 20) \<rparr>"

definition demo_digest :: alert_digest where
  "demo_digest ticker h action at_ts = (case h of INTRADAY \<Rightarrow> ''i'' | LONG_TERM \<Rightarrow> ''l'') @ str_int at_ts @ ticker"

definition core_messages :: "alert_digest \<Rightarrow> core_config \<Rightarrow> (stamp \<times> bool \<times> core_message) list \<Rightarrow> core_engine \<Rightarrow> core_engine" where
  "core_messages digest cfg ms e = fold (\<lambda>(now, accepted, m) e. snd (handle_core_message digest cfg now accepted (Some m) e)) ms e"

lemma core_messages_reachable:
  assumes "core_reachable digest cfg gap (t, e)" "sorted (t # map fst ms)"
  shows "core_reachable digest cfg gap (last (t # map fst ms), core_messages digest cfg ms e)"
  using assms
proof (induction ms arbitrary: t e)
  case (Cons x ms)
  obtain now accepted m where x: "x = (now, accepted, m)" by (cases x)
  have "core_reachable digest cfg gap (now, snd (handle_core_message digest cfg now accepted (Some m) e))"
    using Cons.prems by (intro core_next [OF Cons.prems(1)] core_step.core_message) (simp add: x)
  from Cons.IH [OF this] Cons.prems(2) show ?case by (simp add: x core_messages_def)
qed (simp add: core_messages_def)

definition demo_signal :: "symbol \<Rightarrow> money \<Rightarrow> core_message" where
  "demo_signal ticker price = QUANT_SIGNAL \<lparr> qs_ticker = ticker, qs_direction = DIR_BULLISH, qs_price = price, qs_stop = Some 95, qs_target = Some 110 \<rparr>"

definition demo_report :: "symbol \<Rightarrow> research_verdict \<Rightarrow> core_message" where
  "demo_report ticker verdict = BRAIN_REPORT \<lparr> rr_ticker = ticker, rr_verdict = verdict, rr_confidence = fl (9 / 10), rr_degraded = False \<rparr>"

text \<open>Two alerts of one ticker, the first while Redis is down, and one that carries the price zero.\<close>

definition demo_core_day :: core_engine where
  "demo_core_day = core_messages demo_digest demo_core_config
     [(1000000, True, demo_signal ''aapl'' 100), (2000000, False, demo_report ''AAPL'' VERDICT_BULLISH),
      (400000000, True, demo_report ''aapl'' VERDICT_BEARISH),
      (401000000, True, demo_signal ''ZERO'' 0), (402000000, True, demo_report ''ZERO'' VERDICT_BULLISH)] first_start"

lemma demo_core_reachable: "core_reachable demo_digest demo_core_config 90000000 (402000000, demo_core_day)"
  unfolding demo_core_day_def
  using core_messages_reachable [OF core_start [of _ _ _ 0], of "[(1000000, True, demo_signal ''aapl'' 100), (2000000, False, demo_report ''AAPL'' VERDICT_BULLISH),
      (400000000, True, demo_report ''aapl'' VERDICT_BEARISH),
      (401000000, True, demo_signal ''ZERO'' 0), (402000000, True, demo_report ''ZERO'' VERDICT_BULLISH)]"] by simp

lemma demo_core_records:
  "map (\<lambda>r. (ar_ticker r, ar_action r, ar_created r, ar_status r)) (ao_records (en_outbox demo_core_day))
     = [(''aapl'', CONFIRMED_BULLISH, 2000000, PUB_PENDING), (''aapl'', CONTRADICTED, 400000000, PUB_SENT), (''ZERO'', CONFIRMED_BULLISH, 402000000, PUB_SENT)]"
  by code_simp

lemma demo_core_outbox:
  "length (ao_records (en_outbox demo_core_day)) = 3"
  "map ar_kind (take 2 (ao_records (en_outbox demo_core_day))) = [INTRADAY, INTRADAY]"
  "last_alert demo_core_day INTRADAY ''AAPL'' = Some (CONTRADICTED, 400000000)"
  "fst (handle_core_message demo_digest demo_core_config 703000000 True (Some (demo_report ''ZERO'' VERDICT_BULLISH)) demo_core_day) = Some ZeroDivisionError"
  by code_simp+

theorem core_restart_loses_nothing_witness:
  "en_states (restart_core demo_core_day) = en_states demo_core_day \<and> length (ao_records (en_outbox (restart_core demo_core_day))) = 3"
  using core_restart_loses_nothing [OF demo_core_reachable] demo_core_outbox(1) by simp

theorem core_alerts_respect_the_cooldown_witness:
  "300000000 \<le> \<bar>ar_created (ao_records (en_outbox demo_core_day) ! 0) - ar_created (ao_records (en_outbox demo_core_day) ! 1)\<bar>"
proof -
  let ?rs = "ao_records (en_outbox demo_core_day)"
  have "map (\<lambda>r. (ar_ticker r, ar_action r, ar_created r, ar_status r)) ?rs ! i = (\<lambda>r. (ar_ticker r, ar_action r, ar_created r, ar_status r)) (?rs ! i)" if "i < 3" for i
    using that demo_core_outbox(1) by (intro nth_map) simp
  from this [of 0] this [of 1] have "ar_ticker (?rs ! 0) = ''aapl''" "ar_ticker (?rs ! 1) = ''aapl''" "ar_created (?rs ! 0) = 2000000" "ar_created (?rs ! 1) = 400000000"
    unfolding demo_core_records by simp_all
  moreover have "map ar_kind (take 2 ?rs) ! i = ar_kind (?rs ! i)" if "i < 2" for i
    using that demo_core_outbox(1) by simp
  from this [of 0] this [of 1] have "ar_kind (?rs ! 0) = INTRADAY" "ar_kind (?rs ! 1) = INTRADAY"
    unfolding demo_core_outbox(2) by simp_all
  ultimately show ?thesis
    using core_alerts_respect_the_cooldown [OF demo_core_reachable, of "?rs ! 0" "?rs ! 1"] demo_core_outbox(1)
    by (auto simp: demo_core_config_def)
qed

theorem no_alert_is_lost_witness:
  "\<exists>r name. r \<in> set (ao_records (en_outbox (restart_core demo_core_day))) \<and> upper name = upper ''AAPL''
     \<and> ar_id r = demo_digest name INTRADAY CONTRADICTED 400000000"
proof -
  have "(core_step demo_digest demo_core_config 90000000)\<^sup>*\<^sup>* (402000000, demo_core_day) (402000000, restart_core demo_core_day)"
    by (intro r_into_rtranclp core_step.core_restart) simp
  from no_alert_is_lost [OF demo_core_reachable demo_core_outbox(3) this] show ?thesis by blast
qed

theorem alert_retries_always_end_witness:
  "pending_depth (flush_passes (map (\<lambda>i. (402000000 + 90000000 * i, None, \<lambda>_. 90000000)) [1, 2, 3, 4, 5, 6]) (en_outbox demo_core_day)) = 0"
  using alert_retries_always_end [OF demo_core_reachable, of "map (\<lambda>i. (402000000 + 90000000 * i, None, \<lambda>_. 90000000)) [1, 2, 3, 4, 5, 6]"]
  by simp

theorem core_raises_only_after_a_zero_price_witness:
  "tk_last_price (tracked fresh_ticker (en_states demo_core_day) ''ZERO'') = Some 0"
  using core_raises_only_after_a_zero_price [OF demo_core_reachable demo_core_outbox(4)] by (simp add: demo_report_def)

end
