(* ===== verification/Paper_Intraday.thy ===== *)
theory Paper_Intraday
  imports Paper_Ledger
begin

text \<open>
  The intraday half of \<open>talonx_paper/consumer.py\<close>: \<open>PaperTradingEngine\<close>.  A handler takes the engine state,
  which holds the ledger, the counters and the executions published, and returns it with the exception that
  left it, if any.  A message that fails validation is \<open>None\<close>.  The tickers with paper trading enabled are
  the argument \<open>enabled\<close>; the Redis connection, its reconnect loop and the log lines are left out.
\<close>

section \<open>Definitions\<close>

record paper_config =
  pc_stop_loss :: money
  pc_take_profit :: money
  pc_spread_bps :: money
  pc_min_severity :: v1_severity

record paper_engine =
  pe_ledger :: paper_ledger
  pe_processed :: nat
  pe_executed :: nat
  pe_ignored :: nat
  pe_published :: "v1_trade list"

definition note_ignored :: "symbol \<Rightarrow> ignore_reason \<Rightarrow> v1_action \<Rightarrow> money \<Rightarrow> stamp \<Rightarrow> paper_engine \<Rightarrow> paper_engine" where
  "note_ignored ticker reason action price at_ts st =
     st\<lparr> pe_ledger := record_ignored ticker reason action price at_ts INTRADAY (pe_ledger st) \<rparr>"

definition count_ignored :: "paper_engine \<Rightarrow> paper_engine" where
  "count_ignored st = st\<lparr> pe_ignored := Suc (pe_ignored st) \<rparr>"

definition executed :: "v1_trade \<Rightarrow> paper_ledger \<Rightarrow> paper_engine \<Rightarrow> paper_engine" where
  "executed t l st = st\<lparr> pe_ledger := l, pe_executed := Suc (pe_executed st), pe_published := pe_published st @ [t] \<rparr>"

definition close_v1_position :: "symbol \<Rightarrow> money \<Rightarrow> stamp \<Rightarrow> v1_action \<Rightarrow> paper_engine \<Rightarrow> paper_engine" where
  "close_v1_position ticker fill at_ts action st =
     (case execute_sell ticker fill at_ts action (pe_ledger st) of
        (None, l) \<Rightarrow> note_ignored ticker IG_NO_ACTIVE_POSITION action fill at_ts (st\<lparr> pe_ledger := l \<rparr>)
      | (Some t, l) \<Rightarrow> executed t l st)"

definition engine_buy :: "paper_config \<Rightarrow> v1_alert \<Rightarrow> paper_engine \<Rightarrow> py_error option \<times> paper_engine" where
  "engine_buy cfg alert st =
     (let fill = apply_spread (va_price alert) (pc_spread_bps cfg) BUY_SIDE; pf = v_portfolio (pe_ledger st)
      in if \<not> fill_geometry_is_valid fill (va_stop alert) (va_target alert)
         then (None, note_ignored (va_ticker alert) IG_FILL_GEOMETRY_INVALID (va_action alert) fill (va_at alert) (count_ignored st))
         else case calculate_buy (pf_cash pf) (pf_allocation pf) fill of
           None \<Rightarrow> (None, note_ignored (va_ticker alert) IG_INSUFFICIENT_CASH (va_action alert) fill (va_at alert) (count_ignored st))
         | Some (shares, cost) \<Rightarrow>
             (case execute_buy (va_ticker alert) shares fill cost (va_at alert) (va_stop alert) (va_target alert) (pe_ledger st) of
                (Inl err, l) \<Rightarrow> (Some err, st\<lparr> pe_ledger := l \<rparr>)
              | (Inr None, l) \<Rightarrow> (None, count_ignored (st\<lparr> pe_ledger := l \<rparr>))
              | (Inr (Some t), l) \<Rightarrow> (None, executed t l st)))"

definition handle_alert ::
    "paper_config \<Rightarrow> symbol set \<Rightarrow> v1_alert option \<Rightarrow> paper_engine \<Rightarrow> py_error option \<times> paper_engine" where
  "handle_alert cfg enabled payload st0 =
     (case payload of None \<Rightarrow> (None, st0)
      | Some alert \<Rightarrow>
          let st = st0\<lparr> pe_processed := Suc (pe_processed st0) \<rparr>;
              note = (\<lambda>reason. note_ignored (va_ticker alert) reason (va_action alert) (va_price alert) (va_at alert))
          in if upper (va_ticker alert) \<notin> enabled then (None, st)
             else if va_action alert = CONFIRMED_BULLISH \<and> severity_rank (va_severity alert) < severity_rank (pc_min_severity cfg)
             then (None, note IG_BELOW_MIN_SEVERITY st)
             else (case decide_trade alert (get_position (pe_ledger st) (va_ticker alert) \<noteq> None) of
                 None \<Rightarrow> (None, note IG_DEGRADED_NOT_TRADABLE st)
               | Some (IGNORED_DECISION why) \<Rightarrow> (None, note why (count_ignored st))
               | Some BUY_DECISION \<Rightarrow> engine_buy cfg alert st
               | Some SELL_DECISION \<Rightarrow>
                   (None, close_v1_position (va_ticker alert) (apply_spread (va_price alert) (pc_spread_bps cfg) SELL_SIDE)
                            (va_at alert) (va_action alert) st)))"

definition trigger_action :: "exit_trigger \<Rightarrow> v1_action" where
  "trigger_action t = (case t of STOP_LOSS \<Rightarrow> STOP_LOSS_EXIT | TAKE_PROFIT \<Rightarrow> TAKE_PROFIT_EXIT)"

definition handle_market_tick :: "paper_config \<Rightarrow> stamp \<Rightarrow> market_tick option \<Rightarrow> paper_engine \<Rightarrow> paper_engine" where
  "handle_market_tick cfg now payload st0 =
     (case payload of None \<Rightarrow> st0
      | Some tick \<Rightarrow> (case (mt_type tick, mt_close tick) of
          (BAR_TICK, Some close) \<Rightarrow>
            let st = st0\<lparr> pe_ledger := update_latest_price (mt_symbol tick) close now (pe_ledger st0) \<rparr>
            in (case get_position (pe_ledger st) (mt_symbol tick) of
                  None \<Rightarrow> st
                | Some p \<Rightarrow> (case check_stop_take (vp_entry p) close (pc_stop_loss cfg) (pc_take_profit cfg) (vp_stop p) (vp_target p) of
                      None \<Rightarrow> st
                    | Some trigger \<Rightarrow> close_v1_position (mt_symbol tick) (apply_spread close (pc_spread_bps cfg) SELL_SIDE) now
                                        (trigger_action trigger) st))
        | _ \<Rightarrow> st0))"

text \<open>\<open>_run_eod_flatten_once\<close>: the positions and prices are read once, at the start of the sweep.\<close>

definition flatten_one :: "paper_config \<Rightarrow> stamp \<Rightarrow> paper_ledger \<Rightarrow> v1_position \<Rightarrow> paper_engine \<Rightarrow> paper_engine" where
  "flatten_one cfg now snapshot p st =
     (case latest_price snapshot (vp_ticker p) of
        None \<Rightarrow> st
      | Some price \<Rightarrow>
          if price \<le> 0 then st
          else close_v1_position (vp_ticker p) (apply_spread price (pc_spread_bps cfg) SELL_SIDE) now EOD_FLAT_LIQUIDATION st)"

definition run_eod_flatten_once :: "paper_config \<Rightarrow> stamp \<Rightarrow> paper_engine \<Rightarrow> paper_engine" where
  "run_eod_flatten_once cfg now st =
     fold (flatten_one cfg now (pe_ledger st)) (get_open_positions (pe_ledger st)) st"

section \<open>The invariant\<close>

definition intraday_ok :: "paper_ledger \<Rightarrow> bool" where
  "intraday_ok l \<longleftrightarrow> book_follows l \<and> brackets_hold l \<and> book_well_formed l \<and> 0 \<le> pf_cash (v_portfolio l)"

lemma replayed_snoc [simp]: "replayed (ts @ [t]) = replay_trade t (replayed ts)"
  by (simp add: replayed_def)

lemma cash_of_snoc [simp]: "cash_of c (ts @ [t]) =
    fl (case vt_order t of BUY_ORDER \<Rightarrow> cash_of c ts - vt_cost t | SELL_ORDER \<Rightarrow> cash_of c ts + fl (vt_shares t * vt_price t))"
  by (simp add: cash_of_def split: order_type.split)

lemma pnl_of_snoc [simp]: "pnl_of (ts @ [t]) = (case vt_pnl_usd t of None \<Rightarrow> pnl_of ts | Some u \<Rightarrow> fl (pnl_of ts + u))"
  by (simp add: pnl_of_def split: option.split)

lemma closes_snoc [simp]: "closes (ts @ [t]) = closes ts @ (if vt_order t = SELL_ORDER then [t] else [])"
  by (simp add: closes_def)

text \<open>Everything outside the four intraday tables is irrelevant to the invariant.\<close>

lemma intraday_frame:
  assumes "v_portfolio l' = v_portfolio l" "v_positions l' = v_positions l" "v_trades l' = v_trades l" "v_seq l' = v_seq l"
  shows "intraday_ok l' = intraday_ok l"
  using assms by (simp add: intraday_ok_def book_follows_def brackets_hold_def book_well_formed_def)

lemma intraday_bookkeeping [simp]:
  "intraday_ok (record_ignored ticker why action price at_ts h l) = intraday_ok l"
  "intraday_ok (update_latest_price ticker price at_ts l) = intraday_ok l"
  "intraday_ok (l\<lparr> v_blocks := t \<rparr>) = intraday_ok l"
  by (rule intraday_frame; simp add: record_ignored_def update_latest_price_def)+

lemma allocation_ok [simp]: "intraday_ok (update_trade_allocation a l) = intraday_ok l"
  by (simp add: update_trade_allocation_def intraday_ok_def book_follows_def brackets_hold_def book_well_formed_def Let_def)

lemma execute_buy_ok:
  assumes "intraday_ok l" "execute_buy ticker shares price cost at_ts stop target l = (Inr r, l')"
    and "cost \<le> pf_cash (v_portfolio l)" "0 < price" "0 \<le> shares" "fill_geometry_is_valid price stop target"
  shows "intraday_ok l'"
proof (cases rule: execute_buyE [OF assms(2)])
  case (3 t)
  have "0 \<le> fl (pf_cash (v_portfolio l) - cost)" using assms(3) by (simp add: fl_nonneg)
  moreover have "book_follows l'"
    using assms(1) by (auto simp: 3 intraday_ok_def book_follows_def Let_def replay_trade_def opened_by_def holding_of_def
        winning_def sorted_wrt_append less_Suc_eq_le)
  ultimately show ?thesis using assms(1,4-6) 3(4)
    by (auto simp: 3(6) intraday_ok_def brackets_hold_def book_well_formed_def)
qed (use assms in simp_all)

lemma execute_sell_ok:
  assumes "intraday_ok l" "execute_sell ticker price at_ts action l = (r, l')" "0 \<le> price"
  shows "intraday_ok l'"
proof (cases rule: execute_sellE [OF assms(2)])
  case (2 p t usd pct)
  have p: "0 \<le> vp_shares p" using assms(1) 2(2) by (auto simp: intraday_ok_def book_well_formed_def)
  have "map holding_of (filter (\<lambda>q. vp_ticker q \<noteq> k) ps) = filter (\<lambda>h. fst h \<noteq> k) (map holding_of ps)" for k ps
    by (simp add: filter_map comp_def holding_of_def)
  then have "book_follows l'"
    using assms(1) by (auto simp: 2 intraday_ok_def book_follows_def Let_def replay_trade_def winning_def sorted_wrt_append less_Suc_eq_le)
  moreover have "0 \<le> fl (pf_cash (v_portfolio l) + fl (vp_shares p * price))"
    using assms(1,3) p by (auto simp: intraday_ok_def intro!: fl_nonneg add_nonneg_nonneg mult_nonneg_nonneg)
  ultimately show ?thesis using assms(1)
    by (auto simp: 2(13) intraday_ok_def brackets_hold_def book_well_formed_def distinct_map_filter)
qed (use assms in simp)

section \<open>The handlers keep it and never raise\<close>

text \<open>Every price the lane has seen is a binary64 number; a spread is between 0 and 200 percent.\<close>

definition tags_ok :: "paper_ledger \<Rightarrow> bool" where
  "tags_ok l \<longleftrightarrow> (\<forall>r \<in> set (v_prices l). is_float (lp_price r))"

definition spread_ok :: "money \<Rightarrow> bool" where
  "spread_ok bps \<longleftrightarrow> 0 \<le> bps \<and> bps \<le> 20000"

definition quote_ok :: "money \<Rightarrow> bool" where
  "quote_ok p \<longleftrightarrow> is_float p \<and> 0 \<le> p"

lemma quote_fill: "quote_ok p \<Longrightarrow> spread_ok bps \<Longrightarrow> 0 \<le> apply_spread p bps SELL_SIDE"
  by (simp add: quote_ok_def spread_ok_def sell_fill_nonneg)

lemma note_ignored_simps [simp]:
  "intraday_ok (pe_ledger (note_ignored ticker why action price at_ts st)) = intraday_ok (pe_ledger st)"
  "v_prices (pe_ledger (note_ignored ticker why action price at_ts st)) = v_prices (pe_ledger st)"
  "v_trades (pe_ledger (note_ignored ticker why action price at_ts st)) = v_trades (pe_ledger st)"
  "v_positions (pe_ledger (note_ignored ticker why action price at_ts st)) = v_positions (pe_ledger st)"
  "v_blocks (pe_ledger (note_ignored ticker why action price at_ts st)) = v_blocks (pe_ledger st)"
  by (simp_all add: note_ignored_def record_ignored_def) (simp flip: record_ignored_def)

lemma count_ignored_ledger [simp]: "pe_ledger (count_ignored st) = pe_ledger st"
  by (simp add: count_ignored_def)

lemma executed_ledger [simp]: "pe_ledger (executed t l st) = l"
  by (simp add: executed_def)

lemma close_v1_position_ok:
  assumes "intraday_ok (pe_ledger st)" "0 \<le> fill"
  shows "intraday_ok (pe_ledger (close_v1_position ticker fill at_ts action st))"
proof -
  obtain r l where e: "execute_sell ticker fill at_ts action (pe_ledger st) = (r, l)" by force
  from execute_sell_ok [OF assms(1) e assms(2)] e show ?thesis
    by (simp add: close_v1_position_def split: option.split)
qed

lemma engine_buy_ok:
  assumes "intraday_ok (pe_ledger st)" "get_position (pe_ledger st) (va_ticker alert) = None" "engine_buy cfg alert st = (err, st')"
  shows "err = None \<and> intraday_ok (pe_ledger st')"
proof -
  let ?l = "pe_ledger st" and ?fill = "apply_spread (va_price alert) (pc_spread_bps cfg) BUY_SIDE"
  show ?thesis
  proof (cases "fill_geometry_is_valid ?fill (va_stop alert) (va_target alert)")
    case geometry: True
    show ?thesis
    proof (cases "calculate_buy (pf_cash (v_portfolio ?l)) (pf_allocation (v_portfolio ?l)) ?fill")
      case (Some sc)
      obtain shares cost where sc: "sc = (shares, cost)" by force
      note buy = calculate_buyD [OF Some [unfolded sc]]
      obtain r l where e: "execute_buy (va_ticker alert) shares ?fill cost (va_at alert) (va_stop alert) (va_target alert) ?l = (r, l)" by force
      have "upper (va_ticker alert) \<notin> vp_ticker ` set (v_positions ?l)"
        using assms(2) by (simp add: get_position_def row_by_None)
      then obtain t where "r = Inr t" by (cases rule: execute_buyE [OF e]) simp_all
      with execute_buy_ok [OF assms(1) e [unfolded this] buy(3,1,5) geometry] assms(3) geometry Some sc e show ?thesis
        by (auto simp: engine_buy_def Let_def split: option.splits)
    qed (use assms geometry in \<open>auto simp: engine_buy_def Let_def\<close>)
  qed (use assms in \<open>auto simp: engine_buy_def Let_def\<close>)
qed

lemma handle_alert_ok:
  assumes "intraday_ok (pe_ledger st)" "spread_ok (pc_spread_bps cfg)" "\<And>a. payload = Some a \<Longrightarrow> quote_ok (va_price a)"
    and "handle_alert cfg enabled payload st = (err, st')"
  shows "err = None \<and> intraday_ok (pe_ledger st')"
proof (cases payload)
  case (Some alert)
  let ?st = "st\<lparr> pe_processed := Suc (pe_processed st) \<rparr>"
  have fill: "0 \<le> apply_spread (va_price alert) (pc_spread_bps cfg) SELL_SIDE" using Some assms(2,3) by (simp add: quote_fill)
  have buy: "err = None \<and> intraday_ok (pe_ledger st')"
    if "decide_trade alert (get_position (pe_ledger ?st) (va_ticker alert) \<noteq> None) = Some BUY_DECISION" "engine_buy cfg alert ?st = (err, st')"
    using that engine_buy_ok [of ?st alert cfg err st'] assms(1) by (auto simp: decide_trade_def split: if_splits)
  have "intraday_ok (pe_ledger ?st)" using assms(1) by simp
  with Some assms(4) fill buy show ?thesis
    by (auto simp: handle_alert_def Let_def close_v1_position_ok split: if_splits option.splits trade_decision.splits)
qed (use assms in \<open>simp add: handle_alert_def\<close>)

lemma handle_market_tick_ok:
  assumes "intraday_ok (pe_ledger st)" "spread_ok (pc_spread_bps cfg)"
    and "\<And>tick close. payload = Some tick \<Longrightarrow> mt_close tick = Some close \<Longrightarrow> quote_ok close"
  shows "intraday_ok (pe_ledger (handle_market_tick cfg now payload st))"
  using assms
  by (auto simp: handle_market_tick_def Let_def quote_fill intro!: close_v1_position_ok split: option.splits tick_type.splits)

lemma flatten_one_ok:
  assumes "intraday_ok (pe_ledger st)" "spread_ok (pc_spread_bps cfg)" "tags_ok snapshot"
  shows "intraday_ok (pe_ledger (flatten_one cfg now snapshot p st))"
proof -
  have "quote_ok price" if "latest_price snapshot (vp_ticker p) = Some price" "\<not> price \<le> 0" for price
    using that assms(3) by (auto simp: latest_price_def tags_ok_def quote_ok_def dest!: row_by_Some)
  with assms show ?thesis by (auto simp: flatten_one_def quote_fill intro!: close_v1_position_ok split: option.splits)
qed

lemma run_eod_flatten_ok:
  assumes "intraday_ok (pe_ledger st)" "spread_ok (pc_spread_bps cfg)" "tags_ok (pe_ledger st)"
  shows "intraday_ok (pe_ledger (run_eod_flatten_once cfg now st))"
proof -
  have "intraday_ok (pe_ledger (fold (flatten_one cfg now snapshot) ps s))"
    if "intraday_ok (pe_ledger s)" "tags_ok snapshot" for ps s snapshot
    using that by (induction ps arbitrary: s) (simp_all add: flatten_one_ok assms(2))
  then show ?thesis using assms by (simp add: run_eod_flatten_once_def)
qed

section \<open>What a sweep and a block do\<close>

text \<open>A close touches one ticker.\<close>

lemma close_v1_position_rows:
  assumes "vp_ticker p = ticker" "upper ticker = ticker" "p \<in> set (v_positions (pe_ledger st))"
  shows "v_positions (pe_ledger (close_v1_position ticker fill at_ts action st)) = filter (\<lambda>q. vp_ticker q \<noteq> ticker) (v_positions (pe_ledger st))"
proof -
  obtain r l where e: "execute_sell ticker fill at_ts action (pe_ledger st) = (r, l)" by force
  show ?thesis
  proof (cases rule: execute_sellE [OF e])
    case 1
    with assms show ?thesis by auto
  next
    case 2
    with e assms(2) show ?thesis by (simp add: close_v1_position_def)
  qed
qed

definition quoted :: "paper_ledger \<Rightarrow> symbol \<Rightarrow> bool" where
  "quoted l ticker \<longleftrightarrow> (case latest_price l ticker of None \<Rightarrow> False | Some p \<Rightarrow> 0 < p)"

lemma flatten_all:
  assumes "distinct (map vp_ticker ps)" "\<forall>p \<in> set ps. p \<in> set (v_positions (pe_ledger st)) \<and> upper (vp_ticker p) = vp_ticker p"
  shows "v_positions (pe_ledger (fold (flatten_one cfg now snapshot) ps st))
     = filter (\<lambda>q. \<not> (vp_ticker q \<in> vp_ticker ` set ps \<and> quoted snapshot (vp_ticker q))) (v_positions (pe_ledger st))"
  using assms
proof (induction ps arbitrary: st)
  case (Cons p ps)
  let ?st = "flatten_one cfg now snapshot p st"
  have one: "v_positions (pe_ledger ?st)
      = filter (\<lambda>q. \<not> (vp_ticker q = vp_ticker p \<and> quoted snapshot (vp_ticker q))) (v_positions (pe_ledger st))"
  proof (cases "quoted snapshot (vp_ticker p)")
    case True
    then obtain price where "latest_price snapshot (vp_ticker p) = Some price" "0 < price"
      by (auto simp: quoted_def split: option.splits)
    with True Cons.prems(2) show ?thesis
      by (auto simp: flatten_one_def close_v1_position_rows intro!: filter_cong)
  next
    case False
    then have "?st = st" by (auto simp: flatten_one_def quoted_def split: option.splits)
    moreover have "filter (\<lambda>q. \<not> (vp_ticker q = vp_ticker p \<and> quoted snapshot (vp_ticker q))) rows = rows" for rows
      using False by (auto simp: filter_id_conv)
    ultimately show ?thesis by metis
  qed
  have "\<forall>q \<in> set ps. q \<in> set (v_positions (pe_ledger ?st)) \<and> upper (vp_ticker q) = vp_ticker q"
  proof
    fix q assume q: "q \<in> set ps"
    with Cons.prems(1) have "vp_ticker q \<noteq> vp_ticker p" by (simp, metis image_eqI)
    with Cons.prems(2) q show "q \<in> set (v_positions (pe_ledger ?st)) \<and> upper (vp_ticker q) = vp_ticker q" by (simp add: one)
  qed
  from Cons.IH [OF _ this] Cons.prems(1) show ?case by (simp add: one conj_commute) (rule filter_cong, auto)
qed simp

end
