(* ===== verification/Paper_Longterm.thy ===== *)
theory Paper_Longterm
  imports Paper_Ledger
begin

text \<open>
  The long-term half of \<open>talonx_paper/consumer.py\<close>: \<open>LongTermPaperEngine\<close>, its alerts, its price ticks and the
  recurring contribution into every open position.
\<close>

section \<open>Definitions\<close>

record lt_config =
  lc_spread_bps :: money
  lc_initial_position :: money
  lc_trim :: money
  lc_interval :: int

record lt_engine =
  le_ledger :: paper_ledger
  le_processed :: nat
  le_executed :: nat
  le_ignored :: nat
  le_dca_made :: nat
  le_published :: "lt_trade list"

definition lt_note_ignored :: "symbol \<Rightarrow> ignore_reason \<Rightarrow> v1_action \<Rightarrow> money \<Rightarrow> stamp \<Rightarrow> lt_engine \<Rightarrow> lt_engine" where
  "lt_note_ignored ticker reason action price at_ts st =
     st\<lparr> le_ledger := record_ignored ticker reason action price at_ts LONG_TERM (le_ledger st) \<rparr>"

definition lt_count_ignored :: "lt_engine \<Rightarrow> lt_engine" where
  "lt_count_ignored st = st\<lparr> le_ignored := Suc (le_ignored st) \<rparr>"

definition lt_executed :: "lt_trade \<Rightarrow> paper_ledger \<Rightarrow> lt_engine \<Rightarrow> lt_engine" where
  "lt_executed t l st = st\<lparr> le_ledger := l, le_executed := Suc (le_executed st), le_published := le_published st @ [t] \<rparr>"

definition lt_engine_buy :: "lt_config \<Rightarrow> lt_alert \<Rightarrow> lt_engine \<Rightarrow> py_error option \<times> lt_engine" where
  "lt_engine_buy cfg alert st =
     (let fill = apply_spread (la_price alert) (lc_spread_bps cfg) BUY_SIDE
      in case calculate_buy (lf_cash (l_portfolio (le_ledger st))) (lc_initial_position cfg) fill of
           None \<Rightarrow> (None, lt_note_ignored (la_ticker alert) IG_INSUFFICIENT_CASH (la_action alert) fill (la_at alert) (lt_count_ignored st))
         | Some (shares, cost) \<Rightarrow>
             (case execute_long_term_buy (la_ticker alert) shares fill cost (la_at alert) (le_ledger st) of
                (Inl err, l) \<Rightarrow> (Some err, st\<lparr> le_ledger := l \<rparr>)
              | (Inr None, l) \<Rightarrow> (None, lt_count_ignored (st\<lparr> le_ledger := l \<rparr>))
              | (Inr (Some t), l) \<Rightarrow> (None, lt_executed t l st)))"

definition lt_engine_sell :: "lt_config \<Rightarrow> lt_alert \<Rightarrow> money \<Rightarrow> lt_engine \<Rightarrow> lt_engine" where
  "lt_engine_sell cfg alert trim st =
     (let fill = apply_spread (la_price alert) (lc_spread_bps cfg) SELL_SIDE
      in case execute_long_term_sell (la_ticker alert) trim fill (la_at alert) (la_action alert) (le_ledger st) of
           (None, l) \<Rightarrow> lt_note_ignored (la_ticker alert) IG_NO_ACTIVE_POSITION (la_action alert) fill (la_at alert) (st\<lparr> le_ledger := l \<rparr>)
         | (Some t, l) \<Rightarrow> lt_executed t l st)"

definition handle_lt_alert ::
    "lt_config \<Rightarrow> symbol set \<Rightarrow> lt_alert option \<Rightarrow> lt_engine \<Rightarrow> py_error option \<times> lt_engine" where
  "handle_lt_alert cfg enabled payload st0 =
     (case payload of None \<Rightarrow> (None, st0)
      | Some alert \<Rightarrow>
          let st = st0\<lparr> le_processed := Suc (le_processed st0) \<rparr>
          in if upper (la_ticker alert) \<notin> enabled then (None, st)
             else (case decide_long_term_trade alert (get_long_term_position (le_ledger st) (la_ticker alert) \<noteq> None) (lc_trim cfg) of
                 None \<Rightarrow> (None, st)
               | Some (LT_IGNORED why) \<Rightarrow>
                   (None, lt_note_ignored (la_ticker alert) why (la_action alert) (la_price alert) (la_at alert) (lt_count_ignored st))
               | Some LT_BUY \<Rightarrow> lt_engine_buy cfg alert st
               | Some (LT_SELL_PARTIAL trim) \<Rightarrow> (None, lt_engine_sell cfg alert trim st)
               | Some LT_SELL_FULL \<Rightarrow> (None, lt_engine_sell cfg alert 1 st)))"

definition handle_lt_tick :: "stamp \<Rightarrow> market_tick option \<Rightarrow> lt_engine \<Rightarrow> lt_engine" where
  "handle_lt_tick now payload st =
     (case payload of None \<Rightarrow> st
      | Some tick \<Rightarrow> (case (mt_type tick, mt_close tick) of
          (BAR_TICK, Some close) \<Rightarrow> st\<lparr> le_ledger := update_latest_price (mt_symbol tick) close now (le_ledger st) \<rparr>
        | _ \<Rightarrow> st))"

text \<open>\<open>_seconds_until_next_dca\<close>, in microseconds.\<close>

definition us_until_next_dca :: "int \<Rightarrow> stamp \<Rightarrow> stamp option \<Rightarrow> int" where
  "us_until_next_dca interval now last_at =
     (case last_at of None \<Rightarrow> interval | Some t \<Rightarrow> max 0 (interval - (now - t)))"

text \<open>
  \<open>_run_dca_cycle_once\<close>: the positions, the prices and the portfolio summary are read once.  The summary is
  read again after each contribution that executed; \<open>dca_one\<close> carries its cash.
\<close>

definition dca_one :: "paper_ledger \<Rightarrow> stamp \<Rightarrow> lt_position \<Rightarrow> money \<times> lt_engine \<Rightarrow> money \<times> lt_engine" where
  "dca_one snapshot now p = (\<lambda>(cash, st).
     case latest_price snapshot (lpos_ticker p) of
       None \<Rightarrow> (cash, st)
     | Some price \<Rightarrow>
         let contribution = lf_dca (l_portfolio snapshot)
         in if price \<le> 0 \<or> cash < contribution then (cash, st)
            else (case execute_dca_contribution (lpos_ticker p) contribution price now (le_ledger st) of
                (None, l) \<Rightarrow> (cash, st\<lparr> le_ledger := l \<rparr>)
              | (Some t, l) \<Rightarrow> (lf_cash (l_portfolio l),
                  st\<lparr> le_ledger := l, le_dca_made := Suc (le_dca_made st), le_published := le_published st @ [t] \<rparr>)))"

definition stamp_dca :: "stamp \<Rightarrow> lt_engine \<Rightarrow> lt_engine" where
  "stamp_dca now st = st\<lparr> le_ledger := set_last_dca_at now (le_ledger st) \<rparr>"

definition run_dca_cycle_once :: "stamp \<Rightarrow> lt_engine \<Rightarrow> lt_engine" where
  "run_dca_cycle_once now st0 =
     (let st = stamp_dca now st0; l = le_ledger st
      in snd (fold (dca_one l now) (get_open_long_term_positions l) (lf_cash (l_portfolio l), st)))"

section \<open>The long-term history determines the book\<close>

text \<open>Each log row states what its ticker holds after it: shares and average cost, or nothing.\<close>

definition lt_holding :: "lt_position \<Rightarrow> symbol \<times> money \<times> money" where
  "lt_holding p = (lpos_ticker p, lpos_shares p, lpos_avg p)"

definition lt_replay :: "lt_trade \<Rightarrow> (symbol \<times> money \<times> money) list \<Rightarrow> (symbol \<times> money \<times> money) list" where
  "lt_replay t hs = (case (lt_shares_after t, lt_avg_after t) of
     (Some s, Some a) \<Rightarrow> upsert_row fst (lt_ticker t, s, a) (\<lambda>_. (lt_ticker t, s, a)) hs
   | _ \<Rightarrow> filter (\<lambda>h. fst h \<noteq> lt_ticker t) hs)"

definition lt_cash_step :: "lt_trade \<Rightarrow> money \<Rightarrow> money" where
  "lt_cash_step t c = fl (if lt_order t = LT_SELL_ORDER then c + lt_amount t else c - lt_amount t)"

definition lt_pnl_step :: "lt_trade \<Rightarrow> money \<Rightarrow> money" where
  "lt_pnl_step t c = (case lt_pnl_usd t of None \<Rightarrow> c | Some u \<Rightarrow> fl (c + u))"

definition lt_sells :: "lt_trade list \<Rightarrow> lt_trade list" where
  "lt_sells ts = filter (\<lambda>t. lt_order t = LT_SELL_ORDER) ts"

definition lt_winning :: "lt_trade \<Rightarrow> bool" where
  "lt_winning t \<longleftrightarrow> (case lt_pnl_usd t of None \<Rightarrow> False | Some u \<Rightarrow> 0 < u)"

definition lt_book_follows :: "paper_ledger \<Rightarrow> bool" where
  "lt_book_follows l \<longleftrightarrow> (let pf = l_portfolio l; ts = l_trades l in
     map lt_holding (l_positions l) = fold lt_replay ts [] \<and> lf_cash pf = fold lt_cash_step ts (lf_initial pf)
     \<and> lf_pnl pf = fold lt_pnl_step ts 0
     \<and> lf_wins pf = length (filter lt_winning (lt_sells ts)) \<and> lf_losses pf = length (filter (\<lambda>t. \<not> lt_winning t) (lt_sells ts))
     \<and> sorted_wrt (<) (map lt_id ts) \<and> (\<forall>t \<in> set ts. lt_id t \<le> l_seq l))"

definition lt_holds :: "lt_position \<Rightarrow> bool" where
  "lt_holds p \<longleftrightarrow> upper (lpos_ticker p) = lpos_ticker p \<and> is_float (lpos_shares p) \<and> 0 \<le> lpos_shares p \<and> 0 \<le> lpos_avg p"

text \<open>The tolerance of the cash check at the execution of a purchase, and how far it lets cash go.\<close>

definition cash_tolerance :: money where
  "cash_tolerance = fl (1 / 1000000)"

definition longterm_ok :: "paper_ledger \<Rightarrow> bool" where
  "longterm_ok l \<longleftrightarrow> lt_book_follows l \<and> distinct (map lpos_ticker (l_positions l)) \<and> (\<forall>p \<in> set (l_positions l). lt_holds p)
     \<and> is_float (lf_cash (l_portfolio l)) \<and> - (2 * cash_tolerance) \<le> lf_cash (l_portfolio l)"

lemma cash_tolerance_nonneg: "0 \<le> cash_tolerance" by (simp add: cash_tolerance_def fl_nonneg)

lemma fresh_longterm_ok: "is_float lb \<Longrightarrow> 0 \<le> lb \<Longrightarrow> longterm_ok (fresh_paper b a lb d)"
  using cash_tolerance_nonneg
  by (simp add: longterm_ok_def lt_book_follows_def fresh_paper_def lt_sells_def)

lemma reset_longterm_ok: "is_float lb \<Longrightarrow> 0 \<le> lb \<Longrightarrow> longterm_ok (reset_long_term_portfolio lb d l)"
  using cash_tolerance_nonneg
  by (simp add: longterm_ok_def lt_book_follows_def reset_long_term_portfolio_def lt_sells_def)

text \<open>Everything outside the long-term tables is irrelevant to it, and so are the amount and the clock of the contributions.\<close>

lemma longterm_frame:
  assumes "lf_cash (l_portfolio l') = lf_cash (l_portfolio l)" "lf_initial (l_portfolio l') = lf_initial (l_portfolio l)"
    and "lf_pnl (l_portfolio l') = lf_pnl (l_portfolio l)" "lf_wins (l_portfolio l') = lf_wins (l_portfolio l)"
    and "lf_losses (l_portfolio l') = lf_losses (l_portfolio l)" "l_positions l' = l_positions l" "l_trades l' = l_trades l"
    and "l_seq l' = l_seq l"
  shows "longterm_ok l' = longterm_ok l"
  using assms by (simp add: longterm_ok_def lt_book_follows_def Let_def)

lemma longterm_bookkeeping [simp]:
  "longterm_ok (record_ignored ticker why action price at_ts h l) = longterm_ok l"
  "longterm_ok (update_latest_price ticker price at_ts l) = longterm_ok l"
  "longterm_ok (set_last_dca_at at_ts l) = longterm_ok l"
  "longterm_ok (update_dca_contribution_amount amount l) = longterm_ok l"
  by (rule longterm_frame; simp add: record_ignored_def update_latest_price_def set_last_dca_at_def update_dca_contribution_amount_def)+

text \<open>An execution appends the row that explains what it changed.\<close>

lemma lt_append_ok:
  assumes "longterm_ok l" "lt_id t = Suc (l_seq l)" "map lt_holding ps = lt_replay t (map lt_holding (l_positions l))"
    and "lf_initial pf = lf_initial (l_portfolio l)" "lf_cash pf = lt_cash_step t (lf_cash (l_portfolio l))"
    and "lf_pnl pf = lt_pnl_step t (lf_pnl (l_portfolio l))"
    and "lf_wins pf = lf_wins (l_portfolio l) + (if lt_order t = LT_SELL_ORDER \<and> lt_winning t then 1 else 0)"
    and "lf_losses pf = lf_losses (l_portfolio l) + (if lt_order t = LT_SELL_ORDER \<and> \<not> lt_winning t then 1 else 0)"
    and "distinct (map lpos_ticker ps)" "\<forall>p \<in> set ps. lt_holds p" "- (2 * cash_tolerance) \<le> lf_cash pf"
  shows "longterm_ok (lt_append t (l\<lparr> l_portfolio := pf, l_positions := ps \<rparr>))"
  using assms
  by (auto simp: longterm_ok_def lt_book_follows_def Let_def lt_append_def lt_sells_def sorted_wrt_append less_Suc_eq_le
      le_SucI lt_cash_step_def split: if_splits)

text \<open>A purchase that passed the check at its execution.\<close>

lemma purchase_floor:
  assumes "is_float cash" "- (2 * cash_tolerance) \<le> cash" "\<not> beyond_cash cost cash"
  shows "- (2 * cash_tolerance) \<le> fl (cash - cost)"
proof -
  have "cost \<le> cash + 2 * cash_tolerance"
    using assms fl_up [OF assms(1) cash_tolerance_nonneg] by (simp add: beyond_cash_def cash_tolerance_def not_less)
  then have "- (2 * cash_tolerance) \<le> cash - cost" by simp
  moreover have "fl (- (2 * cash_tolerance)) = - (2 * cash_tolerance)"
    using is_float_double [of cash_tolerance] is_float_minus by (simp add: cash_tolerance_def is_float_def [symmetric])
  ultimately show ?thesis using f64.rnd_ge_fixed by blast
qed

text \<open>The rows of the book and what the log says of them change together.\<close>

lemma holdings_without: "map lt_holding (filter (\<lambda>q. lpos_ticker q \<noteq> k) ps) = filter (\<lambda>h. fst h \<noteq> k) (map lt_holding ps)"
  by (simp add: filter_map comp_def lt_holding_def)

lemma holdings_opened:
  assumes "lpos_ticker p \<notin> lpos_ticker ` set ps"
  shows "map lt_holding (ps @ [p]) = upsert_row fst (lt_holding p) m (map lt_holding ps)"
  using assms by (auto simp: upsert_row_def lt_holding_def image_image)

lemma holdings_updated:
  assumes "k \<in> lpos_ticker ` set ps" "\<And>q. q \<in> set ps \<Longrightarrow> lpos_ticker q = k \<Longrightarrow> lt_holding (f q) = (k, s, a)"
  shows "map lt_holding (update_rows (\<lambda>q. lpos_ticker q = k) f ps) = upsert_row fst (k, s, a) (\<lambda>_. (k, s, a)) (map lt_holding ps)"
proof -
  have "k \<in> fst ` set (map lt_holding ps)" using assms(1) by (force simp: lt_holding_def)
  then show ?thesis using assms(2) by (auto simp: upsert_row_def update_rows_def) (auto simp: lt_holding_def)
qed

lemma tickers_updated: "(\<And>q. lpos_ticker (f q) = lpos_ticker q) \<Longrightarrow> map lpos_ticker (update_rows P f ps) = map lpos_ticker ps"
  by (rule map_update_rows)

lemma average_nonneg:
  assumes "0 \<le> s" "0 \<le> a" "0 \<le> n" "0 \<le> p"
  shows "0 \<le> calculate_average_cost_basis s a n p"
  using assms by (auto simp: calculate_average_cost_basis_def Let_def intro!: fl_nonneg divide_nonneg_nonneg add_nonneg_nonneg)

lemma execute_long_term_buy_ok:
  assumes "longterm_ok l" "execute_long_term_buy ticker shares price cost at_ts l = (Inr r, l')"
    and "0 \<le> price" "0 \<le> shares" "is_float shares"
  shows "longterm_ok l'"
proof (cases "paper_blocked l ORIGINAL_LONGTERM = None \<and> \<not> beyond_cash cost (lf_cash (l_portfolio l))")
  case True
  then have new: "upper ticker \<notin> lpos_ticker ` set (l_positions l)"
    using assms(2) by (auto simp: execute_long_term_buy_def Let_def split: if_splits)
  have floor: "- (2 * cash_tolerance) \<le> fl (lf_cash (l_portfolio l) - cost)"
    using assms(1) True by (intro purchase_floor) (simp_all add: longterm_ok_def)
  show ?thesis using assms(2) True new
  proof (simp add: execute_long_term_buy_def Let_def, elim conjE, hypsubst)
    let ?p = "\<lparr> lpos_ticker = upper ticker, lpos_shares = shares, lpos_avg = price, lpos_first = at_ts, lpos_contributed = cost \<rparr>"
    show "longterm_ok (lt_append \<lparr> lt_id = Suc (l_seq l), lt_ticker = upper ticker, lt_order = LT_BUY_ORDER, lt_price = price,
        lt_shares = shares, lt_amount = cost, lt_avg_after = Some price, lt_shares_after = Some shares, lt_pnl_usd = None,
        lt_pnl_pct = None, lt_holding_days = None, lt_cash_after = fl (lf_cash (l_portfolio l) - cost),
        lt_action = HIGH_CONVICTION_BUY, lt_at = at_ts \<rparr>
        (l\<lparr> l_portfolio := (l_portfolio l)\<lparr> lf_cash := fl (lf_cash (l_portfolio l) - cost) \<rparr>, l_positions := l_positions l @ [?p] \<rparr>))"
      by (rule lt_append_ok [OF assms(1)])
        (use new floor assms holdings_opened [of ?p "l_positions l"] in
          \<open>auto simp: longterm_ok_def lt_replay_def lt_cash_step_def lt_pnl_step_def lt_holds_def lt_holding_def\<close>)
  qed
qed (use assms in \<open>auto simp: execute_long_term_buy_def Let_def split: option.splits if_splits\<close>)

lemma execute_dca_contributionE:
  assumes "execute_dca_contribution ticker contribution price at_ts l = (r, l')"
  obtains (idle) "r = None" "l' = l"
  | (refused) why where "r = None" "l' = record_ignored (upper ticker) why DCA_CONTRIBUTION price at_ts LONG_TERM l"
  | (paid) p t where "r = Some t" "paper_blocked l ORIGINAL_LONGTERM = None" "row_by lpos_ticker (upper ticker) (l_positions l) = Some p"
      "0 < price" "0 < contribution" "\<not> beyond_cash contribution (lf_cash (l_portfolio l))"
      "lt_id t = Suc (l_seq l)" "lt_ticker t = upper ticker" "lt_order t = LT_DCA_ORDER" "lt_amount t = contribution" "lt_price t = price"
      "lt_pnl_usd t = None" "lt_shares t = fl (contribution / price)"
      "lt_shares_after t = Some (fl (lpos_shares p + fl (contribution / price)))"
      "lt_avg_after t = Some (calculate_average_cost_basis (lpos_shares p) (lpos_avg p) (fl (contribution / price)) price)"
      "l' = lt_append t (l\<lparr> l_portfolio := (l_portfolio l)\<lparr> lf_cash := fl (lf_cash (l_portfolio l) - contribution) \<rparr>,
         l_positions := update_rows (\<lambda>q. lpos_ticker q = upper ticker)
           (\<lambda>q. q\<lparr> lpos_shares := fl (lpos_shares p + fl (contribution / price)),
                   lpos_avg := calculate_average_cost_basis (lpos_shares p) (lpos_avg p) (fl (contribution / price)) price,
                   lpos_contributed := fl (lpos_contributed p + contribution) \<rparr>) (l_positions l) \<rparr>)"
proof (cases "paper_blocked l ORIGINAL_LONGTERM = None \<and> row_by lpos_ticker (upper ticker) (l_positions l) \<noteq> None \<and> 0 < price
    \<and> 0 < contribution \<and> \<not> beyond_cash contribution (lf_cash (l_portfolio l))")
  case True
  then obtain p where p: "row_by lpos_ticker (upper ticker) (l_positions l) = Some p" by blast
  let ?n = "fl (contribution / price)" let ?c = "fl (lf_cash (l_portfolio l) - contribution)"
  let ?s = "fl (lpos_shares p + ?n)" let ?a = "calculate_average_cost_basis (lpos_shares p) (lpos_avg p) ?n price"
  let ?t = "\<lparr> lt_id = Suc (l_seq l), lt_ticker = upper ticker, lt_order = LT_DCA_ORDER, lt_price = price, lt_shares = ?n,
      lt_amount = contribution, lt_avg_after = Some ?a, lt_shares_after = Some ?s, lt_pnl_usd = None, lt_pnl_pct = None,
      lt_holding_days = None, lt_cash_after = ?c, lt_action = DCA_CONTRIBUTION, lt_at = at_ts \<rparr>"
  show thesis by (rule paid [where t = ?t, OF _ _ p]) (use assms True p in \<open>simp_all add: execute_dca_contribution_def Let_def not_le\<close>)
next
  case False
  with assms have "r = None \<and> (l' = l \<or> (\<exists>why. l' = record_ignored (upper ticker) why DCA_CONTRIBUTION price at_ts LONG_TERM l))"
    by (cases "paper_blocked l ORIGINAL_LONGTERM"; cases "row_by lpos_ticker (upper ticker) (l_positions l)")
      (auto simp: execute_dca_contribution_def Let_def not_le split: if_splits)
  then show thesis by (elim conjE disjE exE) (erule (1) idle, erule (1) refused)
qed

lemma execute_dca_contribution_ok:
  assumes "longterm_ok l" "execute_dca_contribution ticker contribution price at_ts l = (r, l')"
  shows "longterm_ok l'"
proof (cases rule: execute_dca_contributionE [OF assms(2)])
  case (3 p t)
  note paid = 3
  have p: "p \<in> set (l_positions l)" "lpos_ticker p = upper ticker" using row_by_Some [OF 3(3)] by simp_all
  then have h: "lt_holds p" using assms(1) by (simp add: longterm_ok_def)
  have key: "upper ticker \<in> lpos_ticker ` set (l_positions l)" using p by (metis image_eqI)
  have shares: "0 \<le> fl (contribution / price)" using 3(4,5) by (simp add: fl_nonneg)
  have floor: "- (2 * cash_tolerance) \<le> fl (lf_cash (l_portfolio l) - contribution)"
    using assms(1) 3(6) by (intro purchase_floor) (simp_all add: longterm_ok_def)
  show ?thesis unfolding 3(16)
  proof (rule lt_append_ok [OF assms(1)], goal_cases)
    case 2
    show ?case unfolding lt_replay_def paid by (simp, rule holdings_updated [OF key]) (simp add: lt_holding_def)
  next
    case 8
    have "is_float (lf_cash (l_portfolio l))" using assms(1) by (simp add: longterm_ok_def)
    then show ?case using assms(1) by (simp add: longterm_ok_def tickers_updated)
  next
    case 9
    have "0 \<le> calculate_average_cost_basis (lpos_shares p) (lpos_avg p) (fl (contribution / price)) price"
      using h shares 3(4) by (intro average_nonneg) (simp_all add: lt_holds_def)
    then show ?case using assms(1) h shares by (auto simp: in_update_rows longterm_ok_def lt_holds_def fl_nonneg)
  qed (use paid floor in \<open>simp_all add: lt_cash_step_def lt_pnl_step_def\<close>)
qed (use assms in simp_all)

lemma clamp_bounds: "0 \<le> clamp_fraction f" "clamp_fraction f \<le> 1"
  by (simp_all add: clamp_fraction_def)

text \<open>A sale of a fraction of the shares.\<close>

lemma sold_bounds:
  assumes "is_float s" "0 \<le> s"
  shows "0 \<le> fl (s * clamp_fraction f)" "fl (s * clamp_fraction f) \<le> s"
proof -
  show "0 \<le> fl (s * clamp_fraction f)" using assms(2) clamp_bounds(1) by (intro fl_nonneg) simp
  have "s * clamp_fraction f \<le> s" using assms(2) clamp_bounds(2) mult_left_le by blast
  then show "fl (s * clamp_fraction f) \<le> s" using assms(1) f64.rnd_le_fixed by (simp add: is_float_def)
qed

lemma execute_long_term_sellE:
  assumes "execute_long_term_sell ticker trim price at_ts action l = (r, l')"
  obtains (flat) "r = None" "l' = l" "upper ticker \<notin> lpos_ticker ` set (l_positions l)"
  | (sold) p t sold usd pct remaining where "r = Some t" "row_by lpos_ticker (upper ticker) (l_positions l) = Some p"
      "sold = fl (lpos_shares p * clamp_fraction trim)" "remaining = fl (lpos_shares p - sold)"
      "calculate_partial_sell_pnl sold (lpos_avg p) price = (usd, pct)"
      "lt_id t = Suc (l_seq l)" "lt_ticker t = upper ticker" "lt_order t = LT_SELL_ORDER" "lt_amount t = fl (sold * price)"
      "lt_shares t = sold" "lt_pnl_usd t = Some usd" "lt_action t = action"
      "lt_shares_after t = (if remaining \<le> fl (1 / 1000000000) then None else Some remaining)"
      "lt_avg_after t = (if remaining \<le> fl (1 / 1000000000) then None else Some (lpos_avg p))"
      "l' = lt_append t (l\<lparr> l_portfolio := (l_portfolio l)\<lparr> lf_cash := fl (lf_cash (l_portfolio l) + fl (sold * price)),
           lf_pnl := fl (lf_pnl (l_portfolio l) + usd), lf_wins := lf_wins (l_portfolio l) + (if 0 < usd then 1 else 0),
           lf_losses := lf_losses (l_portfolio l) + (if 0 < usd then 0 else 1) \<rparr>,
         l_positions := (if remaining \<le> fl (1 / 1000000000) then filter (\<lambda>q. lpos_ticker q \<noteq> upper ticker) (l_positions l)
           else update_rows (\<lambda>q. lpos_ticker q = upper ticker) (\<lambda>q. q\<lparr> lpos_shares := remaining \<rparr>) (l_positions l)) \<rparr>)"
proof (cases "row_by lpos_ticker (upper ticker) (l_positions l)")
  case None
  with assms flat show thesis by (simp add: execute_long_term_sell_def Let_def row_by_None)
next
  case (Some p)
  let ?sold = "fl (lpos_shares p * clamp_fraction trim)"
  let ?rest = "fl (lpos_shares p - ?sold)"
  obtain usd pct where pnl: "calculate_partial_sell_pnl ?sold (lpos_avg p) price = (usd, pct)" by force
  let ?t = "\<lparr> lt_id = Suc (l_seq l), lt_ticker = upper ticker, lt_order = LT_SELL_ORDER, lt_price = price, lt_shares = ?sold,
      lt_amount = fl (?sold * price), lt_avg_after = (if ?rest \<le> fl (1 / 1000000000) then None else Some (lpos_avg p)),
      lt_shares_after = (if ?rest \<le> fl (1 / 1000000000) then None else Some ?rest), lt_pnl_usd = Some usd, lt_pnl_pct = Some pct,
      lt_holding_days = Some ((at_ts - lpos_first p) div day_us), lt_cash_after = fl (lf_cash (l_portfolio l) + fl (?sold * price)),
      lt_action = action, lt_at = at_ts \<rparr>"
  show thesis by (rule sold [where t = ?t, OF _ Some refl refl pnl])
      (use assms Some pnl in \<open>simp_all add: execute_long_term_sell_def Let_def\<close>)
qed

lemma execute_long_term_sell_ok:
  assumes "longterm_ok l" "execute_long_term_sell ticker trim price at_ts action l = (r, l')" "0 \<le> price"
  shows "longterm_ok l'"
proof (cases rule: execute_long_term_sellE [OF assms(2)])
  case (2 p t sold usd pct remaining)
  note sale = 2
  have p: "p \<in> set (l_positions l)" "lpos_ticker p = upper ticker" using row_by_Some [OF 2(2)] by simp_all
  then have h: "lt_holds p" using assms(1) by (simp add: longterm_ok_def)
  have d: "distinct (map lpos_ticker (l_positions l))" and c: "- (2 * cash_tolerance) \<le> lf_cash (l_portfolio l)"
    "is_float (lf_cash (l_portfolio l))" using assms(1) by (simp_all add: longterm_ok_def)
  have key: "upper ticker \<in> lpos_ticker ` set (l_positions l)" using p by (metis image_eqI)
  have sold: "0 \<le> sold" "sold \<le> lpos_shares p" using h sold_bounds by (simp_all add: 2(3) lt_holds_def)
  have rest: "0 \<le> remaining" "is_float remaining" using sold(2) by (simp_all add: 2(4) fl_nonneg)
  have only: "q = p" if "q \<in> set (l_positions l)" "lpos_ticker q = upper ticker" for q
    using distinct_key [OF d that(1) p(1)] that(2) p(2) by simp
  have "lf_cash (l_portfolio l) \<le> lf_cash (l_portfolio l) + fl (sold * price)" using sold(1) assms(3) by (simp add: fl_nonneg)
  then have floor: "- (2 * cash_tolerance) \<le> fl (lf_cash (l_portfolio l) + fl (sold * price))"
    using c f64.rnd_ge_fixed [of "lf_cash (l_portfolio l)"] unfolding is_float_def by fastforce
  show ?thesis unfolding 2(15)
  proof (rule lt_append_ok [OF assms(1)], goal_cases)
    case 2
    show ?case unfolding lt_replay_def sale
      by (simp add: holdings_without) (intro impI holdings_updated [OF key], auto simp: lt_holding_def dest!: only)
  next
    case 8
    show ?case using d by (simp add: tickers_updated distinct_map_filter)
  next
    case 9
    show ?case using assms(1) rest by (auto simp: in_update_rows longterm_ok_def lt_holds_def)
  qed (use sale floor in \<open>simp_all add: lt_cash_step_def lt_pnl_step_def lt_winning_def\<close>)
qed (use assms in simp_all)

section \<open>The handlers keep it and never raise\<close>

lemma lt_note_ignored_simps [simp]:
  "le_ledger (lt_note_ignored ticker why action price at_ts st) = record_ignored ticker why action price at_ts LONG_TERM (le_ledger st)"
  "le_ledger (lt_count_ignored st) = le_ledger st" "le_ledger (lt_executed t l st) = l"
  by (simp_all add: lt_note_ignored_def lt_count_ignored_def lt_executed_def)

lemma execute_long_term_buy_new:
  assumes "execute_long_term_buy ticker shares price cost at_ts l = (r, l')" "get_long_term_position l ticker = None"
  obtains t where "r = Inr t"
  using assms by (auto simp: execute_long_term_buy_def get_long_term_position_def row_by_None Let_def split: option.splits if_splits)

lemma lt_engine_buy_ok:
  assumes "longterm_ok (le_ledger st)" "get_long_term_position (le_ledger st) (la_ticker alert) = None"
    and "lt_engine_buy cfg alert st = (err, st')"
  shows "err = None \<and> longterm_ok (le_ledger st')"
proof -
  let ?fill = "apply_spread (la_price alert) (lc_spread_bps cfg) BUY_SIDE"
  show ?thesis
  proof (cases "calculate_buy (lf_cash (l_portfolio (le_ledger st))) (lc_initial_position cfg) ?fill")
    case (Some sc)
    obtain shares cost where sc: "sc = (shares, cost)" by force
    note buy = calculate_buyD [OF Some [unfolded sc]]
    obtain r l where e: "execute_long_term_buy (la_ticker alert) shares ?fill cost (la_at alert) (le_ledger st) = (r, l)" by force
    obtain t where r: "r = Inr t" by (rule execute_long_term_buy_new [OF e assms(2)])
    have "longterm_ok l" using execute_long_term_buy_ok [OF assms(1) e [unfolded r]] buy by simp
    with assms(3) Some sc e r show ?thesis by (auto simp: lt_engine_buy_def Let_def split: option.splits)
  qed (use assms in \<open>auto simp: lt_engine_buy_def Let_def\<close>)
qed

lemma lt_engine_sell_ok:
  assumes "longterm_ok (le_ledger st)" "0 \<le> apply_spread (la_price alert) (lc_spread_bps cfg) SELL_SIDE"
  shows "longterm_ok (le_ledger (lt_engine_sell cfg alert trim st))"
proof -
  let ?fill = "apply_spread (la_price alert) (lc_spread_bps cfg) SELL_SIDE"
  obtain r l where e: "execute_long_term_sell (la_ticker alert) trim ?fill (la_at alert) (la_action alert) (le_ledger st) = (r, l)" by force
  from execute_long_term_sell_ok [OF assms(1) e assms(2)] e show ?thesis
    by (simp add: lt_engine_sell_def Let_def split: option.split)
qed

lemma handle_lt_alert_ok:
  assumes "longterm_ok (le_ledger st)" "handle_lt_alert cfg enabled payload st = (err, st')"
    and "\<And>a. payload = Some a \<Longrightarrow> 0 \<le> apply_spread (la_price a) (lc_spread_bps cfg) SELL_SIDE"
  shows "err = None \<and> longterm_ok (le_ledger st')"
proof (cases payload)
  case (Some alert)
  let ?st = "st\<lparr> le_processed := Suc (le_processed st) \<rparr>"
  have buy: "err = None \<and> longterm_ok (le_ledger st')"
    if "decide_long_term_trade alert (get_long_term_position (le_ledger ?st) (la_ticker alert) \<noteq> None) (lc_trim cfg) = Some LT_BUY"
      "lt_engine_buy cfg alert ?st = (err, st')"
    using that lt_engine_buy_ok [of ?st alert cfg err st'] assms(1)
    by (auto simp: decide_long_term_trade_def split: if_splits v1_action.splits)
  have "longterm_ok (le_ledger ?st)" using assms(1) by simp
  with Some assms(2) assms(3) [OF Some] buy show ?thesis
    by (auto simp: handle_lt_alert_def Let_def lt_engine_sell_ok split: if_splits option.splits lt_decision.splits)
qed (use assms in \<open>simp add: handle_lt_alert_def\<close>)

lemma handle_lt_tick_ok [simp]: "longterm_ok (le_ledger (handle_lt_tick now payload st)) = longterm_ok (le_ledger st)"
  by (auto simp: handle_lt_tick_def split: option.split tick_type.split)

lemma dca_one_ok:
  assumes "longterm_ok (le_ledger st)"
  shows "longterm_ok (le_ledger (snd (dca_one snapshot now p (cash, st))))"
proof -
  have "longterm_ok l" if "execute_dca_contribution (lpos_ticker p) c price now (le_ledger st) = (r, l)" for c price r l
    using execute_dca_contribution_ok [OF assms that] .
  with assms show ?thesis by (auto simp: dca_one_def Let_def split: option.split prod.split)
qed

section \<open>What a cycle of contributions does\<close>

text \<open>The effect of a cycle so far, from the ledger it started on.\<close>

definition contributed :: "paper_ledger \<Rightarrow> paper_ledger \<Rightarrow> stamp \<Rightarrow> lt_trade \<Rightarrow> bool" where
  "contributed l0 snapshot now t \<longleftrightarrow> lt_order t = LT_DCA_ORDER \<and> lt_amount t = lf_dca (l_portfolio snapshot)
     \<and> latest_price snapshot (lt_ticker t) = Some (lt_price t) \<and> 0 < lt_price t \<and> lt_ticker t \<in> lpos_ticker ` set (l_positions l0)"

text \<open>What of the portfolio a contribution leaves alone.\<close>

definition lf_rest :: "lt_portfolio \<Rightarrow> money \<times> money \<times> money \<times> nat \<times> nat \<times> stamp option" where
  "lf_rest pf = (lf_initial pf, lf_dca pf, lf_pnl pf, lf_wins pf, lf_losses pf, lf_last_dca pf)"

definition cycle_effect :: "paper_ledger \<Rightarrow> paper_ledger \<Rightarrow> stamp \<Rightarrow> lt_trade list \<Rightarrow> paper_ledger \<Rightarrow> bool" where
  "cycle_effect l0 snapshot now new l \<longleftrightarrow> l_trades l = l_trades l0 @ new \<and> list_all (contributed l0 snapshot now) new
     \<and> map lpos_ticker (l_positions l) = map lpos_ticker (l_positions l0)
     \<and> lf_rest (l_portfolio l) = lf_rest (l_portfolio l0) \<and> 0 \<le> lf_cash (l_portfolio l)"

lemma dca_one_effect:
  assumes "cycle_effect l0 snapshot now new (le_ledger st)" "dca_one snapshot now p (lf_cash (l_portfolio (le_ledger st)), st) = (c, st')"
    and "upper (lpos_ticker p) = lpos_ticker p"
  obtains more where "cycle_effect l0 snapshot now (new @ more) (le_ledger st')" "c = lf_cash (l_portfolio (le_ledger st'))"
    "map lt_ticker more = [] \<or> map lt_ticker more = [lpos_ticker p]"
proof -
  let ?l = "le_ledger st" and ?d = "lf_dca (l_portfolio snapshot)"
  show thesis
  proof (cases "\<exists>price. latest_price snapshot (lpos_ticker p) = Some price \<and> 0 < price \<and> ?d \<le> lf_cash (l_portfolio ?l)")
    case True
    then obtain price where price: "latest_price snapshot (lpos_ticker p) = Some price" "0 < price" "?d \<le> lf_cash (l_portfolio ?l)" by blast
    obtain r l where e: "execute_dca_contribution (lpos_ticker p) ?d price now ?l = (r, l)" by force
    from assms(2) price e have st': "le_ledger st' = l" and c: "c = (if r = None then lf_cash (l_portfolio ?l) else lf_cash (l_portfolio l))"
      by (auto simp: dca_one_def Let_def split: option.splits)
    show thesis
    proof (cases rule: execute_dca_contributionE [OF e])
      case (3 q t)
      have "lpos_ticker p \<in> lpos_ticker ` set (l_positions ?l)" using row_by_Some [OF 3(3)] assms(3) by (metis image_eqI)
      then have "lpos_ticker p \<in> lpos_ticker ` set (l_positions l0)" using assms(1) unfolding cycle_effect_def by (metis list.set_map)
      with assms(1,3) price 3 c st' show thesis
        by (intro that [of "[t]"])
          (simp_all add: cycle_effect_def lf_rest_def contributed_def lt_append_def map_update_rows f64.rnd_diff_nonneg)
    qed (use assms(1) c st' that [of "[]"] in \<open>simp_all add: cycle_effect_def record_ignored_def\<close>)
  next
    case False
    then have "dca_one snapshot now p (lf_cash (l_portfolio ?l), st) = (lf_cash (l_portfolio ?l), st)"
      by (auto simp: dca_one_def Let_def not_le not_less split: option.split)
    with assms that [of "[]"] show thesis by auto
  qed
qed

lemma dca_fold_effect:
  assumes "cycle_effect l0 snapshot now new (le_ledger st)" "\<forall>p \<in> set ps. upper (lpos_ticker p) = lpos_ticker p"
  obtains more where
    "cycle_effect l0 snapshot now (new @ more) (le_ledger (snd (fold (dca_one snapshot now) ps (lf_cash (l_portfolio (le_ledger st)), st))))"
    "subseq (map lt_ticker more) (map lpos_ticker ps)"
  using assms
proof (induction ps arbitrary: st new thesis)
  case Nil
  then show ?case by (metis append_Nil2 fold_simps(1) list.simps(8) snd_conv subseq_order.order_refl)
next
  case (Cons p ps)
  obtain c st' where one: "dca_one snapshot now p (lf_cash (l_portfolio (le_ledger st)), st) = (c, st')" by force
  obtain more where m: "cycle_effect l0 snapshot now (new @ more) (le_ledger st')" "c = lf_cash (l_portfolio (le_ledger st'))"
    "map lt_ticker more = [] \<or> map lt_ticker more = [lpos_ticker p]"
    by (rule dca_one_effect [OF Cons.prems(2) one]) (use Cons.prems(3) in simp_all)
  obtain rest where r: "cycle_effect l0 snapshot now ((new @ more) @ rest)
      (le_ledger (snd (fold (dca_one snapshot now) ps (lf_cash (l_portfolio (le_ledger st')), st'))))"
    "subseq (map lt_ticker rest) (map lpos_ticker ps)"
    by (rule Cons.IH [OF _ m(1)]) (use Cons.prems(3) in simp_all)
  have "subseq (map lt_ticker (more @ rest)) (map lpos_ticker (p # ps))" using m(3) r(2) by auto
  with r(1) Cons.prems(1) [of "more @ rest"] show ?case by (simp add: one m(2))
qed

section \<open>The two lanes share no book\<close>

definition intraday_book :: "paper_ledger \<Rightarrow> portfolio \<times> v1_position list \<times> v1_trade list \<times> nat" where
  "intraday_book l = (v_portfolio l, v_positions l, v_trades l, v_seq l)"

definition longterm_book :: "paper_ledger \<Rightarrow> lt_portfolio \<times> lt_position list \<times> lt_trade list \<times> nat" where
  "longterm_book l = (l_portfolio l, l_positions l, l_trades l, l_seq l)"

text \<open>What a handler other than a price tick leaves alone: the other lane's book, the account blocks and the prices.\<close>

definition long_frame :: "paper_ledger \<Rightarrow> paper_ledger \<Rightarrow> bool" where
  "long_frame l l' \<longleftrightarrow> intraday_book l' = intraday_book l \<and> v_blocks l' = v_blocks l \<and> v_prices l' = v_prices l"

definition day_frame :: "paper_ledger \<Rightarrow> paper_ledger \<Rightarrow> bool" where
  "day_frame l l' \<longleftrightarrow> longterm_book l' = longterm_book l \<and> v_blocks l' = v_blocks l \<and> v_prices l' = v_prices l"

lemmas frame_defs = long_frame_def day_frame_def intraday_book_def longterm_book_def

lemma frame_refl [simp]: "long_frame l l" "day_frame l l"
  by (simp_all add: frame_defs)

lemma frame_bookkeeping [simp]:
  "long_frame l (record_ignored ticker why action price at_ts h l') = long_frame l l'"
  "day_frame l (record_ignored ticker why action price at_ts h l') = day_frame l l'"
  "long_frame l (set_last_dca_at at_ts l') = long_frame l l'"
  by (simp_all add: frame_defs record_ignored_def set_last_dca_at_def)

lemma price_update_books [simp]:
  "intraday_book (update_latest_price ticker price at_ts l) = intraday_book l"
  "longterm_book (update_latest_price ticker price at_ts l) = longterm_book l"
  "v_blocks (update_latest_price ticker price at_ts l) = v_blocks l"
  by (simp_all add: intraday_book_def longterm_book_def update_latest_price_def)

lemma long_executions:
  "execute_long_term_buy ticker shares price cost at_ts l = (r, l') \<Longrightarrow> long_frame l l'"
  "execute_dca_contribution ticker contribution price at_ts l = (s, l') \<Longrightarrow> long_frame l l'"
  "execute_long_term_sell ticker trim price at_ts action l = (s, l') \<Longrightarrow> long_frame l l'"
  subgoal by (auto simp: execute_long_term_buy_def Let_def lt_append_def split: option.splits if_splits) (auto simp: frame_defs)
  subgoal by (erule execute_dca_contributionE) (auto simp: lt_append_def, auto simp: frame_defs)
  subgoal by (erule execute_long_term_sellE) (auto simp: lt_append_def, auto simp: frame_defs)
  done

lemma long_frame_trans: "long_frame l l' \<Longrightarrow> long_frame l' l'' \<Longrightarrow> long_frame l l''"
  by (simp add: long_frame_def)

lemma lt_engine_buy_frame: "long_frame (le_ledger st) (le_ledger (snd (lt_engine_buy cfg alert st)))"
proof (cases "calculate_buy (lf_cash (l_portfolio (le_ledger st))) (lc_initial_position cfg)
    (apply_spread (la_price alert) (lc_spread_bps cfg) BUY_SIDE)")
  case (Some sc)
  obtain r l where e: "execute_long_term_buy (la_ticker alert) (fst sc) (apply_spread (la_price alert) (lc_spread_bps cfg) BUY_SIDE) (snd sc)
    (la_at alert) (le_ledger st) = (r, l)" by force
  with Some long_executions(1) [OF e] show ?thesis
    by (cases sc) (simp add: lt_engine_buy_def Let_def split: sum.split option.split)
qed (simp add: lt_engine_buy_def Let_def)

lemma lt_engine_sell_frame: "long_frame (le_ledger st) (le_ledger (lt_engine_sell cfg alert trim st))"
proof -
  obtain r l where e: "execute_long_term_sell (la_ticker alert) trim (apply_spread (la_price alert) (lc_spread_bps cfg) SELL_SIDE)
    (la_at alert) (la_action alert) (le_ledger st) = (r, l)" by force
  with long_executions(3) [OF e] show ?thesis by (simp add: lt_engine_sell_def Let_def split: option.split)
qed

lemma handle_lt_alert_frame: "long_frame (le_ledger st) (le_ledger (snd (handle_lt_alert cfg enabled payload st)))"
proof (cases payload)
  case (Some alert)
  let ?st = "st\<lparr> le_processed := Suc (le_processed st) \<rparr>"
  have moves: "long_frame (le_ledger st) (le_ledger (snd (lt_engine_buy cfg alert ?st)))"
    "long_frame (le_ledger st) (le_ledger (lt_engine_sell cfg alert trim ?st))" for trim
    using lt_engine_buy_frame [of ?st] lt_engine_sell_frame [of ?st] by simp_all
  show ?thesis
  proof (cases "decide_long_term_trade alert (get_long_term_position (le_ledger ?st) (la_ticker alert) \<noteq> None) (lc_trim cfg)")
    case decided: (Some d)
    show ?thesis using moves by (cases d) (simp_all add: handle_lt_alert_def Let_def Some decided [simplified])
  qed (simp add: handle_lt_alert_def Let_def Some)
qed (simp add: handle_lt_alert_def)

lemma handle_lt_tick_books:
  "intraday_book (le_ledger (handle_lt_tick now payload st)) = intraday_book (le_ledger st)"
  "longterm_book (le_ledger (handle_lt_tick now payload st)) = longterm_book (le_ledger st)"
  "v_blocks (le_ledger (handle_lt_tick now payload st)) = v_blocks (le_ledger st)"
  by (simp_all add: handle_lt_tick_def split: option.split tick_type.split)

lemma dca_one_frame: "long_frame (le_ledger (snd cst)) (le_ledger (snd (dca_one snapshot now p cst)))"
proof (cases cst)
  case (Pair cash st)
  have "long_frame (le_ledger st) (snd (execute_dca_contribution ticker c price now (le_ledger st)))" for ticker c price
    by (rule long_executions(2) [OF surjective_pairing])
  then show ?thesis by (auto simp: Pair dca_one_def Let_def split: option.split prod.split) (metis snd_conv)+
qed

lemma dca_fold_frame: "long_frame (le_ledger (snd cst)) (le_ledger (snd (fold (dca_one snapshot now) ps cst)))"
proof (induction ps arbitrary: cst)
  case (Cons p ps)
  have "long_frame (le_ledger (snd cst)) (le_ledger (snd (fold (dca_one snapshot now) ps (dca_one snapshot now p cst))))"
    by (rule long_frame_trans [OF dca_one_frame Cons.IH])
  then show ?case by simp
qed simp

lemma run_dca_cycle_frame: "long_frame (le_ledger st) (le_ledger (run_dca_cycle_once now st))"
  using dca_fold_frame [of "(lf_cash (l_portfolio (le_ledger (stamp_dca now st))), stamp_dca now st)"]
  by (simp add: run_dca_cycle_once_def Let_def) (simp add: stamp_dca_def frame_defs set_last_dca_at_def)

end
