(* ===== verification/Paper_Lanes.thy ===== *)
theory Paper_Lanes
  imports Paper_Intraday Paper_Longterm
begin

text \<open>
  The two V1 engines over their one ledger file.  Each is a task of one event loop: a handler runs to its
  end, while the end-of-day sweep and the contribution cycle give the loop back at every trade they publish,
  so a step of the lane is one handler, or one position of a sweep or cycle that is under way.  The dashboard's
  operations are steps too.
\<close>

section \<open>Definitions\<close>

record lanes =
  ln_ledger :: paper_ledger
  ln_day :: paper_engine
  ln_long :: lt_engine
  ln_eod :: "(stamp \<times> paper_ledger \<times> v1_position list) option"
  ln_dca :: "(stamp \<times> paper_ledger \<times> money \<times> lt_position list) option"

definition on_day :: "(paper_engine \<Rightarrow> paper_engine) \<Rightarrow> lanes \<Rightarrow> lanes" where
  "on_day f s = (let e = f ((ln_day s)\<lparr> pe_ledger := ln_ledger s \<rparr>) in s\<lparr> ln_day := e, ln_ledger := pe_ledger e \<rparr>)"

definition on_long :: "(lt_engine \<Rightarrow> lt_engine) \<Rightarrow> lanes \<Rightarrow> lanes" where
  "on_long f s = (let e = f ((ln_long s)\<lparr> le_ledger := ln_ledger s \<rparr>) in s\<lparr> ln_long := e, ln_ledger := le_ledger e \<rparr>)"

definition on_ledger :: "(paper_ledger \<Rightarrow> paper_ledger) \<Rightarrow> lanes \<Rightarrow> lanes" where
  "on_ledger f s = s\<lparr> ln_ledger := f (ln_ledger s) \<rparr>"

definition start_lanes :: "paper_ledger \<Rightarrow> lanes" where
  "start_lanes l =
     \<lparr> ln_ledger = l, ln_day = \<lparr> pe_ledger = l, pe_processed = 0, pe_executed = 0, pe_ignored = 0, pe_published = [] \<rparr>,
       ln_long = \<lparr> le_ledger = l, le_processed = 0, le_executed = 0, le_ignored = 0, le_dca_made = 0, le_published = [] \<rparr>,
       ln_eod = None, ln_dca = None \<rparr>"

definition begin_sweep :: "stamp \<Rightarrow> lanes \<Rightarrow> lanes" where
  "begin_sweep now s = s\<lparr> ln_eod := Some (now, ln_ledger s, get_open_positions (ln_ledger s)) \<rparr>"

definition begin_cycle :: "stamp \<Rightarrow> lanes \<Rightarrow> lanes" where
  "begin_cycle now s = (let s' = on_long (stamp_dca now) s; l = ln_ledger s'
     in s'\<lparr> ln_dca := Some (now, l, lf_cash (l_portfolio l), get_open_long_term_positions l) \<rparr>)"

definition cycle_on :: "stamp \<Rightarrow> paper_ledger \<Rightarrow> money \<Rightarrow> lt_position \<Rightarrow> lt_position list \<Rightarrow> lanes \<Rightarrow> lanes" where
  "cycle_on now snapshot cash p ps s =
     (let c = fst (dca_one snapshot now p (cash, (ln_long s)\<lparr> le_ledger := ln_ledger s \<rparr>))
      in (on_long (\<lambda>e. snd (dca_one snapshot now p (cash, e))) s)\<lparr> ln_dca := Some (now, snapshot, c, ps) \<rparr>)"

text \<open>An exception that leaves a handler is logged by its task, which reconnects; the ledger stays as it is.\<close>

inductive lanes_step :: "(string \<Rightarrow> string) \<Rightarrow> paper_config \<Rightarrow> lt_config \<Rightarrow> lanes \<Rightarrow> lanes \<Rightarrow> bool" for sha cfg lcfg where
  day_alert: "(\<And>a. payload = Some a \<Longrightarrow> quote_ok (va_price a)) \<Longrightarrow>
     lanes_step sha cfg lcfg s (on_day (\<lambda>e. snd (handle_alert cfg enabled payload e)) s)"
| day_tick: "(\<And>tick close. payload = Some tick \<Longrightarrow> mt_close tick = Some close \<Longrightarrow> quote_ok close) \<Longrightarrow>
     lanes_step sha cfg lcfg s (on_day (handle_market_tick cfg now payload) s)"
| sweep_begins: "ln_eod s = None \<Longrightarrow> lanes_step sha cfg lcfg s (begin_sweep now s)"
| sweep_position: "ln_eod s = Some (now, snapshot, p # ps) \<Longrightarrow>
     lanes_step sha cfg lcfg s ((on_day (flatten_one cfg now snapshot p) s)\<lparr> ln_eod := Some (now, snapshot, ps) \<rparr>)"
| sweep_ends: "ln_eod s = Some (now, snapshot, []) \<Longrightarrow> lanes_step sha cfg lcfg s (s\<lparr> ln_eod := None \<rparr>)"
| long_alert: "(\<And>a. payload = Some a \<Longrightarrow> quote_ok (la_price a)) \<Longrightarrow>
     lanes_step sha cfg lcfg s (on_long (\<lambda>e. snd (handle_lt_alert lcfg enabled payload e)) s)"
| long_tick: "(\<And>tick close. payload = Some tick \<Longrightarrow> mt_close tick = Some close \<Longrightarrow> quote_ok close) \<Longrightarrow>
     lanes_step sha cfg lcfg s (on_long (handle_lt_tick now payload) s)"
| cycle_begins: "ln_dca s = None \<Longrightarrow> lanes_step sha cfg lcfg s (begin_cycle now s)"
| cycle_position: "ln_dca s = Some (now, snapshot, cash, p # ps) \<Longrightarrow>
     lanes_step sha cfg lcfg s (cycle_on now snapshot cash p ps s)"
| cycle_ends: "ln_dca s = Some (now, snapshot, cash, []) \<Longrightarrow> lanes_step sha cfg lcfg s (s\<lparr> ln_dca := None \<rparr>)"
| allocate: "lanes_step sha cfg lcfg s (on_ledger (update_trade_allocation amount) s)"
| contribute: "lanes_step sha cfg lcfg s (on_ledger (update_dca_contribution_amount amount) s)"
| reset_day: "0 \<le> balance \<Longrightarrow> lanes_step sha cfg lcfg s (on_ledger (reset_portfolio balance amount) s)"
| reset_long: "is_float balance \<Longrightarrow> 0 \<le> balance \<Longrightarrow> lanes_step sha cfg lcfg s (on_ledger (reset_long_term_portfolio balance amount) s)"
| block_lane: "paper_record_block sha now account reason ref detail (ln_ledger s) = Inr (bid, l) \<Longrightarrow>
     lanes_step sha cfg lcfg s (s\<lparr> ln_ledger := l \<rparr>)"
| clear_lane: "paper_clear_block sha now bid operator reason evidence allow detail (ln_ledger s) = Inr (c, l) \<Longrightarrow>
     lanes_step sha cfg lcfg s (s\<lparr> ln_ledger := l \<rparr>)"
| restart_lanes: "lanes_step sha cfg lcfg s (start_lanes (ln_ledger s))"

inductive lanes_reachable :: "(string \<Rightarrow> string) \<Rightarrow> paper_config \<Rightarrow> lt_config \<Rightarrow> lanes \<Rightarrow> bool" for sha cfg lcfg where
  start: "0 \<le> balance \<Longrightarrow> is_float lt_balance \<Longrightarrow> 0 \<le> lt_balance \<Longrightarrow>
     lanes_reachable sha cfg lcfg (start_lanes (fresh_paper balance allocation lt_balance dca))"
| step: "lanes_reachable sha cfg lcfg s \<Longrightarrow> lanes_step sha cfg lcfg s t \<Longrightarrow> lanes_reachable sha cfg lcfg t"

section \<open>A lane owns its book\<close>

text \<open>The contract of a lane: whether its book is in order is a matter of its own tables.\<close>

locale lane =
  fixes book :: "paper_ledger \<Rightarrow> 'b" and ok :: "paper_ledger \<Rightarrow> bool"
  assumes owns: "book l' = book l \<Longrightarrow> ok l' = ok l"
begin

lemma untouched: "ok l \<Longrightarrow> book l' = book l \<Longrightarrow> ok l'"
  using owns by blast

end

interpretation day_lane: lane intraday_book intraday_ok
  by unfold_locales (rule intraday_frame, simp_all add: intraday_book_def)

interpretation long_lane: lane longterm_book longterm_ok
  by unfold_locales (rule longterm_frame, simp_all add: longterm_book_def)

section \<open>The intraday handlers stay in their lane\<close>

lemma day_frame_trans: "day_frame l l' \<Longrightarrow> day_frame l' l'' \<Longrightarrow> day_frame l l''"
  by (simp add: day_frame_def)

lemma day_executions:
  "execute_buy ticker shares price cost at_ts stop target l = (r, l') \<Longrightarrow> day_frame l l'"
  "execute_sell ticker price at_ts action l = (s, l') \<Longrightarrow> day_frame l l'"
  subgoal by (erule execute_buyE) (auto, auto simp: frame_defs)
  subgoal by (erule execute_sellE) (auto, auto simp: frame_defs)
  done

lemma note_ignored_ledger: "pe_ledger (note_ignored ticker why action price at_ts st) = record_ignored ticker why action price at_ts INTRADAY (pe_ledger st)"
  by (simp add: note_ignored_def)

lemma close_v1_position_frame: "day_frame (pe_ledger st) (pe_ledger (close_v1_position ticker fill at_ts action st))"
proof -
  obtain r l where e: "execute_sell ticker fill at_ts action (pe_ledger st) = (r, l)" by force
  with day_executions(2) [OF e] show ?thesis by (simp add: close_v1_position_def note_ignored_ledger split: option.split)
qed

lemma engine_buy_frame: "day_frame (pe_ledger st) (pe_ledger (snd (engine_buy cfg alert st)))"
proof -
  let ?fill = "apply_spread (va_price alert) (pc_spread_bps cfg) BUY_SIDE" and ?pf = "v_portfolio (pe_ledger st)"
  show ?thesis
  proof (cases "calculate_buy (pf_cash ?pf) (pf_allocation ?pf) ?fill")
    case (Some sc)
    obtain r l where e: "execute_buy (va_ticker alert) (fst sc) ?fill (snd sc) (va_at alert) (va_stop alert) (va_target alert)
      (pe_ledger st) = (r, l)" by force
    with Some day_executions(1) [OF e] show ?thesis
      by (cases sc) (simp add: engine_buy_def Let_def note_ignored_ledger split: sum.split option.split)
  qed (simp add: engine_buy_def Let_def note_ignored_ledger)
qed

lemma handle_alert_frame: "day_frame (pe_ledger st) (pe_ledger (snd (handle_alert cfg enabled payload st)))"
proof (cases payload)
  case (Some alert)
  let ?st = "st\<lparr> pe_processed := Suc (pe_processed st) \<rparr>"
  have moves: "day_frame (pe_ledger st) (pe_ledger (snd (engine_buy cfg alert ?st)))"
    "day_frame (pe_ledger st) (pe_ledger (close_v1_position ticker fill at_ts action ?st))" for ticker fill at_ts action
    using engine_buy_frame [of ?st] close_v1_position_frame [of ?st] by simp_all
  show ?thesis
  proof (cases "decide_trade alert (get_position (pe_ledger ?st) (va_ticker alert) \<noteq> None)")
    case decided: (Some d)
    show ?thesis using moves by (cases d) (simp_all add: handle_alert_def Let_def Some decided [simplified] note_ignored_ledger)
  qed (simp add: handle_alert_def Let_def Some note_ignored_ledger)
qed (simp add: handle_alert_def)

lemma flatten_one_frame: "day_frame (pe_ledger st) (pe_ledger (flatten_one cfg now snapshot p st))"
  by (simp add: flatten_one_def close_v1_position_frame split: option.split)

lemma run_eod_flatten_frame: "day_frame (pe_ledger st) (pe_ledger (run_eod_flatten_once cfg now st))"
proof -
  have "day_frame (pe_ledger s) (pe_ledger (fold (flatten_one cfg now snapshot) ps s))" for snapshot ps s
  proof (induction ps arbitrary: s)
    case (Cons p ps)
    have "day_frame (pe_ledger s) (pe_ledger (fold (flatten_one cfg now snapshot) ps (flatten_one cfg now snapshot p s)))"
      by (rule day_frame_trans [OF flatten_one_frame Cons.IH])
    then show ?case by simp
  qed simp
  then show ?thesis by (simp add: run_eod_flatten_once_def)
qed

lemma handle_market_tick_books:
  "longterm_book (pe_ledger (handle_market_tick cfg now payload st)) = longterm_book (pe_ledger st)"
  "v_blocks (pe_ledger (handle_market_tick cfg now payload st)) = v_blocks (pe_ledger st)"
proof -
  have "longterm_book (pe_ledger (close_v1_position ticker fill at_ts action s)) = longterm_book (pe_ledger s)
      \<and> v_blocks (pe_ledger (close_v1_position ticker fill at_ts action s)) = v_blocks (pe_ledger s)" for ticker fill at_ts action s
    using close_v1_position_frame unfolding day_frame_def by blast
  then show "longterm_book (pe_ledger (handle_market_tick cfg now payload st)) = longterm_book (pe_ledger st)"
    "v_blocks (pe_ledger (handle_market_tick cfg now payload st)) = v_blocks (pe_ledger st)"
    by (simp_all add: handle_market_tick_def Let_def split: option.split tick_type.split)
qed

section \<open>The invariant of the lanes\<close>

lemma tags_update: "tags_ok l \<Longrightarrow> is_float price \<Longrightarrow> tags_ok (update_latest_price ticker price at_ts l)"
  by (auto simp: tags_ok_def update_latest_price_def upsert_row_def in_update_rows split: if_splits)

lemma tags_frames:
  "day_frame l l' \<Longrightarrow> tags_ok l' = tags_ok l" "long_frame l l' \<Longrightarrow> tags_ok l' = tags_ok l"
  by (simp_all add: tags_ok_def day_frame_def long_frame_def)

lemma handle_market_tick_tags:
  assumes "tags_ok (pe_ledger st)" "\<And>tick close. payload = Some tick \<Longrightarrow> mt_close tick = Some close \<Longrightarrow> quote_ok close"
  shows "tags_ok (pe_ledger (handle_market_tick cfg now payload st))"
proof -
  have close: "tags_ok (pe_ledger (close_v1_position ticker fill at_ts action s)) = tags_ok (pe_ledger s)" for ticker fill at_ts action s
    by (rule tags_frames(1) [OF close_v1_position_frame])
  show ?thesis using assms
    by (auto simp: handle_market_tick_def Let_def close quote_ok_def intro!: tags_update split: option.split tick_type.split)
qed

lemma handle_lt_tick_tags:
  assumes "tags_ok (le_ledger st)" "\<And>tick close. payload = Some tick \<Longrightarrow> mt_close tick = Some close \<Longrightarrow> quote_ok close"
  shows "tags_ok (le_ledger (handle_lt_tick now payload st))"
  using assms by (auto simp: handle_lt_tick_def quote_ok_def intro!: tags_update split: option.split tick_type.split)

definition lanes_ok :: "lanes \<Rightarrow> bool" where
  "lanes_ok s \<longleftrightarrow> intraday_ok (ln_ledger s) \<and> longterm_ok (ln_ledger s) \<and> tags_ok (ln_ledger s)
     \<and> (case ln_eod s of None \<Rightarrow> True | Some (now, snapshot, ps) \<Rightarrow> tags_ok snapshot)"

lemma on_day_ok:
  assumes "lanes_ok s" "\<And>e. pe_ledger e = ln_ledger s \<Longrightarrow> intraday_ok (pe_ledger (f e)) \<and> tags_ok (pe_ledger (f e))
      \<and> longterm_book (pe_ledger (f e)) = longterm_book (ln_ledger s)"
  shows "lanes_ok (on_day f s)"
  using assms(1) assms(2) [of "(ln_day s)\<lparr> pe_ledger := ln_ledger s \<rparr>"] long_lane.untouched
  by (auto simp: lanes_ok_def on_day_def Let_def)

lemma on_long_ok:
  assumes "lanes_ok s" "\<And>e. le_ledger e = ln_ledger s \<Longrightarrow> longterm_ok (le_ledger (f e)) \<and> tags_ok (le_ledger (f e))
      \<and> intraday_book (le_ledger (f e)) = intraday_book (ln_ledger s)"
  shows "lanes_ok (on_long f s)"
  using assms(1) assms(2) [of "(ln_long s)\<lparr> le_ledger := ln_ledger s \<rparr>"] day_lane.untouched
  by (auto simp: lanes_ok_def on_long_def Let_def)

lemma on_day_framed:
  assumes "lanes_ok s" "\<And>e. pe_ledger e = ln_ledger s \<Longrightarrow> intraday_ok (pe_ledger (f e))"
    and "\<And>e. day_frame (pe_ledger e) (pe_ledger (f e))"
  shows "lanes_ok (on_day f s)"
proof (rule on_day_ok [OF assms(1)])
  fix e :: paper_engine assume "pe_ledger e = ln_ledger s"
  with assms(1) assms(2) [OF this] assms(3) [of e] tags_frames(1) [of "pe_ledger e" "pe_ledger (f e)"]
  show "intraday_ok (pe_ledger (f e)) \<and> tags_ok (pe_ledger (f e)) \<and> longterm_book (pe_ledger (f e)) = longterm_book (ln_ledger s)"
    by (simp add: lanes_ok_def day_frame_def)
qed

lemma on_long_framed:
  assumes "lanes_ok s" "\<And>e. le_ledger e = ln_ledger s \<Longrightarrow> longterm_ok (le_ledger (f e))"
    and "\<And>e. long_frame (le_ledger e) (le_ledger (f e))"
  shows "lanes_ok (on_long f s)"
proof (rule on_long_ok [OF assms(1)])
  fix e :: lt_engine assume "le_ledger e = ln_ledger s"
  with assms(1) assms(2) [OF this] assms(3) [of e] tags_frames(2) [of "le_ledger e" "le_ledger (f e)"]
  show "longterm_ok (le_ledger (f e)) \<and> tags_ok (le_ledger (f e)) \<and> intraday_book (le_ledger (f e)) = intraday_book (ln_ledger s)"
    by (simp add: lanes_ok_def long_frame_def)
qed

lemma on_ledger_ok:
  assumes "lanes_ok s" "intraday_ok (f (ln_ledger s))" "longterm_ok (f (ln_ledger s))" "v_prices (f (ln_ledger s)) = v_prices (ln_ledger s)"
  shows "lanes_ok (on_ledger f s)"
  using assms by (simp add: lanes_ok_def on_ledger_def tags_ok_def)

lemma operations_ok:
  "0 \<le> balance \<Longrightarrow> intraday_ok (reset_portfolio balance amount l)"
  "longterm_ok (reset_portfolio balance amount l) = longterm_ok l"
  "longterm_ok (update_trade_allocation amount l) = longterm_ok l"
  "intraday_ok (reset_long_term_portfolio balance amount l) = intraday_ok l"
  "intraday_ok (update_dca_contribution_amount amount l) = intraday_ok l"
  "v_prices (reset_portfolio balance amount l) = v_prices l" "v_prices (reset_long_term_portfolio balance amount l) = v_prices l"
  "v_prices (update_trade_allocation amount l) = v_prices l" "v_prices (update_dca_contribution_amount amount l) = v_prices l"
  subgoal using reset_portfolio_ok by (simp add: intraday_ok_def) (simp add: reset_portfolio_def)
  subgoal by (rule longterm_frame; simp add: reset_portfolio_def)
  subgoal by (rule longterm_frame; simp add: update_trade_allocation_def)
  subgoal by (rule intraday_frame; simp add: reset_long_term_portfolio_def)
  subgoal by (rule intraday_frame; simp add: update_dca_contribution_amount_def)
  by (simp_all add: reset_portfolio_def reset_long_term_portfolio_def update_trade_allocation_def update_dca_contribution_amount_def)

lemma start_lanes_ok: "intraday_ok l \<Longrightarrow> longterm_ok l \<Longrightarrow> tags_ok l \<Longrightarrow> lanes_ok (start_lanes l)"
  by (simp add: lanes_ok_def start_lanes_def)

lemma cycle_on_ok:
  assumes "lanes_ok s"
  shows "lanes_ok (cycle_on now snapshot cash p ps s)"
proof -
  have "lanes_ok (on_long (\<lambda>e. snd (dca_one snapshot now p (cash, e))) s)"
    by (rule on_long_framed [OF assms]) (use assms dca_one_ok dca_one_frame [of "(cash, e)" for e] in \<open>simp_all add: lanes_ok_def\<close>)
  then show ?thesis by (simp add: cycle_on_def lanes_ok_def Let_def)
qed

lemma block_lane_tables:
  "paper_record_block sha now account reason ref detail l = Inr (bid, l') \<Longrightarrow> \<exists>t. l' = l\<lparr> v_blocks := t \<rparr>"
  "paper_clear_block sha now bid operator reason evidence allow detail l = Inr (c, l') \<Longrightarrow> \<exists>t. l' = l\<lparr> v_blocks := t \<rparr>"
  by (auto simp: paper_record_block_def paper_clear_block_def elim!: bindR_InrE)

lemma blocks_ok: "lanes_ok s \<Longrightarrow> lanes_ok (s\<lparr> ln_ledger := (ln_ledger s)\<lparr> v_blocks := t \<rparr> \<rparr>)"
  using longterm_frame [of "(ln_ledger s)\<lparr> v_blocks := t \<rparr>" "ln_ledger s"] by (simp add: lanes_ok_def tags_ok_def)

lemma lanes_step_ok:
  assumes "lanes_step sha cfg lcfg s t" "lanes_ok s" "spread_ok (pc_spread_bps cfg)" "spread_ok (lc_spread_bps lcfg)"
  shows "lanes_ok t"
  using assms(1,2)
proof cases
  case (day_alert payload enabled)
  show ?thesis unfolding day_alert(1)
    by (rule on_day_framed [OF assms(2) _ handle_alert_frame])
      (metis assms(2,3) day_alert(2) handle_alert_ok lanes_ok_def prod.collapse)
next
  case (day_tick payload now)
  show ?thesis unfolding day_tick(1)
    by (rule on_day_ok [OF assms(2)])
      (use assms(2,3) day_tick(2) in \<open>simp add: handle_market_tick_ok handle_market_tick_tags handle_market_tick_books lanes_ok_def\<close>)
next
  case (sweep_position now snapshot p ps)
  have "lanes_ok (on_day (flatten_one cfg now snapshot p) s)"
    by (rule on_day_framed [OF assms(2) _ flatten_one_frame])
      (use assms(2,3) sweep_position(2) in \<open>simp add: lanes_ok_def flatten_one_ok\<close>)
  then show ?thesis using assms(2) sweep_position by (simp add: lanes_ok_def)
next
  case (long_alert payload enabled)
  show ?thesis unfolding long_alert(1)
    by (rule on_long_framed [OF assms(2) _ handle_lt_alert_frame])
      (metis assms(2,4) long_alert(2) handle_lt_alert_ok lanes_ok_def prod.collapse quote_fill)
next
  case (long_tick payload now)
  show ?thesis unfolding long_tick(1)
    by (rule on_long_ok [OF assms(2)])
      (use assms(2) long_tick(2) in \<open>simp add: handle_lt_tick_tags handle_lt_tick_books lanes_ok_def\<close>)
next
  case (cycle_begins now)
  have "lanes_ok (on_long (stamp_dca now) s)"
    by (rule on_long_framed [OF assms(2)]) (use assms(2) in \<open>simp_all add: lanes_ok_def stamp_dca_def\<close>)
  then show ?thesis by (simp add: cycle_begins begin_cycle_def Let_def lanes_ok_def)
next
  case (reset_day balance amount)
  show ?thesis unfolding reset_day(1) by (rule on_ledger_ok [OF assms(2)]) (use assms(2) reset_day(2) operations_ok in \<open>simp_all add: lanes_ok_def\<close>)
next
  case (reset_long balance amount)
  show ?thesis unfolding reset_long(1)
    by (rule on_ledger_ok [OF assms(2)]) (use assms(2) reset_long(2,3) operations_ok reset_longterm_ok in \<open>simp_all add: lanes_ok_def\<close>)
next
  case (allocate amount)
  show ?thesis unfolding allocate by (rule on_ledger_ok [OF assms(2)]) (use assms(2) operations_ok in \<open>simp_all add: lanes_ok_def\<close>)
next
  case (contribute amount)
  show ?thesis unfolding contribute by (rule on_ledger_ok [OF assms(2)]) (use assms(2) operations_ok in \<open>simp_all add: lanes_ok_def\<close>)
next
  case (block_lane now account reason ref detail bid l)
  with assms(2) block_lane_tables(1) [OF block_lane(2)] blocks_ok show ?thesis by auto
next
  case (clear_lane now bid operator reason evidence allow detail c l)
  with assms(2) block_lane_tables(2) [OF clear_lane(2)] blocks_ok show ?thesis by auto
next
  case (cycle_position now snapshot cash p ps)
  show ?thesis unfolding cycle_position(1) by (rule cycle_on_ok [OF assms(2)])
next
  case restart_lanes
  show ?thesis unfolding restart_lanes by (rule start_lanes_ok) (use assms(2) in \<open>simp_all add: lanes_ok_def\<close>)
qed (use assms(2) in \<open>simp_all add: begin_sweep_def lanes_ok_def\<close>)

lemma lanes_reachable_ok:
  assumes "lanes_reachable sha cfg lcfg s" "spread_ok (pc_spread_bps cfg)" "spread_ok (lc_spread_bps lcfg)"
  shows "lanes_ok s"
  using assms(1)
proof induction
  case (start balance lt_balance allocation dca)
  then show ?case using fresh_paper_ok fresh_longterm_ok
    by (auto intro!: start_lanes_ok simp: intraday_ok_def) (simp_all add: fresh_paper_def tags_ok_def)
next
  case (step s t)
  with lanes_step_ok assms(2,3) show ?case by blast
qed

section \<open>What the handlers record\<close>

definition sold_for :: "v1_action \<Rightarrow> v1_trade \<Rightarrow> bool" where
  "sold_for action t \<longleftrightarrow> vt_order t = SELL_ORDER \<and> vt_exit_reason t = Some action"

lemma close_v1_position_trades:
  obtains new where "v_trades (pe_ledger (close_v1_position ticker fill at_ts action st)) = v_trades (pe_ledger st) @ new"
    "map vt_exit_reason new = (if get_position (pe_ledger st) ticker = None then [] else [Some action])" "list_all (sold_for action) new"
proof -
  obtain r l where e: "execute_sell ticker fill at_ts action (pe_ledger st) = (r, l)" by force
  show thesis
  proof (cases rule: execute_sellE [OF e])
    case 1
    with e that [of "[]"] show thesis by (simp add: close_v1_position_def get_position_def row_by_None)
  next
    case (2 p t usd pct)
    have "upper ticker \<in> vp_ticker ` set (v_positions (pe_ledger st))" using 2(2,3) by (metis image_eqI)
    then have "get_position (pe_ledger st) ticker \<noteq> None" by (simp only: get_position_def row_by_None) simp
    moreover have "v_trades (pe_ledger (close_v1_position ticker fill at_ts action st)) = v_trades (pe_ledger st) @ [t]"
      by (simp add: close_v1_position_def e 2(1)) (simp add: 2(13))
    ultimately show thesis using that [of "[t]"] 2(7,11) by (simp add: sold_for_def)
  qed
qed

lemma flatten_one_trades:
  "\<exists>new. v_trades (pe_ledger (flatten_one cfg now snapshot p st)) = v_trades (pe_ledger st) @ new \<and> list_all (sold_for EOD_FLAT_LIQUIDATION) new"
proof (cases "\<exists>price. latest_price snapshot (vp_ticker p) = Some price \<and> \<not> price \<le> 0")
  case True
  then obtain price where price: "latest_price snapshot (vp_ticker p) = Some price" "\<not> price \<le> 0" by blast
  obtain new where "v_trades (pe_ledger (close_v1_position (vp_ticker p) (apply_spread price (pc_spread_bps cfg) SELL_SIDE) now EOD_FLAT_LIQUIDATION st))
      = v_trades (pe_ledger st) @ new" "list_all (sold_for EOD_FLAT_LIQUIDATION) new"
    by (rule close_v1_position_trades)
  then show ?thesis using price by (intro exI [of _ new]) (simp add: flatten_one_def)
next
  case False
  then have "flatten_one cfg now snapshot p st = st" by (auto simp: flatten_one_def split: option.split)
  then show ?thesis by simp
qed

lemma flatten_trades:
  "\<exists>new. v_trades (pe_ledger (fold (flatten_one cfg now snapshot) ps st)) = v_trades (pe_ledger st) @ new
     \<and> list_all (sold_for EOD_FLAT_LIQUIDATION) new"
proof (induction ps arbitrary: st)
  case (Cons p ps)
  obtain one where one: "v_trades (pe_ledger (flatten_one cfg now snapshot p st)) = v_trades (pe_ledger st) @ one"
    "list_all (sold_for EOD_FLAT_LIQUIDATION) one" using flatten_one_trades by blast
  obtain rest where "v_trades (pe_ledger (fold (flatten_one cfg now snapshot) ps (flatten_one cfg now snapshot p st)))
      = v_trades (pe_ledger (flatten_one cfg now snapshot p st)) @ rest" "list_all (sold_for EOD_FLAT_LIQUIDATION) rest"
    using Cons.IH by blast
  with one show ?case by (intro exI [of _ "one @ rest"]) simp
qed simp

lemma engine_buy_blocked:
  assumes "paper_blocked (pe_ledger st) ORIGINAL_INTRADAY = Some br"
  shows "v_trades (pe_ledger (snd (engine_buy cfg alert st))) = v_trades (pe_ledger st)
    \<and> v_positions (pe_ledger (snd (engine_buy cfg alert st))) = v_positions (pe_ledger st)"
  using assms
  by (auto simp: engine_buy_def Let_def execute_buy_def note_ignored_ledger record_ignored_def split: option.split prod.split)

lemma lt_engine_buy_blocked:
  assumes "paper_blocked (le_ledger st) ORIGINAL_LONGTERM = Some br"
  shows "l_trades (le_ledger (snd (lt_engine_buy cfg alert st))) = l_trades (le_ledger st)"
  using assms
  by (auto simp: lt_engine_buy_def Let_def execute_long_term_buy_def record_ignored_def split: option.split prod.split)

lemma dca_one_blocked:
  assumes "paper_blocked (le_ledger st) ORIGINAL_LONGTERM = Some br"
  shows "longterm_book (le_ledger (snd (dca_one snapshot now p (cash, st)))) = longterm_book (le_ledger st)"
  using assms
  by (auto simp: dca_one_def Let_def execute_dca_contribution_def record_ignored_def longterm_book_def split: option.split)

lemma dca_fold_blocked:
  assumes "paper_blocked (le_ledger (snd cst)) ORIGINAL_LONGTERM = Some br"
  shows "longterm_book (le_ledger (snd (fold (dca_one snapshot now) ps cst))) = longterm_book (le_ledger (snd cst))"
  using assms
proof (induction ps arbitrary: cst)
  case (Cons p ps)
  have "paper_blocked (le_ledger (snd (dca_one snapshot now p cst))) ORIGINAL_LONGTERM = Some br"
    using Cons.prems dca_one_frame [of cst snapshot now p] by (simp add: paper_blocked_def long_frame_def)
  from Cons.IH [OF this] show ?case using Cons.prems dca_one_blocked [of "snd cst" br snapshot now p "fst cst"] by simp
qed simp

text \<open>A buying alert and a selling one, once the ticker is enabled.\<close>

lemma handle_alert_sells:
  assumes "sell_action (va_action alert)" "upper (va_ticker alert) \<in> enabled" "get_position (pe_ledger st) (va_ticker alert) \<noteq> None"
  shows "handle_alert cfg enabled (Some alert) st
    = (None, close_v1_position (va_ticker alert) (apply_spread (va_price alert) (pc_spread_bps cfg) SELL_SIDE) (va_at alert)
        (va_action alert) (st\<lparr> pe_processed := Suc (pe_processed st) \<rparr>))"
  using assms by (auto simp: handle_alert_def Let_def decide_trade_def sell_action_def)

lemma close_v1_position_flat: "get_position (pe_ledger (close_v1_position ticker fill at_ts action st)) ticker = None"
proof -
  obtain r l where e: "execute_sell ticker fill at_ts action (pe_ledger st) = (r, l)" by force
  show ?thesis
  proof (cases rule: execute_sellE [OF e])
    case 1
    with e show ?thesis by (simp add: close_v1_position_def get_position_def row_by_None)
  next
    case (2 p t usd pct)
    have "get_position l ticker = None" by (auto simp: 2(13) get_position_def row_by_None)
    then show ?thesis by (simp add: close_v1_position_def e 2(1))
  qed
qed

lemma handle_alert_blocked:
  assumes "paper_blocked (pe_ledger st) ORIGINAL_INTRADAY = Some br"
  shows "\<exists>new. v_trades (pe_ledger (snd (handle_alert cfg enabled payload st))) = v_trades (pe_ledger st) @ new
    \<and> list_all (\<lambda>t. vt_order t = SELL_ORDER) new"
proof (cases payload)
  case (Some alert)
  let ?st = "st\<lparr> pe_processed := Suc (pe_processed st) \<rparr>"
  have buy: "v_trades (pe_ledger (snd (engine_buy cfg alert ?st))) = v_trades (pe_ledger st)"
    using engine_buy_blocked [of ?st] assms by simp
  have sell: "\<exists>new. v_trades (pe_ledger (close_v1_position ticker fill at_ts action ?st)) = v_trades (pe_ledger st) @ new
      \<and> list_all (\<lambda>t. vt_order t = SELL_ORDER) new" for ticker fill at_ts action
  proof -
    obtain new where "v_trades (pe_ledger (close_v1_position ticker fill at_ts action ?st)) = v_trades (pe_ledger ?st) @ new"
      "list_all (sold_for action) new" by (rule close_v1_position_trades)
    then show ?thesis by (intro exI [of _ new]) (auto simp: sold_for_def list_all_iff)
  qed
  show ?thesis
  proof (cases "decide_trade alert (get_position (pe_ledger ?st) (va_ticker alert) \<noteq> None)")
    case decided: (Some d)
    show ?thesis using buy sell by (cases d) (simp_all add: handle_alert_def Let_def Some decided [simplified])
  qed (simp add: handle_alert_def Let_def Some)
qed (simp add: handle_alert_def)

lemma handle_lt_alert_blocked:
  assumes "paper_blocked (le_ledger st) ORIGINAL_LONGTERM = Some br"
  shows "\<exists>new. l_trades (le_ledger (snd (handle_lt_alert cfg enabled payload st))) = l_trades (le_ledger st) @ new
    \<and> list_all (\<lambda>t. lt_order t = LT_SELL_ORDER) new"
proof (cases payload)
  case (Some alert)
  let ?st = "st\<lparr> le_processed := Suc (le_processed st) \<rparr>"
  have buy: "l_trades (le_ledger (snd (lt_engine_buy cfg alert ?st))) = l_trades (le_ledger st)"
    using lt_engine_buy_blocked [of ?st] assms by simp
  have sell: "\<exists>new. l_trades (le_ledger (lt_engine_sell cfg alert trim ?st)) = l_trades (le_ledger st) @ new
      \<and> list_all (\<lambda>t. lt_order t = LT_SELL_ORDER) new" for trim
  proof -
    obtain r l where e: "execute_long_term_sell (la_ticker alert) trim (apply_spread (la_price alert) (lc_spread_bps cfg) SELL_SIDE)
      (la_at alert) (la_action alert) (le_ledger st) = (r, l)" by force
    show ?thesis
    proof (cases rule: execute_long_term_sellE [OF e])
      case 1
      then show ?thesis using e by (simp add: lt_engine_sell_def Let_def record_ignored_def)
    next
      case (2 p t sold usd pct remaining)
      have "l_trades l = l_trades (le_ledger st) @ [t]" by (simp add: 2(15) lt_append_def)
      then show ?thesis using 2(1,8) by (simp add: lt_engine_sell_def Let_def e)
    qed
  qed
  show ?thesis
  proof (cases "decide_long_term_trade alert (get_long_term_position (le_ledger ?st) (la_ticker alert) \<noteq> None) (lc_trim cfg)")
    case decided: (Some d)
    show ?thesis using buy sell by (cases d) (simp_all add: handle_lt_alert_def Let_def Some decided [simplified] record_ignored_def)
  qed (simp add: handle_lt_alert_def Let_def Some)
qed (simp add: handle_lt_alert_def)

lemma run_dca_cycle_blocked:
  assumes "paper_blocked (le_ledger st) ORIGINAL_LONGTERM = Some br"
  shows "longterm_book (le_ledger (run_dca_cycle_once now st)) = longterm_book (set_last_dca_at now (le_ledger st))"
proof -
  have "paper_blocked (le_ledger (stamp_dca now st)) ORIGINAL_LONGTERM = Some br"
    using assms by (simp add: paper_blocked_def stamp_dca_def set_last_dca_at_def)
  with dca_fold_blocked [of "(c, stamp_dca now st)" for c] show ?thesis
    by (simp add: run_dca_cycle_once_def Let_def) (simp add: stamp_dca_def)
qed

section \<open>Theorems\<close>

text \<open>
  C27. Whatever the two lanes and the dashboard do, in any order and with a sweep or a contribution cycle under
  way, each book is what its own trade log says: replaying the log gives the open positions, and cash, realized
  profit and the win and loss counts are its running totals.
\<close>

theorem paper_books_follow_their_logs:
  assumes "lanes_reachable sha cfg lcfg s" "spread_ok (pc_spread_bps cfg)" "spread_ok (lc_spread_bps lcfg)"
  shows "book_follows (ln_ledger s) \<and> lt_book_follows (ln_ledger s)"
  using lanes_reachable_ok [OF assms] by (simp add: lanes_ok_def intraday_ok_def longterm_ok_def)

text \<open>
  C28. Intraday cash is never negative.  Long-term cash never falls below twice the execution check's tolerance,
  even when an alert spends it between two contributions of a cycle.
\<close>

theorem paper_cash_is_bounded:
  assumes "lanes_reachable sha cfg lcfg s" "spread_ok (pc_spread_bps cfg)" "spread_ok (lc_spread_bps lcfg)"
  shows "0 \<le> pf_cash (v_portfolio (ln_ledger s)) \<and> - (2 * fl (1 / 1000000)) \<le> lf_cash (l_portfolio (ln_ledger s))"
  using lanes_reachable_ok [OF assms] by (simp add: lanes_ok_def intraday_ok_def longterm_ok_def cash_tolerance_def)

text \<open>
  In every reachable state an alert is handled without an exception: neither lane tries to open a position
  its ticker already has, which the store would answer with an IntegrityError after taking the cash.
\<close>

theorem paper_alerts_never_raise:
  assumes "lanes_reachable sha cfg lcfg s" "spread_ok (pc_spread_bps cfg)" "spread_ok (lc_spread_bps lcfg)"
    and "quote_ok (va_price alert)" "quote_ok (la_price lalert)" "pe_ledger e = ln_ledger s" "le_ledger f = ln_ledger s"
  shows "fst (handle_alert cfg enabled (Some alert) e) = None \<and> fst (handle_lt_alert lcfg enabled (Some lalert) f) = None"
proof -
  have ok: "intraday_ok (pe_ledger e)" "longterm_ok (le_ledger f)"
    using lanes_reachable_ok [OF assms(1-3)] assms(6,7) by (simp_all add: lanes_ok_def)
  show ?thesis
    using handle_alert_ok [OF ok(1) assms(2) _ surjective_pairing, of "Some alert" enabled]
      handle_lt_alert_ok [OF ok(2) surjective_pairing, of "Some lalert" lcfg enabled] assms(3-5) quote_fill by simp
qed

text \<open>
  The lanes are isolated.  No intraday alert, price tick or end-of-day sweep changes the long-term book, and
  no long-term alert, price tick or contribution cycle changes the intraday book; none of them touches an
  account block.
\<close>

theorem paper_lanes_are_isolated:
  "longterm_book (pe_ledger (snd (handle_alert cfg enabled payload e))) = longterm_book (pe_ledger e)
   \<and> longterm_book (pe_ledger (handle_market_tick cfg now tick e)) = longterm_book (pe_ledger e)
   \<and> longterm_book (pe_ledger (run_eod_flatten_once cfg now e)) = longterm_book (pe_ledger e)
   \<and> intraday_book (le_ledger (snd (handle_lt_alert lcfg enabled lpayload f))) = intraday_book (le_ledger f)
   \<and> intraday_book (le_ledger (handle_lt_tick now tick f)) = intraday_book (le_ledger f)
   \<and> intraday_book (le_ledger (run_dca_cycle_once now f)) = intraday_book (le_ledger f)
   \<and> v_blocks (pe_ledger (snd (handle_alert cfg enabled payload e))) = v_blocks (pe_ledger e)
   \<and> v_blocks (pe_ledger (run_eod_flatten_once cfg now e)) = v_blocks (pe_ledger e)
   \<and> v_blocks (le_ledger (snd (handle_lt_alert lcfg enabled lpayload f))) = v_blocks (le_ledger f)
   \<and> v_blocks (le_ledger (run_dca_cycle_once now f)) = v_blocks (le_ledger f)"
  using handle_alert_frame [of e cfg enabled payload] run_eod_flatten_frame [of e cfg now]
    handle_lt_alert_frame [of f lcfg enabled lpayload] run_dca_cycle_frame [of f now]
  by (simp add: day_frame_def long_frame_def handle_market_tick_books handle_lt_tick_books)

text \<open>
  C29. The end-of-day sweep closes exactly the intraday positions that have a positive last price and keeps the
  others as they are; everything it logs is an end-of-day liquidation.
\<close>

theorem eod_sweep_closes_every_quoted_position:
  assumes "lanes_reachable sha cfg lcfg s" "spread_ok (pc_spread_bps cfg)" "spread_ok (lc_spread_bps lcfg)" "pe_ledger e = ln_ledger s"
  shows "v_positions (pe_ledger (run_eod_flatten_once cfg now e))
      = filter (\<lambda>p. \<not> quoted (ln_ledger s) (vp_ticker p)) (v_positions (ln_ledger s))
    \<and> (\<exists>new. v_trades (pe_ledger (run_eod_flatten_once cfg now e)) = v_trades (ln_ledger s) @ new
        \<and> list_all (sold_for EOD_FLAT_LIQUIDATION) new)"
proof -
  have w: "book_well_formed (ln_ledger s)" using lanes_reachable_ok [OF assms(1-3)] by (simp add: lanes_ok_def intraday_ok_def)
  have d: "distinct (map vp_ticker (get_open_positions (ln_ledger s)))"
    using w by (simp add: get_open_positions_def book_well_formed_def distinct_map)
  have rows: "\<forall>p \<in> set (get_open_positions (ln_ledger s)). p \<in> set (v_positions (pe_ledger e)) \<and> upper (vp_ticker p) = vp_ticker p"
    using w assms(4) by (simp add: get_open_positions_def book_well_formed_def)
  have "v_positions (pe_ledger (run_eod_flatten_once cfg now e))
      = filter (\<lambda>p. \<not> quoted (ln_ledger s) (vp_ticker p)) (v_positions (ln_ledger s))"
    using flatten_all [OF d rows, of cfg now "ln_ledger s"] assms(4)
    by (simp add: run_eod_flatten_once_def) (rule filter_cong, auto simp: get_open_positions_def)
  then show ?thesis using flatten_trades [of cfg now "ln_ledger s" "get_open_positions (ln_ledger s)" e] assms(4)
    by (simp add: run_eod_flatten_once_def)
qed

text \<open>
  A blocked account only exits.  While the intraday account is blocked no alert opens a position or logs
  anything but a sale, and a bearish alert still closes its position; while the long-term account is blocked no
  alert logs a purchase and a contribution cycle changes nothing but its clock.
\<close>

theorem blocked_account_only_exits:
  assumes "paper_blocked (pe_ledger e) ORIGINAL_INTRADAY = Some br" "paper_blocked (le_ledger f) ORIGINAL_LONGTERM = Some lbr"
    and "sell_action (va_action alert)" "upper (va_ticker alert) \<in> enabled"
  shows "(\<exists>new. v_trades (pe_ledger (snd (handle_alert cfg enabled payload e))) = v_trades (pe_ledger e) @ new
        \<and> list_all (\<lambda>t. vt_order t = SELL_ORDER) new)
    \<and> get_position (pe_ledger (snd (handle_alert cfg enabled (Some alert) e))) (va_ticker alert) = None
    \<and> (\<exists>new. l_trades (le_ledger (snd (handle_lt_alert lcfg enabled lpayload f))) = l_trades (le_ledger f) @ new
        \<and> list_all (\<lambda>t. lt_order t = LT_SELL_ORDER) new)
    \<and> longterm_book (le_ledger (run_dca_cycle_once now f)) = longterm_book (set_last_dca_at now (le_ledger f))"
proof -
  have "get_position (pe_ledger (snd (handle_alert cfg enabled (Some alert) e))) (va_ticker alert) = None"
  proof (cases "get_position (pe_ledger e) (va_ticker alert)")
    case None
    then show ?thesis using assms(3,4)
      by (auto simp: handle_alert_def Let_def decide_trade_def sell_action_def get_position_def)
  next
    case (Some p)
    then show ?thesis using handle_alert_sells [OF assms(3,4), of e cfg] close_v1_position_flat by simp
  qed
  then show ?thesis
    using handle_alert_blocked [OF assms(1)] handle_lt_alert_blocked [OF assms(2)] run_dca_cycle_blocked [OF assms(2)] by blast
qed

text \<open>
  A bar closes a bracketed intraday position exactly when its close has reached the stop or the target, for
  that reason, and leaves the position and the trade log alone otherwise.
\<close>

theorem bar_exits_at_the_bracket:
  assumes "lanes_reachable sha cfg lcfg s" "spread_ok (pc_spread_bps cfg)" "spread_ok (lc_spread_bps lcfg)" "pe_ledger e = ln_ledger s"
    and "get_position (ln_ledger s) (mt_symbol tick) = Some p" "vp_stop p = Some stop" "vp_target p = Some target"
    and "mt_type tick = BAR_TICK" "mt_close tick = Some close"
  shows "let l' = pe_ledger (handle_market_tick cfg now (Some tick) e) in
    get_position l' (mt_symbol tick) = (if close \<le> stop \<or> target \<le> close then None else Some p)
    \<and> (\<exists>new. v_trades l' = v_trades (ln_ledger s) @ new
        \<and> map vt_exit_reason new = (if close \<le> stop then [Some STOP_LOSS_EXIT] else if target \<le> close then [Some TAKE_PROFIT_EXIT] else []))"
proof -
  let ?l = "update_latest_price (mt_symbol tick) close now (pe_ledger e)" and ?st = "e\<lparr> pe_ledger := update_latest_price (mt_symbol tick) close now (pe_ledger e) \<rparr>"
  have p: "p \<in> set (v_positions (ln_ledger s))" using assms(5) by (auto simp: get_position_def dest: row_by_Some)
  have order: "0 < vp_entry p" "stop < vp_entry p" "vp_entry p < target"
    using lanes_reachable_ok [OF assms(1-3)] p assms(6,7)
    by (auto simp: lanes_ok_def intraday_ok_def book_well_formed_def brackets_hold_def fill_geometry_is_valid_def)
  have same: "get_position ?l = get_position (ln_ledger s)" "v_trades ?l = v_trades (ln_ledger s)"
    using assms(4) by (simp_all add: fun_eq_iff get_position_def update_latest_price_def)
  have exits: "check_stop_take (vp_entry p) close (pc_stop_loss cfg) (pc_take_profit cfg) (Some stop) (Some target)
      = (if close \<le> stop then Some STOP_LOSS else if target \<le> close then Some TAKE_PROFIT else None)"
    using order by (simp add: check_stop_take_def)
  show ?thesis
  proof (cases "close \<le> stop \<or> target \<le> close")
    case True
    let ?a = "if close \<le> stop then STOP_LOSS_EXIT else TAKE_PROFIT_EXIT"
    let ?c = "close_v1_position (mt_symbol tick) (apply_spread close (pc_spread_bps cfg) SELL_SIDE) now ?a ?st"
    have "handle_market_tick cfg now (Some tick) e = ?c"
      using True assms(5-9) by (simp add: handle_market_tick_def Let_def same exits trigger_action_def) blast
    moreover obtain new where "v_trades (pe_ledger ?c) = v_trades (pe_ledger ?st) @ new"
      "map vt_exit_reason new = (if get_position (pe_ledger ?st) (mt_symbol tick) = None then [] else [Some ?a])"
      by (rule close_v1_position_trades)
    ultimately show ?thesis using True close_v1_position_flat assms(5) by (auto simp: Let_def same intro!: exI [of _ new])
  next
    case False
    then have "handle_market_tick cfg now (Some tick) e = ?st"
      using assms(5-9) by (simp add: handle_market_tick_def Let_def same exits)
    then show ?thesis using False assms(5) by (simp add: Let_def same)
  qed
qed

text \<open>
  A contribution cycle restarts its clock whatever it finds.  From a reachable ledger whose long-term cash is not negative
  it only contributes: the log grows by contributions of the configured amount, at most one for each position
  open when it started and each at that ticker's positive last price; the tickers held and the realized results stay as
  they were, and cash is still not negative.
\<close>

theorem contribution_cycle_effect:
  assumes "lanes_reachable sha cfg lcfg s" "spread_ok (pc_spread_bps cfg)" "spread_ok (lc_spread_bps lcfg)" "le_ledger f = ln_ledger s"
    and "0 \<le> lf_cash (l_portfolio (ln_ledger s))"
  shows "let l = ln_ledger s; l' = le_ledger (run_dca_cycle_once now f) in
    us_until_next_dca interval later (lf_last_dca (l_portfolio l')) = max 0 (interval - (later - now))
    \<and> lf_rest (l_portfolio l') = lf_rest (l_portfolio (set_last_dca_at now l)) \<and> 0 \<le> lf_cash (l_portfolio l')
    \<and> map lpos_ticker (l_positions l') = map lpos_ticker (l_positions l)
    \<and> (\<exists>new. l_trades l' = l_trades l @ new \<and> list_all (contributed l l now) new
        \<and> subseq (map lt_ticker new) (map lpos_ticker (get_open_long_term_positions l)))"
proof -
  let ?l = "ln_ledger s" let ?f = "stamp_dca now f" let ?l1 = "set_last_dca_at now ?l"
  have f: "le_ledger ?f = ?l1" by (simp add: stamp_dca_def assms(4))
  have tables: "l_positions ?l1 = l_positions ?l" "l_trades ?l1 = l_trades ?l" "lf_cash (l_portfolio ?l1) = lf_cash (l_portfolio ?l)"
    "contributed ?l1 ?l1 now = contributed ?l ?l now" "get_open_long_term_positions ?l1 = get_open_long_term_positions ?l"
    by (simp_all add: set_last_dca_at_def contributed_def fun_eq_iff latest_price_def get_open_long_term_positions_def)
  have start: "cycle_effect ?l1 ?l1 now [] (le_ledger ?f)" using assms(5) by (simp add: cycle_effect_def f tables)
  have keys: "\<forall>p \<in> set (get_open_long_term_positions ?l1). upper (lpos_ticker p) = lpos_ticker p"
    using lanes_reachable_ok [OF assms(1-3)] by (simp add: tables get_open_long_term_positions_def lanes_ok_def longterm_ok_def lt_holds_def)
  obtain new where new: "cycle_effect ?l1 ?l1 now ([] @ new) (le_ledger (snd (fold (dca_one ?l1 now) (get_open_long_term_positions ?l1)
      (lf_cash (l_portfolio (le_ledger ?f)), ?f))))" "subseq (map lt_ticker new) (map lpos_ticker (get_open_long_term_positions ?l1))"
    by (rule dca_fold_effect [OF start keys])
  then have "cycle_effect ?l1 ?l1 now new (le_ledger (run_dca_cycle_once now f))"
    by (simp add: run_dca_cycle_once_def Let_def f)
  then show ?thesis using new(2)
    by (auto simp: Let_def cycle_effect_def tables lf_rest_def us_until_next_dca_def) (simp_all add: set_last_dca_at_def)
qed

text \<open>
  A rebalancing alert for an enabled ticker that is held only reduces it: an under-performer is sold whole; a profit
  is trimmed, at an unchanged average cost and never to more shares, or sold whole when next to nothing is
  left.  Every other position stays as it is.
\<close>

theorem rebalance_only_reduces:
  assumes "lanes_reachable sha cfg lcfg s" "spread_ok (pc_spread_bps cfg)" "spread_ok (lc_spread_bps lcfg)" "le_ledger f = ln_ledger s"
    and "get_long_term_position (ln_ledger s) (la_ticker a) = Some p" "upper (la_ticker a) \<in> enabled"
    and "la_action a = (if whole then UNDER_PERFORM_REBALANCE else TAKE_PROFIT_REBALANCE)"
  shows "let l' = le_ledger (snd (handle_lt_alert lcfg enabled (Some a) f)) in
    (case get_long_term_position l' (la_ticker a) of None \<Rightarrow> True
      | Some q \<Rightarrow> \<not> whole \<and> lpos_avg q = lpos_avg p \<and> lpos_shares q \<le> lpos_shares p)
    \<and> filter (\<lambda>q. lpos_ticker q \<noteq> upper (la_ticker a)) (l_positions l')
        = filter (\<lambda>q. lpos_ticker q \<noteq> upper (la_ticker a)) (l_positions (ln_ledger s))"
proof -
  let ?k = "upper (la_ticker a)" define trim where "trim = (if whole then 1 else lc_trim lcfg)"
  let ?fill = "apply_spread (la_price a) (lc_spread_bps lcfg) SELL_SIDE" let ?f = "f\<lparr> le_processed := Suc (le_processed f) \<rparr>"
  have p: "row_by lpos_ticker ?k (l_positions (ln_ledger s)) = Some p" using assms(5) by (simp add: get_long_term_position_def)
  have ok: "longterm_ok (ln_ledger s)" using lanes_reachable_ok [OF assms(1-3)] by (simp add: lanes_ok_def)
  then have shares: "is_float (lpos_shares p)" "0 \<le> lpos_shares p" using row_by_Some [OF p] by (auto simp: longterm_ok_def lt_holds_def)
  obtain r l where e: "execute_long_term_sell (la_ticker a) trim ?fill (la_at a) (la_action a) (ln_ledger s) = (r, l)" by force
  have run: "snd (handle_lt_alert lcfg enabled (Some a) f) = lt_engine_sell lcfg a trim ?f"
    using assms(4-7) by (simp add: handle_lt_alert_def decide_long_term_trade_def Let_def trim_def)
  show ?thesis
  proof (cases rule: execute_long_term_sellE [OF e])
    case 1
    then show ?thesis using p row_by_None [of lpos_ticker ?k "l_positions (ln_ledger s)"] by simp
  next
    case (2 q t sold usd pct remaining)
    have q: "q = p" using 2(2) p by simp
    have l: "le_ledger (lt_engine_sell lcfg a trim ?f) = l" by (simp add: lt_engine_sell_def Let_def assms(4) e 2(1))
    have rest: "remaining \<le> lpos_shares p" "whole \<Longrightarrow> remaining = 0"
    proof -
      have "lpos_shares p - sold \<le> lpos_shares p" using sold_bounds(1) [OF shares] by (simp add: 2(3) q)
      then show "remaining \<le> lpos_shares p" using shares(1) f64.rnd_le_fixed by (simp add: 2(4) q is_float_def)
      show "remaining = 0" if whole using that shares(1) by (simp add: 2(3,4) q clamp_fraction_def is_float_def trim_def)
    qed
    have whole: "whole \<Longrightarrow> remaining \<le> fl (1 / 1000000000)" using rest(2) fl_nonneg by simp
    have others: "filter (\<lambda>q. lpos_ticker q \<noteq> ?k) (update_rows (\<lambda>q. lpos_ticker q = ?k) g rows) = filter (\<lambda>q. lpos_ticker q \<noteq> ?k) rows"
      if "\<And>q. lpos_ticker (g q) = lpos_ticker q" for g rows
      using that by (induction rows) (auto simp: update_rows_def)
    have find: "row_by lpos_ticker ?k (filter (\<lambda>q. lpos_ticker q \<noteq> ?k) rows) = None" for rows by (auto simp: row_by_None)
    show ?thesis unfolding run Let_def l
      using whole rest(1) p
      by (auto simp: 2(15) lt_append_def get_long_term_position_def others find row_by_update [where key = lpos_ticker])
  qed
qed

text \<open>
  The end-of-day sweep is scheduled within a day, for the next time the New-York wall clock reads the configured hour and
  minute; it wakes there, off by what the zone's offset changed while it waited.
\<close>

theorem eod_sweep_is_scheduled_at_the_wall_clock:
  assumes "0 \<le> hour" "hour < 24" "0 \<le> minute" "minute < 60"
  shows "let w = us_until_next_eod_flatten wall now hour minute; t = eod_target_wall wall now hour minute; shift = wall (now + w) - wall now - w in
    0 < w \<and> w \<le> day_us \<and> wall now < t \<and> t mod day_us = (hour * 60 + minute) * 60000000 \<and> wall (now + w) = t + shift"
  using eod_wait_bounds [OF assms, of wall now] by (simp add: Let_def us_until_next_eod_flatten_def)

section \<open>The theorems on a concrete day\<close>

definition demo_paper_config :: paper_config where
  "demo_paper_config = \<lparr> pc_stop_loss = fl (1 / 200), pc_take_profit = fl (1 / 100), pc_spread_bps = 5, pc_min_severity = WARNING \<rparr>"

definition demo_lt_config :: lt_config where
  "demo_lt_config = \<lparr> lc_spread_bps = 5, lc_initial_position = 2000, lc_trim = fl (33 / 100), lc_interval = 2592000000000 \<rparr>"

definition demo_alert :: "v1_action \<Rightarrow> money \<Rightarrow> v1_alert" where
  "demo_alert action price = \<lparr> va_ticker = ''aapl'', va_action = action, va_severity = WARNING, va_price = price, va_stop = Some 95,
     va_target = Some 110, va_at = 1000 \<rparr>"

definition demo_lt_alert :: "v1_action \<Rightarrow> lt_alert" where
  "demo_lt_alert action = \<lparr> la_ticker = ''MSFT'', la_action = action, la_price = 400, la_at = 2000 \<rparr>"

definition demo_tick :: "symbol \<Rightarrow> money \<Rightarrow> market_tick" where
  "demo_tick ticker close = \<lparr> mt_type = BAR_TICK, mt_symbol = ticker, mt_close = Some close \<rparr>"

definition demo_tickers :: "symbol set" where
  "demo_tickers = set [''AAPL'', ''MSFT'']"

definition demo_lanes :: lanes where
  "demo_lanes = on_long (handle_lt_tick 4000 (Some (demo_tick ''MSFT'' 410)))
     (on_day (handle_market_tick demo_paper_config 3000 (Some (demo_tick ''AAPL'' 101)))
     (on_long (\<lambda>e. snd (handle_lt_alert demo_lt_config demo_tickers (Some (demo_lt_alert HIGH_CONVICTION_BUY)) e))
     (on_day (\<lambda>e. snd (handle_alert demo_paper_config demo_tickers (Some (demo_alert CONFIRMED_BULLISH 100)) e))
     (start_lanes (fresh_paper 10000 2500 20000 500)))))"

definition demo_day :: paper_engine where
  "demo_day = (ln_day demo_lanes)\<lparr> pe_ledger := ln_ledger demo_lanes \<rparr>"

definition demo_long :: lt_engine where
  "demo_long = (ln_long demo_lanes)\<lparr> le_ledger := ln_ledger demo_lanes \<rparr>"

definition demo_blocked :: paper_ledger where
  "demo_blocked = foldl (\<lambda>l account. case paper_record_block (\<lambda>x. x) 5000 account ''LEDGER_MISMATCH'' ''AAPL'' ''unproved'' l of
       Inl _ \<Rightarrow> l | Inr (_, l') \<Rightarrow> l') (ln_ledger demo_lanes) [ORIGINAL_INTRADAY, ORIGINAL_LONGTERM]"

lemma demo_quotes: "quote_ok 100" "quote_ok 101" "quote_ok 400" "quote_ok 410" "quote_ok 94" "is_float 20000"
  "spread_ok (pc_spread_bps demo_paper_config)" "spread_ok (lc_spread_bps demo_lt_config)"
  by code_simp+

lemma demo_lanes_reachable: "lanes_reachable (\<lambda>x. x) demo_paper_config demo_lt_config demo_lanes"
proof -
  let ?R = "lanes_reachable (\<lambda>x. x) demo_paper_config demo_lt_config" let ?s0 = "start_lanes (fresh_paper 10000 2500 20000 500)"
  let ?s1 = "on_day (\<lambda>e. snd (handle_alert demo_paper_config demo_tickers (Some (demo_alert CONFIRMED_BULLISH 100)) e)) ?s0"
  let ?s2 = "on_long (\<lambda>e. snd (handle_lt_alert demo_lt_config demo_tickers (Some (demo_lt_alert HIGH_CONVICTION_BUY)) e)) ?s1"
  let ?s3 = "on_day (handle_market_tick demo_paper_config 3000 (Some (demo_tick ''AAPL'' 101))) ?s2"
  have "?R ?s0" by (rule lanes_reachable.start) (simp_all add: demo_quotes)
  then have "?R ?s1" by (rule lanes_reachable.step) (rule lanes_step.day_alert, auto simp: demo_quotes demo_alert_def)
  then have "?R ?s2" by (rule lanes_reachable.step) (rule lanes_step.long_alert, auto simp: demo_quotes demo_lt_alert_def)
  then have "?R ?s3" by (rule lanes_reachable.step) (rule lanes_step.day_tick, auto simp: demo_quotes demo_tick_def)
  then show ?thesis unfolding demo_lanes_def
    by (rule lanes_reachable.step) (rule lanes_step.long_tick, auto simp: demo_quotes demo_tick_def)
qed

lemma demo_book:
  "map vp_ticker (v_positions (ln_ledger demo_lanes)) = [''AAPL'']" "map lpos_ticker (l_positions (ln_ledger demo_lanes)) = [''MSFT'']"
  "0 \<le> lf_cash (l_portfolio (ln_ledger demo_lanes))" "quoted (ln_ledger demo_lanes) ''AAPL''"
  "(case get_position (ln_ledger demo_lanes) ''AAPL'' of None \<Rightarrow> False | Some p \<Rightarrow> vp_stop p = Some 95 \<and> vp_target p = Some 110)"
  by code_simp+

lemma demo_blocked_reasons: "paper_blocked demo_blocked ORIGINAL_INTRADAY \<noteq> None" "paper_blocked demo_blocked ORIGINAL_LONGTERM \<noteq> None"
  by code_simp+

lemmas demo_run_facts = demo_lanes_reachable demo_quotes(7,8)

theorem paper_books_follow_their_logs_witness:
  "book_follows (ln_ledger demo_lanes) \<and> lt_book_follows (ln_ledger demo_lanes) \<and> map vp_ticker (v_positions (ln_ledger demo_lanes)) = [''AAPL'']"
  using paper_books_follow_their_logs [OF demo_run_facts] demo_book(1) by blast

theorem paper_cash_is_bounded_witness:
  "0 \<le> pf_cash (v_portfolio (ln_ledger demo_lanes)) \<and> - (2 * fl (1 / 1000000)) \<le> lf_cash (l_portfolio (ln_ledger demo_lanes))"
  by (rule paper_cash_is_bounded [OF demo_run_facts])

theorem paper_alerts_never_raise_witness:
  "fst (handle_alert demo_paper_config demo_tickers (Some (demo_alert CONFIRMED_BULLISH 100)) demo_day) = None
   \<and> fst (handle_lt_alert demo_lt_config demo_tickers (Some (demo_lt_alert HIGH_CONVICTION_BUY)) demo_long) = None"
  by (rule paper_alerts_never_raise [OF demo_run_facts]) (simp_all add: demo_quotes demo_alert_def demo_lt_alert_def demo_day_def demo_long_def)

theorem eod_sweep_closes_every_quoted_position_witness:
  "v_positions (pe_ledger (run_eod_flatten_once demo_paper_config 6000 demo_day)) = []"
proof -
  have "vp_ticker ` set (v_positions (ln_ledger demo_lanes)) = {''AAPL''}"
    by (simp only: list.set_map [symmetric] demo_book(1)) simp
  then have "\<forall>p \<in> set (v_positions (ln_ledger demo_lanes)). vp_ticker p = ''AAPL''" by blast
  then have none: "filter (\<lambda>p. \<not> quoted (ln_ledger demo_lanes) (vp_ticker p)) (v_positions (ln_ledger demo_lanes)) = []"
    using demo_book(4) by (simp only: filter_empty_conv) simp
  have "pe_ledger demo_day = ln_ledger demo_lanes" by (simp add: demo_day_def)
  from eod_sweep_closes_every_quoted_position [OF demo_run_facts this, THEN conjunct1] show ?thesis unfolding none .
qed

theorem blocked_account_only_exits_witness:
  "get_position (pe_ledger (snd (handle_alert demo_paper_config demo_tickers (Some (demo_alert CONTRADICTED 94))
      (demo_day\<lparr> pe_ledger := demo_blocked \<rparr>)))) ''aapl'' = None
   \<and> longterm_book (le_ledger (run_dca_cycle_once 6000 (demo_long\<lparr> le_ledger := demo_blocked \<rparr>)))
      = longterm_book (set_last_dca_at 6000 demo_blocked)"
proof -
  obtain br lbr where "paper_blocked demo_blocked ORIGINAL_INTRADAY = Some br" "paper_blocked demo_blocked ORIGINAL_LONGTERM = Some lbr"
    using demo_blocked_reasons by blast
  moreover have "upper ''aapl'' \<in> demo_tickers" by code_simp
  ultimately show ?thesis
    using blocked_account_only_exits [of "demo_day\<lparr> pe_ledger := demo_blocked \<rparr>" br "demo_long\<lparr> le_ledger := demo_blocked \<rparr>" lbr
        "demo_alert CONTRADICTED 94" demo_tickers demo_paper_config None demo_lt_config None 6000]
    by (simp add: demo_alert_def sell_action_def)
qed

theorem bar_exits_at_the_bracket_witness:
  "get_position (pe_ledger (handle_market_tick demo_paper_config 5000 (Some (demo_tick ''AAPL'' 94)) demo_day)) ''AAPL'' = None"
proof -
  obtain p where "get_position (ln_ledger demo_lanes) ''AAPL'' = Some p" "vp_stop p = Some 95" "vp_target p = Some 110"
    using demo_book(5) by (auto split: option.splits)
  then show ?thesis
    using bar_exits_at_the_bracket [OF demo_run_facts, of demo_day "demo_tick ''AAPL'' 94" p 95 110 94 5000]
    by (simp add: demo_day_def demo_tick_def Let_def)
qed

theorem contribution_cycle_effect_witness:
  "map lpos_ticker (l_positions (le_ledger (run_dca_cycle_once 6000 demo_long))) = [''MSFT'']
   \<and> us_until_next_dca 2592000000000 7000 (lf_last_dca (l_portfolio (le_ledger (run_dca_cycle_once 6000 demo_long)))) = 2591999999000"
  using contribution_cycle_effect [OF demo_run_facts, of demo_long 6000 2592000000000 7000] demo_book(2,3)
  by (simp add: Let_def demo_long_def)

theorem rebalance_only_reduces_witness:
  "get_long_term_position (le_ledger (snd (handle_lt_alert demo_lt_config demo_tickers
      (Some (demo_lt_alert UNDER_PERFORM_REBALANCE)) demo_long))) ''MSFT'' = None"
proof -
  have "(case get_long_term_position (ln_ledger demo_lanes) ''MSFT'' of None \<Rightarrow> False | Some p \<Rightarrow> True)" by code_simp
  then obtain p where "get_long_term_position (ln_ledger demo_lanes) ''MSFT'' = Some p" by (auto split: option.splits)
  moreover have "upper ''MSFT'' \<in> demo_tickers" by code_simp
  ultimately show ?thesis
    using rebalance_only_reduces [OF demo_run_facts, of demo_long "demo_lt_alert UNDER_PERFORM_REBALANCE" p demo_tickers True]
    by (simp add: demo_long_def demo_lt_alert_def Let_def split: option.splits)
qed

theorem eod_sweep_is_scheduled_at_the_wall_clock_witness:
  "let w = us_until_next_eod_flatten (\<lambda>t. t - 18000000000) 0 15 50; t = eod_target_wall (\<lambda>t. t - 18000000000) 0 15 50 in
    0 < w \<and> w \<le> day_us \<and> t mod day_us = 950 * 60000000"
  using eod_sweep_is_scheduled_at_the_wall_clock [of 15 50 "\<lambda>t. t - 18000000000" 0] by (simp add: Let_def)

end
