(* ===== verification/Core_To_Paper.thy ===== *)
theory Core_To_Paper
  imports Core_Safety Paper_Lanes
begin

text \<open>
  The two services composed: what \<open>talonx_paper/schemas.py\<close> reads from an alert that \<open>talonx_core\<close> published, and what
  had to be decided for the paper lanes to buy.
\<close>

section \<open>Definitions\<close>

definition to_paper :: "core_alert \<Rightarrow> v1_alert" where
  "to_paper a = \<lparr> va_ticker = ac_ticker a, va_action = ac_action a, va_severity = ac_severity a, va_price = qs_price (ac_signal a),
     va_stop = qs_stop (ac_signal a), va_target = qs_target (ac_signal a), va_at = ac_at a \<rparr>"

definition to_paper_lt :: "lt_core_alert \<Rightarrow> lt_alert" where
  "to_paper_lt a = \<lparr> la_ticker = al_ticker a, la_action = al_action a, la_price = al_price a, la_at = al_at a \<rparr>"

text \<open>The annual filings a sequence of signals stands for: of neighbours with one fiscal year the first counts.\<close>

function year_heads :: "fundamental_signal list \<Rightarrow> fundamental_signal list" where
  "year_heads [] = []"
| "year_heads (s # ss) = s # year_heads (dropWhile (\<lambda>x. fs_year x = fs_year s) ss)"
  by pat_completeness auto
termination by (relation "measure length") (auto simp: le_imp_less_Suc length_dropWhile_le)

definition below :: "money \<Rightarrow> fundamental_signal \<Rightarrow> bool" where
  "below wacc s \<longleftrightarrow> (case fs_roic s of None \<Rightarrow> False | Some r \<Rightarrow> r < wacc)"

section \<open>Buying\<close>

lemma handle_alert_bought:
  assumes "v_trades (pe_ledger (snd (handle_alert cfg enabled (Some alert) e))) = v_trades (pe_ledger e) @ [t]" "vt_order t = BUY_ORDER"
  shows "va_action alert = CONFIRMED_BULLISH \<and> severity_rank (pc_min_severity cfg) \<le> severity_rank (va_severity alert)"
proof (rule ccontr)
  assume no: "\<not> ?thesis"
  let ?e = "e\<lparr> pe_processed := Suc (pe_processed e) \<rparr>"
  have sell: "\<not> (v_trades (pe_ledger (close_v1_position ticker fill at_ts action ?e)) = v_trades (pe_ledger e) @ [t])" for ticker fill at_ts action
  proof -
    obtain new where "v_trades (pe_ledger (close_v1_position ticker fill at_ts action ?e)) = v_trades (pe_ledger ?e) @ new"
      "list_all (sold_for action) new" by (rule close_v1_position_trades)
    then show ?thesis using assms(2) by (auto simp: sold_for_def)
  qed
  have quiet: "v_trades (pe_ledger (note_ignored k why action price at_ts x)) = v_trades (pe_ledger x)" for k why action price at_ts x
    by (simp add: note_ignored_ledger record_ignored_def)
  show False using assms(1) no sell quiet
    by (auto simp: handle_alert_def Let_def decide_trade_def count_ignored_def split: if_splits)
qed

lemma handle_lt_alert_bought:
  assumes "l_trades (le_ledger (snd (handle_lt_alert cfg enabled (Some alert) e))) = l_trades (le_ledger e) @ [t]" "lt_order t = LT_BUY_ORDER"
  shows "la_action alert = HIGH_CONVICTION_BUY"
proof (rule ccontr)
  assume no: "la_action alert \<noteq> HIGH_CONVICTION_BUY"
  let ?e = "e\<lparr> le_processed := Suc (le_processed e) \<rparr>"
  have sell: "\<not> (l_trades (le_ledger (lt_engine_sell cfg alert trim ?e)) = l_trades (le_ledger e) @ [t])" for trim
  proof -
    obtain r l where s: "execute_long_term_sell (la_ticker alert) trim (apply_spread (la_price alert) (lc_spread_bps cfg) SELL_SIDE)
      (la_at alert) (la_action alert) (le_ledger e) = (r, l)" by force
    show ?thesis
    proof (cases rule: execute_long_term_sellE [OF s])
      case 1
      then show ?thesis using s by (simp add: lt_engine_sell_def Let_def record_ignored_def)
    next
      case (2 p q sold usd pct remaining)
      have "l_trades l = l_trades (le_ledger e) @ [q]" by (simp add: 2(15) lt_append_def)
      then show ?thesis using 2(1,8) assms(2) by (auto simp: lt_engine_sell_def Let_def s)
    qed
  qed
  have other: "decide_long_term_trade alert holding trim \<noteq> Some LT_BUY" for holding trim
    using no by (cases "la_action alert") (simp_all add: decide_long_term_trade_def)
  show False
  proof (cases "decide_long_term_trade alert (get_long_term_position (le_ledger ?e) (la_ticker alert) \<noteq> None) (lc_trim cfg)")
    case decided: (Some d)
    have "d \<noteq> LT_BUY" using decided other by auto
    then show False using assms(1) sell
      by (cases d) (simp_all add: handle_lt_alert_def Let_def decided [simplified] record_ignored_def split: if_splits)
  qed (use assms(1) in \<open>simp add: handle_lt_alert_def Let_def split: if_splits\<close>)
qed

section \<open>The streak\<close>

lemma year_heads_Nil [simp]: "year_heads ss = [] \<longleftrightarrow> ss = []" "[] = year_heads ss \<longleftrightarrow> ss = []"
  by (cases ss; simp)+

lemma year_heads_snoc:
  "year_heads (ss @ [s]) = (if ss \<noteq> [] \<and> fs_year (last ss) = fs_year s then year_heads ss else year_heads ss @ [s])"
proof (induction ss rule: year_heads.induct)
  case (2 x ss)
  let ?d = "dropWhile (\<lambda>y. fs_year y = fs_year x) ss"
  show ?case
  proof (cases "?d = []")
    case True
    then have all: "\<forall>y \<in> set ss. fs_year y = fs_year x" by (simp add: dropWhile_eq_Nil_conv)
    then have last: "fs_year (last (x # ss)) = fs_year x" by (cases "ss = []") simp_all
    have "dropWhile (\<lambda>y. fs_year y = fs_year x) (ss @ [s]) = (if fs_year s = fs_year x then [] else [s])"
      using all by (auto simp: dropWhile_append)
    with last True show ?thesis by (cases "fs_year s = fs_year x") (simp_all del: last.simps)
  next
    case False
    then have "last ?d = last ss" "ss \<noteq> []" by (metis last_appendR takeWhile_dropWhile_id, auto)
    moreover have "dropWhile (\<lambda>y. fs_year y = fs_year x) (ss @ [s]) = ?d @ [s]"
      using False by (simp add: dropWhile_append dropWhile_eq_Nil_conv)
    ultimately show ?thesis using 2 False by simp
  qed
qed simp

lemma streak_step:
  "ls_streak (update_fundamental wacc now s st) = (if ls_streak_year st = Some (fs_year s) then ls_streak st
     else if below wacc s then Suc (ls_streak st) else 0)"
  "ls_streak_year (update_fundamental wacc now s st) = Some (fs_year s)"
  by (auto simp: update_fundamental_def below_def Let_def split: option.split)

lemma streak_fold:
  "ls_streak (fold (\<lambda>(now, s). update_fundamental wacc now s) ss fresh_lt_ticker)
     = length (takeWhile (below wacc) (rev (year_heads (map snd ss))))
   \<and> ls_streak_year (fold (\<lambda>(now, s). update_fundamental wacc now s) ss fresh_lt_ticker)
     = (if ss = [] then None else Some (fs_year (snd (last ss))))"
proof (induction ss rule: rev_induct)
  case Nil
  then show ?case by (simp add: fresh_lt_ticker_def)
next
  case (snoc p ss)
  obtain now s where p: "p = (now, s)" by (cases p)
  show ?case using snoc by (auto simp: p streak_step year_heads_snoc last_map)
qed

section \<open>Properties\<close>

text \<open>
  C12. The two lanes buy only what both sources support: if an alert of the decision engine makes the intraday lane buy, its
  signal and its report were both bullish, the report was not degraded and confident enough, both were fresh, and the
  alert was at least as severe as the lane asks.
\<close>

theorem intraday_buy_needs_both_sources:
  assumes "evaluate st cfg now = Inr (Inr a)"
    and "v_trades (pe_ledger (snd (handle_alert pcfg enabled (Some (to_paper a)) e))) = v_trades (pe_ledger e) @ [t]" "vt_order t = BUY_ORDER"
  shows "\<exists>signal report. tk_signal st = Some signal \<and> tk_report st = Some report
    \<and> qs_direction signal = DIR_BULLISH \<and> rr_verdict report = VERDICT_BULLISH \<and> \<not> rr_degraded report
    \<and> cc_min_confidence cfg \<le> rr_confidence report
    \<and> is_fresh (tk_signal_at st) now (cc_window cfg) \<and> is_fresh (tk_report_at st) now (cc_window cfg)
    \<and> severity_rank (pc_min_severity pcfg) \<le> severity_rank (severity_for CONFIRMED_BULLISH (rr_confidence report))"
proof -
  have bought: "ac_action a = CONFIRMED_BULLISH" "severity_rank (pc_min_severity pcfg) \<le> severity_rank (ac_severity a)"
    using handle_alert_bought [OF assms(2,3)] by (simp_all add: to_paper_def)
  show ?thesis
  proof (rule evaluate_alert [OF assms(1)])
    fix signal report action
    assume *: "tk_signal st = Some signal" "tk_report st = Some report" "is_fresh (tk_signal_at st) now (cc_window cfg)"
      "is_fresh (tk_report_at st) now (cc_window cfg)" "matrix_action cfg signal report = Inr action" "a = build_alert signal report action now"
    from * bought show ?thesis
      by (auto simp: build_alert_def matrix_action_iff split: if_splits signal_direction.splits research_verdict.splits)
  qed
qed

text \<open>
  C13. The long-term lane buys quality at a discount: if an alert of the decision engine makes it buy, no fundamental stop was
  standing, the report was not degraded and of the required quality with some moat, and the price was positive and at
  most the fair value less the margin of safety.
\<close>

theorem long_term_buy_needs_a_margin:
  assumes "evaluate_long_term st cfg now = Inr (Inr a)"
    and "l_trades (le_ledger (snd (handle_lt_alert lcfg enabled (Some (to_paper_lt a)) e))) = l_trades (le_ledger e) @ [t]" "lt_order t = LT_BUY_ORDER"
  shows "\<exists>signal report. ls_signal st = Some signal \<and> ls_report st = Some report
    \<and> \<not> fundamental_stop cfg signal report st \<and> \<not> lr_degraded report
    \<and> cc_quality_min cfg \<le> lr_quality report \<and> lr_moat report \<noteq> MOAT_NONE \<and> 0 < lr_fair_value report
    \<and> 0 < fs_price signal \<and> fs_price signal \<le> fl (fl (1 - cc_margin_of_safety cfg) * lr_fair_value report)"
proof -
  have bought: "al_action a = HIGH_CONVICTION_BUY"
    using handle_lt_alert_bought [OF assms(2,3)] by (simp add: to_paper_lt_def)
  show ?thesis
  proof (rule evaluate_long_term_alert [OF assms(1)])
    fix signal report action
    assume *: "ls_signal st = Some signal" "ls_report st = Some report" "\<not> lr_degraded report" "0 < fs_price signal"
      "lt_matrix_action cfg signal report st = Inr action" "a = build_lt_alert signal report st action now"
    from * bought show ?thesis
      by (auto simp: build_lt_alert_def lt_matrix_action_def Let_def split: if_splits)
  qed
qed

text \<open>
  The fundamental stop counts filings, not messages: after any sequence of fundamental signals the streak is the number of
  the latest annual filings in a row whose return lay below the cost of capital, a year published again in a row counting once.
\<close>

theorem streak_counts_annual_filings:
  "ls_streak (fold (\<lambda>(now, s). update_fundamental wacc now s) ss fresh_lt_ticker)
     = length (takeWhile (below wacc) (rev (year_heads (map snd ss))))"
  using streak_fold [of wacc ss] by simp

section \<open>The theorems on a concrete day\<close>

definition demo_pair :: ticker_state where
  "demo_pair = \<lparr> tk_signal = Some \<lparr> qs_ticker = ''AAPL'', qs_direction = DIR_BULLISH, qs_price = 100, qs_stop = Some 95, qs_target = Some 110 \<rparr>,
     tk_signal_at = Some 0, tk_report = Some \<lparr> rr_ticker = ''AAPL'', rr_verdict = VERDICT_BULLISH, rr_confidence = fl (9 / 10), rr_degraded = False \<rparr>,
     tk_report_at = Some 1000000, tk_last_at = None, tk_last_action = None, tk_last_price = None \<rparr>"

definition demo_lt_pair :: lt_state where
  "demo_lt_pair = fresh_lt_ticker\<lparr>
     ls_signal := Some \<lparr> fs_ticker = ''MSFT'', fs_year = 2025, fs_roic = Some (fl (1 / 5)), fs_debt_to_ebitda = Some 1, fs_price = 300, fs_earnings = False \<rparr>,
     ls_signal_at := Some 0,
     ls_report := Some \<lparr> lr_ticker = ''MSFT'', lr_moat = MOAT_WIDE, lr_fair_value = 400, lr_quality = 9, lr_earnings = False, lr_degraded = False \<rparr>,
     ls_report_at := Some 1000000 \<rparr>"

definition demo_start :: paper_engine where
  "demo_start = ln_day (start_lanes (fresh_paper 10000 2500 20000 500))"

definition demo_lt_start :: lt_engine where
  "demo_lt_start = ln_long (start_lanes (fresh_paper 10000 2500 20000 500))"

definition demo_core_alert :: core_alert where
  "demo_core_alert = build_alert (the (tk_signal demo_pair)) (the (tk_report demo_pair)) CONFIRMED_BULLISH 1000000"

definition demo_core_lt_alert :: lt_core_alert where
  "demo_core_lt_alert = build_lt_alert (the (ls_signal demo_lt_pair)) (the (ls_report demo_lt_pair)) demo_lt_pair HIGH_CONVICTION_BUY 1000000"

lemma demo_decided:
  "evaluate demo_pair demo_core_config 1000000 = Inr (Inr demo_core_alert)"
  "evaluate_long_term demo_lt_pair demo_core_config 1000000 = Inr (Inr demo_core_lt_alert)"
  by code_simp+

lemma demo_bought:
  "v_trades (pe_ledger demo_start) = []" "l_trades (le_ledger demo_lt_start) = []"
  "map vt_order (v_trades (pe_ledger (snd (handle_alert demo_paper_config demo_tickers (Some (to_paper demo_core_alert)) demo_start)))) = [BUY_ORDER]"
  "map lt_order (l_trades (le_ledger (snd (handle_lt_alert demo_lt_config demo_tickers (Some (to_paper_lt demo_core_lt_alert)) demo_lt_start)))) = [LT_BUY_ORDER]"
  by code_simp+

theorem intraday_buy_needs_both_sources_witness:
  "\<exists>signal report. tk_signal demo_pair = Some signal \<and> tk_report demo_pair = Some report
    \<and> qs_direction signal = DIR_BULLISH \<and> rr_verdict report = VERDICT_BULLISH \<and> fl (1 / 2) \<le> rr_confidence report"
proof -
  obtain t where "v_trades (pe_ledger (snd (handle_alert demo_paper_config demo_tickers (Some (to_paper demo_core_alert)) demo_start))) = [t]"
    "vt_order t = BUY_ORDER" using demo_bought(3) by auto
  then have "v_trades (pe_ledger (snd (handle_alert demo_paper_config demo_tickers (Some (to_paper demo_core_alert)) demo_start)))
      = v_trades (pe_ledger demo_start) @ [t]" "vt_order t = BUY_ORDER" using demo_bought(1) by simp_all
  from intraday_buy_needs_both_sources [OF demo_decided(1) this] show ?thesis by (auto simp: demo_core_config_def)
qed

theorem long_term_buy_needs_a_margin_witness:
  "\<exists>signal report. ls_signal demo_lt_pair = Some signal \<and> ls_report demo_lt_pair = Some report
    \<and> 7 \<le> lr_quality report \<and> lr_moat report \<noteq> MOAT_NONE \<and> fs_price signal \<le> fl (fl (1 - fl (1 / 5)) * lr_fair_value report)"
proof -
  obtain t where "l_trades (le_ledger (snd (handle_lt_alert demo_lt_config demo_tickers (Some (to_paper_lt demo_core_lt_alert)) demo_lt_start))) = [t]"
    "lt_order t = LT_BUY_ORDER" using demo_bought(4) by auto
  then have "l_trades (le_ledger (snd (handle_lt_alert demo_lt_config demo_tickers (Some (to_paper_lt demo_core_lt_alert)) demo_lt_start)))
      = l_trades (le_ledger demo_lt_start) @ [t]" "lt_order t = LT_BUY_ORDER" using demo_bought(2) by simp_all
  from long_term_buy_needs_a_margin [OF demo_decided(2) this] show ?thesis by (auto simp: demo_core_config_def)
qed

end
