(* ===== verification/Dispatch_Store.thy ===== *)
theory Dispatch_Store
  imports Core_Outbox
begin

text \<open>
  \<open>talonx_dispatch/store.py\<close>: the audit trail of every alert, the push cooldowns, the cached earnings context, the muted
  trade notifications, the rejected candidates and the identifiers already processed.  Both audit tables have the same
  push columns; the columns copied from an alert are the alert itself.  Error texts, migrations and the report
  queries are left out.
\<close>

section \<open>Tables\<close>

datatype push_block = ACTION_MUTED | CONFIDENCE_BELOW_GATE | PUSH_COOLDOWN_ACTIVE | PRICE_DELTA_TOO_LOW

datatype push_note = NOTE_NONE | NOTE_BLOCK push_block

record 'a audit_row =
  au_id :: nat
  au_ticker :: symbol
  au_alert :: 'a
  au_received :: stamp
  au_sent :: bool
  au_sent_at :: "stamp option"
  au_failed :: bool
  au_note :: "push_note option"

record 'a audit_table =
  at_rows :: "'a audit_row list"
  at_seq :: nat

datatype push_domain = PUSH_DAY | PUSH_LONG | PUSH_HEADS_UP

record push_row =
  pu_ticker :: symbol
  pu_domain :: push_domain
  pu_at :: stamp
  pu_price :: "money option"

record context_row =
  cx_ticker :: symbol
  cx_signal :: "fundamental_signal option"
  cx_report :: "lt_report option"
  cx_at :: stamp

record notice_row =
  nt_id :: nat
  nt_trade :: nat
  nt_ticker :: symbol
  nt_order :: order_type
  nt_action :: v1_action
  nt_sent :: bool
  nt_routine :: bool
  nt_at :: stamp

record rejected_candidate =
  rc_ticker :: symbol
  rc_gate :: string
  rc_reason :: string
  rc_type :: "string option"
  rc_direction :: "signal_direction option"
  rc_price :: "money option"
  rc_confluence :: "int option"
  rc_ratio :: "money option"
  rc_session :: "string option"
  rc_at :: stamp

record processed_row =
  po_id :: string
  po_channel :: horizon
  po_at :: stamp

record dispatch_db =
  db_alerts :: "core_alert audit_table"
  db_lt_alerts :: "lt_core_alert audit_table"
  db_pushes :: "push_row list"
  db_context :: "context_row list"
  db_notices :: "notice_row list"
  db_notice_seq :: nat
  db_rejected :: "(nat \<times> rejected_candidate) list"
  db_rejected_seq :: nat
  db_processed :: "processed_row list"

definition empty_table :: "'a audit_table" where
  "empty_table = \<lparr> at_rows = [], at_seq = 0 \<rparr>"

definition fresh_dispatch_db :: dispatch_db where
  "fresh_dispatch_db = \<lparr> db_alerts = empty_table, db_lt_alerts = empty_table, db_pushes = [], db_context = [], db_notices = [],
     db_notice_seq = 0, db_rejected = [], db_rejected_seq = 0, db_processed = [] \<rparr>"

section \<open>One audit table\<close>

definition audit_insert :: "symbol \<Rightarrow> 'a \<Rightarrow> stamp \<Rightarrow> 'a audit_table \<Rightarrow> 'a audit_table" where
  "audit_insert ticker alert now t =
     t\<lparr> at_rows := at_rows t @ [\<lparr> au_id = Suc (at_seq t), au_ticker = upper ticker, au_alert = alert, au_received = now, au_sent = False,
          au_sent_at = None, au_failed = False, au_note = None \<rparr>],
        at_seq := Suc (at_seq t) \<rparr>"

definition audit_update :: "nat \<Rightarrow> ('a audit_row \<Rightarrow> 'a audit_row) \<Rightarrow> 'a audit_table \<Rightarrow> 'a audit_table" where
  "audit_update i f t = t\<lparr> at_rows := update_rows (\<lambda>r. au_id r = i) f (at_rows t) \<rparr>"

definition row_sent :: "stamp \<Rightarrow> 'a audit_row \<Rightarrow> 'a audit_row" where
  "row_sent now r = r\<lparr> au_sent := True, au_sent_at := Some now, au_failed := False, au_note := Some NOTE_NONE \<rparr>"

definition row_failed :: "'a audit_row \<Rightarrow> 'a audit_row" where
  "row_failed r = r\<lparr> au_failed := True, au_note := Some NOTE_NONE \<rparr>"

definition row_blocked :: "push_block \<Rightarrow> 'a audit_row \<Rightarrow> 'a audit_row" where
  "row_blocked why r = r\<lparr> au_note := Some (NOTE_BLOCK why) \<rparr>"

text \<open>\<open>DELETE ... WHERE correlated_at < cutoff\<close>, with its row count.\<close>

definition audit_purge :: "('a \<Rightarrow> stamp) \<Rightarrow> stamp \<Rightarrow> 'a audit_table \<Rightarrow> nat \<times> 'a audit_table" where
  "audit_purge at_of cutoff t =
     (rowcount (\<lambda>r. at_of (au_alert r) < cutoff) (at_rows t), t\<lparr> at_rows := filter (\<lambda>r. \<not> at_of (au_alert r) < cutoff) (at_rows t) \<rparr>)"

section \<open>Operations\<close>

text \<open>An identifier that is missing or empty never counts as processed.\<close>

definition real_id :: "string option \<Rightarrow> string option" where
  "real_id oid = (case oid of None \<Rightarrow> None | Some s \<Rightarrow> if s = [] then None else Some s)"

definition alert_outbox_id_already_processed :: "string option \<Rightarrow> dispatch_db \<Rightarrow> bool" where
  "alert_outbox_id_already_processed oid db =
     (case real_id oid of None \<Rightarrow> False | Some s \<Rightarrow> s \<in> po_id ` set (db_processed db))"

definition mark_alert_outbox_id_processed :: "string option \<Rightarrow> horizon \<Rightarrow> stamp \<Rightarrow> dispatch_db \<Rightarrow> dispatch_db" where
  "mark_alert_outbox_id_processed oid channel now db =
     (case real_id oid of None \<Rightarrow> db
      | Some s \<Rightarrow> db\<lparr> db_processed := upsert_row po_id \<lparr> po_id = s, po_channel = channel, po_at = now \<rparr> id (db_processed db) \<rparr>)"

definition record_alert :: "core_alert \<Rightarrow> stamp \<Rightarrow> dispatch_db \<Rightarrow> nat \<times> dispatch_db" where
  "record_alert a now db = (Suc (at_seq (db_alerts db)), db\<lparr> db_alerts := audit_insert (ac_ticker a) a now (db_alerts db) \<rparr>)"

definition mark_telegram_sent :: "nat \<Rightarrow> stamp \<Rightarrow> dispatch_db \<Rightarrow> dispatch_db" where
  "mark_telegram_sent i now db = db\<lparr> db_alerts := audit_update i (row_sent now) (db_alerts db) \<rparr>"

definition mark_telegram_failed :: "nat \<Rightarrow> dispatch_db \<Rightarrow> dispatch_db" where
  "mark_telegram_failed i db = db\<lparr> db_alerts := audit_update i row_failed (db_alerts db) \<rparr>"

definition mark_suppressed :: "nat \<Rightarrow> push_block \<Rightarrow> dispatch_db \<Rightarrow> dispatch_db" where
  "mark_suppressed i why db = db\<lparr> db_alerts := audit_update i (row_blocked why) (db_alerts db) \<rparr>"

definition purge_older_than :: "stamp \<Rightarrow> dispatch_db \<Rightarrow> nat \<times> dispatch_db" where
  "purge_older_than cutoff db = (case audit_purge ac_at cutoff (db_alerts db) of (n, t) \<Rightarrow> (n, db\<lparr> db_alerts := t \<rparr>))"

definition record_long_term_alert :: "lt_core_alert \<Rightarrow> stamp \<Rightarrow> dispatch_db \<Rightarrow> nat \<times> dispatch_db" where
  "record_long_term_alert a now db = (Suc (at_seq (db_lt_alerts db)), db\<lparr> db_lt_alerts := audit_insert (al_ticker a) a now (db_lt_alerts db) \<rparr>)"

definition mark_long_term_telegram_sent :: "nat \<Rightarrow> stamp \<Rightarrow> dispatch_db \<Rightarrow> dispatch_db" where
  "mark_long_term_telegram_sent i now db = db\<lparr> db_lt_alerts := audit_update i (row_sent now) (db_lt_alerts db) \<rparr>"

definition mark_long_term_telegram_failed :: "nat \<Rightarrow> dispatch_db \<Rightarrow> dispatch_db" where
  "mark_long_term_telegram_failed i db = db\<lparr> db_lt_alerts := audit_update i row_failed (db_lt_alerts db) \<rparr>"

definition mark_long_term_suppressed :: "nat \<Rightarrow> push_block \<Rightarrow> dispatch_db \<Rightarrow> dispatch_db" where
  "mark_long_term_suppressed i why db = db\<lparr> db_lt_alerts := audit_update i (row_blocked why) (db_lt_alerts db) \<rparr>"

definition purge_long_term_older_than :: "stamp \<Rightarrow> dispatch_db \<Rightarrow> nat \<times> dispatch_db" where
  "purge_long_term_older_than cutoff db = (case audit_purge al_at cutoff (db_lt_alerts db) of (n, t) \<Rightarrow> (n, db\<lparr> db_lt_alerts := t \<rparr>))"

definition save_latest_fundamental_signal_cache :: "symbol \<Rightarrow> fundamental_signal \<Rightarrow> stamp \<Rightarrow> dispatch_db \<Rightarrow> dispatch_db" where
  "save_latest_fundamental_signal_cache ticker s now db =
     db\<lparr> db_context := upsert_row cx_ticker \<lparr> cx_ticker = upper ticker, cx_signal = Some s, cx_report = None, cx_at = now \<rparr>
          (\<lambda>r. r\<lparr> cx_signal := Some s, cx_at := now \<rparr>) (db_context db) \<rparr>"

definition save_latest_longterm_report_cache :: "symbol \<Rightarrow> lt_report \<Rightarrow> stamp \<Rightarrow> dispatch_db \<Rightarrow> dispatch_db" where
  "save_latest_longterm_report_cache ticker rep now db =
     db\<lparr> db_context := upsert_row cx_ticker \<lparr> cx_ticker = upper ticker, cx_signal = None, cx_report = Some rep, cx_at = now \<rparr>
          (\<lambda>r. r\<lparr> cx_report := Some rep, cx_at := now \<rparr>) (db_context db) \<rparr>"

text \<open>The two caches a start fills from the context rows.\<close>

definition load_earnings_signals :: "dispatch_db \<Rightarrow> symbol \<rightharpoonup> fundamental_signal" where
  "load_earnings_signals db k = (case row_by cx_ticker k (db_context db) of None \<Rightarrow> None | Some r \<Rightarrow> cx_signal r)"

definition load_earnings_reports :: "dispatch_db \<Rightarrow> symbol \<rightharpoonup> lt_report" where
  "load_earnings_reports db k = (case row_by cx_ticker k (db_context db) of None \<Rightarrow> None | Some r \<Rightarrow> cx_report r)"

definition push_key :: "push_row \<Rightarrow> symbol \<times> push_domain" where
  "push_key r = (pu_ticker r, pu_domain r)"

definition save_last_telegram_push :: "symbol \<Rightarrow> push_domain \<Rightarrow> stamp \<Rightarrow> money option \<Rightarrow> dispatch_db \<Rightarrow> dispatch_db" where
  "save_last_telegram_push ticker d now price db =
     db\<lparr> db_pushes := upsert_row push_key \<lparr> pu_ticker = upper ticker, pu_domain = d, pu_at = now, pu_price = price \<rparr>
          (\<lambda>r. r\<lparr> pu_at := now, pu_price := price \<rparr>) (db_pushes db) \<rparr>"

definition load_last_telegram_pushes :: "push_domain \<Rightarrow> dispatch_db \<Rightarrow> symbol \<rightharpoonup> stamp \<times> money option" where
  "load_last_telegram_pushes d db k = map_option (\<lambda>r. (pu_at r, pu_price r)) (row_by push_key (k, d) (db_pushes db))"

definition record_paper_trade_notification :: "nat \<Rightarrow> symbol \<Rightarrow> order_type \<Rightarrow> v1_action \<Rightarrow> bool \<Rightarrow> bool \<Rightarrow> stamp \<Rightarrow> dispatch_db \<Rightarrow> dispatch_db" where
  "record_paper_trade_notification trade ticker order action sent routine now db =
     db\<lparr> db_notices := db_notices db @ [\<lparr> nt_id = Suc (db_notice_seq db), nt_trade = trade, nt_ticker = upper ticker, nt_order = order,
          nt_action = action, nt_sent = sent, nt_routine = routine, nt_at = now \<rparr>],
         db_notice_seq := Suc (db_notice_seq db) \<rparr>"

definition record_rejected_candidate :: "rejected_candidate \<Rightarrow> dispatch_db \<Rightarrow> dispatch_db" where
  "record_rejected_candidate c db =
     db\<lparr> db_rejected := db_rejected db @ [(Suc (db_rejected_seq db), c\<lparr> rc_ticker := upper (rc_ticker c) \<rparr>)],
         db_rejected_seq := Suc (db_rejected_seq db) \<rparr>"

definition purge_rejected_candidates_older_than :: "stamp \<Rightarrow> dispatch_db \<Rightarrow> nat \<times> dispatch_db" where
  "purge_rejected_candidates_older_than cutoff db =
     (rowcount (\<lambda>r. rc_at (snd r) < cutoff) (db_rejected db), db\<lparr> db_rejected := filter (\<lambda>r. \<not> rc_at (snd r) < cutoff) (db_rejected db) \<rparr>)"

section \<open>Laws\<close>

text \<open>The rows of a table keep distinct identifiers, none above its counter, whatever was purged.\<close>

definition audit_ok :: "'a audit_table \<Rightarrow> bool" where
  "audit_ok t \<longleftrightarrow> distinct (map au_id (at_rows t)) \<and> (\<forall>r \<in> set (at_rows t). au_id r \<le> at_seq t)"

lemma row_marks [simp]:
  "au_id (row_sent now r) = au_id r" "au_id (row_failed r) = au_id r" "au_id (row_blocked why r) = au_id r"
  "au_alert (row_sent now r) = au_alert r" "au_alert (row_failed r) = au_alert r" "au_alert (row_blocked why r) = au_alert r"
  by (simp_all add: row_sent_def row_failed_def row_blocked_def)

lemma audit_insert_ok: "audit_ok t \<Longrightarrow> audit_ok (audit_insert ticker a now t)"
  by (fastforce simp: audit_ok_def audit_insert_def)

lemma audit_update_ok:
  assumes "audit_ok t" "\<And>r. au_id (f r) = au_id r"
  shows "audit_ok (audit_update i f t)"
proof -
  have "map au_id (update_rows P f rows) = map au_id rows" for P rows by (rule map_update_rows) (rule assms(2))
  with assms show ?thesis by (auto simp: audit_ok_def audit_update_def in_update_rows)
qed

lemma audit_purge_ok: "audit_ok t \<Longrightarrow> audit_ok (snd (audit_purge at_of cutoff t))"
  by (auto simp: audit_ok_def audit_purge_def distinct_map_filter)

text \<open>An update by the identifier just given out changes only the last row.\<close>

lemma audit_update_new:
  assumes "audit_ok t"
  shows "at_rows (audit_update (Suc (at_seq t)) f (audit_insert ticker a now t)) = at_rows t @ [f (last (at_rows (audit_insert ticker a now t)))]"
proof -
  have "update_rows (\<lambda>r. au_id r = Suc (at_seq t)) f (at_rows t) = at_rows t"
    using assms by (intro update_rows_id) (auto simp: audit_ok_def)
  then show ?thesis by (simp add: audit_update_def audit_insert_def) (simp add: update_rows_def)
qed

lemma load_pushes_save:
  "load_last_telegram_pushes d' (save_last_telegram_push ticker d now price db) =
     (if d' = d then (load_last_telegram_pushes d db)(upper ticker \<mapsto> (now, price)) else load_last_telegram_pushes d' db)"
proof
  fix k
  let ?new = "\<lparr> pu_ticker = upper ticker, pu_domain = d, pu_at = now, pu_price = price \<rparr>"
  let ?f = "\<lambda>r. r\<lparr> pu_at := now, pu_price := price \<rparr>"
  have keep: "push_key (?f r) = push_key r" for r :: push_row by (simp add: push_key_def)
  have "row_by push_key (k, d') (upsert_row push_key ?new ?f (db_pushes db)) =
      (if (k, d') = push_key ?new then Some (case row_by push_key (push_key ?new) (db_pushes db) of Some r \<Rightarrow> ?f r | None \<Rightarrow> ?new)
       else row_by push_key (k, d') (db_pushes db))"
    using row_by_upsert_same [of push_key ?f ?new "db_pushes db", OF keep]
      row_by_upsert_other [of push_key ?f "(k, d')" ?new "db_pushes db", OF keep] by simp
  then show "load_last_telegram_pushes d' (save_last_telegram_push ticker d now price db) k =
      (if d' = d then (load_last_telegram_pushes d db)(upper ticker \<mapsto> (now, price)) else load_last_telegram_pushes d' db) k"
    by (auto simp: load_last_telegram_pushes_def save_last_telegram_push_def push_key_def split: option.splits)
qed

lemma load_context_save:
  "load_earnings_signals (save_latest_fundamental_signal_cache ticker s now db) = (load_earnings_signals db)(upper ticker \<mapsto> s)"
  "load_earnings_reports (save_latest_fundamental_signal_cache ticker s now db) = load_earnings_reports db"
  "load_earnings_signals (save_latest_longterm_report_cache ticker rep now db) = load_earnings_signals db"
  "load_earnings_reports (save_latest_longterm_report_cache ticker rep now db) = (load_earnings_reports db)(upper ticker \<mapsto> rep)"
proof -
  have up: "row_by cx_ticker k (upsert_row cx_ticker new f rows) =
      (if k = cx_ticker new then Some (case row_by cx_ticker k rows of Some r \<Rightarrow> f r | None \<Rightarrow> new) else row_by cx_ticker k rows)"
    if "\<And>r. cx_ticker (f r) = cx_ticker r" for k new f rows
    using row_by_upsert_same [of cx_ticker f new rows, OF that] row_by_upsert_other [of cx_ticker f k new rows, OF that] by simp
  show "load_earnings_signals (save_latest_fundamental_signal_cache ticker s now db) = (load_earnings_signals db)(upper ticker \<mapsto> s)"
    "load_earnings_reports (save_latest_fundamental_signal_cache ticker s now db) = load_earnings_reports db"
    "load_earnings_signals (save_latest_longterm_report_cache ticker rep now db) = load_earnings_signals db"
    "load_earnings_reports (save_latest_longterm_report_cache ticker rep now db) = (load_earnings_reports db)(upper ticker \<mapsto> rep)"
    by (auto simp: fun_eq_iff load_earnings_signals_def load_earnings_reports_def save_latest_fundamental_signal_cache_def
        save_latest_longterm_report_cache_def up split: option.split)
qed

end
