(* ===== verification/Watch_Store.thy ===== *)
theory Watch_Store
  imports Tables
begin

text \<open>
  \<open>talonx_watchlist/store.py\<close>: the tracked tickers with their switches, and the next earnings date of each.  An argument
  that is not one of the valid names is \<open>None\<close>.  The locale \<open>ticker_column\<close> is what one column of the table promises.
\<close>

section \<open>Tables\<close>

datatype ticker_status = TICKER_ACTIVE | TICKER_PAUSED

datatype strategy_horizon = HZ_INTRADAY | HZ_LONG_TERM | HZ_DUAL

record ticker_row =
  tr_symbol :: string
  tr_name :: string
  tr_exchange :: string
  tr_status :: ticker_status
  tr_paper :: bool
  tr_paper_lt :: bool
  tr_horizon :: strategy_horizon
  tr_added :: stamp

record earnings_row =
  er_ticker :: string
  er_date :: date
  er_session :: string
  er_period :: string
  er_sent :: bool
  er_updated :: stamp

record watchlist =
  wl_tickers :: "ticker_row list"
  wl_earnings :: "earnings_row list"

datatype watch_error = EMPTY_SYMBOL | INVALID_STATUS | INVALID_HORIZON

section \<open>Operations\<close>

definition watch_key :: "string \<Rightarrow> string" where
  "watch_key symbol = upper (strip symbol)"

definition list_tickers :: "watchlist \<Rightarrow> ticker_row list" where
  "list_tickers wl = sort_key tr_symbol (wl_tickers wl)"

definition get_ticker :: "watchlist \<Rightarrow> string \<Rightarrow> ticker_row option" where
  "get_ticker wl symbol = row_by tr_symbol (watch_key symbol) (wl_tickers wl)"

text \<open>\<open>SELECT symbol FROM tickers WHERE ... ORDER BY symbol\<close>\<close>

definition symbols_where :: "(ticker_row \<Rightarrow> bool) \<Rightarrow> watchlist \<Rightarrow> string list" where
  "symbols_where P wl = map tr_symbol (sort_key tr_symbol (filter P (wl_tickers wl)))"

definition list_active_symbols :: "watchlist \<Rightarrow> string list" where
  "list_active_symbols wl = symbols_where (\<lambda>r. tr_status r = TICKER_ACTIVE) wl"

definition add_ticker ::
    "string \<Rightarrow> string \<Rightarrow> string \<Rightarrow> ticker_status option \<Rightarrow> strategy_horizon option \<Rightarrow> stamp \<Rightarrow> watchlist \<Rightarrow> watch_error + watchlist" where
  "add_ticker symbol name exchange status horizon now wl =
     (let key = watch_key symbol; name' = strip name; exchange' = strip exchange
      in if key = [] then Inl EMPTY_SYMBOL
         else case status of None \<Rightarrow> Inl INVALID_STATUS | Some st \<Rightarrow>
           (case horizon of None \<Rightarrow> Inl INVALID_HORIZON | Some hz \<Rightarrow>
              let label = (if name' = [] then key else name')
              in Inr (wl\<lparr> wl_tickers := upsert_row tr_symbol
                   \<lparr> tr_symbol = key, tr_name = label, tr_exchange = exchange', tr_status = st, tr_paper = False, tr_paper_lt = False,
                     tr_horizon = hz, tr_added = now \<rparr>
                   (\<lambda>r. r\<lparr> tr_name := label, tr_exchange := exchange' \<rparr>) (wl_tickers wl) \<rparr>)))"

definition remove_ticker :: "string \<Rightarrow> watchlist \<Rightarrow> watchlist" where
  "remove_ticker symbol wl = wl\<lparr> wl_tickers := filter (\<lambda>r. tr_symbol r \<noteq> watch_key symbol) (wl_tickers wl) \<rparr>"

text \<open>\<open>UPDATE tickers SET column = value WHERE symbol = ?\<close>\<close>

definition set_column :: "(ticker_row \<Rightarrow> ticker_row) \<Rightarrow> string \<Rightarrow> watchlist \<Rightarrow> watchlist" where
  "set_column f symbol wl = wl\<lparr> wl_tickers := update_rows (\<lambda>r. tr_symbol r = watch_key symbol) f (wl_tickers wl) \<rparr>"

definition pause_ticker :: "string \<Rightarrow> watchlist \<Rightarrow> watchlist" where
  "pause_ticker symbol wl = set_column (tr_status_update (\<lambda>_. TICKER_PAUSED)) symbol wl"

definition resume_ticker :: "string \<Rightarrow> watchlist \<Rightarrow> watchlist" where
  "resume_ticker symbol wl = set_column (tr_status_update (\<lambda>_. TICKER_ACTIVE)) symbol wl"

definition set_paper_trading :: "string \<Rightarrow> bool \<Rightarrow> watchlist \<Rightarrow> watchlist" where
  "set_paper_trading symbol enabled wl = set_column (tr_paper_update (\<lambda>_. enabled)) symbol wl"

definition list_paper_trading_symbols :: "watchlist \<Rightarrow> string list" where
  "list_paper_trading_symbols wl = symbols_where tr_paper wl"

definition set_paper_trading_long_term :: "string \<Rightarrow> bool \<Rightarrow> watchlist \<Rightarrow> watchlist" where
  "set_paper_trading_long_term symbol enabled wl = set_column (tr_paper_lt_update (\<lambda>_. enabled)) symbol wl"

definition list_paper_trading_long_term_symbols :: "watchlist \<Rightarrow> string list" where
  "list_paper_trading_long_term_symbols wl = symbols_where tr_paper_lt wl"

definition set_strategy_horizon :: "string \<Rightarrow> strategy_horizon option \<Rightarrow> watchlist \<Rightarrow> watch_error + watchlist" where
  "set_strategy_horizon symbol horizon wl =
     (case horizon of None \<Rightarrow> Inl INVALID_HORIZON | Some hz \<Rightarrow> Inr (set_column (tr_horizon_update (\<lambda>_. hz)) symbol wl))"

definition list_by_horizon :: "strategy_horizon option \<Rightarrow> watchlist \<Rightarrow> watch_error + string list" where
  "list_by_horizon horizon wl =
     (case horizon of None \<Rightarrow> Inl INVALID_HORIZON
      | Some HZ_DUAL \<Rightarrow> Inr (symbols_where (\<lambda>r. tr_horizon r = HZ_DUAL) wl)
      | Some hz \<Rightarrow> Inr (symbols_where (\<lambda>r. tr_horizon r = hz \<or> tr_horizon r = HZ_DUAL) wl))"

definition ensure_seeded :: "string \<Rightarrow> string \<Rightarrow> string \<Rightarrow> stamp \<Rightarrow> watchlist \<Rightarrow> watch_error + (bool \<times> watchlist)" where
  "ensure_seeded symbol name exchange now wl =
     (if list_tickers wl \<noteq> [] then Inr (False, wl)
      else map_sum id (\<lambda>wl'. (True, wl')) (add_ticker symbol name exchange (Some TICKER_ACTIVE) (Some HZ_INTRADAY) now wl))"

definition upsert_upcoming_earnings :: "string \<Rightarrow> date \<Rightarrow> string \<Rightarrow> string \<Rightarrow> stamp \<Rightarrow> watchlist \<Rightarrow> watchlist" where
  "upsert_upcoming_earnings ticker d session period now wl =
     wl\<lparr> wl_earnings := upsert_row er_ticker
          \<lparr> er_ticker = watch_key ticker, er_date = d, er_session = session, er_period = period, er_sent = False, er_updated = now \<rparr>
          (\<lambda>r. r\<lparr> er_date := d, er_session := session, er_period := period, er_updated := now,
                  er_sent := (if er_date r \<noteq> d then False else er_sent r) \<rparr>) (wl_earnings wl) \<rparr>"

definition get_upcoming_earnings :: "watchlist \<Rightarrow> string \<Rightarrow> earnings_row option" where
  "get_upcoming_earnings wl ticker = row_by er_ticker (watch_key ticker) (wl_earnings wl)"

definition list_upcoming_earnings :: "watchlist \<Rightarrow> earnings_row list" where
  "list_upcoming_earnings wl = sort_key er_date (wl_earnings wl)"

definition mark_heads_up_sent :: "string \<Rightarrow> watchlist \<Rightarrow> watchlist" where
  "mark_heads_up_sent ticker wl =
     wl\<lparr> wl_earnings := update_rows (\<lambda>r. er_ticker r = watch_key ticker) (er_sent_update (\<lambda>_. True)) (wl_earnings wl) \<rparr>"

section \<open>Laws\<close>

lemma watch_key_idem [simp]: "watch_key (watch_key s) = watch_key s"
  by (simp add: watch_key_def)

lemma upper_watch_key [simp]: "upper (watch_key s) = watch_key s"
  by (simp add: watch_key_def)

lemma set_symbols_where: "set (symbols_where P wl) = tr_symbol ` {r \<in> set (wl_tickers wl). P r}"
  by (simp add: symbols_where_def)

text \<open>The rows are of distinct, normalized, non-empty symbols, and the earnings rows of distinct, normalized tickers.\<close>

definition watch_ok :: "watchlist \<Rightarrow> bool" where
  "watch_ok wl \<longleftrightarrow> distinct (map tr_symbol (wl_tickers wl)) \<and> distinct (map er_ticker (wl_earnings wl))
     \<and> list_all (\<lambda>r. tr_symbol r \<noteq> [] \<and> watch_key (tr_symbol r) = tr_symbol r) (wl_tickers wl)
     \<and> list_all (\<lambda>r. watch_key (er_ticker r) = er_ticker r) (wl_earnings wl)"

locale ticker_column =
  fixes get :: "ticker_row \<Rightarrow> 'v" and put :: "'v \<Rightarrow> ticker_row \<Rightarrow> ticker_row"
  assumes get_put: "get (put v r) = v"
    and put_symbol: "tr_symbol (put v r) = tr_symbol r"
begin

lemma column_ok: "watch_ok wl \<Longrightarrow> watch_ok (set_column (put v) symbol wl)"
proof -
  have "map tr_symbol (update_rows P (put v) rows) = map tr_symbol rows" for P rows
    by (rule map_update_rows) (rule put_symbol)
  then show "watch_ok wl \<Longrightarrow> watch_ok (set_column (put v) symbol wl)"
    by (auto simp: watch_ok_def set_column_def list_all_iff in_update_rows put_symbol split: if_splits)
qed

text \<open>What a query on the column selects after a write.\<close>

lemma column_select:
  "set (symbols_where (\<lambda>r. Q (get r)) (set_column (put v) symbol wl)) =
     set (symbols_where (\<lambda>r. Q (get r)) wl) - {watch_key symbol}
       \<union> (if Q v \<and> watch_key symbol \<in> tr_symbol ` set (wl_tickers wl) then {watch_key symbol} else {})"
  by (cases "Q v") (auto simp: set_symbols_where set_column_def update_rows_select get_put put_symbol image_iff)

text \<open>A query on another column does not see the write.\<close>

lemma column_other:
  assumes "\<And>r. Q (put v r) = Q r"
  shows "set (symbols_where Q (set_column (put v) symbol wl)) = set (symbols_where Q wl)"
  using assms by (auto simp: set_symbols_where set_column_def update_rows_select put_symbol image_iff) metis

end

interpretation status_column: ticker_column tr_status "\<lambda>v. tr_status_update (\<lambda>_. v)"
  by unfold_locales simp_all

interpretation paper_column: ticker_column tr_paper "\<lambda>v. tr_paper_update (\<lambda>_. v)"
  by unfold_locales simp_all

interpretation paper_lt_column: ticker_column tr_paper_lt "\<lambda>v. tr_paper_lt_update (\<lambda>_. v)"
  by unfold_locales simp_all

interpretation horizon_column: ticker_column tr_horizon "\<lambda>v. tr_horizon_update (\<lambda>_. v)"
  by unfold_locales simp_all

lemma add_ticker_ok:
  assumes "watch_ok wl" "add_ticker symbol name exchange status horizon now wl = Inr wl'"
  shows "watch_ok wl'"
proof -
  obtain new f where wl': "wl' = wl\<lparr> wl_tickers := upsert_row tr_symbol new f (wl_tickers wl) \<rparr>"
    and new: "tr_symbol new \<noteq> []" "watch_key (tr_symbol new) = tr_symbol new" and f: "\<And>r. tr_symbol (f r) = tr_symbol r"
    using assms(2) by (auto simp: add_ticker_def Let_def split: if_splits option.splits intro: that)
  have "tr_symbol r \<noteq> [] \<and> watch_key (tr_symbol r) = tr_symbol r" if r: "r \<in> set (upsert_row tr_symbol new f (wl_tickers wl))" for r
    using upsert_row_mem [OF r] assms(1) new f by (auto simp: watch_ok_def list_all_iff split: if_splits)
  with assms(1) f show ?thesis unfolding wl' by (simp add: watch_ok_def upsert_distinct list_all_iff)
qed

lemma remove_ticker_ok: "watch_ok wl \<Longrightarrow> watch_ok (remove_ticker symbol wl)"
  by (auto simp: watch_ok_def remove_ticker_def list_all_iff distinct_map_filter)

lemma upsert_earnings_ok:
  assumes "watch_ok wl"
  shows "watch_ok (upsert_upcoming_earnings ticker d session period now wl)"
proof -
  let ?new = "\<lparr> er_ticker = watch_key ticker, er_date = d, er_session = session, er_period = period, er_sent = False, er_updated = now \<rparr>"
  let ?f = "\<lambda>r. r\<lparr> er_date := d, er_session := session, er_period := period, er_updated := now, er_sent := (if er_date r \<noteq> d then False else er_sent r) \<rparr>"
  have "watch_key (er_ticker r) = er_ticker r" if r: "r \<in> set (upsert_row er_ticker ?new ?f (wl_earnings wl))" for r
    using upsert_row_mem [OF r] assms by (auto simp: watch_ok_def list_all_iff)
  with assms show ?thesis by (simp add: watch_ok_def upsert_upcoming_earnings_def upsert_distinct list_all_iff)
qed

lemma mark_heads_up_ok: "watch_ok wl \<Longrightarrow> watch_ok (mark_heads_up_sent ticker wl)"
proof -
  have "map er_ticker (update_rows P (er_sent_update (\<lambda>_. True)) rows) = map er_ticker rows" for P and rows :: "earnings_row list"
    by (rule map_update_rows) simp
  then show "watch_ok wl \<Longrightarrow> watch_ok (mark_heads_up_sent ticker wl)"
    by (simp add: watch_ok_def mark_heads_up_sent_def list_all_iff) (auto simp: in_update_rows)
qed

end
