(* ===== verification/Dispatch_Agent.thy ===== *)
theory Dispatch_Agent
  imports Dispatch_Store Watch_Store
begin

text \<open>
  \<open>talonx_dispatch/consumer.py\<close> and \<open>telegram_client.py\<close>: every alert is recorded once, then maybe pushed.  What Telegram
  answers to the requests of one send is an argument, as is the clock; message texts, metric counters and log lines are left out.
  \<open>ag_log\<close> lists the pushes Telegram confirmed, a history the code does not keep.
\<close>

section \<open>Configuration and state\<close>

record dispatch_config =
  dc_configured :: bool
  dc_min_severity :: v1_severity
  dc_mute :: bool
  dc_min_confidence :: money
  dc_push_cooldown :: int
  dc_retrigger_pct :: money
  dc_max_retries :: nat
  dc_retention :: int
  dc_heads_up_window :: int

record push_entry =
  px_domain :: push_domain
  px_ticker :: symbol
  px_at :: stamp
  px_price :: "money option"
  px_earnings :: bool
  px_id :: "string option"

record dispatch_agent =
  ag_db :: dispatch_db
  ag_pushes :: "symbol \<rightharpoonup> stamp \<times> money option"
  ag_lt_pushes :: "symbol \<rightharpoonup> stamp \<times> money option"
  ag_signals :: "symbol \<rightharpoonup> fundamental_signal"
  ag_reports :: "symbol \<rightharpoonup> lt_report"
  ag_processed :: nat
  ag_sent :: nat
  ag_failed :: nat
  ag_purged :: nat
  ag_lt_processed :: nat
  ag_lt_sent :: nat
  ag_lt_failed :: nat
  ag_lt_purged :: nat
  ag_rejected :: nat
  ag_blocked :: "horizon \<times> push_block \<Rightarrow> nat"
  ag_eod_muted :: nat
  ag_heads_up :: nat
  ag_log :: "push_entry list"

datatype dispatch_message =
    DM_ALERT "string option" core_alert
  | DM_LT_ALERT "string option" lt_core_alert
  | DM_TRADE v1_action v1_trade
  | DM_LT_TRADE lt_trade
  | DM_FUNDAMENTAL fundamental_signal
  | DM_LT_REPORT lt_report
  | DM_REJECTED rejected_candidate

section \<open>The Telegram client\<close>

text \<open>The answer to one request; an unconfirmed one may have arrived.  A send is what it reports and how many copies arrived.\<close>

datatype tg_outcome = TG_ACCEPTED | TG_DENIED | TG_RATE_LIMITED | TG_UNCONFIRMED bool | TG_ERROR

datatype tg_result = SEND_OK | SEND_FAILED | SEND_AMBIGUOUS

fun send_attempts :: "(nat \<Rightarrow> tg_outcome) \<Rightarrow> bool \<Rightarrow> nat \<Rightarrow> nat \<Rightarrow> tg_result \<times> nat \<times> nat" where
  "send_attempts answer retry_ambiguous left k =
     (case answer k of
        TG_ACCEPTED \<Rightarrow> (SEND_OK, 1, Suc k)
      | TG_DENIED \<Rightarrow> (SEND_FAILED, 0, Suc k)
      | TG_UNCONFIRMED arrived \<Rightarrow>
          if \<not> retry_ambiguous then (SEND_AMBIGUOUS, of_bool arrived, Suc k)
          else (case left of 0 \<Rightarrow> (SEND_FAILED, of_bool arrived, Suc k)
                | Suc m \<Rightarrow> (case send_attempts answer retry_ambiguous m (Suc k) of (r, n, q) \<Rightarrow> (r, of_bool arrived + n, q)))
      | _ \<Rightarrow> (case left of 0 \<Rightarrow> (SEND_FAILED, 0, Suc k) | Suc m \<Rightarrow> send_attempts answer retry_ambiguous m (Suc k)))"

declare send_attempts.simps [simp del]

text \<open>\<open>None\<close> when the client is not configured; otherwise the result, the copies that arrived and the requests made.\<close>

definition telegram_client_send :: "dispatch_config \<Rightarrow> (nat \<Rightarrow> tg_outcome) \<Rightarrow> bool \<Rightarrow> (tg_result \<times> nat \<times> nat) option" where
  "telegram_client_send cfg answer retry_ambiguous =
     (if \<not> dc_configured cfg then None else Some (send_attempts answer retry_ambiguous (dc_max_retries cfg) 0))"

definition send_went_through :: "dispatch_config \<Rightarrow> (nat \<Rightarrow> tg_outcome) \<Rightarrow> bool" where
  "send_went_through cfg answer =
     (case telegram_client_send cfg answer True of None \<Rightarrow> True | Some (r, _) \<Rightarrow> r = SEND_OK)"

section \<open>Eligibility\<close>

definition push_actions_intraday :: "v1_action list" where
  "push_actions_intraday = [CONFIRMED_BULLISH, CONFIRMED_BEARISH]"

definition push_actions_long_term :: "v1_action list" where
  "push_actions_long_term = [HIGH_CONVICTION_BUY, TAKE_PROFIT_REBALANCE, UNDER_PERFORM_REBALANCE]"

definition evaluate_push_eligibility ::
    "v1_action \<Rightarrow> v1_action list \<Rightarrow> money option \<Rightarrow> money \<Rightarrow> (stamp \<times> money option) option \<Rightarrow> dispatch_config \<Rightarrow> stamp \<Rightarrow> push_block option" where
  "evaluate_push_eligibility action eligible confidence price last_push cfg now =
     (if dc_mute cfg \<and> action \<notin> set eligible then Some ACTION_MUTED
      else if (case confidence of None \<Rightarrow> False | Some c \<Rightarrow> c < dc_min_confidence cfg) then Some CONFIDENCE_BELOW_GATE
      else case last_push of None \<Rightarrow> None
        | Some (at_ts, last_price) \<Rightarrow>
            if now - at_ts < dc_push_cooldown cfg
            then (case last_price of None \<Rightarrow> Some PUSH_COOLDOWN_ACTIVE
              | Some p \<Rightarrow> if p = 0 then Some PUSH_COOLDOWN_ACTIVE
                  else if dc_retrigger_pct cfg \<le> fl (fl (\<bar>fl (price - p)\<bar> / p) * 100) then None else Some PRICE_DELTA_TOO_LOW)
            else None)"

definition record_push_suppression :: "push_block \<Rightarrow> horizon \<Rightarrow> dispatch_agent \<Rightarrow> dispatch_agent" where
  "record_push_suppression why h ag =
     (let slot = (h, if h = LONG_TERM \<and> why = CONFIDENCE_BELOW_GATE then PUSH_COOLDOWN_ACTIVE else why)
      in ag\<lparr> ag_blocked := (ag_blocked ag)(slot := Suc (ag_blocked ag slot)) \<rparr>)"

section \<open>Pushing\<close>

definition on_db :: "(dispatch_db \<Rightarrow> dispatch_db) \<Rightarrow> dispatch_agent \<Rightarrow> dispatch_agent" where
  "on_db f ag = ag\<lparr> ag_db := f (ag_db ag) \<rparr>"

definition log_push :: "push_domain \<Rightarrow> symbol \<Rightarrow> stamp \<Rightarrow> money option \<Rightarrow> bool \<Rightarrow> string option \<Rightarrow> dispatch_agent \<Rightarrow> dispatch_agent" where
  "log_push d ticker now price earnings oid ag =
     ag\<lparr> ag_log := ag_log ag @ [\<lparr> px_domain = d, px_ticker = ticker, px_at = now, px_price = price, px_earnings = earnings, px_id = real_id oid \<rparr>] \<rparr>"

definition maybe_send_telegram ::
    "dispatch_config \<Rightarrow> stamp \<Rightarrow> (nat \<Rightarrow> tg_outcome) \<Rightarrow> string option \<Rightarrow> core_alert \<Rightarrow> nat \<Rightarrow> dispatch_agent \<Rightarrow> dispatch_agent" where
  "maybe_send_telegram cfg now answer oid a i ag =
     (if \<not> dc_configured cfg \<or> severity_rank (ac_severity a) < severity_rank (dc_min_severity cfg) then ag
      else let ticker = upper (ac_ticker a); price = qs_price (ac_signal a)
        in case evaluate_push_eligibility (ac_action a) push_actions_intraday (Some (ac_confidence a)) price (ag_pushes ag ticker) cfg now of
             Some why \<Rightarrow> record_push_suppression why INTRADAY (on_db (mark_suppressed i why) ag)
           | None \<Rightarrow>
               if send_went_through cfg answer
               then let ag1 = on_db (save_last_telegram_push ticker PUSH_DAY now (Some price) \<circ> mark_telegram_sent i now) ag
                    in log_push PUSH_DAY ticker now (Some price) False oid
                         (ag1\<lparr> ag_pushes := (ag_pushes ag1)(ticker \<mapsto> (now, Some price)), ag_sent := Suc (ag_sent ag1) \<rparr>)
               else (on_db (mark_telegram_failed i) ag)\<lparr> ag_failed := Suc (ag_failed ag) \<rparr>)"

definition maybe_send_long_term_telegram ::
    "dispatch_config \<Rightarrow> stamp \<Rightarrow> (nat \<Rightarrow> tg_outcome) \<Rightarrow> string option \<Rightarrow> lt_core_alert \<Rightarrow> nat \<Rightarrow> dispatch_agent \<Rightarrow> dispatch_agent" where
  "maybe_send_long_term_telegram cfg now answer oid a i ag =
     (if \<not> dc_configured cfg \<or> (\<not> al_earnings a \<and> severity_rank (al_severity a) < severity_rank (dc_min_severity cfg)) then ag
      else let ticker = upper (al_ticker a); price = al_price a;
               block = (if al_earnings a then None
                        else evaluate_push_eligibility (al_action a) push_actions_long_term None price (ag_lt_pushes ag ticker) cfg now)
        in case block of
             Some why \<Rightarrow> record_push_suppression why LONG_TERM (on_db (mark_long_term_suppressed i why) ag)
           | None \<Rightarrow>
               if send_went_through cfg answer
               then let ag1 = on_db (save_last_telegram_push ticker PUSH_LONG now (Some price) \<circ> mark_long_term_telegram_sent i now) ag
                    in log_push PUSH_LONG ticker now (Some price) (al_earnings a) oid
                         (ag1\<lparr> ag_lt_pushes := (ag_lt_pushes ag1)(ticker \<mapsto> (now, Some price)), ag_lt_sent := Suc (ag_lt_sent ag1) \<rparr>)
               else (on_db (mark_long_term_telegram_failed i) ag)\<lparr> ag_lt_failed := Suc (ag_lt_failed ag) \<rparr>)"

section \<open>Handlers\<close>

text \<open>The three commits before a push, apart because the process may die between them.\<close>

definition recorded_alert :: "stamp \<Rightarrow> core_alert \<Rightarrow> dispatch_agent \<Rightarrow> nat \<times> dispatch_agent" where
  "recorded_alert now a ag =
     (case record_alert a now (ag_db ag) of (i, db) \<Rightarrow> (i, ag\<lparr> ag_db := db, ag_processed := Suc (ag_processed ag) \<rparr>))"

definition recorded_lt_alert :: "stamp \<Rightarrow> lt_core_alert \<Rightarrow> dispatch_agent \<Rightarrow> nat \<times> dispatch_agent" where
  "recorded_lt_alert now a ag =
     (case record_long_term_alert a now (ag_db ag) of (i, db) \<Rightarrow> (i, ag\<lparr> ag_db := db, ag_lt_processed := Suc (ag_lt_processed ag) \<rparr>))"

definition handle_dispatch_alert ::
    "dispatch_config \<Rightarrow> stamp \<Rightarrow> (nat \<Rightarrow> tg_outcome) \<Rightarrow> string option \<Rightarrow> core_alert \<Rightarrow> dispatch_agent \<Rightarrow> dispatch_agent" where
  "handle_dispatch_alert cfg now answer oid a ag =
     (if alert_outbox_id_already_processed oid (ag_db ag) then ag
      else case recorded_alert now a ag of (i, ag1) \<Rightarrow>
        maybe_send_telegram cfg now answer oid a i (on_db (mark_alert_outbox_id_processed oid INTRADAY now) ag1))"

definition handle_dispatch_lt_alert ::
    "dispatch_config \<Rightarrow> stamp \<Rightarrow> (nat \<Rightarrow> tg_outcome) \<Rightarrow> string option \<Rightarrow> lt_core_alert \<Rightarrow> dispatch_agent \<Rightarrow> dispatch_agent" where
  "handle_dispatch_lt_alert cfg now answer oid a ag =
     (if alert_outbox_id_already_processed oid (ag_db ag) then ag
      else case recorded_lt_alert now a ag of (i, ag1) \<Rightarrow>
        maybe_send_long_term_telegram cfg now answer oid a i (on_db (mark_alert_outbox_id_processed oid LONG_TERM now) ag1))"

definition handle_trade_execution :: "stamp \<Rightarrow> v1_action \<Rightarrow> v1_trade \<Rightarrow> dispatch_agent \<Rightarrow> dispatch_agent" where
  "handle_trade_execution now action t ag =
     (if action = EOD_FLAT_LIQUIDATION
      then (on_db (record_paper_trade_notification (vt_id t) (vt_ticker t) (vt_order t) action False True now) ag)\<lparr> ag_eod_muted := Suc (ag_eod_muted ag) \<rparr>
      else ag)"

definition handle_fundamental_signal :: "stamp \<Rightarrow> fundamental_signal \<Rightarrow> dispatch_agent \<Rightarrow> dispatch_agent" where
  "handle_fundamental_signal now s ag =
     (on_db (save_latest_fundamental_signal_cache (fs_ticker s) s now) ag)\<lparr> ag_signals := (ag_signals ag)(upper (fs_ticker s) \<mapsto> s) \<rparr>"

definition handle_longterm_report :: "stamp \<Rightarrow> lt_report \<Rightarrow> dispatch_agent \<Rightarrow> dispatch_agent" where
  "handle_longterm_report now r ag =
     (on_db (save_latest_longterm_report_cache (lr_ticker r) r now) ag)\<lparr> ag_reports := (ag_reports ag)(upper (lr_ticker r) \<mapsto> r) \<rparr>"

definition handle_rejected_candidate :: "rejected_candidate \<Rightarrow> dispatch_agent \<Rightarrow> dispatch_agent" where
  "handle_rejected_candidate c ag = (on_db (record_rejected_candidate c) ag)\<lparr> ag_rejected := Suc (ag_rejected ag) \<rparr>"

text \<open>A message that fails validation is \<open>None\<close>; the push of a trade changes no state.\<close>

definition handle_dispatch_message ::
    "dispatch_config \<Rightarrow> stamp \<Rightarrow> (nat \<Rightarrow> tg_outcome) \<Rightarrow> dispatch_message option \<Rightarrow> dispatch_agent \<Rightarrow> dispatch_agent" where
  "handle_dispatch_message cfg now answer message ag =
     (case message of
        None \<Rightarrow> ag
      | Some (DM_ALERT oid a) \<Rightarrow> handle_dispatch_alert cfg now answer oid a ag
      | Some (DM_LT_ALERT oid a) \<Rightarrow> handle_dispatch_lt_alert cfg now answer oid a ag
      | Some (DM_TRADE action t) \<Rightarrow> handle_trade_execution now action t ag
      | Some (DM_LT_TRADE t) \<Rightarrow> ag
      | Some (DM_FUNDAMENTAL s) \<Rightarrow> handle_fundamental_signal now s ag
      | Some (DM_LT_REPORT r) \<Rightarrow> handle_longterm_report now r ag
      | Some (DM_REJECTED c) \<Rightarrow> handle_rejected_candidate c ag)"

definition run_retention_sweep_once :: "dispatch_config \<Rightarrow> stamp \<Rightarrow> dispatch_agent \<Rightarrow> nat \<times> dispatch_agent" where
  "run_retention_sweep_once cfg now ag =
     (let cutoff = now - dc_retention cfg; (n, db1) = purge_older_than cutoff (ag_db ag);
          (m, db2) = purge_long_term_older_than cutoff db1; (k, db3) = purge_rejected_candidates_older_than cutoff db2
      in (n + m + k, ag\<lparr> ag_db := db3, ag_purged := ag_purged ag + n, ag_lt_purged := ag_lt_purged ag + m \<rparr>))"

section \<open>Earnings heads-up\<close>

definition midnight_utc :: "date \<Rightarrow> stamp" where
  "midnight_utc d = (d - 719163) * day_us"

definition heads_up_due :: "dispatch_config \<Rightarrow> stamp \<Rightarrow> earnings_row \<Rightarrow> bool" where
  "heads_up_due cfg now r \<longleftrightarrow> \<not> er_sent r \<and> now \<le> midnight_utc (er_date r) + day_us
     \<and> midnight_utc (er_date r) \<le> now + dc_heads_up_window cfg"

definition heads_up_one ::
    "dispatch_config \<Rightarrow> stamp \<Rightarrow> (string \<Rightarrow> nat \<Rightarrow> tg_outcome) \<Rightarrow> earnings_row \<Rightarrow> dispatch_agent \<times> watchlist \<Rightarrow> dispatch_agent \<times> watchlist" where
  "heads_up_one cfg now answer r s =
     (case s of (ag, wl) \<Rightarrow>
        if heads_up_due cfg now r \<and> ag_signals ag (er_ticker r) \<noteq> None \<and> ag_reports ag (er_ticker r) \<noteq> None
           \<and> send_went_through cfg (answer (er_ticker r))
        then (log_push PUSH_HEADS_UP (er_ticker r) now None True None
                ((on_db (save_last_telegram_push (er_ticker r) PUSH_HEADS_UP now None) ag)\<lparr> ag_heads_up := Suc (ag_heads_up ag) \<rparr>),
              mark_heads_up_sent (er_ticker r) wl)
        else s)"

text \<open>The rows are read once, before the first send.\<close>

definition run_earnings_heads_up_once ::
    "dispatch_config \<Rightarrow> stamp \<Rightarrow> (string \<Rightarrow> nat \<Rightarrow> tg_outcome) \<Rightarrow> dispatch_agent \<times> watchlist \<Rightarrow> dispatch_agent \<times> watchlist" where
  "run_earnings_heads_up_once cfg now answer s =
     (if \<not> dc_configured cfg then s else fold (heads_up_one cfg now answer) (list_upcoming_earnings (snd s)) s)"

section \<open>Starting\<close>

text \<open>A new process: the caches come from the store, the counters start again.\<close>

definition start_agent :: "dispatch_db \<Rightarrow> push_entry list \<Rightarrow> dispatch_agent" where
  "start_agent db plog =
     \<lparr> ag_db = db, ag_pushes = load_last_telegram_pushes PUSH_DAY db, ag_lt_pushes = load_last_telegram_pushes PUSH_LONG db,
       ag_signals = load_earnings_signals db, ag_reports = load_earnings_reports db,
       ag_processed = 0, ag_sent = 0, ag_failed = 0, ag_purged = 0, ag_lt_processed = 0, ag_lt_sent = 0, ag_lt_failed = 0, ag_lt_purged = 0,
       ag_rejected = 0, ag_blocked = (\<lambda>_. 0), ag_eod_muted = 0, ag_heads_up = 0, ag_log = plog \<rparr>"

definition restart_agent :: "dispatch_agent \<Rightarrow> dispatch_agent" where
  "restart_agent ag = start_agent (ag_db ag) (ag_log ag)"

text \<open>
  The runs: the clock never runs backwards, the watchlist is whatever the other processes left it, and the process may die
  and start again at any moment, also after recording an alert and before the next commit.  Left out is a death between the
  confirmation of a push and the write of its cooldown, after which the next push of that ticker may come early.
\<close>

inductive dispatch_step :: "dispatch_config \<Rightarrow> stamp \<times> dispatch_agent \<Rightarrow> stamp \<times> dispatch_agent \<Rightarrow> bool" for cfg where
  ds_message: "t \<le> now \<Longrightarrow> dispatch_step cfg (t, ag) (now, handle_dispatch_message cfg now answer message ag)"
| ds_sweep: "t \<le> now \<Longrightarrow> dispatch_step cfg (t, ag) (now, snd (run_retention_sweep_once cfg now ag))"
| ds_heads_up: "t \<le> now \<Longrightarrow> dispatch_step cfg (t, ag) (now, fst (run_earnings_heads_up_once cfg now answers (ag, wl)))"
| ds_restart: "t \<le> now \<Longrightarrow> dispatch_step cfg (t, ag) (now, restart_agent ag)"
| ds_dies_recording: "t \<le> now \<Longrightarrow> \<not> alert_outbox_id_already_processed oid (ag_db ag) \<Longrightarrow>
    dispatch_step cfg (t, ag) (now, restart_agent (snd (recorded_alert now a ag)))"
| ds_dies_recording_lt: "t \<le> now \<Longrightarrow> \<not> alert_outbox_id_already_processed oid (ag_db ag) \<Longrightarrow>
    dispatch_step cfg (t, ag) (now, restart_agent (snd (recorded_lt_alert now b ag)))"
| ds_dies_marking: "t \<le> now \<Longrightarrow> \<not> alert_outbox_id_already_processed oid (ag_db ag) \<Longrightarrow>
    dispatch_step cfg (t, ag) (now, restart_agent (on_db (mark_alert_outbox_id_processed oid INTRADAY now) (snd (recorded_alert now a ag))))"
| ds_dies_marking_lt: "t \<le> now \<Longrightarrow> \<not> alert_outbox_id_already_processed oid (ag_db ag) \<Longrightarrow>
    dispatch_step cfg (t, ag) (now, restart_agent (on_db (mark_alert_outbox_id_processed oid LONG_TERM now) (snd (recorded_lt_alert now b ag))))"

inductive dispatch_reachable :: "dispatch_config \<Rightarrow> stamp \<times> dispatch_agent \<Rightarrow> bool" for cfg where
  dr_start: "dispatch_reachable cfg (t, start_agent fresh_dispatch_db [])"
| dr_next: "dispatch_reachable cfg s \<Longrightarrow> dispatch_step cfg s s' \<Longrightarrow> dispatch_reachable cfg s'"

end
