(* ===== verification/Dispatch_Safety.thy ===== *)
theory Dispatch_Safety
  imports Dispatch_Agent Core_Safety
begin

text \<open>
  What holds in every run of the dispatch agent, and of the decision engine and the agent together: an alert is pushed
  at most once, the pushes of a ticker keep their cooldown, every alert leaves one audit row, a restart loses nothing.
\<close>

section \<open>The invariant\<close>

definition logged_ids :: "push_entry list \<Rightarrow> string list" where
  "logged_ids plog = List.map_filter px_id plog"

definition pushes_of :: "push_domain \<Rightarrow> symbol \<Rightarrow> push_entry list \<Rightarrow> push_entry list" where
  "pushes_of d k plog = filter (\<lambda>p. px_domain p = d \<and> px_ticker p = k) plog"

definition last_push :: "push_domain \<Rightarrow> push_entry list \<Rightarrow> symbol \<rightharpoonup> stamp \<times> money option" where
  "last_push d plog k = (let ps = pushes_of d k plog in if ps = [] then None else Some (px_at (last ps), px_price (last ps)))"

text \<open>What may follow a push: an earnings alert, or one after the cooldown, or one at a price that moved enough.\<close>

definition push_allowed :: "dispatch_config \<Rightarrow> push_entry \<Rightarrow> push_entry \<Rightarrow> bool" where
  "push_allowed cfg p q \<longleftrightarrow> px_earnings q \<or> dc_push_cooldown cfg \<le> px_at q - px_at p
     \<or> (case (px_price p, px_price q) of
          (Some x, Some y) \<Rightarrow> x \<noteq> 0 \<and> dc_retrigger_pct cfg \<le> fl (fl (\<bar>fl (y - x)\<bar> / x) * 100)
        | _ \<Rightarrow> False)"

definition ids_ok :: "dispatch_agent \<Rightarrow> bool" where
  "ids_ok ag \<longleftrightarrow> distinct (logged_ids (ag_log ag)) \<and> set (logged_ids (ag_log ag)) \<subseteq> po_id ` set (db_processed (ag_db ag))"

definition caches_ok :: "dispatch_agent \<Rightarrow> bool" where
  "caches_ok ag \<longleftrightarrow> ag_pushes ag = load_last_telegram_pushes PUSH_DAY (ag_db ag) \<and> ag_lt_pushes ag = load_last_telegram_pushes PUSH_LONG (ag_db ag)
     \<and> ag_signals ag = load_earnings_signals (ag_db ag) \<and> ag_reports ag = load_earnings_reports (ag_db ag)"

definition pushes_ok :: "dispatch_config \<Rightarrow> dispatch_agent \<Rightarrow> bool" where
  "pushes_ok cfg ag \<longleftrightarrow> ag_pushes ag = last_push PUSH_DAY (ag_log ag) \<and> ag_lt_pushes ag = last_push PUSH_LONG (ag_log ag)
     \<and> (\<forall>k. successively (push_allowed cfg) (pushes_of PUSH_DAY k (ag_log ag)) \<and> successively (push_allowed cfg) (pushes_of PUSH_LONG k (ag_log ag)))"

definition tables_ok :: "dispatch_agent \<Rightarrow> bool" where
  "tables_ok ag \<longleftrightarrow> audit_ok (db_alerts (ag_db ag)) \<and> audit_ok (db_lt_alerts (ag_db ag))"

definition agent_ok :: "dispatch_config \<Rightarrow> dispatch_agent \<Rightarrow> bool" where
  "agent_ok cfg ag \<longleftrightarrow> ids_ok ag \<and> caches_ok ag \<and> pushes_ok cfg ag \<and> tables_ok ag"

section \<open>Frames\<close>

lemma db_frames [simp]:
  "db_pushes (snd (record_alert a now db)) = db_pushes db" "db_context (snd (record_alert a now db)) = db_context db"
  "db_processed (snd (record_alert a now db)) = db_processed db" "db_lt_alerts (snd (record_alert a now db)) = db_lt_alerts db"
  "db_pushes (snd (record_long_term_alert b now db)) = db_pushes db" "db_context (snd (record_long_term_alert b now db)) = db_context db"
  "db_processed (snd (record_long_term_alert b now db)) = db_processed db" "db_alerts (snd (record_long_term_alert b now db)) = db_alerts db"
  "db_pushes (mark_telegram_sent i now db) = db_pushes db" "db_context (mark_telegram_sent i now db) = db_context db"
  "db_processed (mark_telegram_sent i now db) = db_processed db" "db_lt_alerts (mark_telegram_sent i now db) = db_lt_alerts db"
  "db_pushes (mark_telegram_failed i db) = db_pushes db" "db_context (mark_telegram_failed i db) = db_context db"
  "db_processed (mark_telegram_failed i db) = db_processed db" "db_lt_alerts (mark_telegram_failed i db) = db_lt_alerts db"
  "db_pushes (mark_suppressed i why db) = db_pushes db" "db_context (mark_suppressed i why db) = db_context db"
  "db_processed (mark_suppressed i why db) = db_processed db" "db_lt_alerts (mark_suppressed i why db) = db_lt_alerts db"
  "db_pushes (mark_long_term_telegram_sent i now db) = db_pushes db" "db_context (mark_long_term_telegram_sent i now db) = db_context db"
  "db_processed (mark_long_term_telegram_sent i now db) = db_processed db" "db_alerts (mark_long_term_telegram_sent i now db) = db_alerts db"
  "db_pushes (mark_long_term_telegram_failed i db) = db_pushes db" "db_context (mark_long_term_telegram_failed i db) = db_context db"
  "db_processed (mark_long_term_telegram_failed i db) = db_processed db" "db_alerts (mark_long_term_telegram_failed i db) = db_alerts db"
  "db_pushes (mark_long_term_suppressed i why db) = db_pushes db" "db_context (mark_long_term_suppressed i why db) = db_context db"
  "db_processed (mark_long_term_suppressed i why db) = db_processed db" "db_alerts (mark_long_term_suppressed i why db) = db_alerts db"
  by (simp_all add: record_alert_def record_long_term_alert_def mark_telegram_sent_def mark_telegram_failed_def mark_suppressed_def
      mark_long_term_telegram_sent_def mark_long_term_telegram_failed_def mark_long_term_suppressed_def)

lemma db_frames_more [simp]:
  "db_pushes (mark_alert_outbox_id_processed oid h now db) = db_pushes db" "db_context (mark_alert_outbox_id_processed oid h now db) = db_context db"
  "db_alerts (mark_alert_outbox_id_processed oid h now db) = db_alerts db" "db_lt_alerts (mark_alert_outbox_id_processed oid h now db) = db_lt_alerts db"
  "db_context (save_last_telegram_push k d now price db) = db_context db" "db_processed (save_last_telegram_push k d now price db) = db_processed db"
  "db_alerts (save_last_telegram_push k d now price db) = db_alerts db" "db_lt_alerts (save_last_telegram_push k d now price db) = db_lt_alerts db"
  "db_pushes (save_latest_fundamental_signal_cache k s now db) = db_pushes db" "db_processed (save_latest_fundamental_signal_cache k s now db) = db_processed db"
  "db_alerts (save_latest_fundamental_signal_cache k s now db) = db_alerts db" "db_lt_alerts (save_latest_fundamental_signal_cache k s now db) = db_lt_alerts db"
  "db_pushes (save_latest_longterm_report_cache k rep now db) = db_pushes db" "db_processed (save_latest_longterm_report_cache k rep now db) = db_processed db"
  "db_alerts (save_latest_longterm_report_cache k rep now db) = db_alerts db" "db_lt_alerts (save_latest_longterm_report_cache k rep now db) = db_lt_alerts db"
  "db_pushes (record_paper_trade_notification i k odr action sent routine now db) = db_pushes db"
  "db_context (record_paper_trade_notification i k odr action sent routine now db) = db_context db"
  "db_processed (record_paper_trade_notification i k odr action sent routine now db) = db_processed db"
  "db_alerts (record_paper_trade_notification i k odr action sent routine now db) = db_alerts db"
  "db_lt_alerts (record_paper_trade_notification i k odr action sent routine now db) = db_lt_alerts db"
  "db_pushes (record_rejected_candidate c db) = db_pushes db" "db_context (record_rejected_candidate c db) = db_context db"
  "db_processed (record_rejected_candidate c db) = db_processed db" "db_alerts (record_rejected_candidate c db) = db_alerts db"
  "db_lt_alerts (record_rejected_candidate c db) = db_lt_alerts db"
  by (simp_all add: mark_alert_outbox_id_processed_def save_last_telegram_push_def save_latest_fundamental_signal_cache_def
      save_latest_longterm_report_cache_def record_paper_trade_notification_def record_rejected_candidate_def split: option.split)

text \<open>The loaded caches depend on their own table only.\<close>

lemma loads_cong:
  "db_pushes db' = db_pushes db \<Longrightarrow> load_last_telegram_pushes d db' = load_last_telegram_pushes d db"
  "db_context db' = db_context db \<Longrightarrow> load_earnings_signals db' = load_earnings_signals db"
  "db_context db' = db_context db \<Longrightarrow> load_earnings_reports db' = load_earnings_reports db"
  by (simp_all add: fun_eq_iff load_last_telegram_pushes_def load_earnings_signals_def load_earnings_reports_def)

text \<open>An agent whose caches, pushes and their plog are those of another, and whose processed identifiers only grew.\<close>

definition quiet :: "dispatch_agent \<Rightarrow> dispatch_agent \<Rightarrow> bool" where
  "quiet ag ag' \<longleftrightarrow> ag_log ag' = ag_log ag \<and> ag_pushes ag' = ag_pushes ag \<and> ag_lt_pushes ag' = ag_lt_pushes ag \<and> ag_signals ag' = ag_signals ag
     \<and> ag_reports ag' = ag_reports ag \<and> db_pushes (ag_db ag') = db_pushes (ag_db ag) \<and> db_context (ag_db ag') = db_context (ag_db ag)
     \<and> po_id ` set (db_processed (ag_db ag)) \<subseteq> po_id ` set (db_processed (ag_db ag'))"

lemma quiet_ok:
  assumes "agent_ok cfg ag" "quiet ag ag'" "tables_ok ag'"
  shows "agent_ok cfg ag'"
proof -
  have "load_last_telegram_pushes d (ag_db ag') = load_last_telegram_pushes d (ag_db ag)"
    "load_earnings_signals (ag_db ag') = load_earnings_signals (ag_db ag)" "load_earnings_reports (ag_db ag') = load_earnings_reports (ag_db ag)" for d
    using assms(2) by (auto simp: quiet_def intro!: loads_cong)
  with assms show ?thesis by (auto simp: agent_ok_def quiet_def ids_ok_def caches_ok_def pushes_ok_def)
qed

lemma processed_ids:
  "po_id ` set (db_processed (mark_alert_outbox_id_processed oid h now db)) = set_option (real_id oid) \<union> po_id ` set (db_processed db)"
proof -
  have "po_id ` set (upsert_row po_id new id rows) = insert (po_id new) (po_id ` set rows)" for new :: processed_row and rows
    by (rule upsert_keys) simp
  then show ?thesis by (simp add: mark_alert_outbox_id_processed_def split: option.split)
qed

section \<open>One push\<close>

lemma pushes_of_snoc: "pushes_of d k (plog @ [p]) = pushes_of d k plog @ (if px_domain p = d \<and> px_ticker p = k then [p] else [])"
  by (simp add: pushes_of_def)

lemma last_push_snoc:
  "last_push d (plog @ [p]) = (if px_domain p = d then (last_push d plog)(px_ticker p \<mapsto> (px_at p, px_price p)) else last_push d plog)"
  by (auto simp: fun_eq_iff last_push_def Let_def pushes_of_snoc)

lemma logged_ids_snoc: "logged_ids (plog @ [p]) = logged_ids plog @ (case px_id p of None \<Rightarrow> [] | Some s \<Rightarrow> [s])"
  by (simp add: logged_ids_def map_filter_simps List.map_filter_def split: option.split)

text \<open>A push that the gate allowed after the last one of its ticker may follow it.\<close>

lemma eligible_allowed:
  assumes "evaluate_push_eligibility action eligible confidence price (last_push d plog k) cfg now = None"
    and "px_at p = now" "px_price p = Some price"
  shows "pushes_of d k plog = [] \<or> push_allowed cfg (last (pushes_of d k plog)) p"
  using assms
  by (auto simp: evaluate_push_eligibility_def last_push_def Let_def push_allowed_def split: if_splits option.splits)

text \<open>What the two senders do when the push goes through, with the place of the cache left open.\<close>

definition pushed :: "push_domain \<Rightarrow> symbol \<Rightarrow> stamp \<Rightarrow> money \<Rightarrow> dispatch_agent \<Rightarrow> dispatch_agent" where
  "pushed d k now price ag =
     (if d = PUSH_DAY then ag\<lparr> ag_pushes := (ag_pushes ag)(k \<mapsto> (now, Some price)), ag_sent := Suc (ag_sent ag) \<rparr>
      else ag\<lparr> ag_lt_pushes := (ag_lt_pushes ag)(k \<mapsto> (now, Some price)), ag_lt_sent := Suc (ag_lt_sent ag) \<rparr>)"

lemma push_keeps_ok:
  assumes ok: "agent_ok cfg ag" and k: "upper k = k" and d: "d = PUSH_DAY \<or> d = PUSH_LONG"
    and allowed: "earnings \<or> evaluate_push_eligibility action eligible confidence price (last_push d (ag_log ag) k) cfg now = None"
    and new: "\<And>s. real_id oid = Some s \<Longrightarrow> s \<notin> set (logged_ids (ag_log ag)) \<and> s \<in> po_id ` set (db_processed (ag_db ag))"
    and mark: "\<And>db. db_pushes (mark db) = db_pushes db" "\<And>db. db_context (mark db) = db_context db" "\<And>db. db_processed (mark db) = db_processed db"
    and tables: "tables_ok (on_db mark ag)"
  shows "agent_ok cfg (log_push d k now (Some price) earnings oid (pushed d k now price (on_db (save_last_telegram_push k d now (Some price) \<circ> mark) ag)))"
proof -
  let ?p = "\<lparr> px_domain = d, px_ticker = k, px_at = now, px_price = Some price, px_earnings = earnings, px_id = real_id oid \<rparr>"
  let ?ag = "log_push d k now (Some price) earnings oid (pushed d k now price (on_db (save_last_telegram_push k d now (Some price) \<circ> mark) ag))"
  have plog: "ag_log ?ag = ag_log ag @ [?p]" by (simp add: log_push_def pushed_def on_db_def)
  have db: "ag_db ?ag = save_last_telegram_push k d now (Some price) (mark (ag_db ag))" by (simp add: log_push_def pushed_def on_db_def)
  have caches: "ag_pushes ?ag = (if d = PUSH_DAY then (ag_pushes ag)(k \<mapsto> (now, Some price)) else ag_pushes ag)"
    "ag_lt_pushes ?ag = (if d = PUSH_DAY then ag_lt_pushes ag else (ag_lt_pushes ag)(k \<mapsto> (now, Some price)))"
    "ag_signals ?ag = ag_signals ag" "ag_reports ?ag = ag_reports ag"
    by (simp_all add: log_push_def pushed_def on_db_def)
  have loads: "load_last_telegram_pushes d' (ag_db ?ag) =
      (if d' = d then (load_last_telegram_pushes d (ag_db ag))(k \<mapsto> (now, Some price)) else load_last_telegram_pushes d' (ag_db ag))"
    "load_earnings_signals (ag_db ?ag) = load_earnings_signals (ag_db ag)" "load_earnings_reports (ag_db ?ag) = load_earnings_reports (ag_db ag)" for d'
    unfolding db load_pushes_save using k mark by (simp_all add: loads_cong [of "mark (ag_db ag)" "ag_db ag"] loads_cong(2,3) [of "save_last_telegram_push k d now (Some price) (mark (ag_db ag))" "ag_db ag"])
  have "ids_ok ?ag" using ok new mark(3) unfolding ids_ok_def plog logged_ids_snoc db
    by (auto simp: agent_ok_def ids_ok_def split: option.split)
  moreover have "caches_ok ?ag" using ok d unfolding caches_ok_def loads caches by (auto simp: agent_ok_def caches_ok_def)
  moreover have "pushes_ok cfg ?ag"
  proof -
    have "pushes_of d k (ag_log ag) = [] \<or> push_allowed cfg (last (pushes_of d k (ag_log ag))) ?p"
      using allowed eligible_allowed [of action eligible confidence price d "ag_log ag" k cfg now ?p] by (auto simp: push_allowed_def)
    then have "successively (push_allowed cfg) (pushes_of d' k' (ag_log ?ag))" if "d' = PUSH_DAY \<or> d' = PUSH_LONG" for d' k'
      using ok that unfolding plog pushes_of_snoc by (auto simp: agent_ok_def pushes_ok_def successively_append_iff)
    then show ?thesis using ok d unfolding pushes_ok_def plog last_push_snoc caches by (auto simp: agent_ok_def pushes_ok_def)
  qed
  moreover have "tables_ok ?ag" using tables unfolding tables_ok_def db by (simp add: on_db_def)
  ultimately show ?thesis by (simp add: agent_ok_def)
qed

section \<open>Every operation keeps the invariant\<close>

lemma tables_marks:
  assumes "tables_ok ag"
  shows "tables_ok (on_db (mark_telegram_sent i now) ag)" "tables_ok (on_db (mark_telegram_failed i) ag)" "tables_ok (on_db (mark_suppressed i why) ag)"
    "tables_ok (on_db (mark_long_term_telegram_sent i now) ag)" "tables_ok (on_db (mark_long_term_telegram_failed i) ag)"
    "tables_ok (on_db (mark_long_term_suppressed i why) ag)"
  using assms
  by (simp_all add: tables_ok_def on_db_def mark_telegram_sent_def mark_telegram_failed_def mark_suppressed_def mark_long_term_telegram_sent_def
      mark_long_term_telegram_failed_def mark_long_term_suppressed_def audit_update_ok)

lemma agent_okD:
  assumes "agent_ok cfg ag"
  shows "tables_ok ag" "ag_pushes ag = last_push PUSH_DAY (ag_log ag)" "ag_lt_pushes ag = last_push PUSH_LONG (ag_log ag)"
    "set (logged_ids (ag_log ag)) \<subseteq> po_id ` set (db_processed (ag_db ag))"
  using assms by (auto simp: agent_ok_def pushes_ok_def ids_ok_def)

lemma quiet_simps:
  "quiet ag (record_push_suppression why h (on_db (mark_suppressed i why) ag))"
  "quiet ag (record_push_suppression why h (on_db (mark_long_term_suppressed i why) ag))"
  "quiet ag ((on_db (mark_telegram_failed i) ag)\<lparr> ag_failed := n \<rparr>)"
  "quiet ag ((on_db (mark_long_term_telegram_failed i) ag)\<lparr> ag_lt_failed := n \<rparr>)"
  by (simp_all add: quiet_def record_push_suppression_def Let_def on_db_def)

lemma tables_frames:
  "tables_ok (record_push_suppression why h ag) = tables_ok ag" "tables_ok (ag\<lparr> ag_failed := n \<rparr>) = tables_ok ag"
  "tables_ok (ag\<lparr> ag_lt_failed := n \<rparr>) = tables_ok ag"
  by (simp_all add: tables_ok_def record_push_suppression_def Let_def)

lemma maybe_send_ok:
  assumes ok: "agent_ok cfg ag"
    and new: "\<And>s. real_id oid = Some s \<Longrightarrow> s \<notin> set (logged_ids (ag_log ag)) \<and> s \<in> po_id ` set (db_processed (ag_db ag))"
  shows "agent_ok cfg (maybe_send_telegram cfg now answer oid a i ag)"
proof -
  let ?k = "upper (ac_ticker a)" and ?price = "qs_price (ac_signal a)"
  let ?block = "evaluate_push_eligibility (ac_action a) push_actions_intraday (Some (ac_confidence a)) ?price (ag_pushes ag ?k) cfg now"
  note tables = agent_okD(1) [OF ok]
  have failed: "agent_ok cfg ((on_db (mark_telegram_failed i) ag)\<lparr> ag_failed := n \<rparr>)" for n
    by (rule quiet_ok [OF ok quiet_simps(3)]) (simp add: tables_frames tables_marks tables)
  have blocked: "agent_ok cfg (record_push_suppression why INTRADAY (on_db (mark_suppressed i why) ag))" for why
    by (rule quiet_ok [OF ok quiet_simps(1)]) (simp add: tables_frames tables_marks tables)
  have sent: "agent_ok cfg (log_push PUSH_DAY ?k now (Some ?price) False oid (pushed PUSH_DAY ?k now ?price
      (on_db (save_last_telegram_push ?k PUSH_DAY now (Some ?price) \<circ> mark_telegram_sent i now) ag)))" if "?block = None"
    by (rule push_keeps_ok [OF ok]) (use that new agent_okD(2) [OF ok] in \<open>simp_all add: tables_marks tables\<close>)
  show ?thesis
    using ok failed blocked sent by (simp add: maybe_send_telegram_def Let_def pushed_def on_db_def split: option.split)
qed

lemma maybe_send_lt_ok:
  assumes ok: "agent_ok cfg ag"
    and new: "\<And>s. real_id oid = Some s \<Longrightarrow> s \<notin> set (logged_ids (ag_log ag)) \<and> s \<in> po_id ` set (db_processed (ag_db ag))"
  shows "agent_ok cfg (maybe_send_long_term_telegram cfg now answer oid a i ag)"
proof -
  let ?k = "upper (al_ticker a)" and ?price = "al_price a"
  let ?block = "evaluate_push_eligibility (al_action a) push_actions_long_term None ?price (ag_lt_pushes ag ?k) cfg now"
  note tables = agent_okD(1) [OF ok]
  have failed: "agent_ok cfg ((on_db (mark_long_term_telegram_failed i) ag)\<lparr> ag_lt_failed := n \<rparr>)" for n
    by (rule quiet_ok [OF ok quiet_simps(4)]) (simp add: tables_frames tables_marks tables)
  have blocked: "agent_ok cfg (record_push_suppression why LONG_TERM (on_db (mark_long_term_suppressed i why) ag))" for why
    by (rule quiet_ok [OF ok quiet_simps(2)]) (simp add: tables_frames tables_marks tables)
  have sent: "agent_ok cfg (log_push PUSH_LONG ?k now (Some ?price) (al_earnings a) oid (pushed PUSH_LONG ?k now ?price
      (on_db (save_last_telegram_push ?k PUSH_LONG now (Some ?price) \<circ> mark_long_term_telegram_sent i now) ag)))" if "al_earnings a \<or> ?block = None"
    by (rule push_keeps_ok [OF ok]) (use that new agent_okD(3) [OF ok] in \<open>simp_all add: tables_marks tables\<close>)
  show ?thesis
    using ok failed blocked sent
    by (cases "al_earnings a") (simp_all add: maybe_send_long_term_telegram_def Let_def pushed_def on_db_def split: option.split)
qed

text \<open>Recording and marking an alert, before the push.\<close>

lemma recorded_ok:
  assumes "agent_ok cfg ag"
  shows "agent_ok cfg (snd (recorded_alert now a ag))" "agent_ok cfg (snd (recorded_lt_alert now b ag))"
    "agent_ok cfg (on_db (mark_alert_outbox_id_processed oid h now) ag)"
proof -
  show "agent_ok cfg (snd (recorded_alert now a ag))"
    by (rule quiet_ok [OF assms])
      (use agent_okD(1) [OF assms] in \<open>auto simp: quiet_def recorded_alert_def record_alert_def tables_ok_def audit_insert_ok\<close>)
  show "agent_ok cfg (snd (recorded_lt_alert now b ag))"
    by (rule quiet_ok [OF assms])
      (use agent_okD(1) [OF assms] in \<open>auto simp: quiet_def recorded_lt_alert_def record_long_term_alert_def tables_ok_def audit_insert_ok\<close>)
  show "agent_ok cfg (on_db (mark_alert_outbox_id_processed oid h now) ag)"
    by (rule quiet_ok [OF assms])
      (use agent_okD(1) [OF assms] in \<open>auto simp: quiet_def on_db_def processed_ids tables_ok_def\<close>)
qed

lemma already_processed_iff:
  "alert_outbox_id_already_processed oid db \<longleftrightarrow> (\<exists>s. real_id oid = Some s \<and> s \<in> po_id ` set (db_processed db))"
  by (simp add: alert_outbox_id_already_processed_def split: option.split)

lemma recorded_simps [simp]:
  "ag_log (snd (recorded_alert now a ag)) = ag_log ag" "ag_log (snd (recorded_lt_alert now b ag)) = ag_log ag"
  "db_processed (ag_db (snd (recorded_alert now a ag))) = db_processed (ag_db ag)"
  "db_processed (ag_db (snd (recorded_lt_alert now b ag))) = db_processed (ag_db ag)"
  "ag_log (on_db f ag) = ag_log ag" "ag_db (on_db f ag) = f (ag_db ag)"
  by (simp_all add: recorded_alert_def recorded_lt_alert_def record_alert_def record_long_term_alert_def on_db_def)

lemma dispatch_alert_ok:
  assumes ok: "agent_ok cfg ag"
  shows "agent_ok cfg (handle_dispatch_alert cfg now answer oid a ag)" "agent_ok cfg (handle_dispatch_lt_alert cfg now answer oid b ag)"
proof -
  have new: "s \<notin> set (logged_ids (ag_log ag))" if "\<not> alert_outbox_id_already_processed oid (ag_db ag)" "real_id oid = Some s" for s
    using that agent_okD(4) [OF ok] by (auto simp: already_processed_iff)
  show "agent_ok cfg (handle_dispatch_alert cfg now answer oid a ag)"
    using ok new unfolding handle_dispatch_alert_def
    by (auto simp: split_beta processed_ids intro!: maybe_send_ok recorded_ok)
  show "agent_ok cfg (handle_dispatch_lt_alert cfg now answer oid b ag)"
    using ok new unfolding handle_dispatch_lt_alert_def
    by (auto simp: split_beta processed_ids intro!: maybe_send_lt_ok recorded_ok)
qed

lemma cached_context_ok:
  assumes "agent_ok cfg ag"
  shows "agent_ok cfg (handle_fundamental_signal now s ag)" "agent_ok cfg (handle_longterm_report now r ag)"
proof -
  have "load_last_telegram_pushes d (save_latest_fundamental_signal_cache k s now db) = load_last_telegram_pushes d db"
    "load_last_telegram_pushes d (save_latest_longterm_report_cache k r now db) = load_last_telegram_pushes d db" for d k db
    by (rule loads_cong, simp)+
  with assms show "agent_ok cfg (handle_fundamental_signal now s ag)" "agent_ok cfg (handle_longterm_report now r ag)"
    by (auto simp: agent_ok_def handle_fundamental_signal_def handle_longterm_report_def on_db_def ids_ok_def caches_ok_def pushes_ok_def
        tables_ok_def load_context_save)
qed

lemma dispatch_message_ok:
  assumes ok: "agent_ok cfg ag"
  shows "agent_ok cfg (handle_dispatch_message cfg now answer message ag)"
proof -
  have "agent_ok cfg (handle_trade_execution now action t ag)" for action t
    by (rule quiet_ok [OF ok])
      (use agent_okD(1) [OF ok] in \<open>auto simp: quiet_def handle_trade_execution_def on_db_def tables_ok_def\<close>)
  moreover have "agent_ok cfg (handle_rejected_candidate c ag)" for c
    by (rule quiet_ok [OF ok])
      (use agent_okD(1) [OF ok] in \<open>auto simp: quiet_def handle_rejected_candidate_def on_db_def tables_ok_def\<close>)
  ultimately show ?thesis
    using ok by (simp add: handle_dispatch_message_def dispatch_alert_ok cached_context_ok split: option.split dispatch_message.split)
qed

lemma sweep_ok:
  assumes ok: "agent_ok cfg ag"
  shows "agent_ok cfg (snd (run_retention_sweep_once cfg now ag))"
proof (rule quiet_ok [OF ok])
  show "quiet ag (snd (run_retention_sweep_once cfg now ag))"
    by (simp add: quiet_def run_retention_sweep_once_def purge_older_than_def purge_long_term_older_than_def
        purge_rejected_candidates_older_than_def Let_def split_beta)
  show "tables_ok (snd (run_retention_sweep_once cfg now ag))"
    using agent_okD(1) [OF ok]
    by (simp add: tables_ok_def run_retention_sweep_once_def purge_older_than_def purge_long_term_older_than_def
        purge_rejected_candidates_older_than_def Let_def split_beta audit_purge_ok)
qed

lemma heads_up_one_ok:
  assumes ok: "agent_ok cfg ag"
  shows "agent_ok cfg (fst (heads_up_one cfg now answers r (ag, wl)))"
proof -
  have loads: "load_last_telegram_pushes d (save_last_telegram_push k PUSH_HEADS_UP now None db) =
      load_last_telegram_pushes d db" if "d \<noteq> PUSH_HEADS_UP" for d k db
    using that by (simp add: load_pushes_save)
  have "load_earnings_signals (save_last_telegram_push k PUSH_HEADS_UP now None db) = load_earnings_signals db"
    "load_earnings_reports (save_last_telegram_push k PUSH_HEADS_UP now None db) = load_earnings_reports db" for k db
    by (rule loads_cong, simp)+
  then have "agent_ok cfg (log_push PUSH_HEADS_UP k now None True None
      ((on_db (save_last_telegram_push k PUSH_HEADS_UP now None) ag)\<lparr> ag_heads_up := n \<rparr>))" for k n
    using ok by (auto simp: agent_ok_def log_push_def on_db_def ids_ok_def caches_ok_def pushes_ok_def tables_ok_def loads
        logged_ids_snoc last_push_snoc pushes_of_snoc real_id_def)
  with ok show ?thesis by (simp add: heads_up_one_def)
qed

lemma heads_up_ok:
  assumes "agent_ok cfg ag"
  shows "agent_ok cfg (fst (run_earnings_heads_up_once cfg now answers (ag, wl)))"
proof -
  have "agent_ok cfg (fst s) \<Longrightarrow> agent_ok cfg (fst (fold (heads_up_one cfg now answers) rs s))" for rs s
  proof (induction rs arbitrary: s)
    case (Cons r rs)
    have "agent_ok cfg (fst (heads_up_one cfg now answers r s))"
      using heads_up_one_ok [OF Cons.prems, of now answers r "snd s"] by simp
    then show ?case using Cons.IH by simp
  qed simp
  with assms show ?thesis by (simp add: run_earnings_heads_up_once_def)
qed

lemma restart_ok:
  assumes "agent_ok cfg ag"
  shows "agent_ok cfg (restart_agent ag)"
  using assms by (auto simp: agent_ok_def restart_agent_def start_agent_def ids_ok_def caches_ok_def pushes_ok_def tables_ok_def)

lemma dispatch_step_ok: "dispatch_step cfg s s' \<Longrightarrow> agent_ok cfg (snd s) \<Longrightarrow> agent_ok cfg (snd s')"
  by (induction rule: dispatch_step.induct)
    (simp_all add: dispatch_message_ok sweep_ok heads_up_ok restart_ok recorded_ok)

lemma reachable_agent_ok: "dispatch_reachable cfg s \<Longrightarrow> agent_ok cfg (snd s)"
proof (induction rule: dispatch_reachable.induct)
  case (dr_start t)
  have "load_last_telegram_pushes d fresh_dispatch_db = Map.empty" "load_earnings_signals fresh_dispatch_db = Map.empty"
    "load_earnings_reports fresh_dispatch_db = Map.empty" for d
    by (simp_all add: fun_eq_iff load_last_telegram_pushes_def load_earnings_signals_def load_earnings_reports_def fresh_dispatch_db_def row_by_def)
  then show ?case
    by (simp add: agent_ok_def start_agent_def ids_ok_def caches_ok_def pushes_ok_def tables_ok_def logged_ids_def pushes_of_def last_push_def
        fun_eq_iff map_filter_simps) (simp add: fresh_dispatch_db_def empty_table_def audit_ok_def)
next
  case (dr_next s s')
  then show ?case by (blast intro: dispatch_step_ok)
qed

end
