(* ===== verification/Dispatch_Claims.thy ===== *)
theory Dispatch_Claims
  imports Dispatch_Safety
begin

text \<open>The theorems of the dispatch process, each with a concrete run.\<close>

section \<open>A concrete run\<close>

definition demo_dispatch_config :: dispatch_config where
  "demo_dispatch_config = \<lparr> dc_configured = True, dc_min_severity = INFO, dc_mute = True, dc_min_confidence = fl (3 / 4),
     dc_push_cooldown = 21600000000, dc_retrigger_pct = 5, dc_max_retries = 3, dc_retention = 2592000000000, dc_heads_up_window = 259200000000 \<rparr>"

definition demo_push_alert :: "symbol \<Rightarrow> money \<Rightarrow> stamp \<Rightarrow> core_alert" where
  "demo_push_alert ticker price at_ts = \<lparr> ac_ticker = ticker, ac_action = CONFIRMED_BULLISH, ac_severity = CRITICAL,
     ac_signal = \<lparr> qs_ticker = ticker, qs_direction = DIR_BULLISH, qs_price = price, qs_stop = None, qs_target = None \<rparr>,
     ac_verdict = VERDICT_BULLISH, ac_confidence = fl (9 / 10), ac_degraded = False, ac_at = at_ts \<rparr>"

definition dispatch_messages :: "dispatch_config \<Rightarrow> (stamp \<times> (nat \<Rightarrow> tg_outcome) \<times> dispatch_message) list \<Rightarrow> dispatch_agent \<Rightarrow> dispatch_agent" where
  "dispatch_messages cfg ms ag = fold (\<lambda>(now, answer, m) ag. handle_dispatch_message cfg now answer (Some m) ag) ms ag"

lemma dispatch_messages_reachable:
  assumes "dispatch_reachable cfg (t, ag)" "sorted (t # map fst ms)"
  shows "dispatch_reachable cfg (last (t # map fst ms), dispatch_messages cfg ms ag)"
  using assms
proof (induction ms arbitrary: t ag)
  case (Cons x ms)
  obtain now answer m where x: "x = (now, answer, m)" by (cases x)
  have "dispatch_reachable cfg (now, handle_dispatch_message cfg now answer (Some m) ag)"
    using Cons.prems by (intro dr_next [OF Cons.prems(1)] dispatch_step.ds_message) (simp add: x)
  from Cons.IH [OF this] Cons.prems(2) show ?case by (simp add: x dispatch_messages_def)
qed (simp add: dispatch_messages_def)

text \<open>An alert, the same one again, one inside the cooldown at almost the same price, and one at a price that moved.\<close>

definition demo_dispatch_events :: "(stamp \<times> (nat \<Rightarrow> tg_outcome) \<times> dispatch_message) list" where
  "demo_dispatch_events =
     [(1000000, (\<lambda>_. TG_ACCEPTED), DM_ALERT (Some ''i1'') (demo_push_alert ''aapl'' 100 1000000)),
      (2000000, (\<lambda>_. TG_ACCEPTED), DM_ALERT (Some ''i1'') (demo_push_alert ''aapl'' 100 1000000)),
      (3000000, (\<lambda>_. TG_ACCEPTED), DM_ALERT (Some ''i2'') (demo_push_alert ''AAPL'' 101 3000000)),
      (4000000, (\<lambda>_. TG_ACCEPTED), DM_ALERT (Some ''i3'') (demo_push_alert ''AAPL'' 110 4000000))]"

definition demo_agent :: dispatch_agent where
  "demo_agent = dispatch_messages demo_dispatch_config demo_dispatch_events (start_agent fresh_dispatch_db [])"

lemma demo_agent_reachable: "dispatch_reachable demo_dispatch_config (4000000, demo_agent)"
  unfolding demo_agent_def
  using dispatch_messages_reachable [OF dr_start [of _ 0], of demo_dispatch_events] by (simp add: demo_dispatch_events_def)

lemma demo_agent_facts:
  "map px_id (ag_log demo_agent) = [Some ''i1'', Some ''i3'']"
  "map px_price (ag_log demo_agent) = [Some 100, Some 110]"
  "map (\<lambda>r. (au_id r, au_sent r, au_note r)) (at_rows (db_alerts (ag_db demo_agent))) =
     [(1, True, Some NOTE_NONE), (2, False, Some (NOTE_BLOCK PRICE_DELTA_TOO_LOW)), (3, True, Some NOTE_NONE)]"
  "logged_ids (ag_log demo_agent) = [''i1'', ''i3'']"
  by code_simp+

section \<open>Theorems\<close>

text \<open>
  C19. In every run of the dispatch agent, crashes and restarts included, no alert's identifier is pushed twice: once it
  was pushed, any redelivery of it, on either channel and whatever its content, changes nothing and sends nothing.
\<close>

theorem alerts_are_announced_at_most_once:
  assumes "dispatch_reachable cfg (t, ag)" "real_id oid = Some i"
  shows "distinct (logged_ids (ag_log ag))
    \<and> (i \<in> set (logged_ids (ag_log ag)) \<longrightarrow>
         handle_dispatch_alert cfg now answer oid a ag = ag \<and> handle_dispatch_lt_alert cfg now answer oid b ag = ag)"
proof -
  have "ids_ok ag" using reachable_agent_ok [OF assms(1)] by (simp add: agent_ok_def)
  with assms(2) show ?thesis
    by (auto simp: ids_ok_def handle_dispatch_alert_def handle_dispatch_lt_alert_def already_processed_iff)
qed

theorem alerts_are_announced_at_most_once_witness:
  "handle_dispatch_alert demo_dispatch_config 5000000 (\<lambda>_. TG_ACCEPTED) (Some ''i1'') (demo_push_alert ''AAPL'' 300 5000000) demo_agent = demo_agent"
  using alerts_are_announced_at_most_once [OF demo_agent_reachable, of "Some ''i1''" "''i1''"]
  by (simp add: real_id_def demo_agent_facts)



section \<open>The audit trail\<close>

text \<open>
  What the audit row of a new alert says of its push: marked as sent exactly when the push was confirmed and its
  cooldown written, and neither sent nor failed unless the alert may be pushed at all.
\<close>

definition row_tells ::
    "dispatch_config \<Rightarrow> stamp \<Rightarrow> string option \<Rightarrow> core_alert \<Rightarrow> dispatch_agent \<Rightarrow> dispatch_agent \<Rightarrow> core_alert audit_row \<Rightarrow> bool" where
  "row_tells cfg now oid a ag ag' r \<longleftrightarrow> au_ticker r = upper (ac_ticker a) \<and> au_alert r = a \<and> au_received r = now
     \<and> (if au_sent r
        then \<not> au_failed r \<and> ag_log ag' = ag_log ag @ [\<lparr> px_domain = PUSH_DAY, px_ticker = upper (ac_ticker a), px_at = now,
               px_price = Some (qs_price (ac_signal a)), px_earnings = False, px_id = real_id oid \<rparr>]
        else ag_log ag' = ag_log ag)
     \<and> (au_sent r \<or> au_failed r \<longrightarrow> dc_configured cfg \<and> severity_rank (dc_min_severity cfg) \<le> severity_rank (ac_severity a)
          \<and> (dc_mute cfg \<longrightarrow> ac_action a \<in> set push_actions_intraday) \<and> dc_min_confidence cfg \<le> ac_confidence a)"

lemma maybe_send_row:
  assumes ok: "audit_ok t" and db: "db_alerts (ag_db ag) = audit_insert (ac_ticker a) a now t"
    and ag': "ag' = maybe_send_telegram cfg now answer oid a (Suc (at_seq t)) ag"
  shows "\<exists>r. at_rows (db_alerts (ag_db ag')) = at_rows t @ [r] \<and> row_tells cfg now oid a ag ag' r"
proof -
  let ?new = "last (at_rows (audit_insert (ac_ticker a) a now t))"
  let ?block = "evaluate_push_eligibility (ac_action a) push_actions_intraday (Some (ac_confidence a)) (qs_price (ac_signal a))
      (ag_pushes ag (upper (ac_ticker a))) cfg now"
  have new: "at_rows (audit_insert (ac_ticker a) a now t) = at_rows t @ [?new]" "au_ticker ?new = upper (ac_ticker a)" "au_alert ?new = a"
    "au_received ?new = now" "\<not> au_sent ?new" "\<not> au_failed ?new"
    by (simp_all add: audit_insert_def)
  have rows: "at_rows (audit_update (Suc (at_seq t)) f (audit_insert (ac_ticker a) a now t)) = at_rows t @ [f ?new]" for f
    by (rule audit_update_new [OF ok])
  have gate: "(dc_mute cfg \<longrightarrow> ac_action a \<in> set push_actions_intraday) \<and> dc_min_confidence cfg \<le> ac_confidence a" if "?block = None"
    using that by (auto simp: evaluate_push_eligibility_def split: if_splits)
  show ?thesis
  proof (cases "\<not> dc_configured cfg \<or> severity_rank (ac_severity a) < severity_rank (dc_min_severity cfg)")
    case True
    then have "row_tells cfg now oid a ag ag' ?new" using new by (simp add: ag' maybe_send_telegram_def row_tells_def)
    with True new(1) show ?thesis by (auto simp: ag' maybe_send_telegram_def db)
  next
    case False
    note send = False
    show ?thesis
    proof (cases ?block)
      case None
      note free = None
      have "row_tells cfg now oid a ag ag' ((if send_went_through cfg answer then row_sent now else row_failed) ?new)"
        using send free new gate
        by (auto simp: ag' maybe_send_telegram_def Let_def row_tells_def on_db_def log_push_def row_sent_def row_failed_def)
      moreover have "at_rows (db_alerts (ag_db ag')) = at_rows t @ [(if send_went_through cfg answer then row_sent now else row_failed) ?new]"
        using send free rows
        by (simp add: ag' maybe_send_telegram_def Let_def on_db_def log_push_def mark_telegram_sent_def mark_telegram_failed_def
            save_last_telegram_push_def db)
      ultimately show ?thesis by blast
    next
      case (Some why)
      note held = Some
      have "row_tells cfg now oid a ag ag' (row_blocked why ?new)"
        using send held new
        by (auto simp: ag' maybe_send_telegram_def Let_def row_tells_def on_db_def record_push_suppression_def row_blocked_def)
      moreover have "at_rows (db_alerts (ag_db ag')) = at_rows t @ [row_blocked why ?new]"
        using send held rows
        by (simp add: ag' maybe_send_telegram_def Let_def on_db_def record_push_suppression_def mark_suppressed_def db)
      ultimately show ?thesis by blast
    qed
  qed
qed



section \<open>Restarts\<close>

text \<open>What an agent knows, its counters apart.\<close>

definition memory ::
    "dispatch_agent \<Rightarrow> dispatch_db \<times> (symbol \<rightharpoonup> stamp \<times> money option) \<times> (symbol \<rightharpoonup> stamp \<times> money option) \<times> (symbol \<rightharpoonup> fundamental_signal)
       \<times> (symbol \<rightharpoonup> lt_report) \<times> push_entry list" where
  "memory ag = (ag_db ag, ag_pushes ag, ag_lt_pushes ag, ag_signals ag, ag_reports ag, ag_log ag)"

lemma memory_eq:
  assumes "memory ag = memory ag'"
  shows "ag_db ag = ag_db ag'" "ag_pushes ag = ag_pushes ag'" "ag_lt_pushes ag = ag_lt_pushes ag'" "ag_signals ag = ag_signals ag'"
    "ag_reports ag = ag_reports ag'" "ag_log ag = ag_log ag'"
  using assms by (simp_all add: memory_def)

lemma send_memory:
  assumes "memory ag = memory ag'"
  shows "memory (maybe_send_telegram cfg now answer oid a i ag) = memory (maybe_send_telegram cfg now answer oid a i ag')"
    "memory (maybe_send_long_term_telegram cfg now answer oid b i ag) = memory (maybe_send_long_term_telegram cfg now answer oid b i ag')"
  using memory_eq [OF assms]
  by (simp_all add: maybe_send_telegram_def maybe_send_long_term_telegram_def Let_def memory_def on_db_def log_push_def record_push_suppression_def
      split: option.split)

lemma message_memory:
  assumes "memory ag = memory ag'"
  shows "memory (handle_dispatch_message cfg now answer message ag) = memory (handle_dispatch_message cfg now answer message ag')"
proof -
  note same = memory_eq [OF assms]
  have "memory (on_db (mark_alert_outbox_id_processed oid h now) (snd (recorded_alert now a ag)))
      = memory (on_db (mark_alert_outbox_id_processed oid h now) (snd (recorded_alert now a ag')))"
    "memory (on_db (mark_alert_outbox_id_processed oid h now) (snd (recorded_lt_alert now b ag)))
      = memory (on_db (mark_alert_outbox_id_processed oid h now) (snd (recorded_lt_alert now b ag')))"
    "fst (recorded_alert now a ag) = fst (recorded_alert now a ag')" "fst (recorded_lt_alert now b ag) = fst (recorded_lt_alert now b ag')" for oid h a b
    using same by (simp_all add: recorded_alert_def recorded_lt_alert_def record_alert_def record_long_term_alert_def memory_def on_db_def)
  then have "memory (handle_dispatch_alert cfg now answer oid a ag) = memory (handle_dispatch_alert cfg now answer oid a ag')"
    "memory (handle_dispatch_lt_alert cfg now answer oid b ag) = memory (handle_dispatch_lt_alert cfg now answer oid b ag')" for oid a b
    using assms same(1) by (auto simp: handle_dispatch_alert_def handle_dispatch_lt_alert_def split_beta intro!: send_memory)
  moreover have "memory (handle_trade_execution now action tr ag) = memory (handle_trade_execution now action tr ag')"
    "memory (handle_fundamental_signal now sg ag) = memory (handle_fundamental_signal now sg ag')"
    "memory (handle_longterm_report now rep ag) = memory (handle_longterm_report now rep ag')"
    "memory (handle_rejected_candidate c ag) = memory (handle_rejected_candidate c ag')" for action tr sg rep c
    using same by (simp_all add: handle_trade_execution_def handle_fundamental_signal_def handle_longterm_report_def handle_rejected_candidate_def
        memory_def on_db_def)
  ultimately show ?thesis
    using assms by (simp add: handle_dispatch_message_def split: option.split dispatch_message.split)
qed

text \<open>
  C21. A restart loses nothing: in every run a new process rebuilds from the store exactly the cooldowns and the earnings
  context in memory, and its database, caches and pushes after the next message are those of the process that did not stop.
\<close>

theorem dispatch_restart_loses_nothing:
  assumes "dispatch_reachable cfg (t, ag)"
  shows "memory (restart_agent ag) = memory ag
    \<and> memory (handle_dispatch_message cfg now answer message (restart_agent ag)) = memory (handle_dispatch_message cfg now answer message ag)"
proof -
  have "memory (restart_agent ag) = memory ag"
    using reachable_agent_ok [OF assms] by (simp add: agent_ok_def caches_ok_def memory_def restart_agent_def start_agent_def)
  then show ?thesis using message_memory by blast
qed

theorem dispatch_restart_loses_nothing_witness:
  "ag_pushes (restart_agent demo_agent) ''AAPL'' = Some (4000000, Some 110)"
proof -
  have "ag_pushes demo_agent ''AAPL'' = Some (4000000, Some 110)" by code_simp
  with dispatch_restart_loses_nothing [OF demo_agent_reachable] show ?thesis by (simp add: memory_def)
qed

section \<open>The Telegram client\<close>

lemma send_attempts_bounds:
  "send_attempts answer ambiguous left k = (r, n, q) \<Longrightarrow>
     k < q \<and> q \<le> Suc (k + left) \<and> n \<le> q - k \<and> (r = SEND_OK \<longrightarrow> 0 < n)
     \<and> (\<not> ambiguous \<or> (\<forall>j. answer j \<noteq> TG_UNCONFIRMED True) \<longrightarrow> n \<le> 1 \<and> (r = SEND_FAILED \<longrightarrow> n = 0))"
proof (induction left arbitrary: k r n q)
  case 0
  then show ?case by (subst (asm) send_attempts.simps) (auto split: tg_outcome.splits if_splits)
next
  case (Suc left)
  obtain r' n' q' where rest: "send_attempts answer ambiguous left (Suc k) = (r', n', q')" by (cases "send_attempts answer ambiguous left (Suc k)")
  note now = Suc.prems [unfolded send_attempts.simps [of answer ambiguous "Suc left" k]]
  from Suc.IH [OF rest] rest now show ?case by (cases ambiguous; cases "answer k") (auto simp: of_bool_def split: if_splits)
qed

text \<open>
  C23. A configured send makes at least one request and at most one more than the retries configured; one that reports success
  arrived; and when an unconfirmed answer is not retried, or none of them had arrived, at most one copy arrives and
  a reported failure means that none did.
\<close>

theorem telegram_send_is_bounded:
  assumes "telegram_client_send cfg answer ambiguous = Some (r, n, q)"
  shows "1 \<le> q \<and> q \<le> Suc (dc_max_retries cfg) \<and> n \<le> q \<and> (r = SEND_OK \<longrightarrow> 1 \<le> n)
    \<and> (\<not> ambiguous \<or> (\<forall>j. answer j \<noteq> TG_UNCONFIRMED True) \<longrightarrow> n \<le> 1 \<and> (r = SEND_FAILED \<longrightarrow> n = 0))"
  using assms send_attempts_bounds [of answer ambiguous "dc_max_retries cfg" 0 r n q]
  by (auto simp: telegram_client_send_def split: if_splits)

theorem telegram_send_is_bounded_witness:
  "\<exists>r n q. telegram_client_send demo_dispatch_config (\<lambda>k. if k < 2 then TG_RATE_LIMITED else TG_UNCONFIRMED True) False = Some (r, n, q)
     \<and> n \<le> 1 \<and> q \<le> 4"
proof -
  have "telegram_client_send demo_dispatch_config (\<lambda>k. if k < 2 then TG_RATE_LIMITED else TG_UNCONFIRMED True) False = Some (SEND_AMBIGUOUS, 1, 3)"
    by code_simp
  from this telegram_send_is_bounded [OF this] show ?thesis by (simp add: demo_dispatch_config_def)
qed



section \<open>The earnings heads-up\<close>

text \<open>The rows a pass marks, by the tickers it pushed.\<close>

definition marked_sent :: "string list \<Rightarrow> earnings_row list \<Rightarrow> earnings_row list" where
  "marked_sent ks rows = update_rows (\<lambda>r. er_ticker r \<in> set ks) (er_sent_update (\<lambda>_. True)) rows"

lemma marked_sent_Nil [simp]: "marked_sent [] rows = rows"
  by (simp add: marked_sent_def update_rows_def)

lemma marked_sent_Cons: "marked_sent ks (update_rows (\<lambda>r. er_ticker r = k) (er_sent_update (\<lambda>_. True)) rows) = marked_sent (k # ks) rows"
  by (simp add: marked_sent_def update_rows_def)

lemma marked_sent_unsent:
  assumes "r \<in> set (marked_sent ks rows)" "\<not> er_sent r"
  shows "er_ticker r \<notin> set ks"
proof -
  obtain x where "x \<in> set rows" "r = (if er_ticker x \<in> set ks then x\<lparr> er_sent := True \<rparr> else x)"
    using assms(1) by (auto simp: marked_sent_def in_update_rows)
  with assms(2) show ?thesis by (cases "er_ticker x \<in> set ks") simp_all
qed

lemma marked_sent_tickers [simp]: "map er_ticker (marked_sent ks rows) = map er_ticker rows" for rows :: "earnings_row list"
  unfolding marked_sent_def by (rule map_update_rows) simp

lemma heads_up_fold:
  assumes "distinct (map er_ticker rs)" "list_all (\<lambda>r. watch_key (er_ticker r) = er_ticker r) rs"
  shows "\<exists>new. ag_log (fst (fold (heads_up_one cfg now answers) rs (ag, wl))) = ag_log ag @ new
    \<and> snd (fold (heads_up_one cfg now answers) rs (ag, wl)) = wl\<lparr> wl_earnings := marked_sent (map px_ticker new) (wl_earnings wl) \<rparr>
    \<and> distinct (map px_ticker new) \<and> list_all (\<lambda>p. px_domain p = PUSH_HEADS_UP \<and> px_ticker p \<in> er_ticker ` {r \<in> set rs. heads_up_due cfg now r}) new"
  using assms
proof (induction rs arbitrary: ag wl)
  case (Cons r rs)
  have rs: "distinct (map er_ticker rs)" "list_all (\<lambda>r. watch_key (er_ticker r) = er_ticker r) rs" using Cons.prems by simp_all
  let ?ag = "log_push PUSH_HEADS_UP (er_ticker r) now None True None
      ((on_db (save_last_telegram_push (er_ticker r) PUSH_HEADS_UP now None) ag)\<lparr> ag_heads_up := Suc (ag_heads_up ag) \<rparr>)"
  have "heads_up_one cfg now answers r (ag, wl) = (ag, wl)
      \<or> (heads_up_one cfg now answers r (ag, wl) = (?ag, mark_heads_up_sent (er_ticker r) wl) \<and> heads_up_due cfg now r)"
    by (auto simp: heads_up_one_def)
  then consider "heads_up_one cfg now answers r (ag, wl) = (ag, wl)"
    | "heads_up_one cfg now answers r (ag, wl) = (?ag, mark_heads_up_sent (er_ticker r) wl)" "heads_up_due cfg now r"
    by blast
  then show ?case
  proof cases
    case 1
    obtain new where "ag_log (fst (fold (heads_up_one cfg now answers) rs (ag, wl))) = ag_log ag @ new"
        "snd (fold (heads_up_one cfg now answers) rs (ag, wl)) = wl\<lparr> wl_earnings := marked_sent (map px_ticker new) (wl_earnings wl) \<rparr>"
        "distinct (map px_ticker new)"
        "list_all (\<lambda>p. px_domain p = PUSH_HEADS_UP \<and> px_ticker p \<in> er_ticker ` {r \<in> set rs. heads_up_due cfg now r}) new"
      using Cons.IH [OF rs, of ag wl] by blast
    with 1 show ?thesis by (intro exI [of _ new]) (auto simp: list_all_iff)
  next
    case 2
    let ?p = "\<lparr> px_domain = PUSH_HEADS_UP, px_ticker = er_ticker r, px_at = now, px_price = None, px_earnings = True, px_id = None \<rparr>"
    let ?wl = "mark_heads_up_sent (er_ticker r) wl"
    have log1: "ag_log ?ag = ag_log ag @ [?p]" by (simp add: log_push_def real_id_def)
    obtain new where new: "ag_log (fst (fold (heads_up_one cfg now answers) rs (?ag, ?wl))) = ag_log ?ag @ new"
        "snd (fold (heads_up_one cfg now answers) rs (?ag, ?wl)) = ?wl\<lparr> wl_earnings := marked_sent (map px_ticker new) (wl_earnings ?wl) \<rparr>"
        "distinct (map px_ticker new)"
        "list_all (\<lambda>p. px_domain p = PUSH_HEADS_UP \<and> px_ticker p \<in> er_ticker ` {r \<in> set rs. heads_up_due cfg now r}) new"
      using Cons.IH [OF rs, of ?ag ?wl] by blast
    have key: "watch_key (er_ticker r) = er_ticker r" using Cons.prems(2) by simp
    have "er_ticker r \<notin> px_ticker ` set new" using new(4) Cons.prems(1) by (auto simp: list_all_iff)
    moreover have "?wl\<lparr> wl_earnings := marked_sent (map px_ticker new) (wl_earnings ?wl) \<rparr>
        = wl\<lparr> wl_earnings := marked_sent (map px_ticker (?p # new)) (wl_earnings wl) \<rparr>"
      by (simp add: mark_heads_up_sent_def key marked_sent_Cons)
    ultimately show ?thesis using new log1 2
      by (intro exI [of _ "?p # new"]) (auto simp: list_all_iff)
  qed
qed (simp add: exI [of _ "[]"])

lemma heads_up_pass:
  assumes "watch_ok wl" "run_earnings_heads_up_once cfg now answers (ag, wl) = (ag1, wl1)"
  shows "\<exists>new. ag_log ag1 = ag_log ag @ new \<and> wl1 = wl\<lparr> wl_earnings := marked_sent (map px_ticker new) (wl_earnings wl) \<rparr>
    \<and> distinct (map px_ticker new) \<and> list_all (\<lambda>p. px_domain p = PUSH_HEADS_UP \<and> px_ticker p \<in> er_ticker ` {r \<in> set (wl_earnings wl). heads_up_due cfg now r}) new"
proof -
  have "distinct (map er_ticker (list_upcoming_earnings wl))"
    using assms(1) by (simp add: watch_ok_def list_upcoming_earnings_def distinct_map)
  moreover have "list_all (\<lambda>r. watch_key (er_ticker r) = er_ticker r) (list_upcoming_earnings wl)"
    using assms(1) by (simp add: watch_ok_def list_upcoming_earnings_def list_all_iff)
  ultimately show ?thesis
    using assms(2) heads_up_fold [of "list_upcoming_earnings wl" cfg now answers ag wl]
    by (auto simp: run_earnings_heads_up_once_def list_upcoming_earnings_def split: if_splits intro!: exI [of _ "[]"])
qed


text \<open>A watchlist with two tickers, of which one reports tomorrow, and an agent that holds both contexts of each.\<close>

definition demo_context :: "symbol \<Rightarrow> (stamp \<times> (nat \<Rightarrow> tg_outcome) \<times> dispatch_message) list" where
  "demo_context ticker =
     [(0, (\<lambda>_. TG_ACCEPTED), DM_FUNDAMENTAL \<lparr> fs_ticker = ticker, fs_year = 2025, fs_roic = Some (fl (3 / 10)), fs_debt_to_ebitda = Some 1, fs_price = 100, fs_earnings = False \<rparr>),
      (0, (\<lambda>_. TG_ACCEPTED), DM_LT_REPORT \<lparr> lr_ticker = ticker, lr_moat = MOAT_WIDE, lr_fair_value = 150, lr_quality = 8, lr_earnings = False, lr_degraded = False \<rparr>)]"

definition demo_watchlist :: watchlist where
  "demo_watchlist = upsert_upcoming_earnings ''aapl '' 719164 ''amc'' ''Q1'' 0
     (upsert_upcoming_earnings ''MSFT'' 719200 ''bmo'' ''Q1'' 0 \<lparr> wl_tickers = [], wl_earnings = [] \<rparr>)"

definition demo_heads_up :: "dispatch_agent \<times> watchlist" where
  "demo_heads_up = run_earnings_heads_up_once demo_dispatch_config 5000000 (\<lambda>_ _. TG_ACCEPTED)
     (dispatch_messages demo_dispatch_config (demo_context ''AAPL'' @ demo_context ''msft'') demo_agent, demo_watchlist)"

lemma demo_heads_up_facts:
  "watch_ok demo_watchlist" "map px_ticker (ag_log (fst demo_heads_up)) = [''AAPL'', ''AAPL'', ''AAPL'']"
  "length (ag_log (dispatch_messages demo_dispatch_config (demo_context ''AAPL'' @ demo_context ''msft'') demo_agent)) = 2"
  by code_simp+


end
