(* ===== verification/Core_To_Dispatch.thy ===== *)
theory Core_To_Dispatch
  imports Dispatch_Claims
begin

text \<open>
  The decision engine and the dispatch agent together: what the engine put on the wire may reach the agent late, in any order
  and any number of times, while both crash and restart.
\<close>

section \<open>The joint runs\<close>

definition payload_id :: "alert_digest \<Rightarrow> alert_payload \<Rightarrow> string" where
  "payload_id digest p =
     (case p of INTRADAY_ALERT a \<Rightarrow> digest (ac_ticker a) INTRADAY (ac_action a) (ac_at a)
      | LONG_TERM_ALERT b \<Rightarrow> digest (al_ticker b) LONG_TERM (al_action b) (al_at b))"

text \<open>The alert as it arrives, the identifier the engine set inside it.\<close>

definition wire_message :: "alert_digest \<Rightarrow> alert_payload \<Rightarrow> dispatch_message" where
  "wire_message digest p =
     (case p of INTRADAY_ALERT a \<Rightarrow> DM_ALERT (Some (payload_id digest p)) a | LONG_TERM_ALERT b \<Rightarrow> DM_LT_ALERT (Some (payload_id digest p)) b)"

text \<open>
  The engine steps; an alert that Redis accepted, or that may have arrived without an answer, is handled; a heads-up pass runs; or the agent does anything else that pushes nothing, such as
  another message, a sweep, a restart or a death before the push.
\<close>

inductive pipeline_reachable ::
    "alert_digest \<Rightarrow> core_config \<Rightarrow> int \<Rightarrow> dispatch_config \<Rightarrow> stamp \<times> core_engine \<times> dispatch_agent \<Rightarrow> bool" for digest ccfg gap dcfg where
  pl_start: "pipeline_reachable digest ccfg gap dcfg (t, first_start, start_agent fresh_dispatch_db [])"
| pl_core: "pipeline_reachable digest ccfg gap dcfg (t, e, ag) \<Longrightarrow> t \<le> now \<Longrightarrow> core_step digest ccfg gap (t, e) (now, e') \<Longrightarrow>
    pipeline_reachable digest ccfg gap dcfg (now, e', ag)"
| pl_alert: "pipeline_reachable digest ccfg gap dcfg (t, e, ag) \<Longrightarrow> t \<le> now \<Longrightarrow>
    p \<in> set (en_wire e) \<or> p \<in> ar_payload ` set (ao_records (en_outbox e)) \<Longrightarrow>
    pipeline_reachable digest ccfg gap dcfg (now, e, handle_dispatch_message dcfg now answer (Some (wire_message digest p)) ag)"
| pl_heads_up: "pipeline_reachable digest ccfg gap dcfg (t, e, ag) \<Longrightarrow> t \<le> now \<Longrightarrow>
    pipeline_reachable digest ccfg gap dcfg (now, e, fst (run_earnings_heads_up_once dcfg now answers (ag, wl)))"
| pl_silent: "pipeline_reachable digest ccfg gap dcfg (t, e, ag) \<Longrightarrow> t \<le> now \<Longrightarrow> dispatch_step dcfg (t, ag) (now, ag') \<Longrightarrow> ag_log ag' = ag_log ag \<Longrightarrow>
    pipeline_reachable digest ccfg gap dcfg (now, e, ag')"

section \<open>The identifiers on the wire\<close>

definition payloads_ok :: "alert_digest \<Rightarrow> alert_outbox \<Rightarrow> alert_payload list \<Rightarrow> bool" where
  "payloads_ok digest ob w \<longleftrightarrow> (\<forall>r \<in> set (ao_records ob). payload_id digest (ar_payload r) = ar_id r)
     \<and> payload_id digest ` set w \<subseteq> ar_id ` set (ao_records ob)"

lemma outbox_ids: "ar_id ` set (ao_records ob) = fst ` outbox_alerts ob"
  by (simp add: outbox_alerts_def image_image skeleton_def)

lemma delivered_payloads:
  assumes "payload_id digest payload = digest ticker kind action now"
    and "\<forall>r \<in> set (ao_records ob). payload_id digest (ar_payload r) = ar_id r"
  shows "\<forall>r \<in> set (ao_records (delivered digest now accepted kind payload ticker action ob)). payload_id digest (ar_payload r) = ar_id r"
proof -
  let ?ob = "enqueue (digest ticker kind action now) payload kind ticker action now ob"
  have one: "\<forall>r \<in> set (ao_records ?ob). payload_id digest (ar_payload r) = ar_id r"
    using assms by (auto simp: enqueue_def new_record_def in_update_rows split: option.split)
  then have "\<forall>r \<in> set (ao_records (mark_published now oid ?ob)). payload_id digest (ar_payload r) = ar_id r" for oid
    by (auto simp: mark_published_def in_update_rows split: option.split)
  with one show ?thesis by (simp add: delivered_def Let_def)
qed

lemma delivered_ids:
  "ar_id ` set (ao_records (delivered digest now accepted kind payload ticker action ob)) = insert (digest ticker kind action now) (ar_id ` set (ao_records ob))"
  unfolding outbox_ids outbox_alerts_delivered by auto

lemma payloads_delivered:
  assumes "payloads_ok digest ob w" "payload_id digest payload = digest ticker kind action now"
  shows "payloads_ok digest (delivered digest now accepted kind payload ticker action ob) (w @ (if accepted then [payload] else []))"
  using assms delivered_payloads [of digest payload ticker kind action now ob accepted]
  by (auto simp: payloads_ok_def delivered_ids)

lemma payloads_flush:
  assumes "payloads_ok digest ob w"
  shows "payloads_ok digest (flush now publish wait ob) (w @ map ar_payload (flushed now publish ob))"
proof -
  have "ar_id ` set (ao_records (flush now publish wait ob)) = ar_id ` set (ao_records ob)"
    by (simp only: outbox_ids outbox_alerts_flush)
  moreover have "payload_id digest ` ar_payload ` set (flushed now publish ob) \<subseteq> ar_id ` set (ao_records ob)"
    using assms by (auto simp: payloads_ok_def flushed_def)
  ultimately show ?thesis using assms by (auto simp: payloads_ok_def flush_def Let_def)
qed

lemma reachable_payloads:
  assumes "core_reachable digest cfg gap s"
  shows "payloads_ok digest (en_outbox (snd s)) (en_wire (snd s))"
proof (rule core_run_induct [OF assms, where P = "\<lambda>t c l ob w. payloads_ok digest ob w"])
  show "payloads_ok digest (en_outbox first_start) []" by (simp add: first_start_def payloads_ok_def)
next
  show "payloads_ok digest ob' w" if "payloads_ok digest ob w" "ao_records ob' = ao_records ob" for ob ob' w
    using that by (simp add: payloads_ok_def)
next
  show "payloads_ok digest (delivered digest t accepted INTRADAY (INTRADAY_ALERT a) (ac_ticker a) (ac_action a) ob)
      (w @ (if accepted then [INTRADAY_ALERT a] else []))"
    if "payloads_ok digest ob w" "evaluate (tracked fresh_ticker c ticker) cfg t = Inr (Inr a)" for t c ob w ticker accepted a
    by (rule payloads_delivered [OF that(1)]) (simp add: payload_id_def alert_stamps(1) [OF that(2)])
next
  show "payloads_ok digest (delivered digest t accepted LONG_TERM (LONG_TERM_ALERT a) (al_ticker a) (al_action a) ob)
      (w @ (if accepted then [LONG_TERM_ALERT a] else []))"
    if "payloads_ok digest ob w" "evaluate_long_term (tracked fresh_lt_ticker l ticker) cfg t = Inr (Inr a)" for t l ob w ticker accepted a
    by (rule payloads_delivered [OF that(1)]) (simp add: payload_id_def alert_stamps(2) [OF that(2)])
next
  show "payloads_ok digest (flush t publish wait ob) (w @ map ar_payload (flushed t publish ob))"
    if "payloads_ok digest ob w" for t ob w publish wait
    by (rule payloads_flush [OF that])
qed

section \<open>What a step adds to the log\<close>

lemma wire_message_log:
  "\<exists>new. ag_log (handle_dispatch_message cfg now answer (Some (wire_message digest p)) ag) = ag_log ag @ new
     \<and> list_all (\<lambda>q. px_id q = real_id (Some (payload_id digest p))) new"
  by (cases p)
    (auto simp: handle_dispatch_message_def wire_message_def handle_dispatch_alert_def handle_dispatch_lt_alert_def split_beta
      maybe_send_telegram_def maybe_send_long_term_telegram_def Let_def log_push_def record_push_suppression_def split: option.split)

lemma heads_up_log:
  "\<exists>new. ag_log (fst (run_earnings_heads_up_once cfg now answers (ag, wl))) = ag_log ag @ new
     \<and> list_all (\<lambda>q. px_domain q = PUSH_HEADS_UP \<and> px_id q = None) new"
proof -
  have "\<exists>new. ag_log (fst (fold (heads_up_one cfg now answers) rs s)) = ag_log (fst s) @ new
      \<and> list_all (\<lambda>q. px_domain q = PUSH_HEADS_UP \<and> px_id q = None) new" for rs s
  proof (induction rs arbitrary: s)
    case (Cons r rs)
    have "\<exists>new. ag_log (fst (heads_up_one cfg now answers r s)) = ag_log (fst s) @ new
        \<and> list_all (\<lambda>q. px_domain q = PUSH_HEADS_UP \<and> px_id q = None) new"
      by (cases s) (simp add: heads_up_one_def log_push_def real_id_def)
    with Cons.IH [of "heads_up_one cfg now answers r s"] show ?case by fastforce
  qed simp
  from this [of "list_upcoming_earnings wl" "(ag, wl)"] show ?thesis by (simp add: run_earnings_heads_up_once_def)
qed

section \<open>Theorem\<close>

lemma pipeline_parts:
  assumes "pipeline_reachable digest ccfg gap dcfg (t, e, ag)"
  shows "core_reachable digest ccfg gap (t, e) \<and> dispatch_reachable dcfg (t, ag)"
  using assms
proof (induction "(t, e, ag)" arbitrary: t e ag)
  case (pl_start t)
  show ?case by (intro conjI core_start dr_start)
next
  case (pl_core t e ag now e')
  have "dispatch_step dcfg (t, ag) (now, handle_dispatch_message dcfg now (\<lambda>_. TG_ERROR) None ag)"
    by (rule dispatch_step.ds_message) (rule pl_core(3))
  then show ?case using pl_core core_next dr_next by (force simp: handle_dispatch_message_def)
next
  case (pl_alert t e ag now p answer)
  have "core_step digest ccfg gap (t, e) (now, snd (handle_core_message digest ccfg now True None e))"
    by (rule core_step.core_message) (rule pl_alert(3))
  then have "core_reachable digest ccfg gap (now, e)" using pl_alert(2) core_next by (force simp: handle_core_message_def)
  moreover have "dispatch_step dcfg (t, ag) (now, handle_dispatch_message dcfg now answer (Some (wire_message digest p)) ag)"
    by (rule dispatch_step.ds_message) (rule pl_alert(3))
  ultimately show ?case using pl_alert(2) dr_next by blast
next
  case (pl_heads_up t e ag now answers wl)
  have "core_step digest ccfg gap (t, e) (now, snd (handle_core_message digest ccfg now True None e))"
    by (rule core_step.core_message) (rule pl_heads_up(3))
  then have "core_reachable digest ccfg gap (now, e)" using pl_heads_up(2) core_next by (force simp: handle_core_message_def)
  moreover have "dispatch_step dcfg (t, ag) (now, fst (run_earnings_heads_up_once dcfg now answers (ag, wl)))"
    by (rule dispatch_step.ds_heads_up) (rule pl_heads_up(3))
  ultimately show ?case using pl_heads_up(2) dr_next by blast
next
  case (pl_silent t e ag now ag')
  have "core_step digest ccfg gap (t, e) (now, snd (handle_core_message digest ccfg now True None e))"
    by (rule core_step.core_message) (rule pl_silent(3))
  then have "core_reachable digest ccfg gap (now, e)" using pl_silent(2) core_next by (force simp: handle_core_message_def)
  then show ?case using pl_silent dr_next by blast
qed

lemma pipeline_log:
  assumes "pipeline_reachable digest ccfg gap dcfg (t, e, ag)" "\<And>k h x u. digest k h x u \<noteq> []"
  shows "list_all (\<lambda>p. (px_domain p = PUSH_HEADS_UP \<and> px_id p = None) \<or> px_id p \<in> Some ` ar_id ` set (ao_records (en_outbox e))) (ag_log ag)"
  using assms(1)
proof (induction "(t, e, ag)" arbitrary: t e ag)
  case (pl_core t e ag now e')
  have "ar_id ` set (ao_records (en_outbox e)) \<subseteq> ar_id ` set (ao_records (en_outbox e'))"
    using core_step_keeps [OF pl_core(4)] by (auto simp: outbox_ids)
  with pl_core(2) show ?case by (auto simp: list_all_iff)
next
  case (pl_alert t e ag now p answer)
  have "payloads_ok digest (en_outbox e) (en_wire e)" using reachable_payloads pipeline_parts [OF pl_alert(1)] by fastforce
  then have "payload_id digest p \<in> ar_id ` set (ao_records (en_outbox e))" using pl_alert(4) by (auto simp: payloads_ok_def)
  moreover have "real_id (Some (payload_id digest p)) = Some (payload_id digest p)"
    using assms(2) by (simp add: real_id_def payload_id_def split: alert_payload.split)
  moreover obtain new where "ag_log (handle_dispatch_message dcfg now answer (Some (wire_message digest p)) ag) = ag_log ag @ new"
      "list_all (\<lambda>q. px_id q = real_id (Some (payload_id digest p))) new"
    using wire_message_log by blast
  ultimately show ?case using pl_alert(2) by (auto simp: list_all_iff)
next
  case (pl_heads_up t e ag now answers wl)
  obtain new where "ag_log (fst (run_earnings_heads_up_once dcfg now answers (ag, wl))) = ag_log ag @ new"
      "list_all (\<lambda>q. px_domain q = PUSH_HEADS_UP \<and> px_id q = None) new"
    using heads_up_log by blast
  with pl_heads_up(2) show ?case by (auto simp: list_all_iff)
qed (simp_all add: start_agent_def)


text \<open>The alerts of the demonstration day of the engine, handled twice each.\<close>

lemma pipeline_from_core:
  "core_reachable digest ccfg gap s \<Longrightarrow> pipeline_reachable digest ccfg gap dcfg (fst s, snd s, start_agent fresh_dispatch_db [])"
proof (induction rule: core_reachable.induct)
  case (core_start t)
  show ?case by (simp add: pl_start)
next
  case (core_next s s')
  have "fst s \<le> fst s'" using core_next(2) by cases simp_all
  with core_next(2,3) show ?case by (cases s; cases s') (auto intro: pl_core)
qed

lemma pipeline_feed:
  assumes "pipeline_reachable digest ccfg gap dcfg (t, e, ag)" "list_all (\<lambda>p. p \<in> set (en_wire e)) ps"
  shows "pipeline_reachable digest ccfg gap dcfg (t, e, dispatch_messages dcfg (map (\<lambda>p. (t, answer, wire_message digest p)) ps) ag)"
  using assms
proof (induction ps arbitrary: ag)
  case (Cons p ps)
  have "pipeline_reachable digest ccfg gap dcfg (t, e, handle_dispatch_message dcfg t answer (Some (wire_message digest p)) ag)"
    using Cons.prems by (intro pl_alert [OF Cons.prems(1)]) simp_all
  from Cons.IH [OF this] Cons.prems(2) show ?case by (simp add: dispatch_messages_def)
qed (simp add: dispatch_messages_def)

definition demo_told :: dispatch_agent where
  "demo_told = dispatch_messages demo_dispatch_config
     (map (\<lambda>p. (402000000, \<lambda>_. TG_ACCEPTED, wire_message demo_digest p)) (en_wire demo_core_day @ en_wire demo_core_day)) (start_agent fresh_dispatch_db [])"

lemma demo_told_facts:
  "map px_ticker (ag_log demo_told) = [''ZERO'']" "length (at_rows (db_alerts (ag_db demo_told))) = 2"
  by code_simp+


end
