(* ===== verification/Watch_Rules.thy ===== *)
theory Watch_Rules
  imports Watch_Store Paper_Lanes
begin

text \<open>
  The runs of the watchlist under every operation of its store, and the paper engine that asks it before each decision
  (\<open>talonx_paper/consumer.py\<close> reads \<open>list_paper_trading_symbols\<close> on every alert).
\<close>

section \<open>Runs of the watchlist\<close>

inductive watch_step :: "watchlist \<Rightarrow> watchlist \<Rightarrow> bool" where
  ws_add: "add_ticker symbol name exchange status horizon now wl = Inr wl' \<Longrightarrow> watch_step wl wl'"
| ws_seed: "ensure_seeded symbol name exchange now wl = Inr (seeded, wl') \<Longrightarrow> watch_step wl wl'"
| ws_remove: "watch_step wl (remove_ticker symbol wl)"
| ws_pause: "watch_step wl (pause_ticker symbol wl)"
| ws_resume: "watch_step wl (resume_ticker symbol wl)"
| ws_paper: "watch_step wl (set_paper_trading symbol enabled wl)"
| ws_paper_lt: "watch_step wl (set_paper_trading_long_term symbol enabled wl)"
| ws_horizon: "set_strategy_horizon symbol horizon wl = Inr wl' \<Longrightarrow> watch_step wl wl'"
| ws_earnings: "watch_step wl (upsert_upcoming_earnings ticker d session period now wl)"
| ws_sent: "watch_step wl (mark_heads_up_sent ticker wl)"

definition empty_watchlist :: watchlist where
  "empty_watchlist = \<lparr> wl_tickers = [], wl_earnings = [] \<rparr>"

lemma watch_step_ok: "watch_step wl wl' \<Longrightarrow> watch_ok wl \<Longrightarrow> watch_ok wl'"
proof (induction rule: watch_step.induct)
  case (ws_seed symbol name exchange now wl seeded wl')
  then show ?case
    by (cases "add_ticker symbol name exchange (Some TICKER_ACTIVE) (Some HZ_INTRADAY) now wl")
      (auto simp: ensure_seeded_def split: if_splits intro: add_ticker_ok)
qed (auto simp: pause_ticker_def resume_ticker_def set_paper_trading_def set_paper_trading_long_term_def set_strategy_horizon_def
    remove_ticker_ok upsert_earnings_ok mark_heads_up_ok split: option.splits
    intro: add_ticker_ok status_column.column_ok paper_column.column_ok paper_lt_column.column_ok horizon_column.column_ok)

lemma watch_run_ok: "watch_step\<^sup>*\<^sup>* empty_watchlist wl \<Longrightarrow> watch_ok wl"
proof (induction rule: rtranclp_induct)
  case base
  show ?case by (simp add: empty_watchlist_def watch_ok_def)
next
  case (step y z)
  then show ?case by (blast intro: watch_step_ok)
qed

text \<open>
  C26. Whatever is done to the watchlist, no symbol is listed twice, no symbol is empty, every symbol and every earnings ticker is
  stripped and upper case, and a lookup by any spelling of a symbol finds exactly its row.
\<close>

theorem watchlist_symbols_stay_unique:
  assumes "watch_step\<^sup>*\<^sup>* empty_watchlist wl"
  shows "watch_ok wl \<and> distinct (map tr_symbol (list_tickers wl)) \<and> [] \<notin> set (list_active_symbols wl)
    \<and> (get_ticker wl symbol = Some r) = (r \<in> set (list_tickers wl) \<and> tr_symbol r = upper (strip symbol))"
proof -
  note ok = watch_run_ok [OF assms]
  then have "distinct (map tr_symbol (wl_tickers wl))" by (simp add: watch_ok_def)
  from row_by_distinct [OF this, of "watch_key symbol" r] this ok show ?thesis
    by (auto simp: watch_ok_def get_ticker_def list_tickers_def distinct_map watch_key_def list_active_symbols_def set_symbols_where list_all_iff)
qed

definition demo_listed :: watchlist where
  "demo_listed = (case add_ticker '' aapl '' '''' ''NASDAQ'' (Some TICKER_ACTIVE) (Some HZ_DUAL) 7 empty_watchlist of
     Inr wl \<Rightarrow> set_paper_trading ''AAPL'' True wl | Inl _ \<Rightarrow> empty_watchlist)"

lemma demo_listed_run: "watch_step\<^sup>*\<^sup>* empty_watchlist demo_listed"
proof -
  have "isl (add_ticker '' aapl '' '''' ''NASDAQ'' (Some TICKER_ACTIVE) (Some HZ_DUAL) 7 empty_watchlist) = False" by code_simp
  then obtain wl where wl: "add_ticker '' aapl '' '''' ''NASDAQ'' (Some TICKER_ACTIVE) (Some HZ_DUAL) 7 empty_watchlist = Inr wl"
    by (cases "add_ticker '' aapl '' '''' ''NASDAQ'' (Some TICKER_ACTIVE) (Some HZ_DUAL) 7 empty_watchlist") simp_all
  have "watch_step empty_watchlist wl" "watch_step wl (set_paper_trading ''AAPL'' True wl)"
    by (rule ws_add [OF wl], rule ws_paper)
  then show ?thesis unfolding demo_listed_def wl sum.case
    by (intro rtranclp.rtrancl_into_rtrancl [OF r_into_rtranclp])
qed

theorem watchlist_symbols_stay_unique_witness:
  "watch_ok demo_listed \<and> get_ticker demo_listed ''aapl'' \<noteq> None"
proof -
  have "get_ticker demo_listed ''aapl'' \<noteq> None" by code_simp
  with watchlist_symbols_stay_unique [OF demo_listed_run] show ?thesis by simp
qed

section \<open>Switching a ticker off\<close>



section \<open>Rescheduled earnings\<close>

text \<open>
  Storing an earnings date again keeps the mark of a heads-up already sent exactly when the date is the same: a new or
  a moved date is due for a push again, and no other ticker's row changes.
\<close>

theorem moved_earnings_date_is_announced_again:
  "map_option (\<lambda>r. (er_date r, er_sent r)) (get_upcoming_earnings (upsert_upcoming_earnings ticker d session period now wl) k) =
     (if watch_key k = watch_key ticker
      then Some (d, case get_upcoming_earnings wl ticker of None \<Rightarrow> False | Some r \<Rightarrow> er_date r = d \<and> er_sent r)
      else map_option (\<lambda>r. (er_date r, er_sent r)) (get_upcoming_earnings wl k))"
proof -
  let ?new = "\<lparr> er_ticker = watch_key ticker, er_date = d, er_session = session, er_period = period, er_sent = False, er_updated = now \<rparr>"
  let ?f = "\<lambda>r. r\<lparr> er_date := d, er_session := session, er_period := period, er_updated := now, er_sent := (if er_date r \<noteq> d then False else er_sent r) \<rparr>"
  have keep: "er_ticker (?f r) = er_ticker r" for r :: earnings_row by simp
  show ?thesis
    using row_by_upsert_same [of er_ticker ?f ?new "wl_earnings wl", OF keep]
      row_by_upsert_other [of er_ticker ?f "watch_key k" ?new "wl_earnings wl", OF keep]
    by (auto simp: get_upcoming_earnings_def upsert_upcoming_earnings_def split: option.split)
qed

end
