(* ===== verification/Spec2Isabelle.thy ===== *)
theory Spec2Isabelle
  imports V2_Release V2_Cutover Core_To_Paper Core_To_Dispatch Watch_Rules
begin

text \<open>
  TalonX paper-trades stocks in two generations of lanes.  The V2 lane buys on clusters of insider purchases,
  holds each position ten trading days and sells it.  The V1 lanes share one ledger file: an intraday one that
  follows confirmed alerts with a stop and a target, and a long-term one that adds a recurring contribution; a
  decision engine correlates signals with research reports into the alerts both follow, and a dispatch process
  records these alerts and pushes some of them to a phone.  A watchlist says which tickers take part.
  This development models both generations as Isabelle functions over the rows of their SQLite ledgers, V2 from
  the filings to the alerts, and proves what makes them correct.

  \<^bold>\<open>The program and how it is modelled.\<close>  Every theory translates the Python files it names; each
  definition keeps the source's name where Isabelle allows it.

  \<^item> \<open>Prelude\<close>, \<open>Py_Num\<close>, \<open>Tables\<close>: Python's errors as the left side of a sum (\<open>py_error\<close>, \<open>bindR\<close>), list
    indexing, ISO dates; binary64 rounding \<open>fl\<close>, the 28-digit decimal context \<open>dec28\<close>, the shortest decimal
    of a float \<open>repr_dec\<close>; SQL statements over lists of rows with their laws (\<open>keyed_store\<close>).
  \<^item> \<open>V2_Config\<close> (\<open>config.py\<close>), \<open>V2_Calendar\<close> (\<open>calendar.py\<close>), \<open>V2_Cluster\<close> (\<open>cluster_engine.py\<close>),
    \<open>V2_Liquidity\<close> (\<open>liquidity.py\<close>, \<open>liquidity_window.py\<close>), \<open>V2_Sizing\<close> (\<open>sizing.py\<close>), \<open>V2_Bridges\<close>
    (\<open>schemas.py\<close>, \<open>quant_bridge.py\<close>, \<open>brain_bridge.py\<close>, \<open>dispatch_bridge.py\<close>): the pure decision path from
    purchase records to a BUY decision with a size.
  \<^item> \<open>Account_Blocks\<close> (\<open>talonx_ops/account_blocks.py\<close>), \<open>V2_Ledger\<close> (the tables of \<open>store.py\<close>) and
    \<open>V2_Store\<close> (its operations): the durable state, one record \<open>ledger\<close> with a list of rows per table.
  \<^item> \<open>V2_Paper\<close> (\<open>paper.py\<close>): entry and exit, each one transaction.
  \<^item> \<open>V2_Events\<close>, \<open>V2_Guard\<close> (\<open>corporate_actions.py\<close>): corporate-action events from the providers, their
    reconciliation, and the assessment that applies splits, accrues dividends or blocks a settlement.
  \<^item> \<open>V2_Dividends\<close> (\<open>dividends.py\<close>), \<open>V2_Pipeline\<close> (\<open>pipeline.py\<close>), \<open>V2_Delivery\<close> (\<open>delivery.py\<close>),
    \<open>V2_Cutover\<close> (\<open>cutover.py\<close>): receivables, one episode and the due exits, the alert outbox worker, the
    disposal of pending intents when a campaign is replaced.
  \<^item> \<open>V2_Service\<close> (\<open>service.py\<close>): one tick of the live lane as its phases (open, corporate actions, close,
    dividends, post-close, delivery) over a record of everything it reads from outside.
  \<^item> \<open>V2_Machine\<close>: the operations that commit to the ledger as one step relation \<open>ledger_step\<close>, its
    invariant \<open>ledger_ok\<close> and the recorded history; \<open>V2_Admission\<close>: what one tick admits.
  \<^item> \<open>V2_Prices\<close> (\<open>provider_contract.py\<close>, \<open>sip_adapter.py\<close>, \<open>pricing.py\<close>): the release price provider, the
    finality rule, the resolver and the composite; \<open>V2_Release\<close>: the live tick on that price source.
  \<^item> \<open>Paper_Engine\<close> (\<open>talonx_paper/engine.py\<close>, \<open>schemas.py\<close>), \<open>Paper_Ledger\<close> (\<open>store.py\<close>),
    \<open>Paper_Intraday\<close> and \<open>Paper_Longterm\<close> (the two engines of \<open>consumer.py\<close>): the V1 lanes message by message;
    \<open>Paper_Lanes\<close>: both engines and the dashboard on their one ledger as the step relation \<open>lanes_step\<close>, in which
    an end-of-day sweep or a contribution cycle is one step per position, as its awaits allow.
  \<^item> \<open>Core_Decision\<close> (\<open>talonx_core/decision.py\<close>, \<open>schemas.py\<close>), \<open>Core_State\<close> (\<open>state.py\<close>, \<open>store.py\<close>),
    \<open>Core_Outbox\<close> (\<open>alert_outbox.py\<close>), \<open>Core_Engine\<close> (\<open>consumer.py\<close>): the V1 decision engine, its runs as the step
    relation \<open>core_step\<close> with messages, flushes and restarts; \<open>Core_Safety\<close>: what holds in every run;
    \<open>Core_To_Paper\<close>: the engine's alerts as the paper lanes read them.
  \<^item> \<open>Watch_Store\<close> (\<open>talonx_watchlist/store.py\<close>), \<open>Watch_Rules\<close>: the watchlist, its runs, and the lane that asks it.
  \<^item> \<open>Dispatch_Store\<close> (\<open>talonx_dispatch/store.py\<close>), \<open>Dispatch_Agent\<close> (\<open>consumer.py\<close>, \<open>telegram_client.py\<close>): the dispatch
    process, its runs as the step relation \<open>dispatch_step\<close>, in which it may die between two commits;
    \<open>Dispatch_Safety\<close>: its invariant; \<open>Dispatch_Claims\<close>: what it guarantees; \<open>Core_To_Dispatch\<close>: the decision engine and
    the dispatch process as one system, the alerts between them late, reordered and repeated.

  \<^bold>\<open>Conventions.\<close>  A date is its proleptic ordinal, an instant a number of microseconds; a finite float is
  its rational value with \<open>fl\<close> after each operation, non-finite ones appear where the code tests for them
  (\<open>pyfloat\<close>).  A raised exception is \<open>Inl\<close>; in the V2 store it rolls the open transaction back and a loop that catches it
  continues with the state before, in the V1 store the statements before it stay, so a method returns the ledger beside it.  The wall clock is an argument, read once per operation.  SHA-256, the
  exchange calendar, the price and evidence providers, the alert router and the transports are arguments
  of the definitions; what is needed of them is a named hypothesis (\<open>calendar_ok\<close>: the session list is
  strictly increasing; \<open>env_ok\<close>, \<open>prices_ok\<close>, \<open>evidence_ok\<close>: prices are binary64 numbers and evidence is
  what \<open>classify_alpaca_record\<close> produces).

  \<^bold>\<open>What the theorems show.\<close>  Detection: no cluster is missed, an episode fires at the filing of its k-th
  owner and is entered strictly later.  Liquidity and sizing: no look-ahead, the largest quantity within the
  cap.  Entry and exit: the writes agree, happen once, and respect cash, slots, cooldowns and blocks.
  Corporate actions: only complete, unconflicted evidence settles, splits count exactly once, dividends
  accrue only on unadjusted prices and are credited exactly once.  The ledger: cash is never negative, at
  most twenty positions are occupied, the trade log matches the positions, history is append-only, an
  unresolved exit blocks entries until an audited clearance.  Replay and live tick refine the ledger
  machine, so all of this holds after every tick; in addition a tick buys only what was reserved before,
  on filings seen before the open, and reserves only within capacity.  Exits do not linger past their
  window; alerts are sent once and in time, and retrying ends.  Prices: the release resolver hands out only
  final, genuine prices of sessions the provider reported without contradiction, so a live tick trades only
  on finished sessions, and the composite history never mixes bases across a split.
  The V1 lanes: in every reachable state each book is what replaying its own log gives, intraday cash is never
  negative and long-term cash only by the tolerance of its check, no alert raises, a blocked account only
  exits, the lanes never touch each other's book; the sweep, the brackets, the rebalancing and the contribution
  cycle do exactly what they are for.  The decision engine: its store mirrors its memory, so a restart loses nothing;
  intraday alerts keep their cooldown; a decided alert stays owed until Redis took it or its attempts are used up,
  which they are after six spaced flushes; only a price of zero makes it raise; and a lane buys on its alerts only when both
  sources support it.  The dispatch process: every push of an alert is of an alert the engine decided and no alert is pushed twice, whatever is
  redelivered and whoever crashes; pushes of a ticker keep their cooldown; a new alert leaves one audit row that tells what became of it;
  a restart loses nothing; an earnings date is announced once.  The watchlist keeps its symbols unique and a ticker switched off is not traded.
  Locales state the contracts (\<open>keyed_store\<close>, \<open>ticker_column\<close>,
  \<open>admission_gate\<close>, \<open>final_prices\<close>, \<open>lane\<close>, \<open>write_through\<close> and the transition systems of \<open>V2_Machine\<close>) and are interpreted on these definitions.

  \<^bold>\<open>Bounds and loops.\<close>  All loops are structural recursions over finite lists, except the greedy window
  scan of the cluster engine and the digit loops of \<open>Py_Num\<close>, which have measures; no fuel is used.
  Integers of the program are unbounded Python integers.

  \<^bold>\<open>Not modelled.\<close>  Free texts (rationales, rendered cards, block details, log lines), the status file, marks,
  heartbeat, signal handling and the sleep loop of the service; SQL sums and read-only reports; the CSV, IEX
  and yfinance readers, the Form-4 readers, release checks over the file system, command lines and dashboards;
  the Redis connections, metric counters, migrations and report queries of the V1 services; the message texts, dashboard and command
  listener of the dispatch process; the other packages of the repository (ingest,
  the V1 scanners and language-model agents, research tooling).
\<close>

end
